(* ===== verification/Prelude.thy ===== *)
theory Prelude
  imports Main "HOL-Library.Word" "HOL-Library.Char_ord" "HOL-Library.List_Lexorder"
    "HOL-Library.Sublist"
begin

text \<open>
  Shared vocabulary of the development.

  \<^item> \<open>Error.h\<close>, \<open>Error.cpp\<close> and \<open>Result.h\<close>: error codes, phases, the error record and the
    result type. A C++ \<open>Result<T>\<close> is the sum \<open>Error + 'a\<close>: \<open>Inl\<close> carries the error of
    \<open>Result<T>::fail\<close>, \<open>Inr\<close> the value of \<open>Result<T>::ok\<close>. The sequence
    ``call, return the error if there is one, go on with the value'' is \<open>bindr\<close>.
  \<^item> \<open>std::string\<close> is \<^typ>\<open>string\<close>; a character is one byte. Characters and strings are ordered
    by unsigned byte value, lexicographically, which is the order of \<open>std::string::compare\<close>.
  \<^item> Scanning helpers of the C++ sources: \<open>find\<close>, splitting at a delimiter, decimal text.
  \<^item> List lemmas used by several components: splitting and joining are inverse, a sorted list
    keeps an ancestor next to its first descendant, decimal text and values are inverse.
\<close>

named_theorems eval_simps "definitions unfolded to evaluate the model on concrete input"

section \<open>Errors and results\<close>

datatype ErrorCode =
    EC_None | EC_InvalidConfig | EC_NetworkError | EC_ManifestDownloadFailed
  | EC_UnsupportedManifestSchema | EC_ManifestParseFailed | EC_ManifestSignatureInvalid
  | EC_VersionParseFailed | EC_ReinstallRequired | EC_FileSystemError | EC_PathTraversalRejected
  | EC_HashMismatch | EC_DownloadFailed | EC_Cancelled | EC_ApplyLaunchFailed | EC_ApplyFailed
  | EC_StateStoreError | EC_SecurityPolicyViolation | EC_UnsupportedInstallLayout
  | EC_InternalError | EC_ResourceLimitExceeded

datatype ErrorPhase =
    EP_General | EP_Apply | EP_Rollback | EP_Recovery | EP_StatePersistence | EP_Restart

record Error =
  err_code :: ErrorCode
  err_message :: string
  err_phase :: ErrorPhase

type_synonym 'a result = "Error + 'a"

definition error_ok :: "Error \<Rightarrow> bool" where
  "error_ok e \<longleftrightarrow> err_code e = EC_None"

text \<open>The brace initialiser \<open>{code, message}\<close>: the phase keeps its default \<open>General\<close>.\<close>

definition mk_error :: "ErrorCode \<Rightarrow> string \<Rightarrow> Error" where
  "mk_error c m = \<lparr>err_code = c, err_message = m, err_phase = EP_General\<rparr>"

definition fail :: "ErrorCode \<Rightarrow> string \<Rightarrow> 'a result" where
  "fail c m = Inl (mk_error c m)"

definition bindr :: "'a result \<Rightarrow> ('a \<Rightarrow> 'b result) \<Rightarrow> 'b result" where
  "bindr r f = (case r of Inl e \<Rightarrow> Inl e | Inr x \<Rightarrow> f x)"

definition is_ok :: "'a result \<Rightarrow> bool" where
  "is_ok r \<longleftrightarrow> (case r of Inl e \<Rightarrow> False | Inr x \<Rightarrow> True)"

fun toString_ErrorCode :: "ErrorCode \<Rightarrow> string" where
  "toString_ErrorCode EC_None = ''None''"
| "toString_ErrorCode EC_InvalidConfig = ''InvalidConfig''"
| "toString_ErrorCode EC_NetworkError = ''NetworkError''"
| "toString_ErrorCode EC_ManifestDownloadFailed = ''ManifestDownloadFailed''"
| "toString_ErrorCode EC_UnsupportedManifestSchema = ''UnsupportedManifestSchema''"
| "toString_ErrorCode EC_ManifestParseFailed = ''ManifestParseFailed''"
| "toString_ErrorCode EC_ManifestSignatureInvalid = ''ManifestSignatureInvalid''"
| "toString_ErrorCode EC_VersionParseFailed = ''VersionParseFailed''"
| "toString_ErrorCode EC_ReinstallRequired = ''ReinstallRequired''"
| "toString_ErrorCode EC_FileSystemError = ''FileSystemError''"
| "toString_ErrorCode EC_PathTraversalRejected = ''PathTraversalRejected''"
| "toString_ErrorCode EC_HashMismatch = ''HashMismatch''"
| "toString_ErrorCode EC_DownloadFailed = ''DownloadFailed''"
| "toString_ErrorCode EC_Cancelled = ''Cancelled''"
| "toString_ErrorCode EC_ApplyLaunchFailed = ''ApplyLaunchFailed''"
| "toString_ErrorCode EC_ApplyFailed = ''ApplyFailed''"
| "toString_ErrorCode EC_StateStoreError = ''StateStoreError''"
| "toString_ErrorCode EC_SecurityPolicyViolation = ''SecurityPolicyViolation''"
| "toString_ErrorCode EC_ResourceLimitExceeded = ''ResourceLimitExceeded''"
| "toString_ErrorCode EC_UnsupportedInstallLayout = ''UnsupportedInstallLayout''"
| "toString_ErrorCode EC_InternalError = ''InternalError''"

fun toString_ErrorPhase :: "ErrorPhase \<Rightarrow> string" where
  "toString_ErrorPhase EP_General = ''General''"
| "toString_ErrorPhase EP_Apply = ''Apply''"
| "toString_ErrorPhase EP_Rollback = ''Rollback''"
| "toString_ErrorPhase EP_Recovery = ''Recovery''"
| "toString_ErrorPhase EP_StatePersistence = ''StatePersistence''"
| "toString_ErrorPhase EP_Restart = ''Restart''"

definition formatDiagnostic :: "Error \<Rightarrow> string" where
  "formatDiagnostic e =
     ''phase='' @ toString_ErrorPhase (err_phase e) @ '' code='' @ toString_ErrorCode (err_code e)"

section \<open>Platform and integer types\<close>

text \<open>The sources choose between two branches with \<open>#ifdef _WIN32\<close>; the branch is an argument.\<close>

datatype platform = Posix | Win32

type_synonym u8 = "8 word"
type_synonym u16 = "16 word"
type_synonym u32 = "32 word"
type_synonym u64 = "64 word"

text \<open>\<open>checkedAdd\<close> of \<open>Manifest.cpp\<close>, \<open>ApplyPlan.cpp\<close> and \<open>NetworkLimits.cpp\<close>: the sum of two
  64-bit values unless it wraps.\<close>

definition checkedAdd :: "u64 \<Rightarrow> u64 \<Rightarrow> u64 option" where
  "checkedAdd left right = (if right > (- 1) - left then None else Some (left + right))"

section \<open>Characters and strings\<close>

abbreviation byte_of :: "char \<Rightarrow> nat" where
  "byte_of c \<equiv> of_char c"

definition chr :: "nat \<Rightarrow> char" where
  "chr n = char_of n"

definition isAsciiDigit :: "char \<Rightarrow> bool" where
  "isAsciiDigit c \<longleftrightarrow> CHR ''0'' \<le> c \<and> c \<le> CHR ''9''"

definition isAsciiUpper :: "char \<Rightarrow> bool" where
  "isAsciiUpper c \<longleftrightarrow> CHR ''A'' \<le> c \<and> c \<le> CHR ''Z''"

definition isAsciiLower :: "char \<Rightarrow> bool" where
  "isAsciiLower c \<longleftrightarrow> CHR ''a'' \<le> c \<and> c \<le> CHR ''z''"

text \<open>ASCII lower-casing, \<open>ch >= 'A' && ch <= 'Z' ? ch + ('a' - 'A') : ch\<close>.\<close>

definition lower_char :: "char \<Rightarrow> char" where
  "lower_char c = (if isAsciiUpper c then char_of (byte_of c + 32) else c)"

definition upper_char :: "char \<Rightarrow> char" where
  "upper_char c = (if isAsciiLower c then char_of (byte_of c - 32) else c)"

definition digit_val :: "char \<Rightarrow> nat" where
  "digit_val c = byte_of c - 48"

definition digit_char :: "nat \<Rightarrow> char" where
  "digit_char d = char_of (48 + d)"

text \<open>\<open>text.find(c, start)\<close>: the first index at or after \<open>start\<close> that holds \<open>c\<close>.\<close>

fun find_char :: "char \<Rightarrow> string \<Rightarrow> nat option" where
  "find_char c [] = None"
| "find_char c (x # xs) = (if x = c then Some 0 else map_option Suc (find_char c xs))"

definition find_from :: "char \<Rightarrow> string \<Rightarrow> nat \<Rightarrow> nat option" where
  "find_from c s start = map_option (\<lambda>i. i + start) (find_char c (drop start s))"

text \<open>\<open>text.find_first_of(set)\<close>.\<close>

fun find_first_of :: "char list \<Rightarrow> string \<Rightarrow> nat option" where
  "find_first_of cs [] = None"
| "find_first_of cs (x # xs) = (if x \<in> set cs then Some 0 else map_option Suc (find_first_of cs xs))"

text \<open>\<open>text.rfind(c)\<close>, \<open>text.find_last_of(c)\<close>.\<close>

definition rfind_char :: "char \<Rightarrow> string \<Rightarrow> nat option" where
  "rfind_char c s = map_option (\<lambda>i. length s - 1 - i) (find_char c (rev s))"

text \<open>\<open>text.substr(0, pos)\<close> where \<open>pos\<close> may be \<open>npos\<close>.\<close>

definition prefix_upto :: "nat option \<Rightarrow> string \<Rightarrow> string" where
  "prefix_upto p s = (case p of None \<Rightarrow> s | Some i \<Rightarrow> take i s)"

text \<open>Splitting at a delimiter, as the loops over \<open>find(delimiter, start)\<close> do.\<close>

function split_loop :: "char \<Rightarrow> string \<Rightarrow> nat \<Rightarrow> string list" where
  "split_loop d s start =
     (if start \<le> length s
      then (case find_from d s start of
              None \<Rightarrow> [drop start s]
            | Some e \<Rightarrow> take (e - start) (drop start s) # split_loop d s (e + 1))
      else [])"
  by pat_completeness auto
termination
  by (relation "measure (\<lambda>(d, s, start). Suc (length s) - start)")
    (auto simp: find_from_def)

declare split_loop.simps [simp del]

fun split_on :: "char \<Rightarrow> string \<Rightarrow> string list" where
  "split_on d [] = [[]]"
| "split_on d (c # cs) =
     (if c = d then [] # split_on d cs
      else (case split_on d cs of [] \<Rightarrow> [[c]] | p # ps \<Rightarrow> (c # p) # ps))"

fun join_on :: "char \<Rightarrow> string list \<Rightarrow> string" where
  "join_on d [] = []"
| "join_on d [p] = p"
| "join_on d (p # q # ps) = p @ d # join_on d (q # ps)"

section \<open>Decimal text\<close>

text \<open>\<open>value = value * 10 + (ch - '0')\<close> over the characters.\<close>

definition digits_val :: "string \<Rightarrow> nat" where
  "digits_val s = foldl (\<lambda>v c. v * 10 + digit_val c) 0 s"

text \<open>\<open>std::to_chars\<close> and \<open>std::to_string\<close> on a non-negative value.\<close>

fun decimal_text :: "nat \<Rightarrow> string" where
  "decimal_text n = (if n < 10 then [digit_char n] else decimal_text (n div 10) @ [digit_char (n mod 10)])"

declare decimal_text.simps [simp del]

text \<open>
  \<open>std::from_chars\<close> in base 10 over the whole range: \<open>None\<close> when the call fails
  (\<open>ec != errc{}\<close>: no digit, or a value over \<open>bound\<close>) or stops before the end
  (\<open>ptr != end\<close>), which every caller treats alike.
\<close>

definition from_chars_dec :: "nat \<Rightarrow> string \<Rightarrow> nat option" where
  "from_chars_dec bound s =
     (if s = [] \<or> \<not> list_all isAsciiDigit s \<or> digits_val s > bound then None
      else Some (digits_val s))"

definition canonical_decimal :: "string \<Rightarrow> bool" where
  "canonical_decimal s \<longleftrightarrow>
     s \<noteq> [] \<and> list_all isAsciiDigit s \<and> (length s > 1 \<longrightarrow> hd s \<noteq> CHR ''0'')"


section \<open>Results: shared rules\<close>

lemma bindr_simps [simp]: "bindr (Inl e) f = Inl e" "bindr (Inr x) f = f x"
  by (simp_all add: bindr_def)

lemma bindr_Inr [simp]: "bindr r f = Inr y \<longleftrightarrow> (\<exists>x. r = Inr x \<and> f x = Inr y)"
  by (cases r) auto

lemma bindr_fail [simp]: "bindr (fail c m) f = fail c m"
  by (simp add: fail_def)

lemma fail_not_ok [simp]: "fail c m \<noteq> Inr x" "Inr x \<noteq> fail c m"
  by (simp_all add: fail_def)

lemma is_ok_simps [simp]: "is_ok (Inr x)" "\<not> is_ok (Inl e)" "\<not> is_ok (fail c m)"
  by (simp_all add: is_ok_def fail_def)

lemma is_ok_iff: "is_ok r \<longleftrightarrow> (\<exists>x. r = Inr x)"
  by (cases r) auto

lemma bindr_cong [fundef_cong]:
  "r = r' \<Longrightarrow> (\<And>x. r' = Inr x \<Longrightarrow> f x = g x) \<Longrightarrow> bindr r f = bindr r' g"
  by (cases r') auto

section \<open>Checked addition\<close>

lemma checkedAdd_Some:
  "checkedAdd a b = Some c \<longleftrightarrow> unat a + unat b < 2 ^ 64 \<and> c = a + b"
proof -
  have unat_minus_one_word_64: "unat (- 1 :: u64) = 2 ^ 64 - 1"
    by (simp add: unsigned_minus_1_eq_mask mask_eq_exp_minus_1)
  have a: "unat a < 2 ^ 64" using unsigned_less [of a, where ?'a = nat] by simp
  then have le: "a \<le> - 1" by (simp add: word_le_nat_alt unat_minus_one_word_64)
  have "unat (- 1 - a) = 2 ^ 64 - 1 - unat a"
    using unat_sub [OF le] by (simp add: unat_minus_one_word_64)
  with a have "(b > (- 1) - a) = (\<not> unat a + unat b < 2 ^ 64)"
    by (auto simp: word_less_nat_alt)
  then show ?thesis by (auto simp: checkedAdd_def)
qed

lemma checkedAdd_unat: "checkedAdd a b = Some c \<Longrightarrow> unat c = unat a + unat b"
  by (auto simp: checkedAdd_Some unat_word_ariths)

section \<open>Finding and splitting\<close>

lemma checkedAdd_iff: "checkedAdd a b = Some c \<longleftrightarrow> unat c = unat a + unat b"
proof
  assume c: "unat c = unat a + unat b"
  then have fit: "unat a + unat b < 2 ^ 64" using unsigned_less [of c, where ?'a = nat] by simp
  then have "checkedAdd a b = Some (a + b)" by (simp add: checkedAdd_Some)
  moreover from this have "unat (a + b) = unat a + unat b" by (rule checkedAdd_unat)
  ultimately show "checkedAdd a b = Some c" using c by (simp add: word_unat_eq_iff)
qed (rule checkedAdd_unat)

lemma checkedAdd_None: "checkedAdd a b = None \<longleftrightarrow> 2 ^ 64 \<le> unat a + unat b"
proof -
  have "checkedAdd a b = None \<longleftrightarrow> \<not> (\<exists>c. checkedAdd a b = Some c)" by (cases "checkedAdd a b") auto
  then show ?thesis by (simp add: checkedAdd_Some not_less)
qed

lemmas [eval_simps] = bindr_def fail_def mk_error_def checkedAdd_def isAsciiDigit_def
  isAsciiUpper_def isAsciiLower_def lower_char_def upper_char_def digit_val_def digits_val_def
  from_chars_dec_def find_from_def rfind_char_def prefix_upto_def Let_def char_of_def bit_0

lemma find_char_None: "find_char c s = None \<longleftrightarrow> c \<notin> set s"
  by (induction s) auto

lemma find_char_Some:
  "find_char c s = Some i \<longleftrightarrow> i < length s \<and> s ! i = c \<and> c \<notin> set (take i s)"
proof (induction s arbitrary: i)
  case (Cons x xs)
  then show ?case by (cases i) auto
qed simp

lemma find_char_split:
  "find_char c s = Some i \<Longrightarrow> s = take i s @ c # drop (Suc i) s"
  by (auto simp: find_char_Some id_take_nth_drop)

lemma find_char_append: "c \<notin> set p \<Longrightarrow> find_char c (p @ c # r) = Some (length p)"
  by (induction p) auto

text \<open>Cutting a text at the first occurrence of a character and putting it together again.\<close>

definition rest_after :: "nat option \<Rightarrow> string \<Rightarrow> string" where
  "rest_after p s = (case p of None \<Rightarrow> [] | Some i \<Rightarrow> drop (i + 1) s)"

lemmas [eval_simps] = rest_after_def

lemma cut_at_absent:
  "c \<notin> set p \<Longrightarrow> find_char c p = None" "prefix_upto None p = p" "rest_after None p = []"
  by (simp_all add: prefix_upto_def rest_after_def find_char_None)

lemma cut_at_present:
  assumes "c \<notin> set p"
  shows "find_char c (p @ c # r) = Some (length p)"
    "prefix_upto (Some (length p)) (p @ c # r) = p" "rest_after (Some (length p)) (p @ c # r) = r"
  using assms by (simp_all add: find_char_append prefix_upto_def rest_after_def)

lemma cut_glue:
  "s = prefix_upto (find_char c s) s @ (if find_char c s = None then [] else c # rest_after (find_char c s) s)"
  by (cases "find_char c s") (auto simp: prefix_upto_def rest_after_def dest: find_char_split)

lemma prefix_upto_absent: "c \<notin> set (prefix_upto (find_char c s) s)"
  by (auto simp: prefix_upto_def find_char_Some find_char_None split: option.split)

lemma split_on_not_Nil [simp]: "split_on d s \<noteq> []"
  by (induction s) (auto split: list.splits)

lemma split_on_none: "d \<notin> set s \<Longrightarrow> split_on d s = [s]"
  by (induction s) auto

lemma split_on_append:
  "d \<notin> set p \<Longrightarrow> split_on d (p @ d # s) = p # split_on d s"
  by (induction p) auto

lemma split_on_parts: "p \<in> set (split_on d s) \<Longrightarrow> d \<notin> set p"
  by (induction s arbitrary: p) (fastforce split: if_splits list.splits)+

lemma split_on_set: "p \<in> set (split_on d s) \<Longrightarrow> set p \<subseteq> set s"
  by (induction s arbitrary: p) (fastforce split: if_splits list.splits)+

lemma split_on_covers: "c \<in> set s \<Longrightarrow> c = d \<or> (\<exists>p \<in> set (split_on d s). c \<in> set p)"
proof (induction s)
  case (Cons x s)
  then show ?case by (cases "split_on d s") auto
qed simp

lemma join_split [simp]: "join_on d (split_on d s) = s"
proof (induction s)
  case (Cons c cs)
  obtain p ps where ps: "split_on d cs = p # ps"
    by (cases "split_on d cs") auto
  with Cons show ?case by (cases ps) auto
qed simp

lemma split_join:
  "ps \<noteq> [] \<Longrightarrow> (\<And>p. p \<in> set ps \<Longrightarrow> d \<notin> set p) \<Longrightarrow> split_on d (join_on d ps) = ps"
  by (induction d ps rule: join_on.induct) (auto simp: split_on_none split_on_append)

lemma split_on_inj: "split_on d s = split_on d t \<longleftrightarrow> s = t"
  by (metis join_split)

lemma split_on_append_gen: "split_on d (p @ d # s) = split_on d p @ split_on d s"
proof (induction p)
  case (Cons c p)
  then show ?case by (cases "split_on d p") auto
qed simp

lemma join_append:
  "ps \<noteq> [] \<Longrightarrow> qs \<noteq> [] \<Longrightarrow> join_on d (ps @ qs) = join_on d ps @ d # join_on d qs"
proof (induction d ps rule: join_on.induct)
  case (2 d p)
  then show ?case by (cases qs) auto
qed auto

text \<open>A text continues another one at a delimiter exactly when the parts do.\<close>

lemma continues_iff_parts:
  "(\<exists>t. s = r @ d # t) \<longleftrightarrow> strict_prefix (split_on d r) (split_on d s)"
proof
  assume "\<exists>t. s = r @ d # t"
  then show "strict_prefix (split_on d r) (split_on d s)"
    by (auto simp: split_on_append_gen strict_prefix_def)
next
  assume "strict_prefix (split_on d r) (split_on d s)"
  then obtain ps where ps: "split_on d s = split_on d r @ ps" "ps \<noteq> []"
    by (auto simp: strict_prefix_def prefix_def)
  have "s = join_on d (split_on d r @ ps)" by (metis ps(1) join_split)
  then have "s = r @ d # join_on d ps" using ps(2) by (simp add: join_append)
  then show "\<exists>t. s = r @ d # t" by blast
qed

lemma boundary_iff_parts:
  "(s = r \<or> (\<exists>t. s = r @ d # t)) \<longleftrightarrow> prefix (split_on d r) (split_on d s)"
  by (metis continues_iff_parts split_on_inj prefix_order.le_less)

text \<open>The index loop of the sources computes the same parts.\<close>

lemma split_loop_eq:
  assumes "start \<le> length s"
  shows "split_loop d s start = split_on d (drop start s)"
  using assms
proof (induction d s start rule: split_loop.induct)
  case (1 d s start)
  let ?t = "drop start s"
  show ?case
  proof (cases "find_char d ?t")
    case None
    then have "find_from d s start = None" "d \<notin> set ?t"
      by (simp_all add: find_from_def find_char_None)
    with "1.prems" show ?thesis
      by (simp add: split_loop.simps [of d s start] split_on_none)
  next
    case (Some i)
    then have f: "find_from d s start = Some (i + start)" by (simp add: find_from_def)
    from Some have i: "i < length ?t" and nd: "d \<notin> set (take i ?t)"
      by (simp_all add: find_char_Some)
    have t: "?t = take i ?t @ d # drop (Suc i) ?t"
      using Some by (rule find_char_split)
    have "split_loop d s (i + start + 1) = split_on d (drop (i + start + 1) s)"
      using "1.IH" "1.prems" f i by simp
    moreover have "split_on d ?t = take i ?t # split_on d (drop (Suc i) ?t)"
      by (subst t) (simp add: split_on_append nd)
    ultimately show ?thesis
      using "1.prems" f by (simp add: split_loop.simps [of d s start] add.commute)
  qed
qed

lemma split_loop_split_on [eval_simps]: "split_loop d s 0 = split_on d s"
  by (simp add: split_loop_eq)

lemma split_loop_tail [eval_simps]: "split_loop d (c # s) (Suc 0) = split_on d s"
  by (simp add: split_loop_eq)

section \<open>Decimal text and values\<close>

lemma isAsciiDigit_byte: "isAsciiDigit c \<longleftrightarrow> 48 \<le> byte_of c \<and> byte_of c \<le> 57"
  by (simp add: isAsciiDigit_def less_eq_char_def)

lemma char_eq_byte: "c = d \<longleftrightarrow> byte_of c = byte_of d"
  by simp

lemma digit_char_props:
  assumes "d < 10"
  shows "isAsciiDigit (digit_char d)" "digit_val (digit_char d) = d"
    "digit_char d = CHR ''0'' \<longleftrightarrow> d = 0"
  using assms by (simp_all add: digit_char_def isAsciiDigit_byte digit_val_def char_eq_byte del: of_char_eq_iff)

lemma digit_val_less: "isAsciiDigit c \<Longrightarrow> digit_val c < 10"
  by (auto simp: isAsciiDigit_byte digit_val_def)

lemma digit_char_val: "isAsciiDigit c \<Longrightarrow> digit_char (digit_val c) = c"
  by (simp add: isAsciiDigit_byte digit_val_def digit_char_def)

lemma digits_val_Nil [simp]: "digits_val [] = 0"
  by (simp add: digits_val_def)

lemma digits_val_snoc [simp]: "digits_val (s @ [c]) = digits_val s * 10 + digit_val c"
  by (simp add: digits_val_def)

lemma digits_val_single: "digits_val [c] = digit_val c"
  using digits_val_snoc [of "[]" c] by simp

lemma digits_val_append:
  "digits_val (s @ t) = digits_val s * 10 ^ length t + digits_val t"
  by (induction t rule: rev_induct) (simp_all add: algebra_simps flip: append_assoc)

lemma digits_val_bound:
  "list_all isAsciiDigit s \<Longrightarrow> digits_val s < 10 ^ length s"
proof (induction s rule: rev_induct)
  case (snoc c s)
  then have "digits_val s < 10 ^ length s" "digit_val c < 10"
    by (auto simp: digit_val_less)
  then show ?case by (simp add: algebra_simps)
qed simp

lemma digits_val_hd_pos:
  assumes "list_all isAsciiDigit (c # s)" "c \<noteq> CHR ''0''"
  shows "10 ^ length s \<le> digits_val (c # s)"
proof -
  have "digit_val c \<noteq> 0" using assms digit_char_val [of c] digit_char_props(3) [of 0] by (auto intro: gr0I)
  then have "10 ^ length s \<le> digit_val c * 10 ^ length s" by simp
  then have "10 ^ length s \<le> digit_val c * 10 ^ length s + digits_val s" by linarith
  then show ?thesis
    using digits_val_append [of "[c]" s] by (simp add: digits_val_single del: One_nat_def)
qed

lemma decimal_text_not_Nil [simp]: "decimal_text n \<noteq> []"
  by (subst decimal_text.simps) simp

lemma decimal_text_digits: "list_all isAsciiDigit (decimal_text n)"
proof (induction n rule: decimal_text.induct)
  case (1 n)
  then show ?case
    by (subst decimal_text.simps) (auto simp: digit_char_props)
qed

lemma digits_val_decimal_text [simp]: "digits_val (decimal_text n) = n"
proof (induction n rule: decimal_text.induct)
  case (1 n)
  then show ?case
    by (subst decimal_text.simps)
      (auto simp: digits_val_single digit_char_props)
qed

lemma decimal_text_hd: "0 < n \<Longrightarrow> hd (decimal_text n) \<noteq> CHR ''0''"
proof (induction n rule: decimal_text.induct)
  case (1 n)
  then show ?case
    by (subst decimal_text.simps) (auto simp: digit_char_props(3))
qed

lemma canonical_decimal_text: "canonical_decimal (decimal_text n)"
proof (cases "n = 0")
  case True
  then show ?thesis
    by (simp add: canonical_decimal_def decimal_text.simps [of 0] digit_char_props)
next
  case False
  then show ?thesis
    by (simp add: canonical_decimal_def decimal_text_digits decimal_text_hd)
qed

lemma decimal_text_snoc:
  assumes "list_all isAsciiDigit (s @ [c])" "digits_val s \<noteq> 0"
  shows "decimal_text (digits_val (s @ [c])) = decimal_text (digits_val s) @ [c]"
proof -
  have "digit_val c < 10" "digit_char (digit_val c) = c"
    using assms by (auto simp: digit_val_less digit_char_val)
  with assms(2) show ?thesis by (subst decimal_text.simps) simp
qed

lemma decimal_text_length: "n < 10 ^ k \<Longrightarrow> 0 < k \<Longrightarrow> length (decimal_text n) \<le> k"
proof (induction k arbitrary: n)
  case (Suc k)
  show ?case
  proof (cases "n < 10")
    case True
    then show ?thesis by (simp add: decimal_text.simps [of n])
  next
    case False
    with Suc.prems have "n div 10 < 10 ^ k" "0 < k" by (auto simp: less_mult_imp_div_less mult.commute intro!: Suc_leI gr0I)
    with Suc.IH [of "n div 10"] False show ?thesis by (simp add: decimal_text.simps [of n])
  qed
qed simp

lemma decimal_text_digits_val:
  "canonical_decimal s \<Longrightarrow> decimal_text (digits_val s) = s"
proof (induction s rule: rev_induct)
  case Nil
  then show ?case by (simp add: canonical_decimal_def)
next
  case (snoc c s)
  show ?case
  proof (cases s)
    case Nil
    with snoc.prems show ?thesis
      by (simp add: canonical_decimal_def digits_val_single digit_val_less digit_char_val
          decimal_text.simps [of "digit_val c"])
  next
    case (Cons a s')
    from snoc.prems Cons have can: "canonical_decimal s" "a \<noteq> CHR ''0''"
      by (auto simp: canonical_decimal_def)
    then have "10 ^ length s' \<le> digits_val s"
      using Cons digits_val_hd_pos by (auto simp: canonical_decimal_def)
    then have "digits_val s \<noteq> 0" by (metis le_zero_eq power_not_zero zero_neq_numeral)
    with snoc can(1) show ?thesis
      by (simp add: canonical_decimal_def decimal_text_snoc del: digits_val_snoc)
  qed
qed


section \<open>Sorted keys: an ancestor stands next to its first descendant\<close>

text \<open>\<open>a\<close> is an ancestor of \<open>b\<close> when \<open>b\<close> continues \<open>a\<close> with the separator.\<close>

definition key_ancestor :: "char \<Rightarrow> string \<Rightarrow> string \<Rightarrow> bool" where
  "key_ancestor sep a b \<longleftrightarrow> (\<exists>r. b = a @ sep # r)"

text \<open>The test the sources make on two neighbours: longer, same beginning, separator next.\<close>

definition neighbour_ancestor :: "char \<Rightarrow> string \<Rightarrow> string \<Rightarrow> bool" where
  "neighbour_ancestor sep previous current \<longleftrightarrow>
     length current > length previous \<and> take (length previous) current = previous
     \<and> current ! length previous = sep"

lemma neighbour_ancestor_iff: "neighbour_ancestor sep a b \<longleftrightarrow> key_ancestor sep a b"
proof
  assume n: "neighbour_ancestor sep a b"
  then have "b = a @ drop (length a) b"
    by (metis neighbour_ancestor_def append_take_drop_id)
  also have "drop (length a) b = sep # drop (Suc (length a)) b"
    using n Cons_nth_drop_Suc [of "length a" b] by (simp add: neighbour_ancestor_def)
  finally show "key_ancestor sep a b" by (auto simp: key_ancestor_def)
next
  assume "key_ancestor sep a b"
  then show "neighbour_ancestor sep a b"
    by (auto simp: key_ancestor_def neighbour_ancestor_def nth_append)
qed

lemma append_Cons_less: "a < a @ x # (r :: string)"
  by (induction a) auto

lemma between_has_prefix:
  fixes a b r :: string
  assumes "a < b" "b \<le> a @ sep # r" and "\<And>c. sep \<le> c"
  shows "key_ancestor sep a b"
  using assms(1,2)
proof (induction a arbitrary: b)
  case Nil
  then obtain c b' where b: "b = c # b'" by (cases b) auto
  with Nil have "c \<le> sep" by auto
  with assms(3) [of c] have "c = sep" by simp
  with b show ?case by (simp add: key_ancestor_def)
next
  case (Cons x a)
  then obtain c b' where b: "b = c # b'" by (cases b) auto
  with Cons.prems have "c = x" "a < b'" "b' \<le> a @ sep # r" by auto
  with Cons.IH [of b'] b show ?case by (auto simp: key_ancestor_def)
qed

text \<open>
  Scanning neighbours of a sorted list finds an equal or nested pair whenever there is one:
  with a least separator, everything sorted between a key and one of its descendants
  is a descendant too.
\<close>

fun adjacent_ok :: "char \<Rightarrow> string list \<Rightarrow> bool" where
  "adjacent_ok sep (a # b # ks) \<longleftrightarrow>
     a \<noteq> b \<and> \<not> neighbour_ancestor sep a b \<and> adjacent_ok sep (b # ks)"
| "adjacent_ok sep _ \<longleftrightarrow> True"

lemma adjacent_ok_sound:
  assumes sep: "\<And>c. sep \<le> c"
  shows "sorted ks \<Longrightarrow> adjacent_ok sep ks \<Longrightarrow>
    distinct ks \<and> (\<forall>a \<in> set ks. \<forall>b \<in> set ks. \<not> key_ancestor sep a b)"
proof (induction ks rule: induct_list012)
  case (3 a b ks)
  then have IH: "distinct (b # ks)"
      "\<forall>x \<in> set (b # ks). \<forall>y \<in> set (b # ks). \<not> key_ancestor sep x y"
    by auto
  from 3 have ab: "a < b" and nn: "\<not> key_ancestor sep a b"
    by (auto simp: neighbour_ancestor_iff)
  have above: "a < y \<and> b \<le> y" if "y \<in> set (b # ks)" for y
    using that 3 ab by auto
  have no_up: "\<not> key_ancestor sep a y" if "y \<in> set (b # ks)" for y
  proof
    assume "key_ancestor sep a y"
    then obtain r where "y = a @ sep # r" by (auto simp: key_ancestor_def)
    with above [OF that] have "b \<le> a @ sep # r" by simp
    from ab this have "key_ancestor sep a b" by (rule between_has_prefix) (rule sep)
    with nn show False by simp
  qed
  have no_down: "\<not> key_ancestor sep y a" if "y \<in> set (a # b # ks)" for y
  proof
    assume "key_ancestor sep y a"
    then have "y < a" using append_Cons_less by (auto simp: key_ancestor_def)
    with that above [of y] show False by auto
  qed
  from IH above no_up no_down show ?case by auto
qed (auto simp: key_ancestor_def)

lemma adjacent_ok_complete:
  "distinct ks \<Longrightarrow> (\<forall>a \<in> set ks. \<forall>b \<in> set ks. \<not> key_ancestor sep a b) \<Longrightarrow> adjacent_ok sep ks"
  by (induction sep ks rule: adjacent_ok.induct) (auto simp: neighbour_ancestor_iff)

end
