(* ===== verification/Versions.thy ===== *)
theory Versions
  imports Prelude
begin

text \<open>
  \<open>Version.h\<close> and \<open>Version.cpp\<close>: semantic versions, their parser, their text and their order.

  The comparison routines are three-way comparators returning \<open>-1\<close>, \<open>0\<close> or \<open>1\<close>. The locale
  \<open>three_way\<close> states what a caller relies on (antisymmetric, transitive, zero only on equal
  arguments) and lifts it to lists compared element by element; it is interpreted for
  numeric identifiers, identifiers, identifier lists and prerelease strings. From the last one the
  order on versions is shown to be a strict linear order up to build metadata.
  The parser and \<open>toString\<close> are shown to be inverse in both directions.
\<close>

section \<open>Definitions\<close>

record Version =
  ver_major :: int
  ver_minor :: int
  ver_patch :: int
  ver_prerelease :: string
  ver_build :: string

definition isIdentifierChar :: "char \<Rightarrow> bool" where
  "isIdentifierChar c \<longleftrightarrow>
     isAsciiDigit c \<or> (CHR ''A'' \<le> c \<and> c \<le> CHR ''Z'') \<or> (CHR ''a'' \<le> c \<and> c \<le> CHR ''z'') \<or> c = CHR ''-''"

definition isNumericIdentifier :: "string \<Rightarrow> bool" where
  "isNumericIdentifier text \<longleftrightarrow> text \<noteq> [] \<and> list_all isAsciiDigit text"

definition split :: "string \<Rightarrow> char \<Rightarrow> string list" where
  "split text delimiter = split_loop delimiter text 0"

fun validDotParts :: "string list \<Rightarrow> bool \<Rightarrow> bool" where
  "validDotParts [] rejectNumericLeadingZeroes = True"
| "validDotParts (part # parts) rejectNumericLeadingZeroes =
     (if part = [] then False
      else if \<not> list_all isIdentifierChar part then False
      else if rejectNumericLeadingZeroes \<and> isNumericIdentifier part \<and> length part > 1
              \<and> hd part = CHR ''0'' then False
      else validDotParts parts rejectNumericLeadingZeroes)"

definition validDotIdentifiers :: "string \<Rightarrow> bool \<Rightarrow> bool" where
  "validDotIdentifiers text rejectNumericLeadingZeroes =
     (if text = [] then False
      else validDotParts (split text (CHR ''.'')) rejectNumericLeadingZeroes)"

definition compareNumericIdentifier :: "string \<Rightarrow> string \<Rightarrow> int" where
  "compareNumericIdentifier lhs rhs =
     (if length lhs < length rhs then -1
      else if length lhs > length rhs then 1
      else if lhs < rhs then -1
      else if lhs > rhs then 1
      else 0)"

definition parseNumber :: "string \<Rightarrow> int result" where
  "parseNumber text =
     (if text = [] then fail EC_VersionParseFailed ''Version number segment is empty''
      else if length text > 1 \<and> hd text = CHR ''0''
      then fail EC_VersionParseFailed ''Version number segment has leading zero''
      else if \<not> list_all isAsciiDigit text
      then fail EC_VersionParseFailed ''Version number segment is not numeric''
      else (case from_chars_dec (2 ^ 31 - 1) text of
              None \<Rightarrow> fail EC_VersionParseFailed ''Version number segment is out of range''
            | Some v \<Rightarrow> Inr (int v)))"

definition decimalText :: "int \<Rightarrow> string" where
  "decimalText v = (if v < 0 then CHR ''-'' # decimal_text (nat (- v)) else decimal_text (nat v))"

text \<open>One round of the loop in \<open>comparePrerelease\<close>: the two identifiers at the same place.\<close>

definition compareIdentifier :: "string \<Rightarrow> string \<Rightarrow> int" where
  "compareIdentifier l r =
     (if isNumericIdentifier l \<and> isNumericIdentifier r then compareNumericIdentifier l r
      else if isNumericIdentifier l \<noteq> isNumericIdentifier r
      then (if isNumericIdentifier l then -1 else 1)
      else if l < r then -1
      else if l > r then 1
      else 0)"

text \<open>The loop over the common length, then the comparison of the sizes.\<close>

fun cmp_list :: "('a \<Rightarrow> 'a \<Rightarrow> int) \<Rightarrow> 'a list \<Rightarrow> 'a list \<Rightarrow> int" where
  "cmp_list cmp [] [] = 0"
| "cmp_list cmp [] (r # rs) = -1"
| "cmp_list cmp (l # ls) [] = 1"
| "cmp_list cmp (l # ls) (r # rs) =
     (let c = cmp l r in if c \<noteq> 0 then c else cmp_list cmp ls rs)"

definition comparePrerelease :: "string \<Rightarrow> string \<Rightarrow> int" where
  "comparePrerelease lhs rhs =
     (if lhs = [] \<and> rhs = [] then 0
      else if lhs = [] then 1
      else if rhs = [] then -1
      else cmp_list compareIdentifier (split lhs (CHR ''.'')) (split rhs (CHR ''.'')))"

definition version_parse :: "string \<Rightarrow> Version result" where
  "version_parse text =
     (if text = [] then fail EC_VersionParseFailed ''Version is empty''
      else
        let plus = find_char (CHR ''+'') text;
            coreAndPrerelease = prefix_upto plus text;
            build = rest_after plus text
        in if plus \<noteq> None \<and> \<not> validDotIdentifiers build False
           then fail EC_VersionParseFailed ''Invalid build metadata''
           else
             let dash = find_char (CHR ''-'') coreAndPrerelease;
                 core = prefix_upto dash coreAndPrerelease;
                 prerelease = rest_after dash coreAndPrerelease
             in if dash \<noteq> None \<and> \<not> validDotIdentifiers prerelease True
                then fail EC_VersionParseFailed ''Invalid prerelease identifiers''
                else
                  (case split core (CHR ''.'') of
                     [a, b, c] \<Rightarrow>
                       bindr (parseNumber a) (\<lambda>major.
                       bindr (parseNumber b) (\<lambda>minor.
                       bindr (parseNumber c) (\<lambda>patch.
                         Inr \<lparr>ver_major = major, ver_minor = minor, ver_patch = patch,
                              ver_prerelease = prerelease, ver_build = build\<rparr>)))
                   | _ \<Rightarrow> fail EC_VersionParseFailed ''Version must have major.minor.patch''))"

definition version_toString :: "Version \<Rightarrow> string" where
  "version_toString v =
     decimalText (ver_major v) @ ''.'' @ decimalText (ver_minor v) @ ''.'' @ decimalText (ver_patch v)
     @ (if ver_prerelease v \<noteq> [] then CHR ''-'' # ver_prerelease v else [])
     @ (if ver_build v \<noteq> [] then CHR ''+'' # ver_build v else [])"

definition version_eq :: "Version \<Rightarrow> Version \<Rightarrow> bool" where
  "version_eq lhs rhs \<longleftrightarrow>
     ver_major lhs = ver_major rhs \<and> ver_minor lhs = ver_minor rhs \<and> ver_patch lhs = ver_patch rhs
     \<and> ver_prerelease lhs = ver_prerelease rhs"

definition version_less :: "Version \<Rightarrow> Version \<Rightarrow> bool" where
  "version_less lhs rhs =
     (if ver_major lhs \<noteq> ver_major rhs then ver_major lhs < ver_major rhs
      else if ver_minor lhs \<noteq> ver_minor rhs then ver_minor lhs < ver_minor rhs
      else if ver_patch lhs \<noteq> ver_patch rhs then ver_patch lhs < ver_patch rhs
      else comparePrerelease (ver_prerelease lhs) (ver_prerelease rhs) < 0)"

definition version_le :: "Version \<Rightarrow> Version \<Rightarrow> bool" where
  "version_le lhs rhs \<longleftrightarrow> \<not> version_less rhs lhs"

text \<open>\<open>Version{}\<close> and \<open>libraryVersion\<close>; the compiled-in text is a build setting.\<close>

definition default_version :: Version where
  "default_version = \<lparr>ver_major = 0, ver_minor = 0, ver_patch = 0, ver_prerelease = [], ver_build = []\<rparr>"

definition libraryVersion :: "string \<Rightarrow> Version" where
  "libraryVersion compiledText =
     (case version_parse compiledText of Inr v \<Rightarrow> v | Inl e \<Rightarrow> default_version)"

text \<open>The versions the parser can produce.\<close>

definition int_component :: "int \<Rightarrow> bool" where
  "int_component i \<longleftrightarrow> 0 \<le> i \<and> i \<le> 2 ^ 31 - 1"

definition wf_version :: "Version \<Rightarrow> bool" where
  "wf_version v \<longleftrightarrow>
     int_component (ver_major v) \<and> int_component (ver_minor v) \<and> int_component (ver_patch v)
     \<and> (ver_prerelease v = [] \<or> validDotIdentifiers (ver_prerelease v) True)
     \<and> (ver_build v = [] \<or> validDotIdentifiers (ver_build v) False)"

section \<open>Three-way comparators\<close>

locale three_way =
  fixes cmp :: "'a \<Rightarrow> 'a \<Rightarrow> int"
  assumes cmp_zero: "cmp a b = 0 \<longleftrightarrow> a = b"
    and cmp_flip: "cmp b a = - cmp a b"
    and cmp_trans: "cmp a b < 0 \<Longrightarrow> cmp b c < 0 \<Longrightarrow> cmp a c < 0"
begin

lemma irrefl: "\<not> cmp a a < 0"
  using cmp_zero [of a a] by simp

lemma connex: "a \<noteq> b \<Longrightarrow> cmp a b < 0 \<or> cmp b a < 0"
  using cmp_zero [of a b] cmp_flip [of a b] by linarith

lemma asym: "cmp a b < 0 \<Longrightarrow> \<not> cmp b a < 0"
  using cmp_flip [of a b] by linarith

lemma list_zero: "cmp_list cmp xs ys = 0 \<longleftrightarrow> xs = ys"
  by (induction xs ys rule: list_induct2') (auto simp: Let_def cmp_zero)

lemma list_flip: "cmp_list cmp ys xs = - cmp_list cmp xs ys"
proof (induction xs ys rule: list_induct2')
  case (4 x xs y ys)
  then show ?case using cmp_flip [of x y] by (simp add: Let_def)
qed auto

lemma list_trans:
  "cmp_list cmp xs ys < 0 \<Longrightarrow> cmp_list cmp ys zs < 0 \<Longrightarrow> cmp_list cmp xs zs < 0"
proof (induction xs ys arbitrary: zs rule: list_induct2')
  case (3 y ys)
  then show ?case by (cases zs) auto
next
  case (4 l ls r rs)
  then obtain z zs' where zs: "zs = z # zs'" by (cases zs) auto
  from 4 zs consider "cmp l r < 0" "cmp r z < 0" | "l = r" "cmp r z < 0" | "cmp l r < 0" "r = z"
    | "l = r" "r = z" "cmp_list cmp ls rs < 0" "cmp_list cmp rs zs' < 0"
    by (auto simp: Let_def cmp_zero split: if_splits)
  then show ?case
    using "4.IH" zs cmp_trans [of l r z] irrefl by cases (auto simp: Let_def cmp_zero)
qed auto

lemma cmp_list_three_way: "three_way (cmp_list cmp)"
  by unfold_locales (rule list_zero, rule list_flip, rule list_trans)

end

interpretation numeric_id: three_way compareNumericIdentifier
  by unfold_locales (auto simp: compareNumericIdentifier_def split: if_splits)

interpretation ident: three_way compareIdentifier
proof unfold_locales
  show "compareIdentifier a b = 0 \<longleftrightarrow> a = b" for a b
    by (auto simp: compareIdentifier_def numeric_id.cmp_zero)
  show "compareIdentifier b a = - compareIdentifier a b" for a b
    using numeric_id.cmp_flip [of a b] by (auto simp: compareIdentifier_def)
  show "compareIdentifier a c < 0" if "compareIdentifier a b < 0" "compareIdentifier b c < 0" for a b c
    using that by (auto simp: compareIdentifier_def split: if_splits intro: numeric_id.cmp_trans)
qed

interpretation idents: three_way "cmp_list compareIdentifier"
  by (rule ident.cmp_list_three_way)

lemmas [eval_simps] = isIdentifierChar_def isNumericIdentifier_def split_def validDotIdentifiers_def
  compareNumericIdentifier_def compareIdentifier_def comparePrerelease_def parseNumber_def
  version_parse_def version_less_def version_eq_def version_le_def default_version_def
  libraryVersion_def

lemma split_eq_split_on: "split s d = split_on d s"
  by (simp add: split_def split_loop_split_on)

interpretation prerelease: three_way comparePrerelease
proof unfold_locales
  show "comparePrerelease a b = 0 \<longleftrightarrow> a = b" for a b
    by (auto simp: comparePrerelease_def split_eq_split_on idents.cmp_zero split_on_inj)
  show "comparePrerelease b a = - comparePrerelease a b" for a b
    by (auto simp: comparePrerelease_def intro: idents.cmp_flip)
  show "comparePrerelease a c < 0" if "comparePrerelease a b < 0" "comparePrerelease b c < 0" for a b c
    using that by (auto simp: comparePrerelease_def split: if_splits intro: idents.cmp_trans)
qed


section \<open>The order on versions\<close>

lemma version_less_irrefl: "\<not> version_less a a"
  by (simp add: version_less_def prerelease.irrefl)

lemma version_less_trans: "version_less a b \<Longrightarrow> version_less b c \<Longrightarrow> version_less a c"
  by (auto simp: version_less_def split: if_splits intro: prerelease.cmp_trans)

lemma version_trichotomy: "version_less a b \<or> version_eq a b \<or> version_less b a"
  using prerelease.connex [of "ver_prerelease a" "ver_prerelease b"]
  by (auto simp: version_less_def version_eq_def)

lemma version_eq_not_less: "version_eq a b \<Longrightarrow> \<not> version_less a b"
  by (simp add: version_less_def version_eq_def prerelease.irrefl)

lemma version_less_asym: "version_less a b \<Longrightarrow> \<not> version_less b a"
  using version_less_trans version_less_irrefl by blast

text \<open>Replacing a version by an equal one (other build metadata) does not change comparisons.\<close>

lemma version_less_eq_cong:
  "version_eq a a' \<Longrightarrow> version_eq b b' \<Longrightarrow> version_less a b = version_less a' b'"
  by (simp add: version_less_def version_eq_def)

lemma version_less_le_trans:
  assumes "version_less a b" "\<not> version_less c b"
  shows "version_less a c"
proof -
  consider "version_less b c" | "version_eq b c" using version_trichotomy [of b c] assms(2) by blast
  then show ?thesis
  proof cases
    case 1
    with assms(1) show ?thesis by (rule version_less_trans)
  next
    case 2
    have "version_eq a a" by (simp add: version_eq_def)
    from version_less_eq_cong [OF this 2] assms(1) show ?thesis by simp
  qed
qed

text \<open>
  C6: the comparison of versions is a strict linear order up to build metadata: irreflexive,
  transitive, and of two versions exactly one of less, equal (\<open>operator==\<close>, which ignores build
  metadata) and greater holds.
\<close>

theorem version_order:
  "\<not> version_less a a
   \<and> (version_less a b \<and> version_less b c \<longrightarrow> version_less a c)
   \<and> (version_less a b \<or> version_eq a b \<or> version_less b a)
   \<and> \<not> (version_less a b \<and> version_eq a b) \<and> \<not> (version_less a b \<and> version_less b a)"
  using version_less_irrefl version_less_trans version_trichotomy version_eq_not_less
    version_less_asym by blast

section \<open>Numeric identifiers compare as numbers\<close>

lemma digits_val_mono:
  assumes "list_all isAsciiDigit s" "list_all isAsciiDigit t" "length s = length t" "s < t"
  shows "digits_val s < digits_val t"
  using assms(3,1,2,4)
proof (induction s t rule: list_induct2)
  case (Cons c s d t)
  have v: "digits_val (x # xs) = digit_val x * 10 ^ length xs + digits_val xs" for x xs
    using digits_val_append [of "[x]" xs] by (simp add: digits_val_single)
  have bs: "digits_val s < 10 ^ length s" "digits_val t < 10 ^ length t"
    using Cons.prems by (auto intro: digits_val_bound)
  show ?case
  proof (cases "c = d")
    case True
    with Cons show ?thesis by (simp add: v)
  next
    case False
    with Cons.prems have "c < d" by simp
    with Cons.prems have "digit_val c + 1 \<le> digit_val d"
      by (auto simp: digit_val_def isAsciiDigit_byte less_char_def)
    then have "(digit_val c + 1) * 10 ^ length s \<le> digit_val d * 10 ^ length s"
      by (rule mult_le_mono1)
    with bs Cons.hyps show ?thesis by (simp add: v algebra_simps)
  qed
qed simp

lemma digits_val_shorter:
  assumes "canonical_decimal s" "canonical_decimal t" "length s < length t"
  shows "digits_val s < digits_val t"
proof -
  obtain c t' where t: "t = c # t'" using assms(3) by (cases t) auto
  have "s \<noteq> []" using assms(1) by (simp add: canonical_decimal_def)
  with assms t have "c \<noteq> CHR ''0''" by (cases s) (auto simp: canonical_decimal_def)
  with assms(2) t have "10 ^ length t' \<le> digits_val t"
    using digits_val_hd_pos [of c t'] by (simp add: canonical_decimal_def)
  moreover have "(10::nat) ^ length s \<le> 10 ^ length t'" using assms(3) t by simp
  moreover have "digits_val s < 10 ^ length s"
    using assms(1) by (simp add: canonical_decimal_def digits_val_bound)
  ultimately show ?thesis by linarith
qed

text \<open>
  C7: on numeric identifiers without leading zeroes, the textual comparison (first by size, then
  lexicographic) is the comparison of the numbers they denote.
\<close>

theorem compareNumericIdentifier_numeric:
  assumes "canonical_decimal lhs" "canonical_decimal rhs"
  shows "compareNumericIdentifier lhs rhs =
    (if digits_val lhs < digits_val rhs then -1 else if digits_val lhs > digits_val rhs then 1 else 0)"
proof -
  have d: "list_all isAsciiDigit lhs" "list_all isAsciiDigit rhs"
    using assms by (simp_all add: canonical_decimal_def)
  consider "length lhs < length rhs" | "length rhs < length lhs"
    | "length lhs = length rhs" "lhs < rhs" | "length lhs = length rhs" "rhs < lhs" | "lhs = rhs"
    by (metis linorder_neqE_nat not_less_iff_gr_or_eq)
  then show ?thesis
  proof cases
    case 1
    with digits_val_shorter [OF assms] show ?thesis by (simp add: compareNumericIdentifier_def)
  next
    case 2
    with digits_val_shorter [OF assms(2,1)] show ?thesis by (simp add: compareNumericIdentifier_def)
  next
    case 3
    with digits_val_mono [OF d] show ?thesis by (simp add: compareNumericIdentifier_def)
  next
    case 4
    with digits_val_mono [OF d(2,1)] show ?thesis by (auto simp: compareNumericIdentifier_def)
  next
    case 5
    then show ?thesis by (simp add: compareNumericIdentifier_def)
  qed
qed

theorem compareNumericIdentifier_numeric_witness:
  "compareNumericIdentifier ''9'' ''10'' =
    (if digits_val ''9'' < digits_val ''10'' then -1
     else if digits_val ''9'' > digits_val ''10'' then 1 else 0)"
  by (rule compareNumericIdentifier_numeric)
    (simp_all add: canonical_decimal_def isAsciiDigit_def)

section \<open>Parsing and printing\<close>

lemma parseNumber_Inr:
  "parseNumber t = Inr n \<longleftrightarrow>
     canonical_decimal t \<and> digits_val t \<le> 2 ^ 31 - 1 \<and> n = int (digits_val t)"
  by (auto simp: parseNumber_def canonical_decimal_def from_chars_dec_def)

lemma parseNumber_decimalText: "int_component i \<Longrightarrow> parseNumber (decimalText i) = Inr i"
  by (simp add: parseNumber_Inr int_component_def decimalText_def canonical_decimal_text nat_le_iff)

lemma decimalText_parseNumber:
  "parseNumber t = Inr n \<Longrightarrow> decimalText n = t \<and> int_component n"
  by (auto simp: parseNumber_Inr int_component_def decimalText_def decimal_text_digits_val)

lemma validDotParts_chars:
  "validDotParts ps b \<Longrightarrow> p \<in> set ps \<Longrightarrow> list_all isIdentifierChar p"
  by (induction ps b rule: validDotParts.induct) (auto split: if_splits)

lemma isIdentifierChar_special:
  "\<not> isIdentifierChar (CHR ''+'')" "\<not> isIdentifierChar (CHR ''.'')"
  by (simp_all add: isIdentifierChar_def isAsciiDigit_def)

lemma plus_not_in_join:
  "(\<And>p. p \<in> set ps \<Longrightarrow> c \<notin> set p) \<Longrightarrow> c \<noteq> d \<Longrightarrow> c \<notin> set (join_on d ps)"
  by (induction d ps rule: join_on.induct) auto

lemma validDotIdentifiers_plus:
  assumes "validDotIdentifiers t b"
  shows "CHR ''+'' \<notin> set t"
proof -
  have "validDotParts (split_on (CHR ''.'') t) b"
    using assms by (simp add: validDotIdentifiers_def split_eq_split_on split: if_splits)
  then have "CHR ''+'' \<notin> set p" if "p \<in> set (split_on (CHR ''.'') t)" for p
    using validDotParts_chars that isIdentifierChar_special by (fastforce simp: list_all_iff)
  then have "CHR ''+'' \<notin> set (join_on (CHR ''.'') (split_on (CHR ''.'') t))"
    by (intro plus_not_in_join) auto
  then show ?thesis by simp
qed

lemma decimalText_chars:
  assumes "int_component i"
  shows "list_all isAsciiDigit (decimalText i)"
  using assms by (simp add: decimalText_def int_component_def decimal_text_digits)

lemma digits_avoid:
  "list_all isAsciiDigit t \<Longrightarrow> \<not> isAsciiDigit c \<Longrightarrow> c \<notin> set t"
  by (auto simp: list_all_iff)

text \<open>The three-part core of a version text.\<close>

definition core_text :: "int \<Rightarrow> int \<Rightarrow> int \<Rightarrow> string" where
  "core_text a b c = decimalText a @ ''.'' @ decimalText b @ ''.'' @ decimalText c"

lemma core_text_split:
  assumes "int_component a" "int_component b" "int_component c"
  shows "split_on (CHR ''.'') (core_text a b c) = [decimalText a, decimalText b, decimalText c]"
    and "CHR ''-'' \<notin> set (core_text a b c)" and "CHR ''+'' \<notin> set (core_text a b c)"
proof -
  have n: "\<not> isAsciiDigit (CHR ''.'')" "\<not> isAsciiDigit (CHR ''-'')" "\<not> isAsciiDigit (CHR ''+'')"
    by (simp_all add: isAsciiDigit_def)
  have d: "list_all isAsciiDigit (decimalText a)" "list_all isAsciiDigit (decimalText b)"
    "list_all isAsciiDigit (decimalText c)"
    using assms by (simp_all add: decimalText_chars)
  show "CHR ''-'' \<notin> set (core_text a b c)" "CHR ''+'' \<notin> set (core_text a b c)"
    using n d by (auto simp: core_text_def dest: digits_avoid)
  show "split_on (CHR ''.'') (core_text a b c) = [decimalText a, decimalText b, decimalText c]"
    using n d by (simp add: core_text_def split_on_append split_on_none digits_avoid)
qed


lemma list3_cases:
  "(case xs of [a, b, c] \<Rightarrow> f a b c | _ \<Rightarrow> fail k m) = Inr v \<longleftrightarrow>
     (\<exists>a b c. xs = [a, b, c] \<and> f a b c = Inr v)"
  by (auto split: list.splits)

text \<open>What an accepted text looks like, piece by piece.\<close>

lemma version_parse_InrD:
  assumes "version_parse s = Inr v"
  shows "wf_version v \<and> version_toString v = s"
proof -
  define plus where "plus = find_char (CHR ''+'') s"
  define cap where "cap = prefix_upto plus s"
  define dash where "dash = find_char (CHR ''-'') cap"
  define core where "core = prefix_upto dash cap"
  note defs = plus_def cap_def dash_def core_def
  from assms obtain a b c where
    ne: "s \<noteq> []" and bld: "plus = None \<or> validDotIdentifiers (rest_after plus s) False"
    and pre: "dash = None \<or> validDotIdentifiers (rest_after dash cap) True"
    and split3: "split_on (CHR ''.'') core = [a, b, c]"
    and nums: "parseNumber a = Inr (ver_major v)" "parseNumber b = Inr (ver_minor v)"
      "parseNumber c = Inr (ver_patch v)"
    and v: "ver_prerelease v = rest_after dash cap" "ver_build v = rest_after plus s"
    by (auto simp: version_parse_def Let_def list3_cases split_eq_split_on defs split: if_splits)
  have core: "core = core_text (ver_major v) (ver_minor v) (ver_patch v)"
    using join_split [of "CHR ''.''" core] split3 nums
    by (auto simp: core_text_def dest!: decimalText_parseNumber)
  have r0: "rest_after None t = []" "validDotIdentifiers [] x = False" for t x
    by (simp_all add: rest_after_def validDotIdentifiers_def)
  have cap: "cap = core @ (if ver_prerelease v = [] then [] else CHR ''-'' # ver_prerelease v)"
    using cut_glue [of cap "CHR ''-''"] pre v r0 by (cases dash) (auto simp: defs)
  have s: "s = cap @ (if ver_build v = [] then [] else CHR ''+'' # ver_build v)"
    using cut_glue [of s "CHR ''+''"] bld v r0 by (cases plus) (auto simp: defs)
  have "version_toString v = s"
    by (subst s, subst cap, subst core) (simp add: version_toString_def core_text_def)
  moreover have "wf_version v"
    using nums bld pre v r0 by (cases plus; cases dash)
      (auto simp: wf_version_def dest: decimalText_parseNumber)
  ultimately show ?thesis by simp
qed

lemma version_parse_toString_wf:
  assumes wf: "wf_version v"
  shows "version_parse (version_toString v) = Inr v"
proof -
  define core where "core = core_text (ver_major v) (ver_minor v) (ver_patch v)"
  define pre where "pre = ver_prerelease v"
  define bld where "bld = ver_build v"
  define cap where "cap = core @ (if pre \<noteq> [] then CHR ''-'' # pre else [])"
  have ic: "int_component (ver_major v)" "int_component (ver_minor v)" "int_component (ver_patch v)"
    and okp: "pre = [] \<or> validDotIdentifiers pre True" and okb: "bld = [] \<or> validDotIdentifiers bld False"
    using wf by (auto simp: wf_version_def pre_def bld_def)
  have core: "CHR ''-'' \<notin> set core" "CHR ''+'' \<notin> set core"
    "split_on (CHR ''.'') core =
       [decimalText (ver_major v), decimalText (ver_minor v), decimalText (ver_patch v)]"
    using core_text_split [OF ic] by (simp_all add: core_def)
  have plus: "CHR ''+'' \<notin> set cap"
    using core okp validDotIdentifiers_plus by (auto simp: cap_def)
  have shape: "version_toString v = cap @ (if bld \<noteq> [] then CHR ''+'' # bld else [])"
    by (simp add: version_toString_def cap_def core_def core_text_def pre_def bld_def)
  have ne: "version_toString v \<noteq> []" by (simp add: version_toString_def)
  have B: "prefix_upto (find_char (CHR ''+'') (version_toString v)) (version_toString v) = cap"
    "rest_after (find_char (CHR ''+'') (version_toString v)) (version_toString v) = bld"
    "find_char (CHR ''+'') (version_toString v) = None \<longleftrightarrow> bld = []"
    unfolding shape using plus by (auto simp: cut_at_present cut_at_absent)
  have P: "prefix_upto (find_char (CHR ''-'') cap) cap = core"
    "rest_after (find_char (CHR ''-'') cap) cap = pre"
    "find_char (CHR ''-'') cap = None \<longleftrightarrow> pre = []"
    unfolding cap_def using core by (auto simp: cut_at_present cut_at_absent)
  show ?thesis
    using ne okp okb P(3) B(3)
    by (auto simp: version_parse_def Let_def B(1,2) P(1,2) core(3) split_eq_split_on
        parseNumber_decimalText ic pre_def bld_def)
qed

text \<open>
  C8: parsing what \<open>toString\<close> printed gives the version back, for every version with 31-bit
  components and valid identifiers.
\<close>

theorem version_parse_toString:
  assumes "wf_version v"
  shows "version_parse (version_toString v) = Inr v"
  using assms by (rule version_parse_toString_wf)

theorem version_parse_toString_witness:
  "version_parse (version_toString
      \<lparr>ver_major = 1, ver_minor = 20, ver_patch = 3, ver_prerelease = ''rc.1'', ver_build = ''7''\<rparr>)
   = Inr \<lparr>ver_major = 1, ver_minor = 20, ver_patch = 3, ver_prerelease = ''rc.1'', ver_build = ''7''\<rparr>"
  by (rule version_parse_toString)
    (simp add: wf_version_def int_component_def validDotIdentifiers_def split_eq_split_on
      isIdentifierChar_def isNumericIdentifier_def isAsciiDigit_def)

text \<open>
  C9: the parser accepts canonical text only: an accepted text is exactly what \<open>toString\<close> prints
  for the result, and the result is well formed. So two different texts never parse to the
  same version.
\<close>

theorem version_parse_canonical:
  assumes "version_parse s = Inr v"
  shows "wf_version v \<and> version_toString v = s"
  using assms by (rule version_parse_InrD)

theorem version_parse_canonical_witness:
  "wf_version \<lparr>ver_major = 1, ver_minor = 20, ver_patch = 3, ver_prerelease = ''rc.1'', ver_build = []\<rparr>
   \<and> version_toString \<lparr>ver_major = 1, ver_minor = 20, ver_patch = 3, ver_prerelease = ''rc.1'', ver_build = []\<rparr>
     = ''1.20.3-rc.1''"
proof (rule version_parse_canonical)
  show "version_parse ''1.20.3-rc.1'' =
    Inr \<lparr>ver_major = 1, ver_minor = 20, ver_patch = 3, ver_prerelease = ''rc.1'', ver_build = []\<rparr>"
    by (simp add: eval_simps)
qed

theorem version_order_witness:
  "version_less (libraryVersion ''1.0.0-rc.2'') (libraryVersion ''1.0.0-rc.10'')
   \<and> version_less (libraryVersion ''1.0.0-rc.10'') (libraryVersion ''1.0.0'')
   \<and> version_less (libraryVersion ''1.0.0-rc.2'') (libraryVersion ''1.0.0'')"
proof -
  have 1: "version_less (libraryVersion ''1.0.0-rc.2'') (libraryVersion ''1.0.0-rc.10'')"
    by (simp add: eval_simps)
  have 2: "version_less (libraryVersion ''1.0.0-rc.10'') (libraryVersion ''1.0.0'')"
    by (simp add: eval_simps)
  show ?thesis
    using 1 2 version_order [of "libraryVersion ''1.0.0-rc.2''" "libraryVersion ''1.0.0-rc.10''"
        "libraryVersion ''1.0.0''"] by blast
qed

end
