(* ===== verification/Rfc3339.thy ===== *)
theory Rfc3339
  imports Prelude
begin

text \<open>
  \<open>src/util/Rfc3339.h\<close> and \<open>Rfc3339.cpp\<close>: UTC instants, their order and the timestamp parser.

  Values are \<^typ>\<open>nat\<close> and \<^typ>\<open>int\<close>: the bounds theorem shows that every accepted timestamp stays
  far inside the 64-bit and 32-bit fields of \<open>UtcInstant\<close>, so no wrap-around can occur.
  \<open>daysFromCivil\<close> is shown to be the Gregorian day count: zero at 1970-01-01 and one more for
  the following calendar day. Reading the system clock (\<open>currentUtcInstant\<close>) is not modelled; the
  current time is an argument wherever the program uses it.
\<close>

section \<open>Definitions\<close>

datatype UtcInstant = UtcInstant (unixSeconds: int) (nanoseconds: nat)

definition operator_less :: "UtcInstant \<Rightarrow> UtcInstant \<Rightarrow> bool" where
  "operator_less left right \<longleftrightarrow> unixSeconds left < unixSeconds right
     \<or> (unixSeconds left = unixSeconds right \<and> nanoseconds left < nanoseconds right)"

definition operator_ge :: "UtcInstant \<Rightarrow> UtcInstant \<Rightarrow> bool" where
  "operator_ge left right \<longleftrightarrow> \<not> operator_less left right"

instantiation UtcInstant :: linorder
begin

definition less_UtcInstant :: "UtcInstant \<Rightarrow> UtcInstant \<Rightarrow> bool" where
  "left < right \<longleftrightarrow> operator_less left right"

definition less_eq_UtcInstant :: "UtcInstant \<Rightarrow> UtcInstant \<Rightarrow> bool" where
  "(left :: UtcInstant) \<le> right \<longleftrightarrow> operator_ge right left"

instance
proof
  fix x y z :: UtcInstant
  note defs = less_UtcInstant_def less_eq_UtcInstant_def operator_ge_def operator_less_def
  show "x < y \<longleftrightarrow> x \<le> y \<and> \<not> y \<le> x"
    by (auto simp: defs)
  show "x \<le> x" by (simp add: defs)
  show "x \<le> y \<Longrightarrow> y \<le> z \<Longrightarrow> x \<le> z"
    by (auto simp: defs)
  show "x \<le> y \<Longrightarrow> y \<le> x \<Longrightarrow> x = y"
    by (cases x; cases y) (auto simp: defs)
  show "x \<le> y \<or> y \<le> x" by (auto simp: defs)
qed

end

definition invalidTimestamp :: "UtcInstant result" where
  "invalidTimestamp = fail EC_ManifestParseFailed
     ''Timestamp must use YYYY-MM-DDTHH:MM:SS[.1-9DIGIT](Z|+/-HH:MM) with a valid Gregorian date''"

definition parseDigits :: "string \<Rightarrow> nat \<Rightarrow> nat \<Rightarrow> nat option" where
  "parseDigits t offset count =
     (if offset > length t \<or> count > length t - offset then None
      else let digits = take count (drop offset t)
           in if list_all isAsciiDigit digits then Some (digits_val digits) else None)"

definition isLeapYear :: "nat \<Rightarrow> bool" where
  "isLeapYear year \<longleftrightarrow> year mod 4 = 0 \<and> (year mod 100 \<noteq> 0 \<or> year mod 400 = 0)"

definition daysInMonth :: "nat \<Rightarrow> nat \<Rightarrow> nat" where
  "daysInMonth year month =
     (if month = 2 \<and> isLeapYear year then 29
      else [31, 28, 31, 30, 31, 30, 31, 31, 30, 31, 30, 31] ! (month - 1))"

text \<open>Division of C++ truncates towards zero.\<close>

definition trunc_div :: "int \<Rightarrow> int \<Rightarrow> int" where
  "trunc_div a b = (if 0 \<le> a then a div b else - ((- a) div b))"

definition daysFromCivil :: "int \<Rightarrow> nat \<Rightarrow> nat \<Rightarrow> int" where
  "daysFromCivil year0 month day =
     (let year = year0 - (if month \<le> 2 then 1 else 0);
          era = trunc_div (if year \<ge> 0 then year else year - 399) 400;
          yearOfEra = nat (year - era * 400);
          adjustedMonth = int month + (if month > 2 then -3 else 9);
          dayOfYear = nat ((153 * adjustedMonth + 2) div 5) + day - 1;
          dayOfEra = yearOfEra * 365 + yearOfEra div 4 - yearOfEra div 100 + dayOfYear
      in era * 146097 + int dayOfEra - 719468)"

text \<open>The loop over the fraction: at most nine digits, each weighted by a shrinking scale.
  \<open>None\<close> is the early return at a tenth digit.\<close>

fun parseFraction :: "string \<Rightarrow> nat \<Rightarrow> nat \<Rightarrow> nat \<Rightarrow> (nat \<times> nat \<times> string) option" where
  "parseFraction [] count scale nanos = Some (nanos, count, [])"
| "parseFraction (c # cs) count scale nanos =
     (if isAsciiDigit c
      then (if count \<ge> 9 then None
            else parseFraction cs (count + 1) (scale div 10) (nanos + digit_val c * scale))
      else Some (nanos, count, c # cs))"

text \<open>The optional fraction after position 19: the nanoseconds and what follows.\<close>

definition optionalFraction :: "string \<Rightarrow> (nat \<times> string) option" where
  "optionalFraction rest =
     (if rest \<noteq> [] \<and> hd rest = CHR ''.''
      then (case parseFraction (tl rest) 0 100000000 0 of
              None \<Rightarrow> None
            | Some (nanos, count, rest') \<Rightarrow> if count = 0 then None else Some (nanos, rest'))
      else Some (0, rest))"

text \<open>The zone designator: the offset in seconds and what follows.\<close>

definition zoneOffset :: "string \<Rightarrow> (int \<times> string) option" where
  "zoneOffset rest =
     (if rest \<noteq> [] \<and> hd rest = CHR ''Z'' then Some (0, tl rest)
      else if rest \<noteq> [] \<and> (hd rest = CHR ''+'' \<or> hd rest = CHR ''-'')
      then
        let negativeOffset = (hd rest = CHR ''-'')
        in if 6 > length rest \<or> rest ! 3 \<noteq> CHR '':'' then None
           else (case (parseDigits rest 1 2, parseDigits rest 4 2) of
                   (Some offsetHour, Some offsetMinute) \<Rightarrow>
                     if offsetHour > 23 \<or> offsetMinute > 59
                        \<or> (negativeOffset \<and> offsetHour = 0 \<and> offsetMinute = 0) then None
                     else let offsetSeconds = int (offsetHour * 3600 + offsetMinute * 60)
                          in Some (if negativeOffset then - offsetSeconds else offsetSeconds, drop 6 rest)
                 | _ \<Rightarrow> None)
      else None)"

definition parseRfc3339 :: "string \<Rightarrow> UtcInstant result" where
  "parseRfc3339 t =
     (if length t < 20 \<or> t ! 4 \<noteq> CHR ''-'' \<or> t ! 7 \<noteq> CHR ''-'' \<or> t ! 10 \<noteq> CHR ''T''
         \<or> t ! 13 \<noteq> CHR '':'' \<or> t ! 16 \<noteq> CHR '':''
      then invalidTimestamp
      else
        (case (parseDigits t 0 4, parseDigits t 5 2, parseDigits t 8 2,
               parseDigits t 11 2, parseDigits t 14 2, parseDigits t 17 2) of
           (Some year, Some month, Some day, Some hour, Some minute, Some second) \<Rightarrow>
             if year = 0 \<or> month = 0 \<or> month > 12 \<or> day = 0 \<or> day > daysInMonth year month
                \<or> hour > 23 \<or> minute > 59 \<or> second > 59
             then invalidTimestamp
             else
               (case optionalFraction (drop 19 t) of
                  None \<Rightarrow> invalidTimestamp
                | Some (nanos, rest) \<Rightarrow>
                    (case zoneOffset rest of
                       None \<Rightarrow> invalidTimestamp
                     | Some (offsetSeconds, rest') \<Rightarrow>
                         if rest' \<noteq> [] then invalidTimestamp
                         else
                           let localSeconds = daysFromCivil (int year) month day * 86400
                                 + int hour * 3600 + int minute * 60 + int second
                           in Inr (UtcInstant (localSeconds - offsetSeconds) nanos)))
         | _ \<Rightarrow> invalidTimestamp))"

lemmas [eval_simps] = invalidTimestamp_def parseDigits_def isLeapYear_def daysInMonth_def
  trunc_div_def daysFromCivil_def optionalFraction_def zoneOffset_def parseRfc3339_def

section \<open>The day count\<close>

definition valid_date :: "nat \<Rightarrow> nat \<Rightarrow> nat \<Rightarrow> bool" where
  "valid_date y m d \<longleftrightarrow> 1 \<le> y \<and> 1 \<le> m \<and> m \<le> 12 \<and> 1 \<le> d \<and> d \<le> daysInMonth y m"

fun next_date :: "nat \<times> nat \<times> nat \<Rightarrow> nat \<times> nat \<times> nat" where
  "next_date (y, m, d) =
     (if d < daysInMonth y m then (y, m, d + 1) else if m < 12 then (y, m + 1, 1) else (y + 1, 1, 1))"

text \<open>Closed form of the year part, for years from March to February.\<close>

definition year_days :: "nat \<Rightarrow> int" where
  "year_days y = 365 * int y + int (y div 4) - int (y div 100) + int (y div 400)"

definition month_days :: "nat \<Rightarrow> int" where
  "month_days m = (153 * (int m + (if m > 2 then -3 else 9)) + 2) div 5"

lemma era_split:
  fixes y :: nat
  shows "int (y div 400) * 146097 + int (y mod 400 * 365 + y mod 400 div 4 - y mod 400 div 100)
    = year_days y"
proof -
  define q r where "q = y div 400" and "r = y mod 400"
  have y: "y = 400 * q + r" and r: "r < 400" by (auto simp: q_def r_def)
  have d: "y div 4 = 100 * q + r div 4" "y div 100 = 4 * q + r div 100" "y div 400 = q"
    using r unfolding y by auto
  have "r div 100 \<le> r * 365 + r div 4" by (simp add: div_le_dividend trans_le_add1)
  then have "int (r * 365 + r div 4 - r div 100) = int (r * 365) + int (r div 4) - int (r div 100)"
    by simp
  then show ?thesis
    unfolding year_days_def d q_def [symmetric] r_def [symmetric] by (simp add: y)
qed

lemma daysFromCivil_closed:
  assumes "1 \<le> y" "1 \<le> m" "1 \<le> d"
  shows "daysFromCivil (int y) m d =
    year_days (if m \<le> 2 then y - 1 else y) + month_days m + int d - 719469"
proof -
  define z where "z = (if m \<le> 2 then y - 1 else y)"
  have z: "int y - (if m \<le> 2 then 1 else 0) = int z" using assms by (auto simp: z_def)
  have era: "trunc_div (if int z \<ge> 0 then int z else int z - 399) 400 = int (z div 400)"
    by (simp add: trunc_div_def zdiv_int)
  have yoe: "nat (int z - int (z div 400) * 400) = z mod 400"
    by (simp add: zdiv_int minus_div_mult_eq_mod nat_mod_distrib)
  have md: "0 \<le> month_days m" using assms by (auto simp: month_days_def)
  have "int (nat (month_days m) + d - 1) = month_days m + int d - 1"
    using md assms by simp
  moreover have "(153 * (int m + (if m > 2 then -3 else 9)) + 2) div 5 = month_days m"
    by (simp add: month_days_def)
  ultimately show ?thesis
    unfolding daysFromCivil_def Let_def z era yoe
    using era_split [of z, symmetric] by (simp add: z_def [symmetric] del: of_nat_diff)
qed


lemma month_set:
  assumes "1 \<le> m" "m \<le> (12::nat)"
  shows "m = 1 \<or> m = 2 \<or> m = 3 \<or> m = 4 \<or> m = 5 \<or> m = 6 \<or> m = 7 \<or> m = 8 \<or> m = 9
    \<or> m = 10 \<or> m = 11 \<or> m = 12"
  using assms by presburger

lemma year_days_step:
  assumes "1 \<le> y"
  shows "year_days y = year_days (y - 1) + 365 + (if isLeapYear y then 1 else 0)"
proof -
  obtain x where x: "y = Suc x" using assms by (cases y) auto
  have h: "400 dvd Suc x \<Longrightarrow> 100 dvd Suc x" "100 dvd Suc x \<Longrightarrow> 4 dvd Suc x"
    using dvd_trans [of 100 400 "Suc x"] dvd_trans [of 4 100 "Suc x"] by simp_all
  consider "\<not> 4 dvd Suc x" | "4 dvd Suc x" "\<not> 100 dvd Suc x" | "100 dvd Suc x" "\<not> 400 dvd Suc x"
    | "400 dvd Suc x" by blast
  then show ?thesis
    using h by cases (auto simp: year_days_def isLeapYear_def x div_Suc mod_eq_0_iff_dvd)
qed

lemma month_days_step:
  assumes "1 \<le> m" "m < 12" "m \<noteq> 2"
  shows "month_days (m + 1) = month_days m + int (daysInMonth y m)"
  using month_set [OF assms(1) less_imp_le [OF assms(2)]] assms(2,3)
  by (elim disjE) (simp_all add: month_days_def daysInMonth_def)

text \<open>
  C14: \<open>daysFromCivil\<close> is the Gregorian day count from the Unix epoch: it is zero at 1970-01-01 and
  grows by exactly one from every valid date to the next calendar day, across month ends, leap
  days and year ends.
\<close>

theorem daysFromCivil_counts_days:
  "daysFromCivil 1970 1 1 = 0
   \<and> (valid_date y m d \<and> next_date (y, m, d) = (y', m', d') \<longrightarrow>
        daysFromCivil (int y') m' d' = daysFromCivil (int y) m d + 1)"
proof (intro conjI impI)
  show "daysFromCivil 1970 1 1 = 0" by (simp add: eval_simps)
next
  assume a: "valid_date y m d \<and> next_date (y, m, d) = (y', m', d')"
  then have v: "1 \<le> y" "1 \<le> m" "m \<le> 12" "1 \<le> d" "d \<le> daysInMonth y m"
    by (auto simp: valid_date_def)
  have n: "next_date (y, m, d) = (y', m', d')" using a by simp
  show "daysFromCivil (int y') m' d' = daysFromCivil (int y) m d + 1"
  proof (cases "d < daysInMonth y m")
    case True
    with n v show ?thesis by (auto simp: daysFromCivil_closed)
  next
    case False
    with v have d: "d = daysInMonth y m" by simp
    consider "m = 2" | "m = 12" | "m < 12" "m \<noteq> 2" using v by linarith
    then show ?thesis
    proof cases
      case 1
      with n d have "y' = y" "m' = 3" "d' = 1" by auto
      with 1 d v year_days_step [of y] show ?thesis
        by (simp add: daysFromCivil_closed month_days_def daysInMonth_def)
    next
      case 2
      with n d have "y' = y + 1" "m' = 1" "d' = 1" by auto
      with 2 d v show ?thesis
        by (simp add: daysFromCivil_closed month_days_def daysInMonth_def del: of_nat_Suc)
    next
      case 3
      with n d have e: "y' = y" "m' = m + 1" "d' = 1" by auto
      have "(if m + 1 \<le> 2 then y - 1 else y) = (if m \<le> 2 then y - 1 else y)"
        using 3 v by auto
      with 3 e d v month_days_step [of m y] show ?thesis by (simp add: daysFromCivil_closed)
    qed
  qed
qed

theorem daysFromCivil_counts_days_witness:
  "daysFromCivil (int 2000) 3 1 = daysFromCivil (int 2000) 2 29 + 1"
  using daysFromCivil_counts_days [of 2000 2 29 2000 3 1]
  by (simp add: valid_date_def daysInMonth_def isLeapYear_def)

section \<open>Accepted timestamps\<close>

lemma parseDigits_bound: "parseDigits t i n = Some v \<Longrightarrow> v < 10 ^ n"
  using digits_val_bound [of "take n (drop i t)"]
  by (auto simp: parseDigits_def Let_def min_def split: if_splits)

text \<open>While the loop runs, what is still to come is below ten times the current scale.\<close>

lemma parseFraction_bound:
  "parseFraction cs k (10 ^ (8 - k)) ns = Some (nanos, k', rest) \<Longrightarrow> k \<le> 8 \<Longrightarrow>
     nanos < ns + 10 ^ (9 - k)"
proof (induction cs arbitrary: k ns)
  case (Cons c cs)
  show ?case
  proof (cases "isAsciiDigit c")
    case True
    have dv: "digit_val c \<le> 9" using digit_val_less [OF True] by simp
    show ?thesis
    proof (cases "k = 8")
      case True
      with Cons.prems \<open>isAsciiDigit c\<close> have "parseFraction cs 9 0 (ns + digit_val c) = Some (nanos, k', rest)"
        by simp
      then have "nanos = ns + digit_val c" by (cases cs) (auto split: if_splits)
      with dv True show ?thesis by simp
    next
      case False
      with Cons.prems have k: "k < 8" by simp
      then have p: "8 - k = Suc (8 - (k + 1))" "9 - k = Suc (8 - k)" "9 - (k + 1) = 8 - k" by auto
      from Cons.prems True k
      have "parseFraction cs (k + 1) (10 ^ (8 - (k + 1))) (ns + digit_val c * 10 ^ (8 - k)) = Some (nanos, k', rest)"
        by (simp add: p(1))
      from Cons.IH [OF this] k have "nanos < ns + digit_val c * 10 ^ (8 - k) + 10 ^ (8 - k)"
        using p(3) by simp
      also have "\<dots> \<le> ns + 10 ^ (9 - k)"
        using mult_le_mono1 [OF dv, of "10 ^ (8 - k)"] by (simp add: p(2))
      finally show ?thesis .
    qed
  next
    case False
    with Cons.prems show ?thesis by auto
  qed
qed auto

lemma optionalFraction_bound: "optionalFraction r = Some (nanos, r') \<Longrightarrow> nanos < 1000000000"
  using parseFraction_bound [of "tl r" 0 0 nanos _ r']
  by (auto simp: optionalFraction_def split: if_splits option.splits)

lemma zoneOffset_bound: "zoneOffset r = Some (off, r') \<Longrightarrow> - 86340 \<le> off \<and> off \<le> 86340"
  by (auto simp: zoneOffset_def Let_def split: if_splits option.splits)

lemma year_days_mono: "x \<le> y \<Longrightarrow> year_days x \<le> year_days y"
proof (induction y)
  case (Suc y)
  then show ?case using year_days_step [of "Suc y"] by (cases "x = Suc y") auto
qed simp

lemma daysInMonth_le:
  assumes "1 \<le> m" "m \<le> 12"
  shows "daysInMonth y m \<le> 31"
  using month_set [OF assms] by (elim disjE) (simp_all add: daysInMonth_def)

lemma month_days_end:
  assumes "3 \<le> m" "m \<le> 12" "d \<le> daysInMonth y m"
  shows "0 \<le> month_days m" "month_days m + int d \<le> 306"
proof -
  have "0 \<le> month_days m \<and> month_days m + int d \<le> 306"
    using month_set [OF _ assms(2)] assms(1,3)
    by (elim meta_impE disjE) (simp_all add: month_days_def daysInMonth_def)
  then show "0 \<le> month_days m" "month_days m + int d \<le> 306" by auto
qed

lemma daysFromCivil_bounds:
  assumes "valid_date y m d" "y \<le> 9999"
  shows "- 719162 \<le> daysFromCivil (int y) m d \<and> daysFromCivil (int y) m d \<le> 2932896"
proof -
  have v: "1 \<le> y" "1 \<le> m" "m \<le> 12" "1 \<le> d" "d \<le> daysInMonth y m"
    using assms by (auto simp: valid_date_def)
  have d31: "d \<le> 31" using v daysInMonth_le [of m y] by simp
  have yd: "year_days 0 = 0" "year_days 1 = 365" "year_days 9998 = 3651694" "year_days 9999 = 3652059"
    by (simp_all add: year_days_def)
  show ?thesis
  proof (cases "m \<le> 2")
    case True
    have "year_days 0 \<le> year_days (y - 1)" "year_days (y - 1) \<le> year_days 9998"
      using assms by (auto intro: year_days_mono)
    moreover have "306 \<le> month_days m" "month_days m \<le> 337"
      using True v by (auto simp: month_days_def)
    ultimately show ?thesis
      using v d31 True yd by (simp add: daysFromCivil_closed)
  next
    case False
    have "year_days 1 \<le> year_days y" "year_days y \<le> year_days 9999"
      using assms v by (auto intro: year_days_mono)
    moreover have "0 \<le> month_days m" "month_days m + int d \<le> 306"
      using False v month_days_end [of m d y] by auto
    ultimately show ?thesis
      using v False yd by (simp add: daysFromCivil_closed)
  qed
qed


lemma parseRfc3339_InrD:
  assumes "parseRfc3339 t = Inr u"
  obtains y m d h mi sec off where "valid_date y m d" "y \<le> 9999" "h \<le> 23" "mi \<le> 59" "sec \<le> 59"
    "- 86340 \<le> off" "off \<le> 86340" "nanoseconds u < 1000000000"
    "unixSeconds u = daysFromCivil (int y) m d * 86400 + int h * 3600 + int mi * 60 + int sec - off"
proof -
  obtain y m d h mi sec nanos rest off where
    dg: "parseDigits t 0 4 = Some y" "parseDigits t 5 2 = Some m" "parseDigits t 8 2 = Some d"
      "parseDigits t 11 2 = Some h" "parseDigits t 14 2 = Some mi" "parseDigits t 17 2 = Some sec"
    and v: "valid_date y m d" "h \<le> 23" "mi \<le> 59" "sec \<le> 59"
    and fr: "optionalFraction (drop 19 t) = Some (nanos, rest)"
    and zo: "zoneOffset rest = Some (off, [])"
    and u: "u = UtcInstant (daysFromCivil (int y) m d * 86400 + int h * 3600 + int mi * 60 + int sec - off) nanos"
    using assms
    by (auto simp: parseRfc3339_def invalidTimestamp_def Let_def valid_date_def
        split: if_splits option.splits prod.splits)
  show thesis
    using that [OF v(1) _ v(2-4)] parseDigits_bound [OF dg(1)] zoneOffset_bound [OF zo]
      optionalFraction_bound [OF fr] u by simp
qed

text \<open>
  C15: every accepted timestamp fits its machine representation: the nanoseconds are below one
  second and the seconds lie between the year 1 and the year 9999, widened by the largest zone
  offset, so that neither the 32-bit nor the 64-bit field can wrap.
\<close>

theorem parseRfc3339_bounds:
  assumes "parseRfc3339 t = Inr u"
  shows "nanoseconds u < 1000000000
    \<and> - 62135683140 \<le> unixSeconds u \<and> unixSeconds u \<le> 253402387139"
proof -
  from assms obtain y m d h mi sec off where
    v: "valid_date y m d" "y \<le> 9999" "h \<le> 23" "mi \<le> 59" "sec \<le> 59" "- 86340 \<le> off" "off \<le> 86340"
    and n: "nanoseconds u < 1000000000"
    and s: "unixSeconds u = daysFromCivil (int y) m d * 86400 + int h * 3600 + int mi * 60 + int sec - off"
    by (rule parseRfc3339_InrD)
  show ?thesis using v n s daysFromCivil_bounds [OF v(1,2)] by auto
qed

theorem parseRfc3339_bounds_witness:
  "nanoseconds (UtcInstant 0 500000000) < 1000000000
   \<and> - 62135683140 \<le> unixSeconds (UtcInstant 0 500000000)
   \<and> unixSeconds (UtcInstant 0 500000000) \<le> 253402387139"
proof (rule parseRfc3339_bounds)
  show "parseRfc3339 ''1970-01-01T01:00:00.5+01:00'' = Inr (UtcInstant 0 500000000)"
    by (simp add: eval_simps)
qed

section \<open>The accepted text of an instant\<close>

definition pad2 :: "nat \<Rightarrow> string" where
  "pad2 n = [digit_char (n div 10), digit_char (n mod 10)]"

definition pad4 :: "nat \<Rightarrow> string" where
  "pad4 n = pad2 (n div 100) @ pad2 (n mod 100)"

definition zone_text :: "int \<Rightarrow> string" where
  "zone_text off =
     (if off = 0 then ''Z''
      else (if off < 0 then ''-'' else ''+'') @ pad2 (nat \<bar>off\<bar> div 3600) @ '':'' @ pad2 (nat \<bar>off\<bar> mod 3600 div 60))"

definition rfc3339_text :: "nat \<Rightarrow> nat \<Rightarrow> nat \<Rightarrow> nat \<Rightarrow> nat \<Rightarrow> nat \<Rightarrow> int \<Rightarrow> string" where
  "rfc3339_text y m d h mi s off =
     pad4 y @ ''-'' @ pad2 m @ ''-'' @ pad2 d @ ''T'' @ pad2 h @ '':'' @ pad2 mi @ '':'' @ pad2 s @ zone_text off"

lemma digits_val_2: "a < 10 \<Longrightarrow> b < 10 \<Longrightarrow> digits_val [digit_char a, digit_char b] = 10 * a + b"
  by (simp add: digits_val_def digit_char_props)

lemma digits_val_4:
  "a < 10 \<Longrightarrow> b < 10 \<Longrightarrow> c < 10 \<Longrightarrow> d < 10 \<Longrightarrow>
   digits_val [digit_char a, digit_char b, digit_char c, digit_char d] = 1000 * a + 100 * b + 10 * c + d"
  by (simp add: digits_val_def digit_char_props)

lemma pad_parts:
  fixes n :: nat
  shows "n < 100 \<Longrightarrow> n div 10 < 10" "n < 10000 \<Longrightarrow> n div 100 div 10 < 10"
    "n < 100 \<Longrightarrow> 10 * (n div 10) + n mod 10 = n"
    "1000 * (n div 100 div 10) + 100 * (n div 100 mod 10) + 10 * (n mod 100 div 10) + n mod 100 mod 10 = n"
proof -
  show "n < 100 \<Longrightarrow> n div 10 < 10" "n < 10000 \<Longrightarrow> n div 100 div 10 < 10"
    "n < 100 \<Longrightarrow> 10 * (n div 10) + n mod 10 = n" by auto
  have "n = 100 * (n div 100) + n mod 100" "n div 100 = 10 * (n div 100 div 10) + n div 100 mod 10"
    "n mod 100 = 10 * (n mod 100 div 10) + n mod 100 mod 10" by simp_all
  then show "1000 * (n div 100 div 10) + 100 * (n div 100 mod 10) + 10 * (n mod 100 div 10)
      + n mod 100 mod 10 = n" by linarith
qed

lemma zoneOffset_text:
  assumes "\<bar>off\<bar> \<le> 86340" "off mod 60 = 0"
  shows "zoneOffset (zone_text off) = Some (off, [])"
proof (cases "off = 0")
  case True
  then show ?thesis by (simp add: zone_text_def zoneOffset_def)
next
  case False
  define k where "k = nat \<bar>off\<bar> div 60"
  have off: "off = (if off < 0 then - int (60 * k) else int (60 * k))"
    using assms(2) unfolding k_def by (auto simp: nat_div_distrib abs_if)
  have k: "0 < k" "k < 1440" using assms False off by (auto split: if_splits)
  have h: "nat \<bar>off\<bar> div 3600 = k div 60" "nat \<bar>off\<bar> mod 3600 div 60 = k mod 60"
  proof -
    have "nat \<bar>off\<bar> = 60 * k" using off by (auto split: if_splits)
    then show "nat \<bar>off\<bar> div 3600 = k div 60" "nat \<bar>off\<bar> mod 3600 div 60 = k mod 60"
      by (simp_all add: div_mult2_eq [of _ 60 60, simplified] mod_mult2_eq [of _ 60 60, simplified])
  qed
  have b: "k div 60 < 24" "k mod 60 < 60" using k by auto
  then have b': "k div 60 div 10 < 10" "k mod 60 div 10 < 10" by auto
  have "k div 60 * 3600 + k mod 60 * 60 = 60 * k" using div_mult_mod_eq [of k 60] by linarith
  then have split60: "int (k div 60) * 3600 + int (k mod 60) * 60 = 60 * int k" by linarith
  then have split60': "- (int (k div 60) * 3600) - int (k mod 60) * 60 = - (60 * int k)" by linarith
  show ?thesis
    using False b b' k off split60 split60' pad_parts(3) [of "k div 60"] pad_parts(3) [of "k mod 60"]
    by (auto simp: zone_text_def zoneOffset_def h pad2_def parseDigits_def Let_def digits_val_2
        digit_char_props split: if_splits)
qed

text \<open>
  C16: the parser inverts the standard text: for every valid date, time of day and zone offset in
  whole minutes, it returns the number of seconds since the epoch, with the offset taken off.
\<close>

theorem parseRfc3339_text:
  assumes "valid_date y m d" "y \<le> 9999" "h \<le> 23" "mi \<le> 59" "s \<le> 59" "\<bar>off\<bar> \<le> 86340" "off mod 60 = 0"
  shows "parseRfc3339 (rfc3339_text y m d h mi s off) =
    Inr (UtcInstant (daysFromCivil (int y) m d * 86400 + int h * 3600 + int mi * 60 + int s - off) 0)"
proof -
  let ?t = "rfc3339_text y m d h mi s off"
  have v: "1 \<le> m" "m \<le> 12" "1 \<le> y" "1 \<le> d" "d \<le> daysInMonth y m"
    using assms by (auto simp: valid_date_def)
  then have "d < 100" using daysInMonth_le [of m y] by linarith
  with assms v have lt: "m < 100" "d < 100" "h < 100" "mi < 100" "s < 100" "y < 10000" by auto
  have shape: "\<not> length ?t < 20" "?t ! 4 = CHR ''-''" "?t ! 7 = CHR ''-''" "?t ! 10 = CHR ''T''"
    "?t ! 13 = CHR '':''" "?t ! 16 = CHR '':''" "drop 19 ?t = zone_text off"
    by (simp_all add: rfc3339_text_def pad2_def pad4_def zone_text_def)
  have digits: "parseDigits ?t 0 4 = Some y" "parseDigits ?t 5 2 = Some m" "parseDigits ?t 8 2 = Some d"
    "parseDigits ?t 11 2 = Some h" "parseDigits ?t 14 2 = Some mi" "parseDigits ?t 17 2 = Some s"
    using lt by (simp_all add: parseDigits_def rfc3339_text_def pad2_def pad4_def Let_def
        digit_char_props digits_val_2 digits_val_4 pad_parts)
  have frac: "optionalFraction (zone_text off) = Some (0, zone_text off)"
    by (simp add: optionalFraction_def zone_text_def)
  show ?thesis
    using assms v by (simp add: parseRfc3339_def shape digits frac zoneOffset_text Let_def)
qed

theorem parseRfc3339_text_witness:
  "parseRfc3339 (rfc3339_text 2000 2 29 12 30 15 3600) =
    Inr (UtcInstant (daysFromCivil (int 2000) 2 29 * 86400 + int 12 * 3600 + int 30 * 60 + int 15 - 3600) 0)"
  by (rule parseRfc3339_text) (simp_all add: valid_date_def daysInMonth_def isLeapYear_def)

end
