(* ===== verification/Update_Types.thy ===== *)
theory Update_Types
  imports Versions Rfc3339
begin

text \<open>
  The plain data of the updater: configuration (\<open>Config.h\<close>, \<open>ResourceLimits.h\<close>), manifests
  (\<open>Manifest.h\<close>), apply plans (\<open>ApplyPlan.h\<close>) and the planner's types (\<open>UpdateTypes.h\<close>,
  \<open>Types.h\<close>), as records with the fields of the structures. Byte counts are 64-bit words,
  \<open>int\<close> members are \<^typ>\<open>int\<close>, \<open>std::size_t\<close> budgets that are only compared are \<^typ>\<open>nat\<close>, durations
  are \<^typ>\<open>int\<close> counts of their unit, and file system paths are their generic UTF-8 text.
\<close>

section \<open>Limits and configuration\<close>

record JsonResourceLimits =
  maxDepth :: nat
  maxNodes :: nat
  maxStringBytes :: nat
  maxNumberBytes :: nat
  maxContainerEntries :: nat

definition default_json_limits :: JsonResourceLimits where
  "default_json_limits = \<lparr>maxDepth = 64, maxNodes = 100000, maxStringBytes = 1048576, maxNumberBytes = 128,
     maxContainerEntries = 10000\<rparr>"

definition absolute_json_limits :: JsonResourceLimits where
  "absolute_json_limits = \<lparr>maxDepth = 256, maxNodes = 1000000, maxStringBytes = 16777216, maxNumberBytes = 1024,
     maxContainerEntries = 100000\<rparr>"

record ResourceLimits =
  maxIndexBytes :: u64
  maxManifestBytes :: u64
  maxSignatureBytes :: u64
  maxArtifactBytes :: u64
  maxTotalArtifactBytes :: u64
  maxApplyPlanBytes :: u64
  maxStateBytes :: u64
  limits_json :: JsonResourceLimits

definition default_limits :: ResourceLimits where
  "default_limits = \<lparr>maxIndexBytes = 1048576, maxManifestBytes = 4194304, maxSignatureBytes = 65536,
     maxArtifactBytes = 8589934592, maxTotalArtifactBytes = 34359738368, maxApplyPlanBytes = 8388608,
     maxStateBytes = 8388608, limits_json = default_json_limits\<rparr>"

record RetryOptions =
  maxRetries :: int
  retryDelay :: int

record NetworkOptions =
  connectTimeout :: int
  transferTimeout :: int
  maxRedirects :: nat
  verifyTls :: bool
  enableResume :: bool

record SecurityOptions =
  requireManifestSignature :: bool
  manifestSignatureUrl :: string
  publicKeyPem :: string
  allowedBaseUrls :: "string list"
  allowLocalFileUrls :: bool
  rejectExpiredManifest :: bool
  rejectDowngrade :: bool

datatype InstallLayout = PortableDirectory | WindowsDirectory | MacOSAppBundle | LinuxAppImage | PackageManagerOwned

record Config =
  cfg_appId :: string
  cfg_channel :: string
  cfg_platform :: string
  cfg_arch :: string
  cfg_manifestUrl :: string
  cfg_currentVersion :: Version
  cfg_clientVersion :: Version
  cfg_installDir :: string
  cfg_tempDir :: string
  cfg_updaterExecutable :: string
  cfg_restartCommand :: "string list"
  cfg_installLayout :: InstallLayout
  cfg_network :: NetworkOptions
  cfg_retry :: RetryOptions
  cfg_security :: SecurityOptions
  cfg_resources :: ResourceLimits
  cfg_managedPathWhitelist :: "string list"
  cfg_applyWaitTimeout :: int
  cfg_healthConfirmationTimeout :: int

text \<open>The member initialisers of \<open>Config.h\<close>; the version text compiled in by the build is a parameter.\<close>

definition default_config :: "string \<Rightarrow> Config" where
  "default_config build_version = \<lparr>cfg_appId = [], cfg_channel = ''stable'', cfg_platform = [], cfg_arch = [], cfg_manifestUrl = [],
     cfg_currentVersion = default_version, cfg_clientVersion = libraryVersion build_version, cfg_installDir = [], cfg_tempDir = [],
     cfg_updaterExecutable = [], cfg_restartCommand = [], cfg_installLayout = PortableDirectory,
     cfg_network = \<lparr>connectTimeout = 10000, transferTimeout = 60000, maxRedirects = 5, verifyTls = True, enableResume = True\<rparr>,
     cfg_retry = \<lparr>maxRetries = 3, retryDelay = 500\<rparr>,
     cfg_security = \<lparr>requireManifestSignature = False, manifestSignatureUrl = [], publicKeyPem = [], allowedBaseUrls = [],
       allowLocalFileUrls = False, rejectExpiredManifest = True, rejectDowngrade = True\<rparr>,
     cfg_resources = default_limits, cfg_managedPathWhitelist = [], cfg_applyWaitTimeout = 60,
     cfg_healthConfirmationTimeout = 120\<rparr>"

section \<open>Manifests\<close>

record ManifestFile =
  mf_path :: string
  mf_localPath :: string
  mf_sha256 :: string
  mf_size :: u64

record Manifest =
  m_schemaVersion :: int
  m_appId :: string
  m_channel :: string
  m_platform :: string
  m_arch :: string
  m_version :: Version
  m_releaseId :: string
  m_releaseDate :: string
  m_publishedAt :: string
  m_expiresAt :: string
  m_minVersion :: "Version option"
  m_minClientVersion :: "Version option"
  m_mandatory :: bool
  m_allowDowngrade :: bool
  m_notes :: string
  m_baseUrl :: string
  m_files :: "ManifestFile list"
  m_remove :: "string list"

record IndexTarget =
  it_platform :: string
  it_arch :: string
  it_manifestUrl :: string

record IndexManifest =
  im_schemaVersion :: int
  im_appId :: string
  im_channel :: string
  im_generatedAt :: string
  im_targets :: "IndexTarget list"

section \<open>Apply plans\<close>

datatype ApplyOperationType = Replace | Remove

datatype ApplyPlanIntent = Install | Rollback

record ApplyTransactionReference =
  ref_transactionId :: string
  ref_planDigest :: string

record ApplyOperationPrecondition =
  pre_exists :: bool
  pre_size :: u64
  pre_sha256 :: string
  pre_permissions :: "u32 option"

record ApplyOperation =
  op_type :: ApplyOperationType
  op_source :: string
  op_target :: string
  op_sha256 :: string
  op_size :: u64
  op_permissions :: "u32 option"
  op_precondition :: "ApplyOperationPrecondition option"

definition default_operation :: ApplyOperation where
  "default_operation = \<lparr>op_type = Replace, op_source = [], op_target = [], op_sha256 = [], op_size = 0,
     op_permissions = None, op_precondition = None\<rparr>"

record ApplyPlan =
  ap_schemaVersion :: int
  ap_intent :: ApplyPlanIntent
  ap_rollbackOf :: "ApplyTransactionReference option"
  ap_appId :: string
  ap_fromVersion :: string
  ap_toVersion :: string
  ap_releaseId :: string
  ap_manifestSha256 :: string
  ap_installDir :: string
  ap_stagingDir :: string
  ap_backupDir :: string
  ap_restartCommand :: "string list"
  ap_operations :: "ApplyOperation list"

section \<open>The planner's types\<close>

record CheckResult =
  cr_updateAvailable :: bool
  cr_reinstallRequired :: bool
  cr_mandatory :: bool
  cr_downgradeRejected :: bool
  cr_currentVersion :: Version
  cr_remoteVersion :: "Version option"
  cr_releaseId :: string
  cr_notes :: string

record LocalFileInfo =
  lf_path :: string
  lf_exists :: bool
  lf_sha256 :: string
  lf_size :: u64

type_synonym LocalSnapshot = "LocalFileInfo list"

record PlannedDownload =
  pd_file :: ManifestFile
  pd_url :: string
  pd_stagingPath :: string

record UpdateDecision =
  ud_checkResult :: CheckResult
  ud_downloads :: "PlannedDownload list"
  ud_operations :: "ApplyOperation list"

record ManifestEnvelope =
  env_manifest :: Manifest
  env_rawBytes :: string
  env_sha256 :: string
  env_sourceUrl :: string
  env_artifactBaseUrl :: string
  env_releaseManifestSignatureVerified :: bool

lemmas [eval_simps] = default_json_limits_def absolute_json_limits_def default_limits_def default_config_def
  default_operation_def

end
