(* ===== verification/Managed_Paths.thy ===== *)
theory Managed_Paths
  imports Prelude
begin

text \<open>
  \<open>src/util/PathUtil.cpp\<close>: validation of managed paths, the lookup key that identifies a target
  under portable file-system rules, the check of a whole target set, joining below a root
  and the whitelist.

  A \<open>std::filesystem::path\<close> is its text in generic format (forward slashes). The theorems
  say which paths are accepted, that joining an accepted path stays below the root, and that the
  scan of sorted neighbours in \<open>validateManagedTargetPaths\<close> finds every collision and every
  ancestor/descendant conflict of the set, as the comment on the lookup key claims.
\<close>

section \<open>Definitions\<close>

abbreviation backslash :: char where "backslash \<equiv> CHR 0x5C"
abbreviation slash :: char where "slash \<equiv> CHR ''/''"
abbreviation nul :: char where "nul \<equiv> CHR 0x00"

type_synonym fs_path = string

definition isAsciiLetter :: "char \<Rightarrow> bool" where
  "isAsciiLetter c \<longleftrightarrow> isAsciiUpper c \<or> isAsciiLower c"

definition hasDrivePrefix :: "string \<Rightarrow> bool" where
  "hasDrivePrefix path \<longleftrightarrow> length path \<ge> 2 \<and> isAsciiLetter (path ! 0) \<and> path ! 1 = CHR '':''"

definition startsWith :: "string \<Rightarrow> string \<Rightarrow> bool" where
  "startsWith v pre \<longleftrightarrow> length v \<ge> length pre \<and> take (length pre) v = pre"

definition isWindowsDeviceName :: "string \<Rightarrow> bool" where
  "isWindowsDeviceName segment =
     (let dot = find_char (CHR ''.'') segment;
          base = map upper_char (prefix_upto dot segment)
      in if base = ''CON'' \<or> base = ''PRN'' \<or> base = ''AUX'' \<or> base = ''NUL'' \<or> base = ''CLOCK$'' then True
         else if length base = 4 \<and> base ! 3 \<ge> CHR ''1'' \<and> base ! 3 \<le> CHR ''9''
         then take 3 base = ''COM'' \<or> take 3 base = ''LPT''
         else False)"

definition isUnsafePortableSegment :: "string \<Rightarrow> bool" where
  "isUnsafePortableSegment segment =
     (if segment = [] \<or> segment = ''.'' \<or> segment = ''..'' \<or> last segment = CHR ''.''
         \<or> last segment = CHR '' '' \<or> CHR '':'' \<in> set segment \<or> isWindowsDeviceName segment
      then True
      else list_ex (\<lambda>ch. byte_of ch < 0x20 \<or> byte_of ch = 0x7f) segment)"

definition kUpdaterState :: string where
  "kUpdaterState = ''.autoupdater''"

definition isUpdaterStateSegment :: "string \<Rightarrow> bool" where
  "isUpdaterStateSegment segment =
     (if length segment \<noteq> length kUpdaterState then False
      else list_all2 (\<lambda>character expected. lower_char character = expected) segment kUpdaterState)"

definition validateManagedPath :: "string \<Rightarrow> unit result" where
  "validateManagedPath path =
     (if path = [] then fail EC_PathTraversalRejected ''Managed path is empty''
      else if hd path = slash \<or> hd path = backslash \<or> hasDrivePrefix path
      then fail EC_PathTraversalRejected ''Managed path must be relative''
      else if backslash \<in> set path
      then fail EC_PathTraversalRejected ''Managed path must use forward slashes''
      else if list_ex isUnsafePortableSegment (split_loop slash path 0)
      then fail EC_PathTraversalRejected ''Managed path contains unsafe segment''
      else Inr ())"

definition validateManagedTargetPath :: "string \<Rightarrow> unit result" where
  "validateManagedTargetPath path =
     bindr (validateManagedPath path) (\<lambda>_.
       let separator = find_char slash path;
           firstSegment = prefix_upto separator path
       in if isUpdaterStateSegment firstSegment \<or> CHR ''~'' \<in> set firstSegment
          then fail EC_SecurityPolicyViolation
            ''Managed targets cannot use the reserved or alias-ambiguous updater namespace''
          else Inr ())"

definition key_char :: "char \<Rightarrow> char" where
  "key_char c = (if c = slash then nul else lower_char c)"

definition managedPathLookupKey :: "string \<Rightarrow> string" where
  "managedPathLookupKey path = map key_char path"

text \<open>The loop that validates each path and collects its key.\<close>

fun collect_keys :: "string list \<Rightarrow> string list result" where
  "collect_keys [] = Inr []"
| "collect_keys (path # paths) =
     bindr (validateManagedTargetPath path) (\<lambda>_.
     bindr (collect_keys paths) (\<lambda>keys. Inr (managedPathLookupKey path # keys)))"

text \<open>The loop over neighbours of the sorted keys.\<close>

fun scan_neighbours :: "string list \<Rightarrow> unit result" where
  "scan_neighbours (previous # current # keys) =
     (if previous = current
      then fail EC_SecurityPolicyViolation
        ''Managed operation targets collide under portable filesystem semantics''
      else if neighbour_ancestor nul previous current
      then fail EC_SecurityPolicyViolation
        ''Managed operation targets have an ancestor/descendant conflict''
      else scan_neighbours (current # keys))"
| "scan_neighbours _ = Inr ()"

definition validateManagedTargetPaths :: "string list \<Rightarrow> unit result" where
  "validateManagedTargetPaths paths =
     bindr (collect_keys paths) (\<lambda>keys. scan_neighbours (sort keys))"

text \<open>\<open>path::operator/=\<close>: an absolute right operand replaces the left one, otherwise a separator
  is added unless the left operand is empty or already ends with one. (A Windows drive without a
  root, such as \<open>C:\<close>, takes none; the model does not treat it apart.)\<close>

definition path_append :: "fs_path \<Rightarrow> fs_path \<Rightarrow> fs_path" where
  "path_append p q =
     (if q \<noteq> [] \<and> hd q = slash then q
      else if p = [] \<or> last p = slash then p @ q
      else p @ slash # q)"

definition safeJoin :: "fs_path \<Rightarrow> string \<Rightarrow> fs_path result" where
  "safeJoin root relativePath =
     bindr (validateManagedPath relativePath) (\<lambda>_.
       Inr (foldl path_append root (split_loop slash relativePath 0)))"

fun pathAllowedByRules :: "string \<Rightarrow> string list \<Rightarrow> bool" where
  "pathAllowedByRules path [] = False"
| "pathAllowedByRules path (rule # rules) =
     (if rule = [] then pathAllowedByRules path rules
      else if last rule = slash
      then (if startsWith path rule then True else pathAllowedByRules path rules)
      else if path = rule \<or> startsWith path (rule @ [slash]) then True
      else pathAllowedByRules path rules)"

definition pathAllowedByWhitelist :: "string \<Rightarrow> string list \<Rightarrow> bool" where
  "pathAllowedByWhitelist path whitelist =
     (if whitelist = [] then True else pathAllowedByRules path whitelist)"

definition normalizeManifestPath :: "string \<Rightarrow> string" where
  "normalizeManifestPath path =
     dropWhile (\<lambda>c. c = slash) (map (\<lambda>c. if c = backslash then slash else c) path)"

definition defaultStagingRoot :: "fs_path \<Rightarrow> fs_path" where
  "defaultStagingRoot installDir = path_append installDir kUpdaterState"

lemmas [eval_simps] = isAsciiLetter_def hasDrivePrefix_def startsWith_def isWindowsDeviceName_def
  isUnsafePortableSegment_def kUpdaterState_def isUpdaterStateSegment_def validateManagedPath_def
  validateManagedTargetPath_def key_char_def managedPathLookupKey_def validateManagedTargetPaths_def
  path_append_def safeJoin_def pathAllowedByWhitelist_def

section \<open>Accepted paths\<close>

lemma startsWith_iff: "startsWith v pre \<longleftrightarrow> (\<exists>t. v = pre @ t)"
  unfolding startsWith_def by (metis append_take_drop_id append_eq_conv_conj length_append le_add1)

lemma unsafe_segment_chars:
  "\<not> isUnsafePortableSegment seg \<Longrightarrow> c \<in> set seg \<Longrightarrow> 0x20 \<le> byte_of c \<and> byte_of c \<noteq> 0x7f \<and> c \<noteq> CHR '':''"
  by (auto simp: isUnsafePortableSegment_def list_ex_iff not_less split: if_splits)

lemma validateManagedPath_ok:
  "validateManagedPath p = Inr () \<longleftrightarrow>
     p \<noteq> [] \<and> hd p \<noteq> slash \<and> hd p \<noteq> backslash \<and> \<not> hasDrivePrefix p \<and> backslash \<notin> set p
     \<and> (\<forall>seg \<in> set (split_on slash p). \<not> isUnsafePortableSegment seg)"
  by (auto simp: validateManagedPath_def split_loop_split_on list_ex_iff)

lemma validateManagedPath_unit: "validateManagedPath p = Inr u \<longleftrightarrow> validateManagedPath p = Inr ()"
  by simp

lemma set_split_on: "set s \<subseteq> insert d (\<Union> (set ` set (split_on d s)))"
proof (induction s)
  case (Cons c s)
  then show ?case by (cases "split_on d s") auto
qed simp

lemma valid_path_chars:
  assumes "validateManagedPath p = Inr ()" "c \<in> set p"
  shows "0x20 \<le> byte_of c" "byte_of c \<noteq> 0x7f" "c \<noteq> CHR '':''" "c \<noteq> backslash"
proof -
  have "c = slash \<or> (\<exists>seg \<in> set (split_on slash p). c \<in> set seg)"
    using set_split_on [of p slash] assms(2) by auto
  then have "0x20 \<le> byte_of c \<and> byte_of c \<noteq> 0x7f \<and> c \<noteq> CHR '':''"
    using assms(1) unsafe_segment_chars by (auto simp: validateManagedPath_ok)
  then show "0x20 \<le> byte_of c" "byte_of c \<noteq> 0x7f" "c \<noteq> CHR '':''" by auto
  show "c \<noteq> backslash" using assms by (auto simp: validateManagedPath_ok)
qed

lemma valid_path_nul: "validateManagedPath p = Inr () \<Longrightarrow> nul \<notin> set p"
  using valid_path_chars(1) [of p nul] by auto

section \<open>Lookup keys\<close>

text \<open>Two paths name the same portable target when they agree up to ASCII case.\<close>

definition same_portable_path :: "string \<Rightarrow> string \<Rightarrow> bool" where
  "same_portable_path p q \<longleftrightarrow> map lower_char p = map lower_char q"

definition portable_ancestor :: "string \<Rightarrow> string \<Rightarrow> bool" where
  "portable_ancestor p q \<longleftrightarrow> (\<exists>r. map lower_char q = map lower_char p @ slash # r)"

lemma lower_char_special: "lower_char c = nul \<longleftrightarrow> c = nul" "lower_char c = slash \<longleftrightarrow> c = slash"
proof -
  have "byte_of (lower_char c) = (if 65 \<le> byte_of c \<and> byte_of c \<le> 90 then byte_of c + 32 else byte_of c)"
    by (simp add: lower_char_def isAsciiUpper_def less_eq_char_def)
  then show "lower_char c = nul \<longleftrightarrow> c = nul" "lower_char c = slash \<longleftrightarrow> c = slash"
    by (simp_all add: char_eq_byte del: of_char_eq_iff)
qed

definition slash_to_nul :: "char \<Rightarrow> char" where
  "slash_to_nul c = (if c = slash then nul else c)"

lemma key_char_alt: "key_char c = slash_to_nul (lower_char c)"
  by (simp add: key_char_def slash_to_nul_def lower_char_special)

lemma key_alt: "managedPathLookupKey p = map slash_to_nul (map lower_char p)"
  by (simp add: managedPathLookupKey_def key_char_alt)

lemma slash_to_nul_inj: "inj_on slash_to_nul (- {nul})"
  by (auto simp: inj_on_def slash_to_nul_def)

lemma lower_no_nul: "nul \<notin> set p \<Longrightarrow> nul \<notin> set (map lower_char p)"
  by (auto simp: lower_char_special dest!: sym [of nul])

lemma key_eq_iff:
  assumes "nul \<notin> set p" "nul \<notin> set q"
  shows "managedPathLookupKey p = managedPathLookupKey q \<longleftrightarrow> same_portable_path p q"
proof -
  have "inj_on slash_to_nul (set (map lower_char p) \<union> set (map lower_char q))"
    using lower_no_nul [OF assms(1)] lower_no_nul [OF assms(2)]
    by (intro inj_on_subset [OF slash_to_nul_inj]) auto
  then show ?thesis
    unfolding key_alt same_portable_path_def by (rule inj_on_map_eq_map)
qed

lemma key_ancestor_iff:
  assumes "nul \<notin> set p" "nul \<notin> set q"
  shows "key_ancestor nul (managedPathLookupKey p) (managedPathLookupKey q) \<longleftrightarrow> portable_ancestor p q"
proof
  assume "portable_ancestor p q"
  then obtain r where "map lower_char q = map lower_char p @ slash # r"
    by (auto simp: portable_ancestor_def)
  then show "key_ancestor nul (managedPathLookupKey p) (managedPathLookupKey q)"
    by (auto simp: key_ancestor_def key_alt slash_to_nul_def simp del: map_map)
next
  assume "key_ancestor nul (managedPathLookupKey p) (managedPathLookupKey q)"
  then obtain r where "managedPathLookupKey q = managedPathLookupKey p @ nul # r"
    by (auto simp: key_ancestor_def)
  then obtain q1 c q2 where q: "q = q1 @ c # q2" and k: "managedPathLookupKey q1 = managedPathLookupKey p"
      and c: "key_char c = nul"
    by (auto simp: managedPathLookupKey_def map_eq_append_conv)
  have "c \<noteq> nul" using assms(2) q by auto
  with c have "c = slash" by (auto simp: key_char_def lower_char_special split: if_splits)
  moreover have "same_portable_path q1 p"
    using key_eq_iff [of q1 p] k assms q by auto
  ultimately show "portable_ancestor p q"
    by (auto simp: portable_ancestor_def same_portable_path_def q lower_char_special)
qed


section \<open>Target sets\<close>

lemma validateManagedTargetPath_valid:
  "validateManagedTargetPath p = Inr u \<Longrightarrow> validateManagedPath p = Inr ()"
  by (auto simp: validateManagedTargetPath_def)

lemma collect_keys_Inr:
  "collect_keys ps = Inr ks \<longleftrightarrow>
     (\<forall>p \<in> set ps. validateManagedTargetPath p = Inr ()) \<and> ks = map managedPathLookupKey ps"
  by (induction ps arbitrary: ks) auto

lemma scan_neighbours_ok: "scan_neighbours ks = Inr () \<longleftrightarrow> adjacent_ok nul ks"
  by (induction ks rule: scan_neighbours.induct) auto

lemma nul_least: "nul \<le> c"
  by (simp add: less_eq_char_def)

lemma adjacent_sorted_iff:
  "adjacent_ok nul (sort ks) \<longleftrightarrow>
     distinct ks \<and> (\<forall>a \<in> set ks. \<forall>b \<in> set ks. \<not> key_ancestor nul a b)"
proof
  assume "adjacent_ok nul (sort ks)"
  with adjacent_ok_sound [of nul "sort ks"] show
    "distinct ks \<and> (\<forall>a \<in> set ks. \<forall>b \<in> set ks. \<not> key_ancestor nul a b)"
    by (simp add: nul_least)
next
  assume "distinct ks \<and> (\<forall>a \<in> set ks. \<forall>b \<in> set ks. \<not> key_ancestor nul a b)"
  then show "adjacent_ok nul (sort ks)" by (intro adjacent_ok_complete) auto
qed

lemma validateManagedTargetPaths_keys:
  "validateManagedTargetPaths ps = Inr () \<longleftrightarrow>
     (\<forall>p \<in> set ps. validateManagedTargetPath p = Inr ())
     \<and> distinct (map managedPathLookupKey ps)
     \<and> (\<forall>p \<in> set ps. \<forall>q \<in> set ps.
          \<not> key_ancestor nul (managedPathLookupKey p) (managedPathLookupKey q))"
  by (auto simp: validateManagedTargetPaths_def collect_keys_Inr scan_neighbours_ok adjacent_sorted_iff)

lemma distinct_map_conv_nth:
  "distinct (map f xs) \<longleftrightarrow> (\<forall>i < length xs. \<forall>j < length xs. i \<noteq> j \<longrightarrow> f (xs ! i) \<noteq> f (xs ! j))"
  by (simp add: distinct_conv_nth)

text \<open>
  C10: a target set is accepted exactly when every target is a valid managed target, no two entries
  name the same target up to ASCII case, and no target is a directory above another one up to
  ASCII case. The source only compares neighbours after sorting by lookup key; this shows the scan
  misses no conflict.
\<close>

theorem validateManagedTargetPaths_iff:
  "validateManagedTargetPaths ps = Inr () \<longleftrightarrow>
     (\<forall>p \<in> set ps. validateManagedTargetPath p = Inr ())
     \<and> (\<forall>i < length ps. \<forall>j < length ps. i \<noteq> j \<longrightarrow> \<not> same_portable_path (ps ! i) (ps ! j))
     \<and> (\<forall>p \<in> set ps. \<forall>q \<in> set ps. \<not> portable_ancestor p q)"
proof (cases "\<forall>p \<in> set ps. validateManagedTargetPath p = Inr ()")
  case True
  then have n: "nul \<notin> set p" if "p \<in> set ps" for p
    using that validateManagedTargetPath_valid valid_path_nul by blast
  have "distinct (map managedPathLookupKey ps) \<longleftrightarrow>
      (\<forall>i < length ps. \<forall>j < length ps. i \<noteq> j \<longrightarrow> \<not> same_portable_path (ps ! i) (ps ! j))"
    using n by (simp add: distinct_map_conv_nth key_eq_iff)
  moreover have "(\<forall>p \<in> set ps. \<forall>q \<in> set ps.
        \<not> key_ancestor nul (managedPathLookupKey p) (managedPathLookupKey q)) \<longleftrightarrow>
      (\<forall>p \<in> set ps. \<forall>q \<in> set ps. \<not> portable_ancestor p q)"
    using n by (simp add: key_ancestor_iff)
  ultimately show ?thesis by (simp add: validateManagedTargetPaths_keys)
qed (auto simp: validateManagedTargetPaths_keys)

theorem validateManagedTargetPaths_iff_witness:
  "validateManagedTargetPaths [''bin/app'', ''bin-x'', ''data/a'', ''Data2''] = Inr ()
   \<and> validateManagedTargetPaths [''lib'', ''lib!x'', ''LIB/core''] \<noteq> Inr ()"
proof -
  have a: "validateManagedTargetPaths [''bin/app'', ''bin-x'', ''data/a'', ''Data2''] = Inr ()"
    by (simp add: eval_simps neighbour_ancestor_def)
  have "portable_ancestor ''lib'' ''LIB/core''"
    by (auto simp: portable_ancestor_def eval_simps)
  then have "validateManagedTargetPaths [''lib'', ''lib!x'', ''LIB/core''] \<noteq> Inr ()"
    using validateManagedTargetPaths_iff [of "[''lib'', ''lib!x'', ''LIB/core'']"] by auto
  with a show ?thesis by blast
qed

text \<open>
  C11: an accepted target lies outside the updater's own state directory on every platform: its
  first segment is not \<open>.autoupdater\<close> in any ASCII case and holds no tilde (an 8.3 alias).
\<close>

theorem managed_target_avoids_state:
  assumes "validateManagedTargetPath p = Inr ()"
  shows "map lower_char (hd (split_on slash p)) \<noteq> kUpdaterState \<and> CHR ''~'' \<notin> set (hd (split_on slash p))"
proof -
  have first: "prefix_upto (find_char slash p) p = hd (split_on slash p)"
  proof (cases "find_char slash p")
    case None
    then have "slash \<notin> set p" by (simp add: find_char_None)
    with None show ?thesis by (simp add: prefix_upto_def split_on_none)
  next
    case (Some i)
    then have "slash \<notin> set (take i p)" by (simp add: find_char_Some)
    then have "hd (split_on slash (take i p @ slash # drop (Suc i) p)) = take i p"
      by (simp add: split_on_append)
    with Some show ?thesis by (simp add: prefix_upto_def find_char_split [OF Some, symmetric])
  qed
  have "isUpdaterStateSegment seg" if "map lower_char seg = kUpdaterState" for seg
  proof -
    have "length seg = length kUpdaterState" using that by (metis length_map)
    moreover have "list_all2 (\<lambda>c e. lower_char c = e) seg (map lower_char seg)"
      by (simp add: list_all2_map2 list.rel_refl)
    ultimately show ?thesis using that by (simp add: isUpdaterStateSegment_def)
  qed
  with assms first show ?thesis by (auto simp: validateManagedTargetPath_def Let_def split: if_splits)
qed

theorem managed_target_avoids_state_witness:
  "map lower_char (hd (split_on slash ''bin/.autoupdater'')) \<noteq> kUpdaterState
   \<and> CHR ''~'' \<notin> set (hd (split_on slash ''bin/.autoupdater''))"
  by (rule managed_target_avoids_state) (simp add: eval_simps)

section \<open>Joining below a root\<close>

lemma unsafe_segment_basic:
  "\<not> isUnsafePortableSegment seg \<Longrightarrow> seg \<noteq> [] \<and> seg \<noteq> ''.'' \<and> seg \<noteq> ''..''"
  by (auto simp: isUnsafePortableSegment_def split: if_splits)

lemma path_append_segment:
  assumes "p \<noteq> []" "last p \<noteq> slash" "seg \<noteq> []" "slash \<notin> set seg"
  shows "path_append p seg = p @ slash # seg" and "last (path_append p seg) \<noteq> slash"
proof -
  have "hd seg \<noteq> slash" "last seg \<noteq> slash" using assms(3,4) by (auto dest: hd_in_set last_in_set)
  with assms show "path_append p seg = p @ slash # seg" "last (path_append p seg) \<noteq> slash"
    by (simp_all add: path_append_def)
qed

lemma foldl_path_append:
  assumes "p \<noteq> []" "last p \<noteq> slash" "segs \<noteq> []"
    "\<And>seg. seg \<in> set segs \<Longrightarrow> seg \<noteq> [] \<and> slash \<notin> set seg"
  shows "foldl path_append p segs = p @ slash # join_on slash segs"
  using assms
proof (induction slash segs arbitrary: p rule: join_on.induct)
  case (2 seg)
  then show ?case by (simp add: path_append_segment)
next
  case (3 seg t ts)
  have "path_append p seg = p @ slash # seg" "last (path_append p seg) \<noteq> slash"
    using path_append_segment [of p seg] 3(2-) by auto
  with 3 show ?case by simp
qed simp

text \<open>
  C12: when \<open>safeJoin\<close> succeeds on a root without trailing separator, the result is the root, a
  separator and the relative path, and no segment below the root is empty, \<open>.\<close> or \<open>..\<close>, holds a
  separator or a drive colon: the joined path cannot leave the root.
\<close>

theorem safeJoin_below_root:
  assumes "root \<noteq> []" "last root \<noteq> slash" "safeJoin root p = Inr q"
  shows "q = root @ slash # p
    \<and> split_on slash q = split_on slash root @ split_on slash p
    \<and> (\<forall>seg \<in> set (split_on slash p).
         seg \<noteq> [] \<and> seg \<noteq> ''.'' \<and> seg \<noteq> ''..'' \<and> backslash \<notin> set seg \<and> CHR '':'' \<notin> set seg)"
proof -
  have v: "validateManagedPath p = Inr ()"
    and q: "q = foldl path_append root (split_on slash p)"
    using assms(3) by (auto simp: safeJoin_def split_loop_split_on)
  have safe: "\<not> isUnsafePortableSegment seg" if "seg \<in> set (split_on slash p)" for seg
    using v that by (simp add: validateManagedPath_ok)
  have "seg \<noteq> [] \<and> slash \<notin> set seg" if "seg \<in> set (split_on slash p)" for seg
    using that safe unsafe_segment_basic split_on_parts by blast
  then have "q = root @ slash # p"
    using foldl_path_append [of root "split_on slash p"] assms(1,2) q by simp
  moreover have "seg \<noteq> [] \<and> seg \<noteq> ''.'' \<and> seg \<noteq> ''..'' \<and> backslash \<notin> set seg \<and> CHR '':'' \<notin> set seg"
    if "seg \<in> set (split_on slash p)" for seg
    using that safe [OF that] unsafe_segment_basic valid_path_chars(3,4) [OF v] split_on_set
    by blast
  ultimately show ?thesis by (simp add: split_on_append_gen)
qed

theorem safeJoin_below_root_witness:
  "safeJoin ''/opt/app'' ''bin/tool'' = Inr ''/opt/app/bin/tool''
    \<and> split_on slash ''/opt/app/bin/tool'' = split_on slash ''/opt/app'' @ split_on slash ''bin/tool''"
proof -
  have ok: "safeJoin ''/opt/app'' ''bin/tool'' = Inr ''/opt/app/bin/tool''" by (simp add: eval_simps)
  have root: "''/opt/app'' \<noteq> []" "last ''/opt/app'' \<noteq> slash" by simp_all
  from safeJoin_below_root [OF root ok] ok show ?thesis by blast
qed

section \<open>Whitelist\<close>

lemma pathAllowedByRules_iff:
  "pathAllowedByRules path rules \<longleftrightarrow>
     (\<exists>rule \<in> set rules. rule \<noteq> [] \<and>
        (if last rule = slash then startsWith path rule
         else path = rule \<or> startsWith path (rule @ [slash])))"
  by (induction rules) auto

lemma startsWith_slash_parts:
  "startsWith path (dir @ [slash]) \<longleftrightarrow> strict_prefix (split_on slash dir) (split_on slash path)"
  unfolding startsWith_iff by (simp flip: continues_iff_parts)

text \<open>
  C13: the whitelist is decided on whole path segments: with a non-empty list, a path is allowed
  exactly when a rule \<open>dir/\<close> names a proper ancestor of it or a rule without trailing slash names
  the path itself or an ancestor. A rule never matches part of a segment.
\<close>

theorem pathAllowedByWhitelist_segments:
  "pathAllowedByWhitelist path whitelist \<longleftrightarrow>
     whitelist = []
     \<or> (\<exists>dir. dir @ [slash] \<in> set whitelist \<and> strict_prefix (split_on slash dir) (split_on slash path))
     \<or> (\<exists>rule \<in> set whitelist. rule \<noteq> [] \<and> last rule \<noteq> slash
          \<and> prefix (split_on slash rule) (split_on slash path))"
proof -
  have dir: "(\<exists>rule \<in> set whitelist. rule \<noteq> [] \<and> last rule = slash \<and> startsWith path rule) \<longleftrightarrow>
      (\<exists>dir. dir @ [slash] \<in> set whitelist \<and> strict_prefix (split_on slash dir) (split_on slash path))"
    by (metis append_butlast_last_id snoc_eq_iff_butlast startsWith_slash_parts)
  have exact: "(path = rule \<or> startsWith path (rule @ [slash])) \<longleftrightarrow>
      prefix (split_on slash rule) (split_on slash path)" for rule
    unfolding startsWith_iff by (simp flip: boundary_iff_parts)
  show ?thesis
    unfolding pathAllowedByWhitelist_def pathAllowedByRules_iff dir [symmetric]
    using exact by auto
qed

end
