(* ===== verification/Urls.thy ===== *)
theory Urls
  imports Managed_Paths
begin

text \<open>
  \<open>src/util/UrlUtil.h\<close> and \<open>UrlUtil.cpp\<close>: the strict URL parser, its canonical form, reference
  resolution and the encoding of artifact paths. This theory holds the definitions, in the
  order of the source; the theorems are in \<open>Url_Facts\<close>.

  Addresses are lists of byte values (\<^typ>\<open>nat\<close>, below 256), ports are \<^typ>\<open>nat\<close>; the accumulating
  loops of the source leave early before an \<open>unsigned int\<close> could wrap, and so do these.
  Index loops over a text run over its characters or over its parts at the delimiter.
\<close>

unbundle bit_operations_syntax

section \<open>Characters and percent escapes\<close>

definition invalidUrl :: "string \<Rightarrow> 'a result" where
  "invalidUrl message = fail EC_SecurityPolicyViolation message"

definition isControlOrSpace :: "char \<Rightarrow> bool" where
  "isControlOrSpace ch \<longleftrightarrow> byte_of ch \<le> 0x20 \<or> byte_of ch = 0x7f"

definition isControl :: "char \<Rightarrow> bool" where
  "isControl ch \<longleftrightarrow> byte_of ch < 0x20 \<or> byte_of ch = 0x7f"

definition hexValue :: "char \<Rightarrow> int" where
  "hexValue ch =
     (if CHR ''0'' \<le> ch \<and> ch \<le> CHR ''9'' then int (byte_of ch) - 48
      else if CHR ''a'' \<le> ch \<and> ch \<le> CHR ''f'' then 10 + (int (byte_of ch) - 97)
      else if CHR ''A'' \<le> ch \<and> ch \<le> CHR ''F'' then 10 + (int (byte_of ch) - 65)
      else -1)"

definition upperHex :: "nat \<Rightarrow> char" where
  "upperHex v = ''0123456789ABCDEF'' ! (v mod 16)"

definition isUnreserved :: "char \<Rightarrow> bool" where
  "isUnreserved ch \<longleftrightarrow>
     (CHR ''A'' \<le> ch \<and> ch \<le> CHR ''Z'') \<or> (CHR ''a'' \<le> ch \<and> ch \<le> CHR ''z'') \<or> (CHR ''0'' \<le> ch \<and> ch \<le> CHR ''9'')
     \<or> ch = CHR ''-'' \<or> ch = CHR ''.'' \<or> ch = CHR ''_'' \<or> ch = CHR ''~''"

definition isSubDelimiter :: "char \<Rightarrow> bool" where
  "isSubDelimiter ch \<longleftrightarrow> ch \<in> {CHR ''!'', CHR ''$'', CHR ''&'', CHR 0x27, CHR ''('', CHR '')'', CHR ''*'',
     CHR ''+'', CHR '','', CHR '';'', CHR ''=''}"

datatype UriComponent = PathSegment | Query

definition isAllowedRawCharacter :: "char \<Rightarrow> UriComponent \<Rightarrow> bool" where
  "isAllowedRawCharacter ch component =
     (if isUnreserved ch \<or> isSubDelimiter ch \<or> ch = CHR '':'' \<or> ch = CHR ''@'' then True
      else component = Query \<and> (ch = slash \<or> ch = CHR ''?''))"

definition isAsciiAlpha :: "char \<Rightarrow> bool" where
  "isAsciiAlpha ch \<longleftrightarrow> (CHR ''A'' \<le> ch \<and> ch \<le> CHR ''Z'') \<or> (CHR ''a'' \<le> ch \<and> ch \<le> CHR ''z'')"

definition isAsciiAlnum :: "char \<Rightarrow> bool" where
  "isAsciiAlnum ch \<longleftrightarrow> isAsciiAlpha ch \<or> isAsciiDigit ch"

definition lowerAscii :: "string \<Rightarrow> string" where
  "lowerAscii v = map lower_char v"

definition equalsAsciiCaseInsensitive :: "string \<Rightarrow> string \<Rightarrow> bool" where
  "equalsAsciiCaseInsensitive left right =
     (if length left \<noteq> length right then False
      else list_all2 (\<lambda>l r. lower_char l = lower_char r) left right)"

text \<open>The characters every URL text is rejected for.\<close>

definition forbiddenUrlChar :: "char \<Rightarrow> bool" where
  "forbiddenUrlChar ch \<longleftrightarrow> isControlOrSpace ch \<or> ch = backslash \<or> byte_of ch \<ge> 0x80"

fun normalizePercentEncoded :: "string \<Rightarrow> UriComponent \<Rightarrow> string result" where
  "normalizePercentEncoded [] component = Inr []"
| "normalizePercentEncoded (raw # rest) component =
     (if forbiddenUrlChar raw
      then invalidUrl ''URL contains whitespace, control characters, or backslashes''
      else if raw \<noteq> CHR ''%''
      then (if \<not> isAllowedRawCharacter raw component
            then invalidUrl ''URL contains a character not allowed in this URI component''
            else bindr (normalizePercentEncoded rest component) (\<lambda>output. Inr (raw # output)))
      else (case rest of
              h # l # rest' \<Rightarrow>
                (let high = hexValue h; low = hexValue l
                 in if high < 0 \<or> low < 0 then invalidUrl ''URL contains an invalid percent escape''
                    else
                      let decoded = char_of (nat (high * 16 + low))
                      in if isControl decoded \<or> decoded = backslash
                            \<or> (component = PathSegment \<and> decoded = slash)
                         then invalidUrl ''URL contains an encoded separator or control character''
                         else bindr (normalizePercentEncoded rest' component) (\<lambda>output.
                           Inr (if isUnreserved decoded then decoded # output
                                else CHR ''%'' # upperHex (nat high) # upperHex (nat low) # output)))
            | _ \<Rightarrow> invalidUrl ''URL contains an incomplete percent escape''))"

fun containsEncodedDot :: "string \<Rightarrow> bool" where
  "containsEncodedDot (a # b # c # rest) \<longleftrightarrow>
     (a = CHR ''%'' \<and> hexValue b = 2 \<and> hexValue c = 14) \<or> containsEncodedDot (b # c # rest)"
| "containsEncodedDot _ \<longleftrightarrow> False"

text \<open>The loop over the raw segments; \<open>segments\<close> is the stack built so far and an empty
  remainder is \<open>end == npos\<close>.\<close>

fun normalizeSegments :: "string list \<Rightarrow> string list \<Rightarrow> string list result" where
  "normalizeSegments [] segments = Inr segments"
| "normalizeSegments (rawSegment # rest) segments =
     bindr (normalizePercentEncoded rawSegment PathSegment) (\<lambda>normalized.
       if (normalized = ''.'' \<or> normalized = ''..'') \<and> containsEncodedDot rawSegment
       then invalidUrl ''URL contains a percent-encoded dot segment''
       else if normalized = ''.''
       then normalizeSegments rest (if rest = [] then segments @ [[]] else segments)
       else if normalized = ''..''
       then (if segments = [] then invalidUrl ''URL path escapes above its root''
             else normalizeSegments rest (butlast segments @ (if rest = [] then [[]] else [])))
       else normalizeSegments rest (segments @ [normalized]))"

definition normalizePath :: "string \<Rightarrow> string result" where
  "normalizePath rawPath =
     (if rawPath = [] \<or> hd rawPath \<noteq> slash then invalidUrl ''URL path must be absolute''
      else bindr (normalizeSegments (split_loop slash rawPath 1) []) (\<lambda>segments.
        Inr (slash # join_on slash segments)))"

section \<open>Addresses and hosts\<close>

fun octet_loop :: "nat \<Rightarrow> string \<Rightarrow> nat option" where
  "octet_loop v [] = Some v"
| "octet_loop v (ch # rest) =
     (if \<not> isAsciiDigit ch then None
      else let v' = v * 10 + digit_val ch in if v' > 255 then None else octet_loop v' rest)"

definition ipv4Octet :: "string \<Rightarrow> nat option" where
  "ipv4Octet token =
     (if token = [] \<or> (length token > 1 \<and> hd token = CHR ''0'') then None else octet_loop 0 token)"

definition parseCanonicalIpv4 :: "string \<Rightarrow> nat list option" where
  "parseCanonicalIpv4 t =
     (case split_loop (CHR ''.'') t 0 of
        [a, b, c, d] \<Rightarrow>
          (case (ipv4Octet a, ipv4Octet b, ipv4Octet c, ipv4Octet d) of
             (Some w, Some x, Some y, Some z) \<Rightarrow> Some [w, x, y, z]
           | _ \<Rightarrow> None)
      | _ \<Rightarrow> None)"

definition isPublicIpv4 :: "nat list \<Rightarrow> bool" where
  "isPublicIpv4 ip =
     (let a = ip ! 0; b = ip ! 1; c = ip ! 2
      in if a = 0 \<or> a = 10 \<or> a = 127 \<or> a \<ge> 224 then False
         else if a = 100 \<and> b \<ge> 64 \<and> b \<le> 127 then False
         else if a = 169 \<and> b = 254 then False
         else if a = 172 \<and> b \<ge> 16 \<and> b \<le> 31 then False
         else if a = 192 \<and> (b = 0 \<or> b = 168 \<or> (b = 0 \<and> c = 2)) then False
         else if a = 198 \<and> (b = 18 \<or> b = 19 \<or> (b = 51 \<and> c = 100)) then False
         else if a = 203 \<and> b = 0 \<and> c = 113 then False
         else True)"

fun hex_group :: "nat \<Rightarrow> string \<Rightarrow> nat option" where
  "hex_group v [] = Some v"
| "hex_group v (ch # rest) =
     (if hexValue ch < 0 then None else hex_group (v * 16 + nat (hexValue ch)) rest)"

text \<open>The groups of one side of a compressed address; an empty remainder is \<open>end == npos\<close>.\<close>

fun ipv6Tokens :: "string list \<Rightarrow> bool \<Rightarrow> nat list option" where
  "ipv6Tokens [] ipv4MayAppear = Some []"
| "ipv6Tokens (token # rest) ipv4MayAppear =
     (if token = [] then None
      else if CHR ''.'' \<in> set token
      then (if \<not> ipv4MayAppear \<or> rest \<noteq> [] then None
            else (case parseCanonicalIpv4 token of
                    Some [w, x, y, z] \<Rightarrow> Some [w * 256 + x, y * 256 + z]
                  | _ \<Rightarrow> None))
      else if length token > 4 then None
      else (case hex_group 0 token of
              None \<Rightarrow> None
            | Some g \<Rightarrow> map_option (\<lambda>gs. g # gs) (ipv6Tokens rest ipv4MayAppear)))"

definition parseIpv6Side :: "string \<Rightarrow> bool \<Rightarrow> nat list option" where
  "parseIpv6Side side ipv4MayAppear =
     (if side = [] then Some [] else ipv6Tokens (split_loop (CHR '':'') side 0) ipv4MayAppear)"

fun find_dcolon :: "string \<Rightarrow> nat option" where
  "find_dcolon (a # b # rest) =
     (if a = CHR '':'' \<and> b = CHR '':'' then Some 0 else map_option Suc (find_dcolon (b # rest)))"
| "find_dcolon _ = None"

definition parseIpv6 :: "string \<Rightarrow> nat list option" where
  "parseIpv6 t =
     (if t = [] \<or> CHR ''%'' \<in> set t then None
      else
        (case find_dcolon t of
           None \<Rightarrow>
             (case parseIpv6Side t True of
                None \<Rightarrow> None
              | Some left \<Rightarrow> if length left \<noteq> 8 then None
                  else Some (concat (map (\<lambda>g. [g div 256, g mod 256]) left)))
         | Some compressed \<Rightarrow>
             if find_dcolon (drop (compressed + 2) t) \<noteq> None then None
             else
               (case (parseIpv6Side (take compressed t) False, parseIpv6Side (drop (compressed + 2) t) True) of
                  (Some left, Some right) \<Rightarrow>
                    if length left + length right \<ge> 8 then None
                    else Some (concat (map (\<lambda>g. [g div 256, g mod 256])
                           (left @ replicate (8 - length left - length right) 0 @ right)))
                | _ \<Rightarrow> None)))"

definition isPublicIpv6 :: "nat list \<Rightarrow> bool" where
  "isPublicIpv6 ip =
     (if (ip ! 0) AND 0xe0 \<noteq> 0x20 then False
      else if ip ! 0 = 0x20 \<and> ip ! 1 = 0x01 \<and> ip ! 2 = 0x0d \<and> ip ! 3 = 0xb8 then False
      else True)"

text \<open>\<open>std::hex\<close> output of an unsigned value.\<close>

definition lower_hex_digit :: "nat \<Rightarrow> char" where
  "lower_hex_digit d = ''0123456789abcdef'' ! (d mod 16)"

fun hex_text :: "nat \<Rightarrow> string" where
  "hex_text n = (if n < 16 then [lower_hex_digit n] else hex_text (n div 16) @ [lower_hex_digit (n mod 16)])"

declare hex_text.simps [simp del]

definition canonicalIpv6 :: "nat list \<Rightarrow> string" where
  "canonicalIpv6 ip =
     join_on (CHR '':'') (map (\<lambda>i. hex_text (ip ! (i * 2) * 256 + ip ! (i * 2 + 1))) [0, 1, 2, 3, 4, 5, 6, 7])"

fun port_loop :: "nat \<Rightarrow> string \<Rightarrow> nat result" where
  "port_loop v [] = Inr v"
| "port_loop v (ch # rest) =
     (if \<not> isAsciiDigit ch then invalidUrl ''URL port is not numeric''
      else let v' = v * 10 + digit_val ch
           in if v' > 65535 then invalidUrl ''URL port is out of range'' else port_loop v' rest)"

definition parsePort :: "string \<Rightarrow> nat result" where
  "parsePort t =
     (if t = [] then invalidUrl ''URL contains an empty port''
      else bindr (port_loop 0 t) (\<lambda>v.
        if v = 0 then invalidUrl ''URL port must be non-zero'' else Inr v))"

definition invalidDnsLabel :: "string \<Rightarrow> bool" where
  "invalidDnsLabel label \<longleftrightarrow>
     label = [] \<or> length label > 63 \<or> hd label = CHR ''-'' \<or> last label = CHR ''-''
     \<or> \<not> list_all (\<lambda>ch. isAsciiAlnum ch \<or> ch = CHR ''-'') label"

definition ipv4_text :: "nat list \<Rightarrow> string" where
  "ipv4_text ip =
     decimal_text (ip ! 0) @ ''.'' @ decimal_text (ip ! 1) @ ''.'' @ decimal_text (ip ! 2) @ ''.'' @ decimal_text (ip ! 3)"

text \<open>The checks on a DNS name or an IPv4 address once it is in lower case and has lost its
  trailing dot.\<close>

definition checkedHost :: "string \<Rightarrow> (string \<times> bool) result" where
  "checkedHost host =
     (if host = [] \<or> host = ''localhost''
         \<or> (length host > 10 \<and> drop (length host - 10) host = ''.localhost'')
      then invalidUrl ''Localhost URLs are not allowed''
      else if list_all (\<lambda>ch. isAsciiDigit ch \<or> ch = CHR ''.'') host
      then (case parseCanonicalIpv4 host of
              None \<Rightarrow> invalidUrl ''URL contains a non-public, ambiguous, or invalid IPv4 literal''
            | Some address \<Rightarrow>
                if \<not> isPublicIpv4 address
                then invalidUrl ''URL contains a non-public, ambiguous, or invalid IPv4 literal''
                else Inr (ipv4_text address, False))
      else if isAsciiDigit (hd host)
         \<and> list_all (\<lambda>ch. isAsciiDigit ch \<or> (CHR ''a'' \<le> ch \<and> ch \<le> CHR ''f'') \<or> ch = CHR ''x''
               \<or> ch = CHR ''.'') host
      then invalidUrl ''URL contains an ambiguous numeric host''
      else if length host > 253 then invalidUrl ''URL host is too long''
      else if list_ex invalidDnsLabel (split_loop (CHR ''.'') host 0)
      then invalidUrl ''URL host contains an invalid DNS label''
      else Inr (host, False))"

definition normalizeHost :: "string \<Rightarrow> (string \<times> bool) result" where
  "normalizeHost rawHost =
     (if rawHost = [] then invalidUrl ''URL host is empty''
      else if hd rawHost = CHR ''[''
      then (if length rawHost < 3 \<or> last rawHost \<noteq> CHR '']''
            then invalidUrl ''URL contains an invalid IPv6 literal''
            else (case parseIpv6 (take (length rawHost - 2) (drop 1 rawHost)) of
                    None \<Rightarrow> invalidUrl ''URL contains a non-public or invalid IPv6 literal''
                  | Some address \<Rightarrow>
                      if \<not> isPublicIpv6 address
                      then invalidUrl ''URL contains a non-public or invalid IPv6 literal''
                      else Inr (canonicalIpv6 address, True)))
      else if list_ex (\<lambda>ch. byte_of ch \<ge> 0x80 \<or> isControlOrSpace ch) rawHost
      then invalidUrl ''URL host must use ASCII DNS syntax''
      else
        let lowered = lowerAscii rawHost
        in checkedHost (if lowered \<noteq> [] \<and> last lowered = CHR ''.'' then butlast lowered else lowered))"

section \<open>Parsed URLs\<close>

datatype UrlScheme = Http | Https | File

record ParsedUrl =
  url_scheme :: UrlScheme
  url_host :: string
  url_port :: nat
  url_ipv6Host :: bool
  url_path :: string
  url_query :: string
  url_hasQuery :: bool
  url_canonical :: string

fun schemeName :: "UrlScheme \<Rightarrow> string" where
  "schemeName Http = ''http''"
| "schemeName Https = ''https''"
| "schemeName File = ''file''"

definition defaultPort :: "UrlScheme \<Rightarrow> nat" where
  "defaultPort scheme = (if scheme = Https then 443 else (if scheme = Http then 80 else 0))"

fun validateFileUrlPath :: "platform \<Rightarrow> string \<Rightarrow> unit result" where
  "validateFileUrlPath Win32 path =
     (if length path < 4 \<or> path ! 0 \<noteq> slash \<or> \<not> isAsciiAlpha (path ! 1) \<or> path ! 2 \<noteq> CHR '':''
         \<or> path ! 3 \<noteq> slash
      then invalidUrl ''Windows file URLs must contain an absolute drive path''
      else Inr ())"
| "validateFileUrlPath Posix path = Inr ()"

text \<open>\<open>serialize(url)\<close> with the query included, the only way the source calls it.\<close>

definition serialize :: "ParsedUrl \<Rightarrow> string" where
  "serialize url =
     schemeName (url_scheme url) @ ''://''
     @ (if url_scheme url \<noteq> File
        then (if url_ipv6Host url then ''['' @ url_host url @ '']'' else url_host url)
             @ (if url_port url \<noteq> defaultPort (url_scheme url)
                then '':'' @ decimal_text (url_port url) else [])
        else [])
     @ url_path url
     @ (if url_hasQuery url then ''?'' @ url_query url else [])"

definition with_canonical :: "ParsedUrl \<Rightarrow> ParsedUrl" where
  "with_canonical url = url\<lparr>url_canonical := serialize url\<rparr>"

definition pathMatchesBoundary :: "string \<Rightarrow> string \<Rightarrow> bool" where
  "pathMatchesBoundary v pre =
     (if pre = ''/'' then v \<noteq> [] \<and> hd v = slash
      else if length v < length pre \<or> take (length pre) v \<noteq> pre then False
      else length v = length pre \<or> last pre = slash \<or> v ! length pre = slash)"

fun percentDecode :: "string \<Rightarrow> string" where
  "percentDecode [] = []"
| "percentDecode (c # rest) =
     (case rest of
        h # l # rest' \<Rightarrow>
          if c = CHR ''%'' \<and> hexValue h \<ge> 0 \<and> hexValue l \<ge> 0
          then char_of (nat (hexValue h * 16 + hexValue l)) # percentDecode rest'
          else c # percentDecode rest
      | _ \<Rightarrow> c # percentDecode rest)"

section \<open>The parser\<close>

definition invalidScheme :: "string \<Rightarrow> bool" where
  "invalidScheme s \<longleftrightarrow>
     (case s of [] \<Rightarrow> False
      | c # cs \<Rightarrow> \<not> isAsciiAlpha c
          \<or> list_ex (\<lambda>ch. \<not> isAsciiAlnum ch \<and> ch \<noteq> CHR ''+'' \<and> ch \<noteq> CHR ''-'' \<and> ch \<noteq> CHR ''.'') cs)"

definition schemeOf :: "string \<Rightarrow> UrlScheme result" where
  "schemeOf scheme =
     (if scheme = ''http'' then Inr Http
      else if scheme = ''https'' then Inr Https
      else if scheme = ''file'' then Inr File
      else invalidUrl ''URL scheme is not allowed'')"

text \<open>Host and explicit port of the authority of an HTTP or HTTPS URL.\<close>

definition splitAuthority :: "string \<Rightarrow> (string \<times> string option) result" where
  "splitAuthority authority =
     (if authority \<noteq> [] \<and> hd authority = CHR ''[''
      then (case find_char (CHR '']'') authority of
              None \<Rightarrow> invalidUrl ''URL contains an invalid IPv6 authority''
            | Some closing \<Rightarrow>
                let rawHost = take (closing + 1) authority;
                    remainder = drop (closing + 1) authority
                in if remainder = [] then Inr (rawHost, None)
                   else if hd remainder \<noteq> CHR '':''
                   then invalidUrl ''URL contains invalid data after its host''
                   else Inr (rawHost, Some (tl remainder)))
      else (case rfind_char (CHR '':'') authority of
              None \<Rightarrow> Inr (authority, None)
            | Some portSeparator \<Rightarrow>
                if find_char (CHR '':'') authority \<noteq> Some portSeparator
                then invalidUrl ''IPv6 URL hosts must use brackets''
                else Inr (take portSeparator authority, Some (drop (portSeparator + 1) authority))))"

text \<open>Scheme, host and port fields from scheme and authority.\<close>

definition parseAuthority :: "UrlScheme \<Rightarrow> string \<Rightarrow> ParsedUrl result" where
  "parseAuthority scheme authority =
     (let blank = \<lparr>url_scheme = scheme, url_host = [], url_port = 0, url_ipv6Host = False,
            url_path = [], url_query = [], url_hasQuery = False, url_canonical = []\<rparr>
      in if scheme = File
         then (if authority \<noteq> [] then invalidUrl ''file URLs must not contain an authority'' else Inr blank)
         else
           bindr (splitAuthority authority) (\<lambda>(rawHost, rawPort).
           bindr (normalizeHost rawHost) (\<lambda>(host, ipv6Host).
           bindr (case rawPort of None \<Rightarrow> Inr (defaultPort scheme) | Some p \<Rightarrow> parsePort p) (\<lambda>port.
             Inr (blank\<lparr>url_host := host, url_ipv6Host := ipv6Host, url_port := port\<rparr>)))))"

text \<open>The query step of the parser and of the resolution: the text after \<open>?\<close>, when there is one.\<close>

definition setQuery :: "ParsedUrl \<Rightarrow> nat option \<Rightarrow> string \<Rightarrow> ParsedUrl result" where
  "setQuery candidate querySeparator t =
     (case querySeparator of
        None \<Rightarrow> Inr candidate
      | Some q \<Rightarrow>
          if url_scheme candidate = File then invalidUrl ''file URLs must not contain a query''
          else bindr (normalizePercentEncoded (drop (q + 1) t) Query) (\<lambda>query.
            Inr (candidate\<lparr>url_query := query, url_hasQuery := True\<rparr>)))"

text \<open>The second half of \<open>parseAbsoluteUrl\<close>: path and query after the authority.\<close>

definition parseTarget :: "platform \<Rightarrow> ParsedUrl \<Rightarrow> string \<Rightarrow> ParsedUrl result" where
  "parseTarget pf parsed pathAndQuery =
     (let querySeparator = find_char (CHR ''?'') pathAndQuery;
          rawPath0 = prefix_upto querySeparator pathAndQuery;
          rawPath = (if rawPath0 = [] then ''/'' else rawPath0)
      in bindr (normalizePath rawPath) (\<lambda>path.
         bindr (setQuery (parsed\<lparr>url_path := path\<rparr>) querySeparator pathAndQuery) (\<lambda>parsed'.
         bindr (if url_scheme parsed = File then validateFileUrlPath pf path else Inr ()) (\<lambda>_.
           Inr (with_canonical parsed')))))"

definition parseAbsoluteUrl :: "platform \<Rightarrow> string \<Rightarrow> ParsedUrl result" where
  "parseAbsoluteUrl pf url =
     (if url = [] then invalidUrl ''URL is empty''
      else if list_ex forbiddenUrlChar url
      then invalidUrl ''URL contains whitespace, control characters, or backslashes''
      else if CHR ''#'' \<in> set url then invalidUrl ''URL fragments are not allowed''
      else
        (case find_char (CHR '':'') url of
           None \<Rightarrow> invalidUrl ''URL must be absolute and include a scheme''
         | Some colon \<Rightarrow>
             if colon = 0 then invalidUrl ''URL must be absolute and include a scheme''
             else if invalidScheme (take colon url) then invalidUrl ''URL contains an invalid scheme''
             else
               bindr (schemeOf (lowerAscii (take colon url))) (\<lambda>scheme.
                 if take 2 (drop (colon + 1) url) \<noteq> ''//''
                 then invalidUrl ''URL must use an authority introduced by //''
                 else
                   let afterSlashes = drop (colon + 3) url;
                       authorityEnd = find_first_of ''/?'' afterSlashes;
                       authority = prefix_upto authorityEnd afterSlashes
                   in if CHR ''@'' \<in> set authority then invalidUrl ''URL userinfo is not allowed''
                      else
                        bindr (parseAuthority scheme authority) (\<lambda>parsed.
                          parseTarget pf parsed (case authorityEnd of None \<Rightarrow> [] | Some e \<Rightarrow> drop e afterSlashes)))))"

section \<open>Resolution\<close>

text \<open>\<open>base.path.substr(0, find_last_of('/') + 1)\<close>: the directory of a path.\<close>

definition path_directory :: "nat \<Rightarrow> string \<Rightarrow> string" where
  "path_directory absent path = take (case rfind_char slash path of None \<Rightarrow> absent | Some i \<Rightarrow> i + 1) path"

text \<open>The part of \<open>resolveUrlReference\<close> for a non-empty reference without scheme and authority.\<close>

definition resolveRelative :: "platform \<Rightarrow> ParsedUrl \<Rightarrow> string \<Rightarrow> ParsedUrl result" where
  "resolveRelative pf base reference =
     (let querySeparator = find_char (CHR ''?'') reference;
          referencePath = prefix_upto querySeparator reference;
          candidate = base\<lparr>url_query := [], url_hasQuery := False\<rparr>
      in if referencePath = []
         then bindr (if querySeparator = None
                     then Inr (candidate\<lparr>url_query := url_query base, url_hasQuery := url_hasQuery base\<rparr>)
                     else setQuery candidate querySeparator reference)
                (\<lambda>c. Inr (with_canonical c))
         else
           let mergedPath = (if hd referencePath = slash then referencePath
                             else path_directory 0 (url_path base) @ referencePath)
           in bindr (normalizePath mergedPath) (\<lambda>normalizedPath.
              bindr (if url_scheme candidate = File then validateFileUrlPath pf normalizedPath else Inr ()) (\<lambda>_.
              bindr (setQuery (candidate\<lparr>url_path := normalizedPath\<rparr>) querySeparator reference) (\<lambda>c.
                Inr (with_canonical c)))))"

definition resolveUrlReference :: "platform \<Rightarrow> ParsedUrl \<Rightarrow> string \<Rightarrow> ParsedUrl result" where
  "resolveUrlReference pf base reference =
     (if list_ex forbiddenUrlChar reference
      then invalidUrl ''URL reference contains whitespace, control characters, or backslashes''
      else if CHR ''#'' \<in> set reference then invalidUrl ''URL fragments are not allowed''
      else
        let firstDelimiter = find_first_of ''/?'' reference;
            schemeSeparator = find_char (CHR '':'') reference
        in if (case schemeSeparator of
                 None \<Rightarrow> False
               | Some s \<Rightarrow> (case firstDelimiter of None \<Rightarrow> True | Some d \<Rightarrow> s < d))
           then parseAbsoluteUrl pf reference
           else if take 2 reference = ''//''
           then parseAbsoluteUrl pf (schemeName (url_scheme base) @ '':'' @ reference)
           else if reference = [] then Inr base
           else resolveRelative pf base reference)"

definition resolveUrlText :: "platform \<Rightarrow> string \<Rightarrow> string \<Rightarrow> ParsedUrl result" where
  "resolveUrlText pf base reference =
     bindr (parseAbsoluteUrl pf base) (\<lambda>parsed. resolveUrlReference pf parsed reference)"

definition directoryUrl :: "ParsedUrl \<Rightarrow> ParsedUrl result" where
  "directoryUrl url =
     (let path = path_directory 1 (url_path url);
          path' = (if path = [] then ''/'' else path)
      in Inr (with_canonical (url\<lparr>url_path := path', url_query := [], url_hasQuery := False\<rparr>)))"

definition asDirectoryUrl :: "ParsedUrl \<Rightarrow> ParsedUrl result" where
  "asDirectoryUrl url =
     (if url_hasQuery url then invalidUrl ''Directory URL must not contain a query''
      else
        let path = (if url_path url = [] then ''/''
                    else if last (url_path url) \<noteq> slash then url_path url @ [slash]
                    else url_path url)
        in Inr (with_canonical (url\<lparr>url_path := path\<rparr>)))"

definition invalidSuffixChar :: "char \<Rightarrow> bool" where
  "invalidSuffixChar ch \<longleftrightarrow> isControlOrSpace ch \<or> ch = backslash \<or> ch = slash \<or> ch = CHR ''?''
     \<or> ch = CHR ''#'' \<or> byte_of ch \<ge> 0x80"

definition appendUrlPathSuffix :: "ParsedUrl \<Rightarrow> string \<Rightarrow> ParsedUrl result" where
  "appendUrlPathSuffix url ext =
     (if ext = [] then Inr url
      else if list_ex invalidSuffixChar ext
      then invalidUrl ''URL path suffix contains an invalid character''
      else bindr (normalizePath (url_path url @ ext)) (\<lambda>normalized.
        Inr (with_canonical (url\<lparr>url_path := normalized\<rparr>))))"

fun encodeSegment :: "string \<Rightarrow> string result" where
  "encodeSegment [] = Inr []"
| "encodeSegment (ch # rest) =
     (if isControl ch \<or> ch = backslash then invalidUrl ''Artifact path contains an unsafe character''
      else bindr (encodeSegment rest) (\<lambda>encoded.
        Inr ((if isUnreserved ch then [ch]
              else [CHR ''%'', upperHex (byte_of ch div 16), upperHex (byte_of ch)]) @ encoded)))"

fun encodeSegments :: "string list \<Rightarrow> string result" where
  "encodeSegments [] = Inr []"
| "encodeSegments (segment # rest) =
     (if segment = [] \<or> segment = ''.'' \<or> segment = ''..''
      then invalidUrl ''Artifact path contains an unsafe segment''
      else bindr (encodeSegment segment) (\<lambda>encoded.
        if rest = [] then Inr encoded
        else bindr (encodeSegments rest) (\<lambda>encodedRest. Inr (encoded @ slash # encodedRest))))"

definition appendEncodedPath :: "platform \<Rightarrow> ParsedUrl \<Rightarrow> string \<Rightarrow> ParsedUrl result" where
  "appendEncodedPath pf base portablePath =
     (if url_path base = [] \<or> last (url_path base) \<noteq> slash \<or> url_hasQuery base
      then invalidUrl ''Artifact base URL must be a query-free directory URL''
      else if portablePath = [] \<or> hd portablePath = slash \<or> hd portablePath = backslash
      then invalidUrl ''Artifact path must be a non-empty relative path''
      else bindr (encodeSegments (split_loop slash portablePath 0)) (\<lambda>encoded.
        resolveUrlReference pf base encoded))"

definition urlsEquivalent :: "ParsedUrl \<Rightarrow> ParsedUrl \<Rightarrow> bool" where
  "urlsEquivalent left right \<longleftrightarrow> url_canonical left = url_canonical right"

definition sameOrigin :: "ParsedUrl \<Rightarrow> ParsedUrl \<Rightarrow> bool" where
  "sameOrigin left right \<longleftrightarrow>
     url_scheme left = url_scheme right \<and> url_host left = url_host right \<and> url_port left = url_port right"

definition joinUrl :: "platform \<Rightarrow> string \<Rightarrow> string \<Rightarrow> string" where
  "joinUrl pf baseUrl relativePath =
     (case resolveUrlText pf baseUrl relativePath of Inr u \<Rightarrow> url_canonical u | Inl _ \<Rightarrow> [])"

definition urlStartsWithAny :: "platform \<Rightarrow> string \<Rightarrow> string list \<Rightarrow> bool" where
  "urlStartsWithAny pf url allowed =
     (if allowed = [] then False
      else (case parseAbsoluteUrl pf url of
              Inl _ \<Rightarrow> False
            | Inr parsed \<Rightarrow>
                list_ex (\<lambda>pre. case parseAbsoluteUrl pf pre of
                    Inl _ \<Rightarrow> False
                  | Inr rule \<Rightarrow> sameOrigin parsed rule \<and> pathMatchesBoundary (url_path parsed) (url_path rule))
                  allowed))"

definition isFileUrl :: "string \<Rightarrow> bool" where
  "isFileUrl url =
     (case find_char (CHR '':'') url of
        None \<Rightarrow> False
      | Some colon \<Rightarrow> equalsAsciiCaseInsensitive (take colon url) ''file'')"

text \<open>The path text handed to \<open>pathFromUtf8\<close>; the empty text is the empty path.\<close>

definition fileUrlToPath :: "platform \<Rightarrow> string \<Rightarrow> string" where
  "fileUrlToPath pf url =
     (case parseAbsoluteUrl pf url of
        Inl _ \<Rightarrow> []
      | Inr parsed \<Rightarrow>
          if url_scheme parsed \<noteq> File then []
          else let path = percentDecode (url_path parsed)
               in if pf = Posix then path
                  else map (\<lambda>c. if c = slash then backslash else c)
                    (if length path \<ge> 3 \<and> path ! 0 = slash \<and> isAsciiAlpha (path ! 1) \<and> path ! 2 = CHR '':''
                     then tl path else path))"

lemmas [eval_simps] = invalidUrl_def isControlOrSpace_def isControl_def hexValue_def upperHex_def
  isUnreserved_def isSubDelimiter_def isAllowedRawCharacter_def isAsciiAlpha_def isAsciiAlnum_def
  lowerAscii_def equalsAsciiCaseInsensitive_def forbiddenUrlChar_def normalizePath_def ipv4Octet_def
  parseCanonicalIpv4_def isPublicIpv4_def parseIpv6Side_def parseIpv6_def isPublicIpv6_def
  lower_hex_digit_def hex_text.simps canonicalIpv6_def parsePort_def invalidDnsLabel_def ipv4_text_def
  checkedHost_def normalizeHost_def defaultPort_def serialize_def with_canonical_def pathMatchesBoundary_def
  invalidScheme_def schemeOf_def splitAuthority_def parseAuthority_def parseAbsoluteUrl_def
  setQuery_def parseTarget_def path_directory_def resolveRelative_def resolveUrlReference_def resolveUrlText_def directoryUrl_def
  asDirectoryUrl_def invalidSuffixChar_def appendUrlPathSuffix_def appendEncodedPath_def
  urlsEquivalent_def sameOrigin_def joinUrl_def urlStartsWithAny_def isFileUrl_def fileUrlToPath_def

end
