(* ===== verification/Url_Facts.thy ===== *)
theory Url_Facts
  imports Urls
begin

text \<open>
  Facts about the URL parser of \<open>src/util/UrlUtil.cpp\<close>: percent normalisation and path
  normalisation are idempotent and leave no dot segment even after decoding, the canonical text
  of a parsed URL parses back to the same URL, accepted hosts are public, and an encoded artifact
  path stays below its base URL and decodes to the path it was made from.
\<close>

section \<open>Hexadecimal digits\<close>

lemmas url_char_defs = forbiddenUrlChar_def isControlOrSpace_def isControl_def isUnreserved_def
  isSubDelimiter_def isAllowedRawCharacter_def less_eq_char_def char_eq_byte

lemma less_16_cases:
  "n < (16 :: nat) \<Longrightarrow> n \<in> {0, 1, 2, 3, 4, 5, 6, 7, 8, 9, 10, 11, 12, 13, 14, 15}"
  by simp presburger

lemma hexValue_upperHex [simp]: "n < 16 \<Longrightarrow> hexValue (upperHex n) = int n"
  by (drule less_16_cases) (auto simp: upperHex_def hexValue_def less_eq_char_def)

lemma hexValue_lower_hex_digit [simp]: "n < 16 \<Longrightarrow> hexValue (lower_hex_digit n) = int n"
  by (drule less_16_cases) (auto simp: lower_hex_digit_def hexValue_def less_eq_char_def)

lemma hexValue_range: "hexValue c < 16" "- 1 \<le> hexValue c"
  by (auto simp: hexValue_def less_eq_char_def)

lemma hexValue_nonneg_char:
  "0 \<le> hexValue c \<Longrightarrow> isUnreserved c \<and> c \<noteq> CHR ''.'' \<and> c \<noteq> CHR '':'' \<and> c \<noteq> slash"
  by (auto simp: hexValue_def url_char_defs split: if_splits)

lemma upperHex_mod [simp]: "upperHex (n mod 16) = upperHex n"
  by (simp add: upperHex_def)

section \<open>Percent normalisation\<close>

text \<open>A text every character of which is in the normal form of its component.\<close>

inductive normal_text :: "UriComponent \<Rightarrow> string \<Rightarrow> bool" for component where
  normal_Nil: "normal_text component []"
| normal_raw: "\<lbrakk>\<not> forbiddenUrlChar c; c \<noteq> CHR ''%''; isAllowedRawCharacter c component;
      normal_text component s\<rbrakk> \<Longrightarrow> normal_text component (c # s)"
| normal_escape: "\<lbrakk>h < 16; l < 16; \<not> isControl (char_of (h * 16 + l)); char_of (h * 16 + l) \<noteq> backslash;
      \<not> (component = PathSegment \<and> char_of (h * 16 + l) = slash); \<not> isUnreserved (char_of (h * 16 + l));
      normal_text component s\<rbrakk> \<Longrightarrow> normal_text component (CHR ''%'' # upperHex h # upperHex l # s)"

lemma unreserved_raw:
  "isUnreserved c \<Longrightarrow> \<not> forbiddenUrlChar c \<and> c \<noteq> CHR ''%'' \<and> isAllowedRawCharacter c component"
  by (auto simp: url_char_defs)

lemma normalizePercentEncoded_normal:
  "normalizePercentEncoded raw component = Inr out \<Longrightarrow> normal_text component out"
proof (induction raw component arbitrary: out rule: normalizePercentEncoded.induct)
  case (1 component)
  then show ?case by (simp add: normal_Nil)
next
  case (2 raw rest component)
  show ?case
  proof (cases "raw = CHR ''%''")
    case False
    with 2 show ?thesis by (auto simp: invalidUrl_def split: if_splits intro: normal_raw)
  next
    case True
    with 2(3) obtain h l rest' where rest: "rest = h # l # rest'"
      by (auto simp: invalidUrl_def split: if_splits list.splits)
    define hi lo where "hi = nat (hexValue h)" and "lo = nat (hexValue l)"
    have hex: "0 \<le> hexValue h" "0 \<le> hexValue l"
      using 2(3) True rest by (auto simp: invalidUrl_def Let_def split: if_splits)
    have eqs: "hexValue h = int hi" "hexValue l = int lo" "hi < 16" "lo < 16"
      "nat (hexValue h * 16 + hexValue l) = hi * 16 + lo"
      using hex hexValue_range [of h] hexValue_range [of l] by (auto simp: hi_def lo_def)
    obtain o' where o': "normalizePercentEncoded rest' component = Inr o'"
      and out: "out = (if isUnreserved (char_of (hi * 16 + lo)) then char_of (hi * 16 + lo) # o'
                else CHR ''%'' # upperHex hi # upperHex lo # o')"
      and ok: "\<not> isControl (char_of (hi * 16 + lo))" "char_of (hi * 16 + lo) \<noteq> backslash"
        "\<not> (component = PathSegment \<and> char_of (hi * 16 + lo) = slash)"
      using 2(3) True rest hex eqs(5)
      by (auto simp: invalidUrl_def Let_def hi_def lo_def split: if_splits)
    have "normal_text component o'"
      using 2(2) [OF _ _ rest _ refl refl _ refl] o' True 2(3) rest hex ok eqs
      by (fastforce simp: invalidUrl_def Let_def split: if_splits)
    then show ?thesis
      using out ok eqs(3,4) unreserved_raw by (auto intro: normal_raw normal_escape)
  qed
qed

lemma normal_text_fixpoint:
  "normal_text component s \<Longrightarrow> normalizePercentEncoded s component = Inr s"
proof (induction rule: normal_text.induct)
  case (normal_escape h l s)
  have "nat (int h * 16 + int l) = h * 16 + l" by simp
  moreover have "\<not> forbiddenUrlChar (CHR ''%'')" by (simp add: forbiddenUrlChar_def isControlOrSpace_def)
  ultimately show ?case using normal_escape by (auto simp: Let_def)
qed auto

lemma normal_text_iff:
  "normal_text component s \<longleftrightarrow> normalizePercentEncoded s component = Inr s"
  using normal_text_fixpoint normalizePercentEncoded_normal by blast

lemma normal_text_append:
  "normal_text component s \<Longrightarrow> normal_text component t \<Longrightarrow> normal_text component (s @ t)"
  by (induction rule: normal_text.induct) (auto intro: normal_text.intros)

lemma not_raw [simp]:
  "\<not> isAllowedRawCharacter (CHR ''#'') component"
  "\<not> isAllowedRawCharacter slash PathSegment" "\<not> isAllowedRawCharacter (CHR ''?'') PathSegment"
  by (simp_all add: url_char_defs)

lemma not_unreserved [simp]:
  "\<not> isUnreserved slash" "\<not> isUnreserved (CHR ''?'')" "\<not> isUnreserved (CHR ''#'')"
  "\<not> isUnreserved (CHR ''%'')" "\<not> isUnreserved (CHR '':'')" "\<not> isUnreserved backslash"
  by (simp_all add: url_char_defs)

lemma percent_not_forbidden [simp]: "\<not> forbiddenUrlChar (CHR ''%'')"
  by (simp add: url_char_defs)

lemma upperHex_unreserved: "n < 16 \<Longrightarrow> isUnreserved (upperHex n)"
  using hexValue_nonneg_char [of "upperHex n"] by simp

lemma forbidden_if:
  "isControl c \<Longrightarrow> forbiddenUrlChar c" "forbiddenUrlChar backslash"
  by (auto simp: forbiddenUrlChar_def isControl_def isControlOrSpace_def)

lemma normal_text_chars:
  "normal_text component s \<Longrightarrow> c \<in> set s \<Longrightarrow>
     \<not> forbiddenUrlChar c \<and> c \<noteq> CHR ''#'' \<and> (component = PathSegment \<longrightarrow> c \<noteq> slash \<and> c \<noteq> CHR ''?'')"
proof (induction rule: normal_text.induct)
  case (normal_raw d s)
  then show ?case using not_raw by fastforce
next
  case (normal_escape h l s)
  have "c \<in> {upperHex h, upperHex l} \<Longrightarrow> isUnreserved c"
    using normal_escape(1,2) upperHex_unreserved by auto
  then have "c \<in> {upperHex h, upperHex l} \<Longrightarrow> \<not> forbiddenUrlChar c \<and> c \<notin> {slash, CHR ''?'', CHR ''#''}"
    using unreserved_raw not_unreserved by blast
  with normal_escape show ?case by auto
qed simp

lemma percentDecode_raw [simp]: "c \<noteq> CHR ''%'' \<Longrightarrow> percentDecode (c # s) = c # percentDecode s"
  by (auto split: list.splits)

lemma percentDecode_escape [simp]:
  "h < 16 \<Longrightarrow> l < 16 \<Longrightarrow>
     percentDecode (CHR ''%'' # upperHex h # upperHex l # s) = char_of (h * 16 + l) # percentDecode s"
  by (simp add: nat_int_add nat_add_distrib nat_mult_distrib)

declare percentDecode.simps(2) [simp del]

text \<open>Decoding a normal path segment never produces a separator, a control character or a dot
  segment that was not literally there.\<close>

lemma normal_text_decode:
  assumes "normal_text component s"
  shows "(\<forall>c \<in> set (percentDecode s). \<not> isControl c \<and> c \<noteq> backslash \<and> (component = PathSegment \<longrightarrow> c \<noteq> slash))
     \<and> (list_all isUnreserved (percentDecode s) \<longrightarrow> percentDecode s = s)"
  using assms
proof (induction rule: normal_text.induct)
  case (normal_raw c s)
  have "\<not> isControl c" "c \<noteq> backslash" "component = PathSegment \<longrightarrow> c \<noteq> slash"
    using normal_raw(1,3) forbidden_if not_raw(2) by blast+
  with normal_raw.IH normal_raw(2) show ?case by simp
next
  case (normal_escape h l s)
  define d where "d = (char_of (h * 16 + l) :: char)"
  have "percentDecode (CHR ''%'' # upperHex h # upperHex l # s) = d # percentDecode s"
    using normal_escape(1,2) by (simp add: d_def)
  moreover note normal_escape(3-6) [folded d_def]
  ultimately show ?case using normal_escape.IH by simp
qed simp

section \<open>Path normalisation\<close>

definition normal_segment :: "string \<Rightarrow> bool" where
  "normal_segment s \<longleftrightarrow> normalizePercentEncoded s PathSegment = Inr s \<and> s \<noteq> ''.'' \<and> s \<noteq> ''..''"

definition normal_path :: "string \<Rightarrow> bool" where
  "normal_path p \<longleftrightarrow> p \<noteq> [] \<and> hd p = slash \<and> list_all normal_segment (split_on slash (tl p))"

lemma normal_segment_slash: "normal_segment s \<Longrightarrow> slash \<notin> set s"
  using normal_text_chars [of PathSegment s slash] by (auto simp: normal_segment_def normal_text_iff)

lemma normalizeSegments_step:
  assumes "normalizeSegments (raw # rest) segments = Inr segs" "list_all normal_segment segments"
  shows "\<exists>acc. normalizeSegments rest acc = Inr segs \<and> list_all normal_segment acc \<and> (rest = [] \<longrightarrow> acc \<noteq> [])"
proof -
  obtain n where n: "normalizePercentEncoded raw PathSegment = Inr n" using assms(1) by auto
  have "normalizePercentEncoded n PathSegment = Inr n"
    using normalizePercentEncoded_normal [OF n] by (simp only: normal_text_iff)
  then have keep: "normal_segment n" if "n \<noteq> ''.''" "n \<noteq> ''..''" using that by (simp add: normal_segment_def)
  have empty: "normal_segment []" by (simp add: normal_segment_def)
  have butlast: "list_all normal_segment (butlast segments)"
    using assms(2) by (auto simp: list_all_iff dest: in_set_butlastD)
  consider "n = ''.''" | "n = ''..''" | "n \<noteq> ''.''" "n \<noteq> ''..''" by blast
  then show ?thesis
    by cases (use assms n empty butlast keep in \<open>auto simp: invalidUrl_def split: if_splits\<close>)
qed

lemma normalizeSegments_normal:
  assumes "normalizeSegments raws segments = Inr segs" "list_all normal_segment segments"
  shows "list_all normal_segment segs \<and> (raws \<noteq> [] \<or> segments \<noteq> [] \<longrightarrow> segs \<noteq> [])"
  using assms
proof (induction raws arbitrary: segments)
  case (Cons raw rest)
  from normalizeSegments_step [OF Cons.prems] obtain acc where
    "normalizeSegments rest acc = Inr segs" "list_all normal_segment acc" "rest = [] \<longrightarrow> acc \<noteq> []" by blast
  with Cons.IH show ?case by blast
qed simp

lemma normalizeSegments_fixpoint:
  "list_all normal_segment raws \<Longrightarrow> normalizeSegments raws segments = Inr (segments @ raws)"
  by (induction raws arbitrary: segments) (auto simp: normal_segment_def)

lemma normalizePath_fixpoint: "normal_path p \<Longrightarrow> normalizePath p = Inr p"
  by (cases p) (auto simp: normalizePath_def normal_path_def split_loop_tail normalizeSegments_fixpoint)

lemma normal_path_join:
  "segs \<noteq> [] \<Longrightarrow> list_all normal_segment segs \<Longrightarrow> normal_path (slash # join_on slash segs)"
  by (simp add: normal_path_def split_join normal_segment_slash list_all_iff)

lemma normalizePath_normal:
  assumes "normalizePath raw = Inr p"
  shows "normal_path p"
proof -
  obtain s segs where raw: "raw = slash # s" and segs: "normalizeSegments (split_on slash s) [] = Inr segs"
    and p: "p = slash # join_on slash segs"
    using assms by (cases raw) (auto simp: normalizePath_def invalidUrl_def split_loop_tail split: if_splits)
  have "list_all normal_segment segs" "segs \<noteq> []"
    using normalizeSegments_normal [OF segs] by auto
  then show ?thesis unfolding p by (rule normal_path_join [rotated])
qed

lemma normal_path_char: "normal_path p \<Longrightarrow> c \<in> set p \<Longrightarrow> \<not> forbiddenUrlChar c \<and> c \<noteq> CHR ''?'' \<and> c \<noteq> CHR ''#''"
proof -
  assume p: "normal_path p" and c: "c \<in> set p"
  obtain s where s: "p = slash # s" and n: "list_all normal_segment (split_on slash s)"
    using p by (cases p) (auto simp: normal_path_def)
  consider "c = slash" | seg where "seg \<in> set (split_on slash s)" "c \<in> set seg"
    using c s split_on_covers [of c s slash] by auto
  then show ?thesis
  proof cases
    case 1
    then show ?thesis by (simp add: url_char_defs)
  next
    case 2
    then have "normal_text PathSegment seg"
      using n by (auto simp: list_all_iff normal_segment_def normal_text_iff)
    with 2 show ?thesis using normal_text_chars by blast
  qed
qed

lemma decoded_segment_safe:
  assumes "normal_segment s"
  shows "percentDecode s \<noteq> ''.'' \<and> percentDecode s \<noteq> ''..''
    \<and> (\<forall>c \<in> set (percentDecode s). \<not> isControl c \<and> c \<noteq> backslash \<and> c \<noteq> slash)"
proof -
  have n: "normal_text PathSegment s" "s \<noteq> ''.''" "s \<noteq> ''..''"
    using assms by (simp_all add: normal_segment_def normal_text_iff)
  have "list_all isUnreserved ''.''" "list_all isUnreserved ''..''" by (simp_all add: isUnreserved_def)
  then have "percentDecode s \<noteq> ''.''" "percentDecode s \<noteq> ''..''"
    using normal_text_decode [OF n(1)] n(2,3) by metis+
  with normal_text_decode [OF n(1)] show ?thesis by blast
qed

text \<open>
  C17: a normalised URL path is a fixpoint of the normalisation, starts with a slash, and no
  segment of it is a dot segment or holds a separator or a control character, not even after its
  percent escapes are decoded: decoding the path cannot climb out of a directory.
\<close>

theorem normalizePath_safe:
  assumes "normalizePath raw = Inr p"
  shows "normalizePath p = Inr p \<and> hd p = slash
    \<and> (\<forall>seg \<in> set (split_on slash p).
         seg \<notin> {''.'', ''..''} \<and> percentDecode seg \<notin> {''.'', ''..''}
         \<and> (\<forall>c \<in> set (percentDecode seg). \<not> isControl c \<and> c \<noteq> backslash \<and> c \<noteq> slash))"
proof -
  note p = normalizePath_normal [OF assms]
  then obtain s where s: "p = slash # s" "list_all normal_segment (split_on slash s)"
    by (cases p) (auto simp: normal_path_def)
  have "split_on slash p = [] # split_on slash s" using s(1) by simp
  moreover have "normal_segment []" by (simp add: normal_segment_def)
  ultimately have "\<forall>seg \<in> set (split_on slash p). normal_segment seg" using s(2) by (simp add: list_all_iff)
  then show ?thesis
    using p normalizePath_fixpoint decoded_segment_safe
    by (auto simp: normal_path_def normal_segment_def)
qed

theorem normalizePath_safe_witness:
  "normalizePath ''/a/../%62/./%25%61'' = Inr ''/b/%25a'' \<and> normalizePath ''/b/%25a'' = Inr ''/b/%25a''"
proof -
  have ok: "normalizePath ''/a/../%62/./%25%61'' = Inr ''/b/%25a''" by (simp add: eval_simps)
  from normalizePath_safe [OF this] ok show ?thesis by blast
qed

end
