(* ===== verification/Url_Hosts.thy ===== *)
theory Url_Hosts
  imports Url_Facts
begin

text \<open>
  Facts about the hosts and ports of \<open>src/util/UrlUtil.cpp\<close>: the IPv4 and IPv6 readers invert
  the canonical writers, normalising a host is idempotent, and no accepted host is the local
  machine or a private address.
\<close>

section \<open>Bounded decimal loops\<close>

lemma digits_val_Cons: "digits_val (c # s) = digit_val c * 10 ^ length s + digits_val s"
  using digits_val_append [of "[c]" s] by (simp add: digits_val_single)

lemma capped_step:
  "(v * 10 + digit_val c) * 10 ^ length s + digits_val s = v * 10 ^ length (c # s) + digits_val (c # s)"
  by (simp add: digits_val_Cons algebra_simps)

lemma le_times_power10: "(v :: nat) \<le> v * 10 ^ n + k"
proof -
  have "v * 1 \<le> v * 10 ^ n" by (intro mult_le_mono2) simp
  then show ?thesis by linarith
qed

lemma octet_loop_iff:
  "v \<le> 255 \<Longrightarrow> octet_loop v s = Some w \<longleftrightarrow>
     list_all isAsciiDigit s \<and> w = v * 10 ^ length s + digits_val s \<and> w \<le> 255"
proof (induction s arbitrary: v)
  case (Cons c s)
  show ?case
  proof (cases "v * 10 + digit_val c \<le> 255")
    case True
    then show ?thesis using Cons.IH [OF True] capped_step [of v c s] by (simp add: Let_def)
  next
    case False
    have "v * 10 + digit_val c \<le> v * 10 ^ length (c # s) + digits_val (c # s)"
      using le_times_power10 [of "v * 10 + digit_val c"] capped_step [of v c s] by metis
    with False show ?thesis by (auto simp: Let_def)
  qed
qed auto

lemma port_loop_iff:
  "v \<le> 65535 \<Longrightarrow> port_loop v s = Inr w \<longleftrightarrow>
     list_all isAsciiDigit s \<and> w = v * 10 ^ length s + digits_val s \<and> w \<le> 65535"
proof (induction s arbitrary: v)
  case (Cons c s)
  show ?case
  proof (cases "v * 10 + digit_val c \<le> 65535")
    case True
    then show ?thesis using Cons.IH [OF True] capped_step [of v c s] by (simp add: Let_def invalidUrl_def)
  next
    case False
    have "v * 10 + digit_val c \<le> v * 10 ^ length (c # s) + digits_val (c # s)"
      using le_times_power10 [of "v * 10 + digit_val c"] capped_step [of v c s] by metis
    with False show ?thesis by (auto simp: Let_def invalidUrl_def)
  qed
qed auto

lemma parsePort_iff:
  "parsePort t = Inr p \<longleftrightarrow> t \<noteq> [] \<and> list_all isAsciiDigit t \<and> p = digits_val t \<and> 0 < p \<and> p \<le> 65535"
  by (auto simp: parsePort_def invalidUrl_def port_loop_iff)

lemma parsePort_decimal_text: "0 < p \<Longrightarrow> p \<le> 65535 \<Longrightarrow> parsePort (decimal_text p) = Inr p"
  by (simp add: parsePort_iff decimal_text_digits)

lemma ipv4Octet_iff:
  "ipv4Octet t = Some v \<longleftrightarrow> canonical_decimal t \<and> v = digits_val t \<and> v \<le> 255"
  by (auto simp: ipv4Octet_def canonical_decimal_def octet_loop_iff)

section \<open>IPv4\<close>

lemma canonical_decimal_no_dot: "canonical_decimal t \<Longrightarrow> CHR ''.'' \<notin> set t"
  by (auto simp: canonical_decimal_def list_all_iff isAsciiDigit_byte)

lemma ipv4_text_split:
  "split_on (CHR ''.'') (ipv4_text [a, b, c, d]) = map decimal_text [a, b, c, d]"
  using canonical_decimal_no_dot [OF canonical_decimal_text]
  by (simp add: ipv4_text_def split_on_append split_on_none)

lemma ipv4Octet_decimal_text: "v \<le> 255 \<Longrightarrow> ipv4Octet (decimal_text v) = Some v"
  by (simp add: ipv4Octet_iff canonical_decimal_text)

lemma parseCanonicalIpv4_Some:
  assumes "parseCanonicalIpv4 t = Some ip"
  shows "length ip = 4 \<and> list_all (\<lambda>b. b \<le> 255) ip \<and> t = ipv4_text ip"
proof -
  obtain a b c d w x y z where parts: "split_on (CHR ''.'') t = [a, b, c, d]" "ip = [w, x, y, z]"
      and oct: "ipv4Octet a = Some w" "ipv4Octet b = Some x" "ipv4Octet c = Some y" "ipv4Octet d = Some z"
    using assms by (auto simp: parseCanonicalIpv4_def split_loop_split_on split: list.splits option.splits)
  have "t = join_on (CHR ''.'') [a, b, c, d]" using parts(1) join_split by metis
  with parts(2) oct show ?thesis
    by (simp add: ipv4Octet_iff ipv4_text_def decimal_text_digits_val)
qed

lemma parseCanonicalIpv4_text:
  assumes "length ip = 4" "list_all (\<lambda>b. b \<le> 255) ip"
  shows "parseCanonicalIpv4 (ipv4_text ip) = Some ip"
proof -
  obtain w x y z where "ip = [w, x, y, z]"
    using assms(1) by (auto simp: length_Suc_conv numeral_eq_Suc)
  with assms(2) show ?thesis
    by (simp add: parseCanonicalIpv4_def split_loop_split_on ipv4_text_split ipv4Octet_decimal_text)
qed

section \<open>IPv6\<close>

lemma hex_group_append: "hex_group v (s @ t) = (case hex_group v s of None \<Rightarrow> None | Some w \<Rightarrow> hex_group w t)"
  by (induction s arbitrary: v) auto

lemma hex_group_text: "hex_group 0 (hex_text n) = Some n"
proof (induction n rule: hex_text.induct)
  case (1 n)
  then show ?case
    by (subst hex_text.simps) (auto simp: hex_group_append)
qed

lemma hex_text_not_Nil [simp]: "hex_text n \<noteq> []"
  by (subst hex_text.simps) simp

lemma hex_text_char: "c \<in> set (hex_text n) \<Longrightarrow> 0 \<le> hexValue c"
proof (induction n rule: hex_text.induct)
  case (1 n)
  have "c \<in> set (if n < 16 then [lower_hex_digit n] else hex_text (n div 16) @ [lower_hex_digit (n mod 16)])"
    using 1(2) by (simp only: hex_text.simps [of n])
  with 1(1) show ?case by (auto split: if_splits)
qed

lemma hex_text_length: "n < 16 ^ Suc k \<Longrightarrow> length (hex_text n) \<le> Suc k"
proof (induction k arbitrary: n)
  case 0
  then show ?case by (subst hex_text.simps) simp
next
  case (Suc k)
  then have "n div 16 < 16 ^ Suc k" by (simp add: less_mult_imp_div_less)
  with Suc.IH show ?case by (subst hex_text.simps) auto
qed

lemma ipv6Tokens_hex:
  "list_all (\<lambda>g. g < 65536) gs \<Longrightarrow> ipv6Tokens (map hex_text gs) b = Some gs"
proof (induction gs)
  case (Cons g gs)
  have "CHR ''.'' \<notin> set (hex_text g)" using hex_text_char hexValue_nonneg_char by blast
  moreover have "length (hex_text g) \<le> 4" using hex_text_length [of g 3] Cons.prems by simp
  ultimately show ?case using Cons by (simp add: hex_group_text)
qed simp

lemma find_dcolon_part:
  assumes "CHR '':'' \<notin> set p" "p \<noteq> []"
  shows "find_dcolon p = None"
    and "t \<noteq> [] \<Longrightarrow> hd t \<noteq> CHR '':'' \<Longrightarrow> find_dcolon t = None \<Longrightarrow> find_dcolon (p @ CHR '':'' # t) = None"
proof -
  show "find_dcolon p = None" using assms by (induction p rule: find_dcolon.induct) auto
  show "find_dcolon (p @ CHR '':'' # t) = None" if "t \<noteq> []" "hd t \<noteq> CHR '':''" "find_dcolon t = None"
    using assms that
  proof (induction p)
    case (Cons a p)
    then show ?case by (cases p; cases t) auto
  qed simp
qed

lemma join_on_hd: "p \<noteq> [] \<Longrightarrow> join_on d (p # ps) \<noteq> [] \<and> hd (join_on d (p # ps)) = hd p"
  by (cases ps) auto

lemma find_dcolon_join:
  "(\<And>p. p \<in> set ps \<Longrightarrow> p \<noteq> [] \<and> CHR '':'' \<notin> set p) \<Longrightarrow> find_dcolon (join_on (CHR '':'') ps) = None"
proof (induction "CHR '':''" ps rule: join_on.induct)
  case (2 p)
  then show ?case by (simp add: find_dcolon_part)
next
  case (3 p q ps)
  have "hd q \<noteq> CHR '':''" "q \<noteq> []" using 3(2) [of q] by (auto, metis hd_in_set)
  with 3 join_on_hd [of q "CHR '':''" ps] show ?case by (simp add: find_dcolon_part)
qed simp

definition ipv6_groups :: "nat list \<Rightarrow> nat list" where
  "ipv6_groups ip = map (\<lambda>i. ip ! (i * 2) * 256 + ip ! (i * 2 + 1)) [0, 1, 2, 3, 4, 5, 6, 7]"

definition ipv6_bytes :: "nat list \<Rightarrow> bool" where
  "ipv6_bytes ip \<longleftrightarrow> length ip = 16 \<and> list_all (\<lambda>b. b < 256) ip"

lemma ipv6_groups_inverse:
  assumes "ipv6_bytes ip"
  shows "concat (map (\<lambda>g. [g div 256, g mod 256]) (ipv6_groups ip)) = ip"
    and "list_all (\<lambda>g. g < 65536) (ipv6_groups ip)" and "length (ipv6_groups ip) = 8"
proof -
  have "length ip = Suc (Suc (Suc (Suc (Suc (Suc (Suc (Suc (Suc (Suc (Suc (Suc (Suc (Suc (Suc (Suc 0)))))))))))))))"
    using assms by (simp add: ipv6_bytes_def)
  then obtain a b c d e f g h i j k l m n p q where "ip = [a, b, c, d, e, f, g, h, i, j, k, l, m, n, p, q]"
    by (auto simp only: length_Suc_conv length_0_conv)
  then show "concat (map (\<lambda>g. [g div 256, g mod 256]) (ipv6_groups ip)) = ip"
    "list_all (\<lambda>g. g < 65536) (ipv6_groups ip)" "length (ipv6_groups ip) = 8"
    using assms by (auto simp: ipv6_groups_def ipv6_bytes_def)
qed

lemma canonicalIpv6_join: "canonicalIpv6 ip = join_on (CHR '':'') (map hex_text (ipv6_groups ip))"
  by (simp add: canonicalIpv6_def ipv6_groups_def comp_def)

lemma hex_text_clean: "CHR '':'' \<notin> set (hex_text n)" "CHR ''%'' \<notin> set (hex_text n)"
  using hex_text_char hexValue_nonneg_char not_unreserved(4) by blast+

lemma canonicalIpv6_char: "c \<in> set (canonicalIpv6 ip) \<Longrightarrow> c = CHR '':'' \<or> 0 \<le> hexValue c"
  unfolding canonicalIpv6_def using hex_text_char by auto

lemma parseIpv6_canonical:
  assumes "ipv6_bytes ip"
  shows "parseIpv6 (canonicalIpv6 ip) = Some ip"
proof -
  note g = ipv6_groups_inverse [OF assms]
  have no: "CHR ''%'' \<notin> set (canonicalIpv6 ip)"
    using canonicalIpv6_char [of "CHR ''%''" ip] hexValue_nonneg_char not_unreserved(4) by fastforce
  have "map hex_text (ipv6_groups ip) \<noteq> []" using g(3) by auto
  then have parts: "split_on (CHR '':'') (canonicalIpv6 ip) = map hex_text (ipv6_groups ip)"
    unfolding canonicalIpv6_join by (rule split_join) (auto simp: hex_text_clean)
  have ne: "canonicalIpv6 ip \<noteq> []" using parts g(3) hex_text_not_Nil by (auto simp: Cons_eq_map_conv)
  have "find_dcolon (canonicalIpv6 ip) = None"
    unfolding canonicalIpv6_join by (rule find_dcolon_join) (auto simp: hex_text_clean)
  then show ?thesis
    using no ne parts g by (simp add: parseIpv6_def parseIpv6Side_def split_loop_split_on ipv6Tokens_hex)
qed

lemma hex_group_bound: "hex_group v s = Some w \<Longrightarrow> w < (v + 1) * 16 ^ length s"
proof (induction s arbitrary: v)
  case (Cons c s)
  then have "w < (v * 16 + nat (hexValue c) + 1) * 16 ^ length s" by (auto split: if_splits)
  moreover have "nat (hexValue c) < 16" using hexValue_range(1) [of c] by (simp add: nat_less_iff)
  then have "(v * 16 + nat (hexValue c) + 1) * 16 ^ length s \<le> ((v + 1) * 16) * 16 ^ length s"
    by (intro mult_le_mono1) simp
  ultimately have "w < ((v + 1) * 16) * 16 ^ length s" by (rule less_le_trans)
  then show ?case by (simp add: algebra_simps)
qed simp

lemma ipv6Tokens_bound: "ipv6Tokens ts b = Some gs \<Longrightarrow> list_all (\<lambda>g. g < 65536) gs"
proof (induction ts arbitrary: gs)
  case (Cons t ts)
  show ?case
  proof (cases "CHR ''.'' \<in> set t")
    case True
    then obtain w x y z where "parseCanonicalIpv4 t = Some [w, x, y, z]" "gs = [w * 256 + x, y * 256 + z]"
      using Cons.prems by (auto split: if_splits option.splits list.splits)
    with parseCanonicalIpv4_Some show ?thesis by fastforce
  next
    case False
    then obtain g gs' where g: "hex_group 0 t = Some g" "length t \<le> 4" "ipv6Tokens ts b = Some gs'" "gs = g # gs'"
      using Cons.prems by (auto split: if_splits option.splits)
    have "16 ^ length t \<le> (16 :: nat) ^ 4" using g(2) by (rule power_increasing) simp
    with hex_group_bound [OF g(1)] have "g < 65536" by simp
    with g Cons.IH show ?thesis by simp
  qed
qed simp

lemma parseIpv6Side_bound: "parseIpv6Side side b = Some gs \<Longrightarrow> list_all (\<lambda>g. g < 65536) gs"
  by (auto simp: parseIpv6Side_def ipv6Tokens_bound split: if_splits)

lemma length_group_bytes: "length (concat (map (\<lambda>g. [g div 256, g mod 256]) gs)) = 2 * length gs"
  by (induction gs) auto

lemma group_bytes:
  assumes "list_all (\<lambda>g. g < 65536) gs" "length gs = 8"
  shows "ipv6_bytes (concat (map (\<lambda>g. [g div 256, g mod 256]) gs))"
  using assms length_group_bytes [of gs] by (auto simp: ipv6_bytes_def list_all_iff)

lemma parseIpv6_bytes:
  assumes "parseIpv6 t = Some ip"
  shows "ipv6_bytes ip"
proof (cases "find_dcolon t")
  case None
  then show ?thesis
    using assms by (auto simp: parseIpv6_def parseIpv6Side_bound intro!: group_bytes split: if_splits option.splits)
next
  case (Some c)
  then obtain l r where sides: "parseIpv6Side (take c t) False = Some l" "parseIpv6Side (drop (c + 2) t) True = Some r"
    "length l + length r < 8"
    and ip: "ip = concat (map (\<lambda>g. [g div 256, g mod 256]) (l @ replicate (8 - length l - length r) 0 @ r))"
    using assms by (auto simp: parseIpv6_def split: if_splits option.splits)
  have "list_all (\<lambda>g. g < 65536) (l @ replicate (8 - length l - length r) 0 @ r)"
    using parseIpv6Side_bound [OF sides(1)] parseIpv6Side_bound [OF sides(2)] by (auto simp: list_all_iff)
  moreover have "length (l @ replicate (8 - length l - length r) 0 @ r) = 8"
    using sides(3) by simp
  ultimately show ?thesis unfolding ip by (rule group_bytes)
qed

section \<open>Hosts\<close>

lemma last_not_delim:
  "s \<noteq> [] \<Longrightarrow> (\<And>p. p \<in> set (split_on d s) \<Longrightarrow> p \<noteq> []) \<Longrightarrow> last s \<noteq> d"
proof
  assume s: "s \<noteq> []" and parts: "\<And>p. p \<in> set (split_on d s) \<Longrightarrow> p \<noteq> []" and "last s = d"
  then have "s = butlast s @ d # []" by (metis append_butlast_last_id)
  then have "split_on d s = split_on d (butlast s) @ split_on d []" using split_on_append_gen by metis
  with parts show False by auto
qed

lemma split_on_all_chars:
  assumes "\<And>p c. p \<in> set (split_on d s) \<Longrightarrow> c \<in> set p \<Longrightarrow> P c" "P d"
  shows "list_all P s"
  using split_on_covers [of _ s d] assms by (auto simp: list_all_iff)

definition host_char :: "char \<Rightarrow> bool" where
  "host_char c \<longleftrightarrow> isAsciiAlnum c \<or> c = CHR ''-'' \<or> c = CHR ''.''"

lemma checkedHost_Inr:
  assumes "checkedHost h = Inr (h', v6)"
  shows "h' = h \<and> \<not> v6 \<and> h \<noteq> [] \<and> last h \<noteq> CHR ''.'' \<and> list_all host_char h"
proof (cases "list_all (\<lambda>ch. isAsciiDigit ch \<or> ch = CHR ''.'') h")
  case True
  with assms obtain ip where ip: "parseCanonicalIpv4 h = Some ip" "h' = ipv4_text ip" "\<not> v6" "h \<noteq> []"
    by (auto simp: checkedHost_def invalidUrl_def split: if_splits option.splits)
  then obtain w x y z where "split_on (CHR ''.'') h = map decimal_text [w, x, y, z]"
    using parseCanonicalIpv4_Some [OF ip(1)] ipv4_text_split by (auto simp: length_Suc_conv numeral_eq_Suc)
  then have "last h \<noteq> CHR ''.''" by (intro last_not_delim ip(4)) (auto simp: eq_commute [of "[]"])
  moreover have "list_all host_char h"
    using True by (auto simp: list_all_iff host_char_def isAsciiAlnum_def)
  ultimately show ?thesis using parseCanonicalIpv4_Some [OF ip(1)] ip by auto
next
  case False
  with assms have h: "h' = h" "\<not> v6" "h \<noteq> []" "\<not> list_ex invalidDnsLabel (split_on (CHR ''.'') h)"
    by (auto simp: checkedHost_def invalidUrl_def split_loop_split_on split: if_splits)
  then have labels: "p \<noteq> [] \<and> list_all (\<lambda>c. isAsciiAlnum c \<or> c = CHR ''-'') p"
    if "p \<in> set (split_on (CHR ''.'') h)" for p
    using that by (auto simp: list_ex_iff invalidDnsLabel_def)
  then have "last h \<noteq> CHR ''.''" using last_not_delim [OF h(3)] by blast
  moreover have "list_all host_char h"
    by (rule split_on_all_chars [of "CHR ''.''"]) (use labels in \<open>auto simp: host_char_def list_all_iff\<close>)
  ultimately show ?thesis using h by simp
qed

lemma lower_char_idem [simp]: "lower_char (lower_char c) = lower_char c"
  by (auto simp: lower_char_def isAsciiUpper_def less_eq_char_def)

lemma host_char_plain:
  "host_char c \<Longrightarrow> \<not> (byte_of c \<ge> 0x80 \<or> isControlOrSpace c) \<and> c \<noteq> CHR ''[''"
  by (auto simp: host_char_def isAsciiAlnum_def isAsciiAlpha_def isAsciiDigit_byte less_eq_char_def
      isControlOrSpace_def)

definition hostText :: "string \<Rightarrow> bool \<Rightarrow> string" where
  "hostText host ipv6Host = (if ipv6Host then ''['' @ host @ '']'' else host)"

lemma normalizeHost_plain:
  assumes "list_all host_char h" "map lower_char h = h" "h \<noteq> []" "last h \<noteq> CHR ''.''"
  shows "normalizeHost h = checkedHost h"
  using assms host_char_plain
  by (cases h) (auto simp: normalizeHost_def lowerAscii_def list_ex_iff list_all_iff Let_def)

lemma normalizeHost_idem:
  assumes "normalizeHost raw = Inr (h, v6)"
  shows "normalizeHost (hostText h v6) = Inr (h, v6)"
proof (cases "raw \<noteq> [] \<and> hd raw = CHR ''[''")
  case True
  with assms obtain ip where ip: "parseIpv6 (take (length raw - 2) (drop 1 raw)) = Some ip" "isPublicIpv6 ip"
    "h = canonicalIpv6 ip" "v6"
    by (auto simp: normalizeHost_def invalidUrl_def split: if_splits option.splits)
  have "parseIpv6 h = Some ip" using parseIpv6_canonical [OF parseIpv6_bytes [OF ip(1)]] ip(3) by simp
  moreover from this have "h \<noteq> []" by (auto simp: parseIpv6_def)
  ultimately show ?thesis using ip by (cases h) (auto simp: normalizeHost_def hostText_def)
next
  case False
  define l where "l = lowerAscii raw"
  define c where "c = (if l \<noteq> [] \<and> last l = CHR ''.'' then butlast l else l)"
  have check: "checkedHost c = Inr (h, v6)"
    using False assms by (auto simp: normalizeHost_def l_def c_def invalidUrl_def Let_def split: if_splits)
  note h = checkedHost_Inr [OF check]
  have "map lower_char c = c" by (auto simp: c_def l_def lowerAscii_def simp flip: map_butlast)
  with h check normalizeHost_plain [of c] show ?thesis by (simp add: hostText_def)
qed

text \<open>
  C18: normalising a host is idempotent, and no accepted host is the local machine: it is not
  \<open>localhost\<close> or a name below it, an IPv4 host is a public address in its only accepted spelling
  and an IPv6 host is the full canonical text of a public address.
\<close>

theorem normalizeHost_public:
  assumes "normalizeHost raw = Inr (h, v6)"
  shows "normalizeHost (hostText h v6) = Inr (h, v6)
    \<and> h \<noteq> ''localhost'' \<and> \<not> suffix ''.localhost'' h
    \<and> (\<not> v6 \<and> list_all (\<lambda>c. isAsciiDigit c \<or> c = CHR ''.'') h \<longrightarrow>
         (\<exists>ip. length ip = 4 \<and> list_all (\<lambda>b. b \<le> 255) ip \<and> h = ipv4_text ip \<and> isPublicIpv4 ip))
    \<and> (v6 \<longrightarrow> (\<exists>ip. parseIpv6 h = Some ip \<and> h = canonicalIpv6 ip \<and> isPublicIpv6 ip))"
proof -
  note idem = normalizeHost_idem [OF assms]
  show ?thesis
  proof (cases v6)
    case True
    with idem obtain ip where ip: "parseIpv6 h = Some ip" "isPublicIpv6 ip" "h = canonicalIpv6 ip"
      by (auto simp: normalizeHost_def hostText_def invalidUrl_def split: if_splits option.splits)
    have "\<not> 0 \<le> hexValue (CHR ''t'')" by (simp add: hexValue_def)
    then have "CHR ''t'' \<notin> set h" using canonicalIpv6_char [of "CHR ''t''" ip] ip(3) by auto
    then have "h \<noteq> ''localhost''" "\<not> suffix ''.localhost'' h" by (auto simp: suffix_def)
    with idem ip True show ?thesis by blast
  next
    case False
    with assms have noraw: "\<not> (raw \<noteq> [] \<and> hd raw = CHR ''['')"
      by (auto simp: normalizeHost_def invalidUrl_def split: if_splits option.splits)
    then obtain c where c: "checkedHost c = Inr (h, v6)"
      using assms by (auto simp: normalizeHost_def invalidUrl_def Let_def split: if_splits)
    then have eq: "c = h" and last: "list_all host_char h" and c: "checkedHost h = Inr (h, v6)"
      using checkedHost_Inr [OF c] by auto
    have "h \<noteq> ''localhost''" using c by (auto simp: checkedHost_def invalidUrl_def)
    moreover have "\<not> suffix ''.localhost'' h"
    proof
      assume "suffix ''.localhost'' h"
      then obtain p where p: "h = p @ ''.localhost''" by (auto simp: suffix_def)
      show False
      proof (cases p)
        case Nil
        with p c show False by (simp add: checkedHost_def eval_simps)
      next
        case (Cons a q)
        with p c show False by (auto simp: checkedHost_def invalidUrl_def)
      qed
    qed
    moreover have "\<exists>ip. length ip = 4 \<and> list_all (\<lambda>b. b \<le> 255) ip \<and> h = ipv4_text ip \<and> isPublicIpv4 ip"
      if "list_all (\<lambda>c. isAsciiDigit c \<or> c = CHR ''.'') h"
      using that c parseCanonicalIpv4_Some
      by (auto simp: checkedHost_def invalidUrl_def split: if_splits option.splits)
    ultimately show ?thesis using idem False by blast
  qed
qed

theorem normalizeHost_public_witness:
  "normalizeHost ''8.8.4.4.'' = Inr (''8.8.4.4'', False) \<and> normalizeHost ''8.8.4.4'' = Inr (''8.8.4.4'', False)
    \<and> \<not> suffix ''.localhost'' ''8.8.4.4''"
proof -
  have ok: "normalizeHost ''8.8.4.4.'' = Inr (''8.8.4.4'', False)"
    by (simp add: eval_simps decimal_text.simps digit_char_def)
  from normalizeHost_public [OF this] ok show ?thesis unfolding hostText_def by simp
qed

section \<open>The address blocks that are not public\<close>

definition ipv4_number :: "nat list \<Rightarrow> nat" where
  "ipv4_number ip = ip ! 0 * 2 ^ 24 + ip ! 1 * 2 ^ 16 + ip ! 2 * 2 ^ 8 + ip ! 3"

definition in_block :: "nat list \<Rightarrow> nat list \<times> nat \<Rightarrow> bool" where
  "in_block ip block \<longleftrightarrow>
     ipv4_number ip div 2 ^ (32 - snd block) = ipv4_number (fst block) div 2 ^ (32 - snd block)"

text \<open>The non-public ranges as CIDR blocks.\<close>

definition reserved_blocks :: "(nat list \<times> nat) list" where
  "reserved_blocks = [([0, 0, 0, 0], 8), ([10, 0, 0, 0], 8), ([127, 0, 0, 0], 8), ([224, 0, 0, 0], 3),
     ([100, 64, 0, 0], 10), ([169, 254, 0, 0], 16), ([172, 16, 0, 0], 12), ([192, 0, 0, 0], 16),
     ([192, 168, 0, 0], 16), ([198, 18, 0, 0], 15), ([198, 51, 100, 0], 24), ([203, 0, 113, 0], 24)]"

lemma ipv4_number_div:
  assumes "a \<le> 255" "b \<le> 255" "c \<le> 255" "d \<le> (255 :: nat)"
  defines "n \<equiv> a * 16777216 + b * 65536 + c * 256 + d"
  shows "n div 16777216 = a" "n div 65536 = a * 256 + b" "n div 256 = a * 65536 + b * 256 + c"
    "n div 536870912 = a div 32" "n div 4194304 = a * 4 + b div 64"
    "n div 1048576 = a * 16 + b div 16" "n div 131072 = a * 128 + b div 2"
  unfolding n_def using assms(1-4) by linarith+

lemma prefix_digits:
  assumes "q < m" "r < (m :: nat)"
  shows "a * m + q = k * m + r \<longleftrightarrow> a = k \<and> q = r"
proof
  assume eq: "a * m + q = k * m + r"
  have "(a * m + q) div m = a" "(k * m + r) div m = k" using assms by simp_all
  with eq show "a = k \<and> q = r" by auto
qed simp

text \<open>
  C19: the nested tests on the address bytes decide exactly membership in the twelve reserved
  CIDR blocks: an IPv4 address is public when it lies in none of them.
\<close>

theorem isPublicIpv4_blocks:
  assumes "length ip = 4" "list_all (\<lambda>b. b \<le> 255) ip"
  shows "isPublicIpv4 ip \<longleftrightarrow> \<not> list_ex (in_block ip) reserved_blocks"
proof -
  obtain a b c d where ip: "ip = [a, b, c, d]"
    using assms(1) by (auto simp: length_Suc_conv numeral_eq_Suc)
  with assms(2) have le: "a \<le> 255" "b \<le> 255" "c \<le> 255" "d \<le> 255" by auto
  have "list_ex (in_block ip) reserved_blocks \<longleftrightarrow>
      a = 0 \<or> a = 10 \<or> a = 127 \<or> a div 32 = 7 \<or> a * 4 + b div 64 = 401 \<or> a * 256 + b = 43518
      \<or> a * 16 + b div 16 = 2753 \<or> a * 256 + b = 49152 \<or> a * 256 + b = 49320
      \<or> a * 128 + b div 2 = 25353 \<or> a * 65536 + b * 256 + c = 12989284 \<or> a * 65536 + b * 256 + c = 13303921"
    by (simp add: ip reserved_blocks_def in_block_def ipv4_number_def ipv4_number_div [OF le])
  moreover have "a div 32 = 7 \<longleftrightarrow> a \<ge> 224" using le by linarith
  moreover have "a * 4 + b div 64 = 401 \<longleftrightarrow> a = 100 \<and> b div 64 = 1"
    and "a * 16 + b div 16 = 2753 \<longleftrightarrow> a = 172 \<and> b div 16 = 1"
    and "a * 128 + b div 2 = 25353 \<longleftrightarrow> a = 198 \<and> b div 2 = 9"
    and "a * 256 + b = 43518 \<longleftrightarrow> a = 169 \<and> b = 254"
    and "a * 256 + b = 49152 \<longleftrightarrow> a = 192 \<and> b = 0"
    and "a * 256 + b = 49320 \<longleftrightarrow> a = 192 \<and> b = 168"
    using prefix_digits [of "b div 64" 4 1 a 100] prefix_digits [of "b div 16" 16 1 a 172]
      prefix_digits [of "b div 2" 128 9 a 198] prefix_digits [of b 256 254 a 169]
      prefix_digits [of b 256 0 a 192] prefix_digits [of b 256 168 a 192] le by simp_all
  moreover have "a * 65536 + b * 256 + c = 12989284 \<longleftrightarrow> a = 198 \<and> b = 51 \<and> c = 100"
    and "a * 65536 + b * 256 + c = 13303921 \<longleftrightarrow> a = 203 \<and> b = 0 \<and> c = 113"
    using prefix_digits [of "b * 256 + c" 65536 13156 a 198] prefix_digits [of c 256 100 b 51]
      prefix_digits [of "b * 256 + c" 65536 113 a 203] prefix_digits [of c 256 113 b 0] le
    by (simp_all add: add.assoc)
  moreover have "b div 64 = 1 \<longleftrightarrow> b \<ge> 64 \<and> b \<le> 127" "b div 16 = 1 \<longleftrightarrow> b \<ge> 16 \<and> b \<le> 31"
    "b div 2 = 9 \<longleftrightarrow> b = 18 \<or> b = 19" by auto
  ultimately have "list_ex (in_block ip) reserved_blocks \<longleftrightarrow>
      a = 0 \<or> a = 10 \<or> a = 127 \<or> a \<ge> 224 \<or> (a = 100 \<and> b \<ge> 64 \<and> b \<le> 127) \<or> (a = 169 \<and> b = 254)
      \<or> (a = 172 \<and> b \<ge> 16 \<and> b \<le> 31) \<or> (a = 192 \<and> b = 0) \<or> (a = 192 \<and> b = 168)
      \<or> (a = 198 \<and> (b = 18 \<or> b = 19)) \<or> (a = 198 \<and> b = 51 \<and> c = 100) \<or> (a = 203 \<and> b = 0 \<and> c = 113)"
    by simp
  moreover have "isPublicIpv4 ip \<longleftrightarrow>
      \<not> (a = 0 \<or> a = 10 \<or> a = 127 \<or> a \<ge> 224) \<and> \<not> (a = 100 \<and> b \<ge> 64 \<and> b \<le> 127)
      \<and> \<not> (a = 169 \<and> b = 254) \<and> \<not> (a = 172 \<and> b \<ge> 16 \<and> b \<le> 31)
      \<and> \<not> (a = 192 \<and> (b = 0 \<or> b = 168 \<or> (b = 0 \<and> c = 2)))
      \<and> \<not> (a = 198 \<and> (b = 18 \<or> b = 19 \<or> (b = 51 \<and> c = 100))) \<and> \<not> (a = 203 \<and> b = 0 \<and> c = 113)"
    by (simp add: ip isPublicIpv4_def)
  ultimately show ?thesis by argo
qed

theorem isPublicIpv4_blocks_witness:
  "isPublicIpv4 [172, 32, 0, 1] \<longleftrightarrow> \<not> list_ex (in_block [172, 32, 0, 1]) reserved_blocks"
  by (rule isPublicIpv4_blocks) simp_all

end
