(* ===== verification/Url_Canonical.thy ===== *)
theory Url_Canonical
  imports Url_Hosts
begin

text \<open>
  The canonical text of \<open>src/util/UrlUtil.cpp\<close>: the invariant of every parsed or resolved URL,
  that the canonical text parses back to the URL it came from, and that the resolution of
  references and artifact paths keeps the invariant.
\<close>

section \<open>The invariant of parsed URLs\<close>

definition wf_authority :: "ParsedUrl \<Rightarrow> bool" where
  "wf_authority u \<longleftrightarrow>
     normalizeHost (hostText (url_host u) (url_ipv6Host u)) = Inr (url_host u, url_ipv6Host u)
     \<and> 0 < url_port u \<and> url_port u \<le> 65535"

definition wf_query :: "ParsedUrl \<Rightarrow> bool" where
  "wf_query u \<longleftrightarrow>
     (if url_hasQuery u then normalizePercentEncoded (url_query u) Query = Inr (url_query u) else url_query u = [])"

definition wf_file :: "platform \<Rightarrow> ParsedUrl \<Rightarrow> bool" where
  "wf_file pf u \<longleftrightarrow> url_host u = [] \<and> url_port u = 0 \<and> \<not> url_ipv6Host u \<and> \<not> url_hasQuery u
     \<and> validateFileUrlPath pf (url_path u) = Inr ()"

definition wf_url :: "platform \<Rightarrow> ParsedUrl \<Rightarrow> bool" where
  "wf_url pf u \<longleftrightarrow> normal_path (url_path u) \<and> wf_query u \<and> url_canonical u = serialize u
     \<and> (if url_scheme u = File then wf_file pf u else wf_authority u)"

lemma serialize_canonical [simp]: "serialize (u\<lparr>url_canonical := t\<rparr>) = serialize u"
  by (simp add: serialize_def)

lemma defaultPort_range: "s \<noteq> File \<Longrightarrow> 0 < defaultPort s \<and> defaultPort s \<le> 65535"
  by (cases s) (auto simp: defaultPort_def)

lemma parseAuthority_wf:
  assumes "parseAuthority s a = Inr u"
  shows "url_scheme u = s \<and> url_path u = [] \<and> url_query u = [] \<and> \<not> url_hasQuery u
    \<and> (if s = File then url_host u = [] \<and> url_port u = 0 \<and> \<not> url_ipv6Host u else wf_authority u)"
proof (cases "s = File")
  case True
  with assms show ?thesis by (auto simp: parseAuthority_def invalidUrl_def split: if_splits)
next
  case False
  with assms obtain rh rp h v6 p where parts: "normalizeHost rh = Inr (h, v6)"
    "(case rp of None \<Rightarrow> Inr (defaultPort s) | Some t \<Rightarrow> parsePort t) = Inr p"
    and u: "u = \<lparr>url_scheme = s, url_host = h, url_port = p, url_ipv6Host = v6,
            url_path = [], url_query = [], url_hasQuery = False, url_canonical = []\<rparr>"
    by (auto simp: parseAuthority_def Let_def)
  have "0 < p \<and> p \<le> 65535"
    using parts(2) False defaultPort_range by (cases rp) (auto simp: parsePort_iff)
  with parts(1) u False show ?thesis by (simp add: wf_authority_def normalizeHost_idem)
qed

lemma normalizePercentEncoded_idem:
  "normalizePercentEncoded raw c = Inr t \<Longrightarrow> normalizePercentEncoded t c = Inr t"
  using normalizePercentEncoded_normal normal_text_fixpoint by blast

lemma setQuery_cases:
  assumes "setQuery c qs t = Inr d"
  obtains "d = c" | q raw where "url_scheme c \<noteq> File" "normalizePercentEncoded raw Query = Inr q"
    "d = c\<lparr>url_query := q, url_hasQuery := True\<rparr>"
proof (cases qs)
  case None
  then show ?thesis using assms that(1) by (simp add: setQuery_def)
next
  case (Some i)
  with assms have "url_scheme c \<noteq> File" by (auto simp: setQuery_def invalidUrl_def)
  moreover from this Some assms obtain q where
    "normalizePercentEncoded (drop (i + 1) t) Query = Inr q" "d = c\<lparr>url_query := q, url_hasQuery := True\<rparr>"
    by (auto simp: setQuery_def)
  ultimately show ?thesis by (rule that(2))
qed

lemma setQuery_wf:
  assumes "setQuery c qs t = Inr d" "wf_query c"
  shows "wf_query d \<and> (url_scheme c = File \<longrightarrow> d = c) \<and> (\<exists>q h. d = c\<lparr>url_query := q, url_hasQuery := h\<rparr>)"
  using assms(1)
proof (cases rule: setQuery_cases)
  case 1
  then have "d = c\<lparr>url_query := url_query c, url_hasQuery := url_hasQuery c\<rparr>" by simp
  with 1 assms(2) show ?thesis by blast
next
  case (2 q raw)
  then show ?thesis using normalizePercentEncoded_idem by (auto simp: wf_query_def)
qed

text \<open>What remains of the invariant once path and query are replaced.\<close>

definition wf_base :: "ParsedUrl \<Rightarrow> bool" where
  "wf_base u \<longleftrightarrow> (if url_scheme u = File then url_host u = [] \<and> url_port u = 0 \<and> \<not> url_ipv6Host u else wf_authority u)"

lemma wf_base_cong [simp]:
  "wf_base (u\<lparr>url_path := p\<rparr>) = wf_base u" "wf_base (u\<lparr>url_query := q\<rparr>) = wf_base u"
  "wf_base (u\<lparr>url_hasQuery := h\<rparr>) = wf_base u" "wf_base (u\<lparr>url_canonical := t\<rparr>) = wf_base u"
  by (simp_all add: wf_base_def wf_authority_def)

lemma wf_url_iff:
  "wf_url pf u \<longleftrightarrow> wf_base u \<and> normal_path (url_path u) \<and> wf_query u \<and> url_canonical u = serialize u
     \<and> (url_scheme u = File \<longrightarrow> \<not> url_hasQuery u \<and> validateFileUrlPath pf (url_path u) = Inr ())"
  by (auto simp: wf_url_def wf_base_def wf_file_def)

lemma wf_with_canonical:
  "wf_base u \<Longrightarrow> normal_path (url_path u) \<Longrightarrow> wf_query u \<Longrightarrow>
   (url_scheme u = File \<Longrightarrow> \<not> url_hasQuery u \<and> validateFileUrlPath pf (url_path u) = Inr ()) \<Longrightarrow>
   wf_url pf (with_canonical u)"
  by (simp add: wf_url_iff with_canonical_def wf_query_def)

lemma set_path_query_wf:
  assumes "wf_base u" "wf_query u" "\<not> url_hasQuery u" "normal_path p"
    "setQuery (u\<lparr>url_path := p\<rparr>) qs t = Inr d" "url_scheme u = File \<Longrightarrow> validateFileUrlPath pf p = Inr ()"
  shows "wf_url pf (with_canonical d)"
proof -
  have q: "wf_query (u\<lparr>url_path := p\<rparr>)" using assms(2) by (simp add: wf_query_def)
  note s = setQuery_wf [OF assms(5) q]
  from s obtain a h where d: "d = u\<lparr>url_path := p, url_query := a, url_hasQuery := h\<rparr>" by auto
  show ?thesis
  proof (rule wf_with_canonical)
    show "wf_base d" using assms(1) by (simp add: d)
    show "normal_path (url_path d)" using assms(4) by (simp add: d)
    show "wf_query d" using s by blast
    assume "url_scheme d = File"
    then have "url_scheme u = File" by (simp add: d)
    then show "\<not> url_hasQuery d \<and> validateFileUrlPath pf (url_path d) = Inr ()"
      using s assms(3,6) by simp
  qed
qed

lemma parseTarget_wf:
  assumes "parseTarget pf u0 t = Inr u" "wf_base u0" "wf_query u0" "\<not> url_hasQuery u0"
  shows "wf_url pf u"
proof -
  obtain raw p d where n: "normalizePath raw = Inr p"
    and d: "setQuery (u0\<lparr>url_path := p\<rparr>) (find_char (CHR ''?'') t) t = Inr d" "u = with_canonical d"
    and f: "(if url_scheme u0 = File then validateFileUrlPath pf p else Inr ()) = Inr ()"
    using assms(1) by (auto simp: parseTarget_def Let_def)
  have "url_scheme u0 = File \<Longrightarrow> validateFileUrlPath pf p = Inr ()" using f by simp
  with set_path_query_wf [OF assms(2-4) normalizePath_normal [OF n] d(1)] d(2) show ?thesis by blast
qed

lemma parseAbsoluteUrl_wf:
  assumes "parseAbsoluteUrl pf t = Inr u"
  shows "wf_url pf u"
proof -
  obtain s a u0 r where u0: "parseAuthority s a = Inr u0" and u: "parseTarget pf u0 r = Inr u"
    using assms by (auto simp: parseAbsoluteUrl_def invalidUrl_def Let_def split: if_splits option.splits)
  have "wf_base u0" "wf_query u0" "\<not> url_hasQuery u0"
    using parseAuthority_wf [OF u0] by (auto simp: wf_base_def wf_query_def split: if_splits)
  with parseTarget_wf [OF u] show ?thesis by blast
qed

section \<open>The canonical text parses back\<close>

definition authorityText :: "ParsedUrl \<Rightarrow> string" where
  "authorityText u =
     (if url_scheme u = File then []
      else hostText (url_host u) (url_ipv6Host u)
           @ (if url_port u \<noteq> defaultPort (url_scheme u) then CHR '':'' # decimal_text (url_port u) else []))"

lemma serialize_parts:
  "serialize u = schemeName (url_scheme u) @ ''://'' @ authorityText u @ url_path u
     @ (if url_hasQuery u then CHR ''?'' # url_query u else [])"
  by (simp add: serialize_def authorityText_def hostText_def)

lemma rfind_char_last: "c \<notin> set t \<Longrightarrow> rfind_char c (s @ c # t) = Some (length s)"
  using find_char_append [of c "rev t" "rev s"] by (simp add: rfind_char_def)

lemma rfind_char_none: "c \<notin> set s \<Longrightarrow> rfind_char c s = None"
  by (simp add: rfind_char_def find_char_None)

lemma find_first_of_append:
  "(\<And>c. c \<in> set p \<Longrightarrow> c \<notin> set cs) \<Longrightarrow> x \<in> set cs \<Longrightarrow> find_first_of cs (p @ x # r) = Some (length p)"
  by (induction p) auto

definition authority_char :: "char \<Rightarrow> bool" where
  "authority_char c \<longleftrightarrow> host_char c \<or> c = CHR '':'' \<or> c = CHR ''['' \<or> c = CHR '']''"

lemma authority_char_plain:
  "authority_char c \<Longrightarrow> \<not> forbiddenUrlChar c \<and> c \<notin> {CHR ''#'', CHR ''@'', slash, CHR ''?''}"
  by (auto simp: authority_char_def host_char_def isAsciiAlnum_def isAsciiAlpha_def isAsciiDigit_byte
      less_eq_char_def isControlOrSpace_def forbiddenUrlChar_def)

lemma digit_host_char: "isAsciiDigit c \<Longrightarrow> host_char c"
  by (simp add: host_char_def isAsciiAlnum_def)

lemma hex_host_char: "0 \<le> hexValue c \<Longrightarrow> host_char c"
  by (auto simp: host_char_def isAsciiAlnum_def isAsciiAlpha_def isAsciiDigit_def hexValue_def less_eq_char_def
      split: if_splits)

lemma host_char_no [simp]: "\<not> host_char (CHR '':'')" "\<not> host_char (CHR ''['')" "\<not> host_char (CHR '']'')"
  by (auto simp: host_char_def isAsciiAlnum_def isAsciiAlpha_def isAsciiDigit_def less_eq_char_def)

lemma normal_host_chars:
  assumes "normalizeHost (hostText h v6) = Inr (h, v6)"
  shows "list_all (\<lambda>c. host_char c \<or> v6 \<and> c = CHR '':'') h" "h \<noteq> []"
proof -
  have "list_all (\<lambda>c. host_char c \<or> v6 \<and> c = CHR '':'') h \<and> h \<noteq> []"
  proof (cases v6)
    case True
    with assms obtain ip where ip: "parseIpv6 h = Some ip" "h = canonicalIpv6 ip"
      by (auto simp: normalizeHost_def hostText_def invalidUrl_def split: if_splits option.splits)
    then show ?thesis using canonicalIpv6_char hex_host_char True
      by (auto simp: list_all_iff) (auto simp: parseIpv6_def)
  next
    case False
    then have ne: "h \<noteq> []" using assms by (auto simp: hostText_def normalizeHost_def invalidUrl_def)
    then have "hd h \<noteq> CHR ''[''" using False assms
      by (auto simp: hostText_def normalizeHost_def invalidUrl_def split: if_splits option.splits)
    then obtain c where "checkedHost c = Inr (h, v6)" using False assms
      by (auto simp: hostText_def normalizeHost_def invalidUrl_def Let_def split: if_splits)
    with checkedHost_Inr ne show ?thesis by (fastforce simp: list_all_iff)
  qed
  then show "list_all (\<lambda>c. host_char c \<or> v6 \<and> c = CHR '':'') h" "h \<noteq> []" by simp_all
qed

lemma authorityText_char:
  assumes "wf_authority u" "c \<in> set (authorityText u)"
  shows "authority_char c"
  using assms normal_host_chars(1) [of "url_host u" "url_ipv6Host u"] decimal_text_digits [of "url_port u"] digit_host_char
  by (auto simp: authorityText_def hostText_def wf_authority_def authority_char_def list_all_iff split: if_splits)

lemma colon_free: "list_all isAsciiDigit t \<Longrightarrow> CHR '':'' \<notin> set t"
  by (auto simp: list_all_iff isAsciiDigit_byte)

lemma splitAuthority_plain:
  assumes "list_all host_char h" "h \<noteq> []"
  shows "splitAuthority h = Inr (h, None)"
    and "list_all isAsciiDigit t \<Longrightarrow> splitAuthority (h @ CHR '':'' # t) = Inr (h, Some t)"
proof -
  have no: "CHR '':'' \<notin> set h" "hd h \<noteq> CHR ''[''"
    using assms host_char_no hd_in_set [of h] by (metis list_all_iff)+
  then show "splitAuthority h = Inr (h, None)" by (simp add: splitAuthority_def rfind_char_none)
  show "splitAuthority (h @ CHR '':'' # t) = Inr (h, Some t)" if "list_all isAsciiDigit t"
    using no assms(2) colon_free [OF that]
    by (simp add: splitAuthority_def rfind_char_last find_char_append)
qed

lemma splitAuthority_bracket:
  assumes "CHR '']'' \<notin> set h"
  shows "splitAuthority (''['' @ h @ '']'') = Inr (''['' @ h @ '']'', None)"
    and "splitAuthority (''['' @ h @ '']'' @ CHR '':'' # t) = Inr (''['' @ h @ '']'', Some t)"
  using find_char_append [of "CHR '']''" "CHR ''['' # h" "[]"]
    find_char_append [of "CHR '']''" "CHR ''['' # h" "CHR '':'' # t"] assms
  by (simp_all add: splitAuthority_def Let_def)

lemma splitAuthority_text:
  assumes "wf_authority u" "url_scheme u \<noteq> File"
  shows "splitAuthority (authorityText u) =
    Inr (hostText (url_host u) (url_ipv6Host u),
         if url_port u \<noteq> defaultPort (url_scheme u) then Some (decimal_text (url_port u)) else None)"
proof -
  have host: "normalizeHost (hostText (url_host u) (url_ipv6Host u)) = Inr (url_host u, url_ipv6Host u)"
    using assms by (simp add: wf_authority_def)
  note chars = normal_host_chars [OF host]
  show ?thesis
  proof (cases "url_ipv6Host u")
    case True
    then have "CHR '']'' \<notin> set (url_host u)" using chars(1) host_char_no(3) by (auto simp: list_all_iff)
    with True assms(2) show ?thesis
      using splitAuthority_bracket [of "url_host u"] by (simp add: authorityText_def hostText_def)
  next
    case False
    then have "list_all host_char (url_host u)" using chars(1) by simp
    with False assms(2) chars(2) show ?thesis
      by (simp add: authorityText_def hostText_def splitAuthority_plain decimal_text_digits)
  qed
qed

lemma parseAuthority_text:
  assumes "if url_scheme u = File then wf_file pf u else wf_authority u"
  shows "parseAuthority (url_scheme u) (authorityText u) =
    Inr (u\<lparr>url_path := [], url_query := [], url_hasQuery := False, url_canonical := []\<rparr>)"
proof (cases "url_scheme u = File")
  case True
  with assms show ?thesis
    by (auto simp: parseAuthority_def authorityText_def wf_file_def)
next
  case False
  with assms have wf: "wf_authority u" by simp
  then have "normalizeHost (hostText (url_host u) (url_ipv6Host u)) = Inr (url_host u, url_ipv6Host u)"
    "(if url_port u \<noteq> defaultPort (url_scheme u) then parsePort (decimal_text (url_port u)) else Inr (defaultPort (url_scheme u)))
       = Inr (url_port u)"
    by (auto simp: wf_authority_def parsePort_decimal_text)
  with splitAuthority_text [OF wf False] False show ?thesis
    by (auto simp: parseAuthority_def Let_def split: if_splits)
qed

lemma schemeName_facts:
  "find_char (CHR '':'') (schemeName s @ CHR '':'' # r) = Some (length (schemeName s))"
  "schemeName s \<noteq> []" "\<not> invalidScheme (schemeName s)" "schemeOf (lowerAscii (schemeName s)) = Inr s"
  "c \<in> set (schemeName s) \<Longrightarrow> \<not> forbiddenUrlChar c \<and> c \<noteq> CHR ''#''"
  by (cases s; simp add: invalidScheme_def schemeOf_def lowerAscii_def lower_char_def isAsciiUpper_def
      isAsciiAlpha_def isAsciiAlnum_def less_eq_char_def; fail)+
    (cases s; auto simp: forbiddenUrlChar_def isControlOrSpace_def)

lemma colon_slash_plain: "c \<in> set ''://'' \<Longrightarrow> \<not> forbiddenUrlChar c \<and> c \<noteq> CHR ''#''"
  by (auto simp: forbiddenUrlChar_def isControlOrSpace_def)

lemma serialize_chars:
  assumes "wf_url pf u" "c \<in> set (serialize u)"
  shows "\<not> forbiddenUrlChar c \<and> c \<noteq> CHR ''#''"
proof -
  consider "c \<in> set (schemeName (url_scheme u))" | "c \<in> set ''://''" | "c \<in> set (authorityText u)"
    | "c \<in> set (url_path u)" | "c = CHR ''?''" | "url_hasQuery u" "c \<in> set (url_query u)"
    using assms(2) by (auto simp: serialize_parts split: if_splits)
  then show ?thesis
  proof cases
    case 3
    then have "wf_authority u" using assms(1) by (auto simp: wf_url_def authorityText_def split: if_splits)
    with 3 show ?thesis using authorityText_char authority_char_plain by blast
  next
    case 4
    with assms(1) show ?thesis using normal_path_char by (auto simp: wf_url_def)
  next
    case 5
    then show ?thesis by (simp add: url_char_defs)
  next
    case 6
    with assms(1) have "normal_text Query (url_query u)" by (simp add: wf_url_def wf_query_def normal_text_iff)
    with 6(2) show ?thesis using normal_text_chars by blast
  qed (use schemeName_facts(5) colon_slash_plain in blast)+
qed

lemma setQuery_text:
  assumes "wf_query u" "url_scheme u \<noteq> File \<or> \<not> url_hasQuery u"
  shows "setQuery (u\<lparr>url_query := [], url_hasQuery := False, url_canonical := []\<rparr>)
      (if url_hasQuery u then Some (length p) else None) (p @ (if url_hasQuery u then CHR ''?'' # url_query u else []))
    = Inr (u\<lparr>url_canonical := []\<rparr>)"
  using assms by (cases u) (auto simp: setQuery_def wf_query_def)

lemma parseTarget_text:
  assumes "wf_url pf u"
  shows "parseTarget pf (u\<lparr>url_path := [], url_query := [], url_hasQuery := False, url_canonical := []\<rparr>)
      (url_path u @ (if url_hasQuery u then CHR ''?'' # url_query u else [])) = Inr u"
proof -
  have path: "normal_path (url_path u)" "url_path u \<noteq> []"
    using assms by (auto simp: wf_url_def normal_path_def)
  have "CHR ''?'' \<notin> set (url_path u)" using normal_path_char [OF path(1)] by blast
  then have query: "find_char (CHR ''?'') (url_path u @ (if url_hasQuery u then CHR ''?'' # url_query u else []))
      = (if url_hasQuery u then Some (length (url_path u)) else None)"
    by (simp add: find_char_append find_char_None)
  have "with_canonical (u\<lparr>url_canonical := []\<rparr>) = u"
    using assms by (simp add: with_canonical_def wf_url_def)
  moreover have "wf_query u" "url_scheme u \<noteq> File \<or> \<not> url_hasQuery u"
    using assms by (auto simp: wf_url_iff)
  ultimately show ?thesis
    using query path setQuery_text [of u "url_path u"] normalizePath_fixpoint [OF path(1)] assms
    by (auto simp: parseTarget_def prefix_upto_def Let_def wf_url_iff)
qed

lemma wf_url_parse:
  assumes wf: "wf_url pf u"
  shows "parseAbsoluteUrl pf (serialize u) = Inr u"
proof -
  define pq where "pq = url_path u @ (if url_hasQuery u then CHR ''?'' # url_query u else [])"
  define rest where "rest = authorityText u @ pq"
  have shape: "serialize u = schemeName (url_scheme u) @ CHR '':'' # slash # slash # rest"
    by (simp add: serialize_parts rest_def pq_def)
  obtain p where p: "pq = slash # p"
    using wf by (cases "url_path u") (auto simp: wf_url_def normal_path_def pq_def)
  have auth: "if url_scheme u = File then wf_file pf u else wf_authority u" using wf by (simp add: wf_url_def)
  have plain: "c \<notin> {CHR ''@'', slash, CHR ''?''}" if "c \<in> set (authorityText u)" for c
  proof -
    have "wf_authority u" using that auth by (auto simp: authorityText_def split: if_splits)
    with that show ?thesis using authorityText_char authority_char_plain by blast
  qed
  then have first: "find_first_of ''/?'' rest = Some (length (authorityText u))"
    unfolding rest_def p by (simp add: find_first_of_append)
  have cut: "prefix_upto (Some (length (authorityText u))) rest = authorityText u" "drop (length (authorityText u)) rest = pq"
    by (simp_all add: rest_def prefix_upto_def)
  have "take (length (schemeName (url_scheme u))) (serialize u) = schemeName (url_scheme u)"
    "drop (length (schemeName (url_scheme u)) + 1) (serialize u) = slash # slash # rest"
    "drop (length (schemeName (url_scheme u)) + 3) (serialize u) = rest"
    "find_char (CHR '':'') (serialize u) = Some (length (schemeName (url_scheme u)))" "serialize u \<noteq> []"
    unfolding shape using schemeName_facts(1) by simp_all
  moreover have "\<not> list_ex forbiddenUrlChar (serialize u)" "CHR ''#'' \<notin> set (serialize u)"
    using serialize_chars [OF wf] by (auto simp: list_ex_iff)
  moreover have "CHR ''@'' \<notin> set (authorityText u)" using plain by blast
  ultimately show ?thesis
    using first cut parseAuthority_text [OF auth] parseTarget_text [OF wf, folded pq_def]
      schemeName_facts(2-4) [of "url_scheme u"]
    by (simp add: parseAbsoluteUrl_def Let_def)
qed

text \<open>
  C20: the canonical text of a parsed URL parses back to the very same URL, on both platforms, so
  that comparing canonical texts (\<open>urlsEquivalent\<close>) is comparing parsed URLs.
\<close>

theorem canonical_text_faithful:
  assumes "parseAbsoluteUrl pf s = Inr u" "parseAbsoluteUrl pf t = Inr v"
  shows "parseAbsoluteUrl pf (url_canonical u) = Inr u \<and> (urlsEquivalent u v \<longleftrightarrow> u = v)"
proof -
  have "parseAbsoluteUrl pf (url_canonical u) = Inr u" "parseAbsoluteUrl pf (url_canonical v) = Inr v"
    using assms [THEN parseAbsoluteUrl_wf] wf_url_parse by (simp_all add: wf_url_def)
  then show ?thesis by (metis sum.inject(2) urlsEquivalent_def)
qed

theorem canonical_text_faithful_witness:
  "parseAbsoluteUrl Posix ''https://a.io/b'' =
     Inr \<lparr>url_scheme = Https, url_host = ''a.io'', url_port = 443, url_ipv6Host = False, url_path = ''/b'',
          url_query = [], url_hasQuery = False, url_canonical = ''https://a.io/b''\<rparr>"
proof -
  have "parseAbsoluteUrl Posix ''HTTPS://A.io:443/%62'' =
     Inr \<lparr>url_scheme = Https, url_host = ''a.io'', url_port = 443, url_ipv6Host = False, url_path = ''/b'',
          url_query = [], url_hasQuery = False, url_canonical = ''https://a.io/b''\<rparr>"
    by (simp add: eval_simps)
  from canonical_text_faithful [OF this this] show ?thesis by simp
qed

end
