(* ===== verification/Url_Resolution.thy ===== *)
theory Url_Resolution
  imports Url_Canonical
begin

text \<open>
  Reference resolution of \<open>src/util/UrlUtil.cpp\<close>: resolving, directory and artifact operations
  keep the invariant of parsed URLs, and an encoded artifact path lands below its base.
\<close>

section \<open>Paths ending in a slash\<close>

lemma normal_path_append:
  assumes "normal_path d" "last d = slash" "list_all normal_segment (split_on slash s)"
  shows "normal_path (d @ s)"
proof -
  obtain t where t: "d = slash # t" "list_all normal_segment (split_on slash t)"
    using assms(1) by (cases d) (auto simp: normal_path_def)
  show ?thesis
  proof (cases t)
    case Nil
    with t assms(3) show ?thesis by (simp add: normal_path_def)
  next
    case (Cons a l)
    then have "t = butlast t @ slash # []" using assms(2) t(1) by (metis append_butlast_last_id last_ConsR list.distinct(1))
    moreover from this have "list_all normal_segment (split_on slash (butlast t))"
      using t(2) split_on_append_gen [of slash "butlast t" "[]"] by simp
    ultimately show ?thesis
      using t(1) assms(3) split_on_append_gen [of slash "butlast t" s]
      by (simp add: normal_path_def) (metis append.assoc append_Cons append_Nil list_all_append)
  qed
qed

lemma rfind_char_Some:
  assumes "rfind_char c s = Some i"
  shows "\<exists>p r. s = p @ c # r \<and> i = length p \<and> c \<notin> set r"
proof -
  obtain j where j: "find_char c (rev s) = Some j" "i = length s - 1 - j"
    using assms by (auto simp: rfind_char_def)
  have "rev s = take j (rev s) @ c # drop (Suc j) (rev s)" using find_char_split [OF j(1)] .
  then have "s = rev (drop (Suc j) (rev s)) @ c # rev (take j (rev s))"
    by (metis append.assoc append_Cons append_Nil rev.simps(2) rev_append rev_rev_ident)
  moreover have "c \<notin> set (rev (take j (rev s)))" "j < length s"
    using j(1) by (auto simp: find_char_Some)
  ultimately show ?thesis
    using j(2) by (intro exI [of _ "rev (drop (Suc j) (rev s))"] exI [of _ "rev (take j (rev s))"]) auto
qed

lemma normal_segment_Nil [simp]: "normal_segment []"
  by (simp add: normal_segment_def)

lemma path_directory_normal:
  assumes "normal_path p"
  obtains a r where "p = a @ slash # r" "slash \<notin> set r" "path_directory n p = a @ [slash]" "normal_path (a @ [slash])"
proof -
  obtain t where t: "p = slash # t" "list_all normal_segment (split_on slash t)"
    using assms by (cases p) (auto simp: normal_path_def)
  have "rfind_char slash p \<noteq> None"
    using t(1) by (auto simp: rfind_char_def find_char_None)
  then obtain i where i: "rfind_char slash p = Some i" by blast
  then obtain a r where ar: "p = a @ slash # r" "i = length a" "slash \<notin> set r" using rfind_char_Some by blast
  have "path_directory n p = a @ [slash]" using i ar by (simp add: path_directory_def)
  moreover have "normal_path (a @ [slash])"
  proof (cases a)
    case Nil
    then show ?thesis by (simp add: normal_path_def)
  next
    case (Cons x a')
    with ar(1) t have "x = slash" "t = a' @ slash # r" by auto
    with t(2) Cons show ?thesis by (simp add: normal_path_def split_on_append_gen)
  qed
  ultimately show ?thesis using ar(1,3) that by blast
qed

lemma validateFileUrlPath_append:
  "validateFileUrlPath pf p = Inr () \<Longrightarrow> validateFileUrlPath pf (p @ s) = Inr ()"
  by (cases pf) (auto simp: invalidUrl_def nth_append split: if_splits)

lemma validateFileUrlPath_directory:
  assumes "validateFileUrlPath pf (a @ slash # r) = Inr ()" "slash \<notin> set r"
  shows "validateFileUrlPath pf (a @ [slash]) = Inr ()"
proof (cases pf)
  case Win32
  then have w: "4 \<le> length (a @ slash # r)" "(a @ slash # r) ! 0 = slash" "isAsciiAlpha ((a @ slash # r) ! 1)"
      "(a @ slash # r) ! 2 = CHR '':''" "(a @ slash # r) ! 3 = slash"
    using assms(1) by (auto simp: invalidUrl_def split: if_splits)
  have "3 \<le> length a"
  proof (rule ccontr)
    assume "\<not> 3 \<le> length a"
    then have "3 - Suc (length a) < length r" "(a @ slash # r) ! 3 = r ! (3 - Suc (length a))"
      using w(1) by (auto simp: nth_append nth_Cons')
    with w(5) assms(2) show False by (metis nth_mem)
  qed
  with w Win32 show ?thesis by (auto simp: nth_append split: if_splits)
qed simp

section \<open>The operations keep the invariant\<close>

lemma directoryUrl_wf:
  assumes "wf_url pf u" "directoryUrl u = Inr d"
  shows "wf_url pf d \<and> last (url_path d) = slash \<and> \<not> url_hasQuery d"
proof -
  have "normal_path (url_path u)" using assms(1) by (simp add: wf_url_def)
  then obtain a r where ar: "url_path u = a @ slash # r" "slash \<notin> set r"
    "path_directory 1 (url_path u) = a @ [slash]" "normal_path (a @ [slash])"
    by (rule path_directory_normal)
  have d: "d = with_canonical (u\<lparr>url_path := a @ [slash], url_query := [], url_hasQuery := False\<rparr>)"
    using assms(2) ar(3) by (simp add: directoryUrl_def)
  have "wf_url pf d" unfolding d
    by (rule wf_with_canonical)
      (use assms(1) ar validateFileUrlPath_directory in \<open>auto simp: wf_url_iff wf_query_def\<close>)
  then show ?thesis by (simp add: d with_canonical_def)
qed

lemma asDirectoryUrl_wf:
  assumes "wf_url pf u" "asDirectoryUrl u = Inr d"
  shows "wf_url pf d \<and> last (url_path d) = slash \<and> \<not> url_hasQuery d \<and> prefix (url_path u) (url_path d)"
proof -
  define p where "p = (if last (url_path u) \<noteq> slash then url_path u @ [slash] else url_path u)"
  have u: "normal_path (url_path u)" "url_path u \<noteq> []" using assms(1) by (auto simp: wf_url_def normal_path_def)
  have d: "d = with_canonical (u\<lparr>url_path := p\<rparr>)" and q: "\<not> url_hasQuery u"
    using assms(2) u(2) by (auto simp: asDirectoryUrl_def p_def invalidUrl_def Let_def split: if_splits)
  have "normal_path (url_path u @ [slash])"
    using u(1) split_on_append_gen [of slash "tl (url_path u)" "[]"] by (cases "url_path u") (auto simp: normal_path_def)
  then have "normal_path p" using u(1) by (simp add: p_def)
  moreover have "validateFileUrlPath pf p = Inr ()" if "url_scheme u = File"
    using that assms(1) validateFileUrlPath_append by (simp add: p_def wf_url_iff)
  ultimately have "wf_url pf d" unfolding d
    by (intro wf_with_canonical) (use assms(1) q in \<open>auto simp: wf_url_iff wf_query_def\<close>)
  then show ?thesis using q by (simp add: d with_canonical_def p_def)
qed

lemma wf_canonical_id:
  assumes "wf_url pf u"
  shows "with_canonical u = u"
proof -
  have "serialize u = url_canonical u" using assms by (simp add: wf_url_def)
  then show ?thesis by (simp add: with_canonical_def)
qed

lemma resolveRelative_wf:
  assumes base: "wf_url pf base" and res: "resolveRelative pf base reference = Inr u"
  shows "wf_url pf u"
proof -
  define c where "c = base\<lparr>url_query := [], url_hasQuery := False\<rparr>"
  define qs where "qs = find_char (CHR ''?'') reference"
  note split = res [unfolded resolveRelative_def Let_def, folded c_def qs_def]
  have c: "wf_base c" "wf_query c" "\<not> url_hasQuery c" "url_scheme c = url_scheme base"
    using base by (simp_all add: c_def wf_url_iff wf_query_def)
  show ?thesis
  proof (cases "prefix_upto qs reference = []")
    case False
    then obtain raw p d where p: "normalizePath raw = Inr p" and d: "setQuery (c\<lparr>url_path := p\<rparr>) qs reference = Inr d"
      and f: "(if url_scheme c = File then validateFileUrlPath pf p else Inr ()) = Inr ()" and u: "u = with_canonical d"
      using split by auto
    from f have "url_scheme c = File \<Longrightarrow> validateFileUrlPath pf p = Inr ()" by simp
    with set_path_query_wf [OF c(1-3) normalizePath_normal [OF p] d] u show ?thesis by blast
  next
    case empty: True
    show ?thesis
    proof (cases "qs = None")
      case True
      have "c\<lparr>url_query := url_query base, url_hasQuery := url_hasQuery base\<rparr> = base" by (simp add: c_def)
      with True empty split have "u = with_canonical base" by simp
      with base show ?thesis by (simp add: wf_canonical_id)
    next
      case False
      with empty split obtain d where d: "setQuery c qs reference = Inr d" "u = with_canonical d" by auto
      have "c\<lparr>url_path := url_path base\<rparr> = c" by (simp add: c_def)
      with set_path_query_wf [OF c(1-3), of "url_path base" qs reference d pf] d base c(4)
      show ?thesis by (simp add: wf_url_iff)
    qed
  qed
qed

lemma resolveUrlReference_cases:
  assumes "resolveUrlReference pf base reference = Inr u"
  obtains t where "parseAbsoluteUrl pf t = Inr u" | "u = base" | "resolveRelative pf base reference = Inr u"
proof -
  from assms have "parseAbsoluteUrl pf reference = Inr u
      \<or> parseAbsoluteUrl pf (schemeName (url_scheme base) @ '':'' @ reference) = Inr u
      \<or> u = base \<or> resolveRelative pf base reference = Inr u"
    unfolding resolveUrlReference_def Let_def invalidUrl_def by (simp split: if_split_asm)
  with that show ?thesis by blast
qed

lemma resolveUrlReference_wf:
  assumes "wf_url pf base" "resolveUrlReference pf base reference = Inr u"
  shows "wf_url pf u"
  using assms(2) by (cases rule: resolveUrlReference_cases)
    (use assms(1) parseAbsoluteUrl_wf resolveRelative_wf in auto)

section \<open>Encoded artifact paths\<close>

lemma byte_split: "char_of (byte_of c div 16 * 16 + byte_of c mod 16) = c" "byte_of c div 16 < 16"
proof -
  have "byte_of c < 256" by (rule nat_of_char_less_256)
  then show "byte_of c div 16 < 16" by linarith
  show "char_of (byte_of c div 16 * 16 + byte_of c mod 16) = c" by simp
qed

lemma encodeSegment_props:
  assumes "encodeSegment s = Inr e" "slash \<notin> set s"
  shows "normal_text PathSegment e \<and> (\<forall>r. percentDecode (e @ r) = s @ percentDecode r)
    \<and> list_all (\<lambda>c. isUnreserved c \<or> c = CHR ''%'') e"
  using assms
proof (induction s arbitrary: e)
  case Nil
  then show ?case by (simp add: normal_Nil)
next
  case (Cons c s)
  obtain e' where e': "encodeSegment s = Inr e'" and c: "\<not> isControl c" "c \<noteq> backslash"
    and e: "e = (if isUnreserved c then [c] else [CHR ''%'', upperHex (byte_of c div 16), upperHex (byte_of c)]) @ e'"
    using Cons.prems(1) by (auto simp: invalidUrl_def split: if_splits)
  note IH = Cons.IH [OF e'] 
  show ?case
  proof (cases "isUnreserved c")
    case True
    with e IH Cons.prems(2) show ?thesis using unreserved_raw [OF True, of PathSegment] by (auto intro: normal_raw)
  next
    case False
    define h l where "h = byte_of c div 16" and "l = byte_of c mod 16"
    have hl: "h < 16" "l < 16" "char_of (h * 16 + l) = c" using byte_split by (auto simp: h_def l_def)
    have e2: "e = CHR ''%'' # upperHex h # upperHex l # e'" using e False by (simp add: h_def l_def)
    have "normal_text PathSegment e" unfolding e2
      by (rule normal_escape) (use hl c False Cons.prems(2) IH in auto)
    moreover have "percentDecode (e @ r) = (c # s) @ percentDecode r" for r
      using e2 hl IH Cons.prems(2) by simp
    moreover have "list_all (\<lambda>c. isUnreserved c \<or> c = CHR ''%'') e"
      using e2 hl IH Cons.prems(2) upperHex_unreserved by simp
    ultimately show ?thesis by blast
  qed
qed

lemma encodeSegment_ok:
  "(\<And>c. c \<in> set s \<Longrightarrow> \<not> isControl c \<and> c \<noteq> backslash) \<Longrightarrow> \<exists>e. encodeSegment s = Inr e"
  by (induction s) auto

text \<open>The encoding of a whole path: normal segments that decode to the given ones.\<close>

lemma encodeSegments_props:
  assumes "encodeSegments segs = Inr enc" "segs \<noteq> []" "\<And>s. s \<in> set segs \<Longrightarrow> slash \<notin> set s"
  shows "list_all normal_segment (split_on slash enc) \<and> percentDecode enc = join_on slash segs
    \<and> list_all (\<lambda>c. isUnreserved c \<or> c = CHR ''%'' \<or> c = slash) enc \<and> enc \<noteq> [] \<and> hd enc \<noteq> slash"
  using assms
proof (induction segs arbitrary: enc)
  case (Cons s segs)
  obtain e where e: "encodeSegment s = Inr e" and s: "s \<noteq> []" "s \<noteq> ''.''" "s \<noteq> ''..''"
    and enc: "if segs = [] then enc = e else (\<exists>r. encodeSegments segs = Inr r \<and> enc = e @ slash # r)"
    using Cons.prems(1) by (auto simp: invalidUrl_def split: if_splits)
  note ep = encodeSegment_props [OF e] and free = Cons.prems(3) [of s]
  have dec: "percentDecode e = s" "normal_text PathSegment e" "list_all (\<lambda>c. isUnreserved c \<or> c = CHR ''%'') e"
    using ep free by (simp_all, metis append_Nil2 percentDecode.simps(1))
  have seg: "normal_segment e" "e \<noteq> []"
    using dec s by (auto simp: normal_segment_def normal_text_iff)
  then have hd: "slash \<notin> set e" "hd e \<noteq> slash" using normal_segment_slash by (auto dest: hd_in_set)
  show ?case
  proof (cases "segs = []")
    case True
    with enc dec seg hd show ?thesis by (auto simp: split_on_none list_all_iff)
  next
    case False
    with enc obtain r where r: "encodeSegments segs = Inr r" "enc = e @ slash # r" by auto
    have rest_free: "\<And>t. t \<in> set segs \<Longrightarrow> slash \<notin> set t" using Cons.prems(3) by simp
    note IH = Cons.IH [OF r(1) False rest_free]
    have "percentDecode enc = s @ slash # percentDecode r"
      using ep free r(2) by simp
    moreover have "join_on slash (s # segs) = s @ slash # join_on slash segs" using False by (cases segs) auto
    moreover have "split_on slash enc = e # split_on slash r" using r(2) hd(1) by (simp add: split_on_append)
    moreover have "list_all (\<lambda>c. isUnreserved c \<or> c = CHR ''%'' \<or> c = slash) e"
      using dec(3) by (auto simp: list_all_iff)
    ultimately show ?thesis using IH r(2) seg hd by simp
  qed
qed simp

lemma encodeSegments_ok:
  "(\<And>s. s \<in> set segs \<Longrightarrow> s \<noteq> [] \<and> s \<noteq> ''.'' \<and> s \<noteq> ''..'' \<and> (\<forall>c \<in> set s. \<not> isControl c \<and> c \<noteq> backslash)) \<Longrightarrow>
     \<exists>enc. encodeSegments segs = Inr enc"
proof (induction segs)
  case (Cons s segs)
  obtain e where "encodeSegment s = Inr e" using encodeSegment_ok [of s] Cons.prems [of s] by auto
  moreover obtain r where "encodeSegments segs = Inr r" using Cons by auto
  ultimately show ?case using Cons.prems [of s] by auto
qed simp

lemma encoded_plain:
  "isUnreserved c \<or> c = CHR ''%'' \<or> c = slash \<Longrightarrow> \<not> forbiddenUrlChar c \<and> c \<notin> {CHR ''#'', CHR '':'', CHR ''?''}"
proof (elim disjE)
  assume c: "isUnreserved c"
  then have "c \<notin> {CHR ''#'', CHR '':'', CHR ''?''}" using not_unreserved by auto
  with c unreserved_raw show ?thesis by blast
qed (auto simp: forbiddenUrlChar_def isControlOrSpace_def)

lemma resolve_encoded:
  assumes base: "wf_url pf base" "last (url_path base) = slash" "\<not> url_hasQuery base"
    and enc: "list_all normal_segment (split_on slash enc)" "enc \<noteq> []" "hd enc \<noteq> slash"
      "list_all (\<lambda>c. isUnreserved c \<or> c = CHR ''%'' \<or> c = slash) enc"
  shows "resolveUrlReference pf base enc = Inr (with_canonical (base\<lparr>url_path := url_path base @ enc\<rparr>))"
proof -
  have plain: "\<not> list_ex forbiddenUrlChar enc" "CHR ''#'' \<notin> set enc" "CHR '':'' \<notin> set enc" "CHR ''?'' \<notin> set enc"
    using enc(4) encoded_plain by (auto simp: list_all_iff list_ex_iff)
  have "take 2 enc \<noteq> ''//''" using enc(2,3) by (cases enc) auto
  then have rel: "resolveUrlReference pf base enc = resolveRelative pf base enc"
    using plain enc(2) by (simp add: resolveUrlReference_def Let_def cut_at_absent(1))
  have path: "normal_path (url_path base)" using base(1) by (simp add: wf_url_def)
  then obtain a r where ar: "url_path base = a @ slash # r" "slash \<notin> set r" "path_directory 0 (url_path base) = a @ [slash]"
    by (rule path_directory_normal)
  then have "r = []" using base(2) by (cases r rule: rev_cases) auto
  with ar have dir: "path_directory 0 (url_path base) = url_path base" by simp
  have q: "base\<lparr>url_query := [], url_hasQuery := False\<rparr> = base"
    using base(1,3) by (cases base) (simp add: wf_url_def wf_query_def)
  have "normalizePath (url_path base @ enc) = Inr (url_path base @ enc)"
    by (rule normalizePath_fixpoint) (rule normal_path_append [OF path base(2) enc(1)])
  moreover have "validateFileUrlPath pf (url_path base @ enc) = Inr ()" if "url_scheme base = File"
    using that base(1) validateFileUrlPath_append by (simp add: wf_url_iff)
  moreover have "find_char (CHR ''?'') enc = None" using plain(4) by (simp add: find_char_None)
  ultimately show ?thesis
    using rel q dir enc(2,3)
    by (simp add: resolveRelative_def Let_def prefix_upto_def setQuery_def)
qed

lemma appendEncodedPath_spec:
  assumes "wf_url pf base" "last (url_path base) = slash" "\<not> url_hasQuery base"
    "validateManagedPath p = Inr ()"
  obtains enc where
    "appendEncodedPath pf base p = Inr (with_canonical (base\<lparr>url_path := url_path base @ enc\<rparr>))"
    "percentDecode enc = p" "wf_url pf (with_canonical (base\<lparr>url_path := url_path base @ enc\<rparr>))"
proof -
  have p: "p \<noteq> []" "hd p \<noteq> slash" "hd p \<noteq> backslash" using assms(4) by (simp_all add: validateManagedPath_ok)
  have segs: "s \<noteq> [] \<and> s \<noteq> ''.'' \<and> s \<noteq> ''..'' \<and> (\<forall>c \<in> set s. \<not> isControl c \<and> c \<noteq> backslash)"
    if "s \<in> set (split_on slash p)" for s
  proof -
    have "\<not> isUnsafePortableSegment s" using assms(4) that by (simp add: validateManagedPath_ok)
    moreover have "\<not> isControl c \<and> c \<noteq> backslash" if "c \<in> set s" for c
      using that \<open>s \<in> _\<close> split_on_set valid_path_chars [OF assms(4), of c] by (fastforce simp: isControl_def)
    ultimately show ?thesis using unsafe_segment_basic by blast
  qed
  obtain enc where enc: "encodeSegments (split_on slash p) = Inr enc"
    using encodeSegments_ok [OF segs] by blast
  note props = encodeSegments_props [OF enc split_on_not_Nil split_on_parts]
  have res: "resolveUrlReference pf base enc = Inr (with_canonical (base\<lparr>url_path := url_path base @ enc\<rparr>))"
    using props by (intro resolve_encoded assms(1-3)) auto
  show ?thesis
  proof (rule that)
    have "url_path base \<noteq> []" using assms(1) by (auto simp: wf_url_def normal_path_def)
    then show "appendEncodedPath pf base p = Inr (with_canonical (base\<lparr>url_path := url_path base @ enc\<rparr>))"
      using res p enc assms(2,3) by (simp add: appendEncodedPath_def split_loop_split_on)
    show "percentDecode enc = p" using props by simp
    show "wf_url pf (with_canonical (base\<lparr>url_path := url_path base @ enc\<rparr>))"
      using res by (rule resolveUrlReference_wf [OF assms(1)])
  qed
qed

text \<open>
  C21: appending a managed artifact path to a directory URL always succeeds: the result has the
  same scheme, host and port, its path is the base path followed by the encoded artifact path, no
  matter which bytes the path holds, decoding that part gives back the artifact path, and the
  result is again a well-formed URL.
\<close>

theorem appendEncodedPath_below_base:
  assumes "wf_url pf base" "last (url_path base) = slash" "\<not> url_hasQuery base"
    "validateManagedPath p = Inr ()"
  shows "\<exists>enc u. appendEncodedPath pf base p = Inr u
    \<and> url_path u = url_path base @ enc \<and> percentDecode enc = p \<and> sameOrigin u base \<and> wf_url pf u"
  using assms by (rule appendEncodedPath_spec) (auto simp: with_canonical_def sameOrigin_def)

theorem appendEncodedPath_below_base_witness:
  "\<exists>base enc u. parseAbsoluteUrl Posix ''https://a.io/v1/'' = Inr base
    \<and> appendEncodedPath Posix base ''bin/my tool'' = Inr u
    \<and> url_path u = url_path base @ enc \<and> percentDecode enc = ''bin/my tool'' \<and> sameOrigin u base \<and> wf_url Posix u"
proof -
  let ?base = "\<lparr>url_scheme = Https, url_host = ''a.io'', url_port = 443, url_ipv6Host = False, url_path = ''/v1/'',
          url_query = [], url_hasQuery = False, url_canonical = ''https://a.io/v1/''\<rparr>"
  have base: "parseAbsoluteUrl Posix ''https://a.io/v1/'' = Inr ?base" by (simp add: eval_simps)
  have "validateManagedPath ''bin/my tool'' = Inr ()" by (simp add: eval_simps)
  from appendEncodedPath_below_base [OF parseAbsoluteUrl_wf [OF base] _ _ this] base
  show ?thesis by auto
qed

end
