(* ===== verification/Url_Policies.thy ===== *)
theory Url_Policies
  imports Update_Types Url_Resolution
begin

text \<open>
  \<open>src/UrlPolicy.h\<close> and \<open>UrlPolicy.cpp\<close>: which URLs an update may touch. The policy is built
  from the configuration only; the locale \<open>redirect_policy\<close> is what the network coordinator and
  the planner rely on, and it is interpreted on the policy itself.
\<close>

section \<open>Definitions\<close>

datatype PolicyMode = Network | LocalFile

record UrlPolicy =
  pol_mode :: PolicyMode
  pol_initial :: ParsedUrl
  pol_localRoot :: ParsedUrl
  pol_networkScopes :: "ParsedUrl list"

definition default_url :: ParsedUrl where
  "default_url = \<lparr>url_scheme = Https, url_host = [], url_port = 0, url_ipv6Host = False, url_path = [],
     url_query = [], url_hasQuery = False, url_canonical = []\<rparr>"

definition invalidConfig :: "string \<Rightarrow> 'a result" where
  "invalidConfig message = fail EC_InvalidConfig message"

definition rejected :: "string \<Rightarrow> 'a result" where
  "rejected message = fail EC_SecurityPolicyViolation message"

definition scopeMatchesBoundary :: "platform \<Rightarrow> string \<Rightarrow> string \<Rightarrow> bool \<Rightarrow> bool" where
  "scopeMatchesBoundary pf path scope caseInsensitive =
     (if scope = ''/'' then path \<noteq> [] \<and> hd path = slash
      else if length path < length scope then False
      else if pf = Win32 \<and> caseInsensitive
         \<and> \<not> list_all2 (\<lambda>p s. lower_char p = lower_char s) (take (length scope) path) scope then False
      else if \<not> (pf = Win32 \<and> caseInsensitive) \<and> take (length scope) path \<noteq> scope then False
      else length path = length scope \<or> last scope = slash \<or> path ! length scope = slash)"

definition failConfigFrom :: "Error \<Rightarrow> string \<Rightarrow> 'a result" where
  "failConfigFrom error ctxt = invalidConfig (ctxt @ '': '' @ err_message error)"

definition matchesNetworkScope :: "platform \<Rightarrow> UrlPolicy \<Rightarrow> ParsedUrl \<Rightarrow> bool" where
  "matchesNetworkScope pf policy url =
     (if url_scheme url = File then False
      else list_ex (\<lambda>scope. sameOrigin url scope
             \<and> scopeMatchesBoundary pf (url_path url) (url_path scope) False) (pol_networkScopes policy))"

definition matchesLocalScope :: "platform \<Rightarrow> UrlPolicy \<Rightarrow> ParsedUrl \<Rightarrow> bool" where
  "matchesLocalScope pf policy url \<longleftrightarrow>
     url_scheme url = File \<and> scopeMatchesBoundary pf (url_path url) (url_path (pol_localRoot policy)) True"

fun parseScopes :: "platform \<Rightarrow> string list \<Rightarrow> ParsedUrl list result" where
  "parseScopes pf [] = Inr []"
| "parseScopes pf (configuredScope # rest) =
     (case parseAbsoluteUrl pf configuredScope of
        Inl e \<Rightarrow> failConfigFrom e ''Invalid allowedBaseUrls entry''
      | Inr scope \<Rightarrow>
          if url_scheme scope = File \<or> url_hasQuery scope
          then invalidConfig ''allowedBaseUrls entries must be query-free HTTP(S) URLs''
          else bindr (parseScopes pf rest) (\<lambda>scopes. Inr (scope # scopes)))"

definition fromConfig :: "platform \<Rightarrow> Config \<Rightarrow> UrlPolicy result" where
  "fromConfig pf config =
     (case parseAbsoluteUrl pf (cfg_manifestUrl config) of
        Inl e \<Rightarrow> failConfigFrom e ''Invalid manifestUrl''
      | Inr initial \<Rightarrow>
          if url_scheme initial = File
          then (if \<not> allowLocalFileUrls (cfg_security config)
                then invalidConfig ''file manifest URLs require security.allowLocalFileUrls=true''
                else (case directoryUrl initial of
                        Inl e \<Rightarrow> failConfigFrom e ''Invalid local manifest URL root''
                      | Inr localRoot \<Rightarrow>
                          Inr \<lparr>pol_mode = LocalFile, pol_initial = initial, pol_localRoot = localRoot,
                               pol_networkScopes = []\<rparr>))
          else if allowedBaseUrls (cfg_security config) = []
          then invalidConfig ''security.allowedBaseUrls must not be empty for HTTP(S) updates''
          else
            bindr (parseScopes pf (allowedBaseUrls (cfg_security config))) (\<lambda>scopes.
              let policy = \<lparr>pol_mode = Network, pol_initial = initial, pol_localRoot = default_url,
                            pol_networkScopes = scopes\<rparr>
              in if \<not> matchesNetworkScope pf policy initial
                 then invalidConfig ''manifestUrl is outside security.allowedBaseUrls''
                 else Inr policy))"

definition authorize :: "platform \<Rightarrow> UrlPolicy \<Rightarrow> ParsedUrl \<Rightarrow> unit result" where
  "authorize pf policy url =
     (if pol_mode policy = LocalFile
      then (if \<not> matchesLocalScope pf policy url
            then rejected ''Local URL is outside the configured manifest directory'' else Inr ())
      else if \<not> matchesNetworkScope pf policy url
      then rejected ''URL is outside security.allowedBaseUrls'' else Inr ())"

definition authorizeText :: "platform \<Rightarrow> UrlPolicy \<Rightarrow> string \<Rightarrow> ParsedUrl result" where
  "authorizeText pf policy url =
     bindr (parseAbsoluteUrl pf url) (\<lambda>parsed. bindr (authorize pf policy parsed) (\<lambda>_. Inr parsed))"

definition authorizeTransition :: "platform \<Rightarrow> UrlPolicy \<Rightarrow> ParsedUrl \<Rightarrow> ParsedUrl \<Rightarrow> unit result" where
  "authorizeTransition pf policy from_url to_url =
     bindr (authorize pf policy from_url) (\<lambda>_.
     bindr (authorize pf policy to_url) (\<lambda>_.
       if url_scheme from_url = Https \<and> url_scheme to_url = Http
       then rejected ''HTTPS-to-HTTP URL downgrade is not allowed''
       else if (url_scheme from_url = File) \<noteq> (url_scheme to_url = File)
       then rejected ''Switching between local file and network URLs is not allowed''
       else Inr ()))"

definition resolveAndAuthorize :: "platform \<Rightarrow> UrlPolicy \<Rightarrow> ParsedUrl \<Rightarrow> string \<Rightarrow> ParsedUrl result" where
  "resolveAndAuthorize pf policy base reference =
     bindr (authorize pf policy base) (\<lambda>_.
     bindr (resolveUrlReference pf base reference) (\<lambda>resolved.
     bindr (authorizeTransition pf policy base resolved) (\<lambda>_. Inr resolved)))"

lemmas [eval_simps] = default_url_def invalidConfig_def rejected_def scopeMatchesBoundary_def failConfigFrom_def
  matchesNetworkScope_def matchesLocalScope_def fromConfig_def authorize_def authorizeText_def
  authorizeTransition_def resolveAndAuthorize_def

section \<open>The contract of a policy\<close>

text \<open>
  What the clients of a policy rely on: a transition connects two allowed URLs, keeps the secure
  scheme once it is reached, and never leaves the kind (local or network) it started in;
  resolving a reference is such a transition and keeps the invariant of URLs.
\<close>

locale redirect_policy =
  fixes allowed :: "'u \<Rightarrow> bool" and transition :: "'u \<Rightarrow> 'u \<Rightarrow> bool"
    and resolve :: "'u \<Rightarrow> string \<Rightarrow> 'u result"
    and secure :: "'u \<Rightarrow> bool" and is_local :: "'u \<Rightarrow> bool" and wf :: "'u \<Rightarrow> bool"
  assumes transition_allowed: "transition a b \<Longrightarrow> allowed a \<and> allowed b"
    and transition_secure: "transition a b \<Longrightarrow> secure a \<Longrightarrow> secure b"
    and transition_local: "transition a b \<Longrightarrow> is_local a = is_local b"
    and resolve_transition: "resolve a r = Inr b \<Longrightarrow> transition a b"
    and resolve_keeps_wf: "resolve a r = Inr b \<Longrightarrow> wf a \<Longrightarrow> wf b"
begin

text \<open>A chain of visited URLs, each reached from the one before by a resolved reference.\<close>

inductive chain :: "'u list \<Rightarrow> bool" where
  chain_start: "allowed a \<Longrightarrow> chain [a]"
| chain_step: "chain (vs @ [a]) \<Longrightarrow> resolve a r = Inr b \<Longrightarrow> chain (vs @ [a, b])"

lemma chain_not_Nil: "chain us \<Longrightarrow> us \<noteq> []"
  by (induction rule: chain.induct) auto

lemma chain_sound:
  assumes "chain us"
  shows "(\<forall>u \<in> set us. allowed u) \<and> (\<forall>u \<in> set us. is_local u = is_local (hd us))
    \<and> (secure (hd us) \<longrightarrow> (\<forall>u \<in> set us. secure u)) \<and> (wf (hd us) \<longrightarrow> (\<forall>u \<in> set us. wf u))"
  using assms
proof (induction rule: chain.induct)
  case (chain_step vs a r b)
  have hd: "hd (vs @ [a, b]) = hd (vs @ [a])" by (cases vs) auto
  have "transition a b" using chain_step(2) by (rule resolve_transition)
  then show ?case
    unfolding hd using chain_step.IH transition_allowed transition_secure transition_local
      resolve_keeps_wf [OF chain_step(2)] by auto
qed simp

end

lemma authorizeTransition_ok:
  "authorizeTransition pf pol a b = Inr () \<longleftrightarrow>
     authorize pf pol a = Inr () \<and> authorize pf pol b = Inr ()
     \<and> \<not> (url_scheme a = Https \<and> url_scheme b = Http) \<and> (url_scheme a = File) = (url_scheme b = File)"
  by (auto simp: authorizeTransition_def rejected_def)

lemma resolveAndAuthorize_ok:
  "resolveAndAuthorize pf pol a r = Inr b \<longleftrightarrow>
     resolveUrlReference pf a r = Inr b \<and> authorizeTransition pf pol a b = Inr ()"
  by (auto simp: resolveAndAuthorize_def authorizeTransition_ok)

interpretation policy: redirect_policy "\<lambda>u. authorize pf pol u = Inr ()"
  "\<lambda>a b. authorizeTransition pf pol a b = Inr ()" "resolveAndAuthorize pf pol"
  "\<lambda>u. url_scheme u = Https" "\<lambda>u. url_scheme u = File" "wf_url pf" for pf pol
proof unfold_locales
  fix a b assume "authorizeTransition pf pol a b = Inr ()" "url_scheme a = Https"
  then show "url_scheme b = Https"
    by (cases "url_scheme b") (auto simp: authorizeTransition_ok)
qed (auto simp: authorizeTransition_ok resolveAndAuthorize_ok dest: resolveUrlReference_wf)

section \<open>Scopes are whole path segments\<close>

text \<open>A path lies in the scope when the segments of the scope begin its segments; a scope written
  with a trailing slash names what is strictly below it.\<close>

definition below_scope :: "string \<Rightarrow> string \<Rightarrow> bool" where
  "below_scope scope path \<longleftrightarrow>
     (if last scope = slash then strict_prefix (split_on slash (butlast scope)) (split_on slash path)
      else prefix (split_on slash scope) (split_on slash path))"

lemma scope_text:
  assumes "scope \<noteq> []"
  shows "scopeMatchesBoundary pf path scope False \<longleftrightarrow> below_scope scope path"
proof (cases "last scope = slash")
  case True
  then have scope: "scope = butlast scope @ [slash]" using assms by (metis append_butlast_last_id)
  have "scopeMatchesBoundary pf path scope False \<longleftrightarrow> startsWith path scope"
    using True by (cases path) (auto simp: scopeMatchesBoundary_def startsWith_def)
  also have "\<dots> \<longleftrightarrow> below_scope scope path"
    using True startsWith_slash_parts [of path "butlast scope"] scope by (simp add: below_scope_def)
  finally show ?thesis .
next
  case False
  have "scopeMatchesBoundary pf path scope False \<longleftrightarrow> path = scope \<or> (\<exists>r. path = scope @ slash # r)"
  proof
    assume m: "scopeMatchesBoundary pf path scope False"
    then have len: "length scope \<le> length path" "take (length scope) path = scope"
      and e: "length path = length scope \<or> path ! length scope = slash"
      using False by (auto simp: scopeMatchesBoundary_def split: if_splits)
    have path: "path = scope @ drop (length scope) path" using len by (metis append_take_drop_id)
    show "path = scope \<or> (\<exists>r. path = scope @ slash # r)"
    proof (cases "length path = length scope")
      case True
      then show ?thesis using path by simp
    next
      case False
      then have "drop (length scope) path = slash # drop (Suc (length scope)) path"
        using e len(1) by (metis Cons_nth_drop_Suc le_neq_implies_less)
      with path show ?thesis by metis
    qed
  qed (use False in \<open>auto simp: scopeMatchesBoundary_def\<close>)
  also have "\<dots> \<longleftrightarrow> below_scope scope path"
    using False by (simp add: below_scope_def flip: boundary_iff_parts)
  finally show ?thesis .
qed

lemma lower_slash [simp]: "lower_char c = slash \<longleftrightarrow> c = slash"
  by (auto simp: lower_char_def isAsciiUpper_def less_eq_char_def char_eq_byte)

definition fold_case :: "platform \<Rightarrow> string \<Rightarrow> string" where
  "fold_case pf s = (case pf of Win32 \<Rightarrow> map lower_char s | Posix \<Rightarrow> s)"

lemma scope_text_folded:
  assumes "scope \<noteq> []"
  shows "scopeMatchesBoundary pf path scope True \<longleftrightarrow> below_scope (fold_case pf scope) (fold_case pf path)"
proof (cases pf)
  case Posix
  then have "scopeMatchesBoundary pf path scope True = scopeMatchesBoundary pf path scope False"
    by (simp add: scopeMatchesBoundary_def)
  with Posix scope_text [OF assms] show ?thesis by (simp add: fold_case_def)
next
  case Win32
  have all2: "list_all2 (\<lambda>p s. lower_char p = lower_char s) xs ys \<longleftrightarrow> map lower_char xs = map lower_char ys" for xs ys
    by (simp add: list_all2_map1 list_all2_map2 flip: list.rel_eq) 
  have one: "map lower_char scope = [slash] \<longleftrightarrow> scope = [slash]" by auto
  have "scopeMatchesBoundary pf path scope True
      = scopeMatchesBoundary pf (map lower_char path) (map lower_char scope) False"
    using assms Win32 unfolding scopeMatchesBoundary_def all2 one
    by (auto simp: last_map hd_map take_map)
  with Win32 scope_text [of "map lower_char scope" pf "map lower_char path"] assms
  show ?thesis by (simp add: fold_case_def)
qed

lemma parseScopes_props:
  "parseScopes pf ts = Inr ss \<Longrightarrow> s \<in> set ss \<Longrightarrow>
     \<exists>t \<in> set ts. parseAbsoluteUrl pf t = Inr s \<and> url_scheme s \<noteq> File \<and> \<not> url_hasQuery s"
  by (induction ts arbitrary: ss)
    (auto simp: failConfigFrom_def invalidConfig_def split: sum.splits if_splits)

lemma normal_path_not_Nil: "wf_url pf u \<Longrightarrow> url_path u \<noteq> []"
  by (auto simp: wf_url_def normal_path_def)

lemma fromConfig_cases:
  assumes "fromConfig pf cfg = Inr pol"
  obtains (local) initial root where "parseAbsoluteUrl pf (cfg_manifestUrl cfg) = Inr initial" "url_scheme initial = File"
      "allowLocalFileUrls (cfg_security cfg)" "directoryUrl initial = Inr root"
      "pol = \<lparr>pol_mode = LocalFile, pol_initial = initial, pol_localRoot = root, pol_networkScopes = []\<rparr>"
  | (network) initial scopes where "parseAbsoluteUrl pf (cfg_manifestUrl cfg) = Inr initial" "url_scheme initial \<noteq> File"
      "parseScopes pf (allowedBaseUrls (cfg_security cfg)) = Inr scopes"
      "pol = \<lparr>pol_mode = Network, pol_initial = initial, pol_localRoot = default_url, pol_networkScopes = scopes\<rparr>"
      "matchesNetworkScope pf pol initial"
  using assms by (auto simp: fromConfig_def failConfigFrom_def invalidConfig_def Let_def split: sum.splits if_splits)

lemma directoryUrl_path:
  assumes "wf_url pf u" "directoryUrl u = Inr d"
  shows "url_path d = path_directory 1 (url_path u) \<and> startsWith (url_path u) (url_path d)"
proof -
  have "normal_path (url_path u)" using assms(1) by (simp add: wf_url_def)
  then obtain a r where ar: "url_path u = a @ slash # r" "path_directory 1 (url_path u) = a @ [slash]"
    by (rule path_directory_normal)
  then have "url_path d = a @ [slash]" using assms(2) by (auto simp: directoryUrl_def with_canonical_def Let_def)
  with ar show ?thesis by (auto simp: startsWith_iff)
qed

text \<open>
  What the configuration allows: a local file URL below the directory of the configured local
  manifest, with local URLs switched on, or a network URL with the origin of a configured base URL
  whose path segments begin the URL's path segments (so \<open>/v1\<close> does not admit \<open>/v10\<close>).
\<close>

definition configured :: "platform \<Rightarrow> Config \<Rightarrow> ParsedUrl \<Rightarrow> bool" where
  "configured pf cfg u \<longleftrightarrow>
     (if url_scheme u = File
      then allowLocalFileUrls (cfg_security cfg)
        \<and> (\<exists>m. parseAbsoluteUrl pf (cfg_manifestUrl cfg) = Inr m \<and> url_scheme m = File
             \<and> below_scope (fold_case pf (path_directory 1 (url_path m))) (fold_case pf (url_path u)))
      else (\<exists>t \<in> set (allowedBaseUrls (cfg_security cfg)). \<exists>s. parseAbsoluteUrl pf t = Inr s
             \<and> sameOrigin u s \<and> \<not> url_hasQuery s \<and> below_scope (url_path s) (url_path u)))"

lemma fromConfig_initial:
  assumes "fromConfig pf cfg = Inr pol"
  shows "authorize pf pol (pol_initial pol) = Inr ()" "parseAbsoluteUrl pf (cfg_manifestUrl cfg) = Inr (pol_initial pol)"
proof -
  have "authorize pf pol (pol_initial pol) = Inr () \<and> parseAbsoluteUrl pf (cfg_manifestUrl cfg) = Inr (pol_initial pol)"
    using assms
  proof (cases rule: fromConfig_cases)
    case (local initial root)
    note wf = parseAbsoluteUrl_wf [OF local(1)]
    note dir = directoryUrl_wf [OF wf local(4)] directoryUrl_path [OF wf local(4)]
    have root: "url_path root \<noteq> []" using dir(1) normal_path_not_Nil by blast
    have "startsWith (fold_case pf (url_path initial)) (fold_case pf (url_path root))"
      using dir(2) by (cases pf) (auto simp: startsWith_iff fold_case_def)
    moreover have "fold_case pf (url_path root) \<noteq> []" "last (fold_case pf (url_path root)) = slash"
      using root dir(1) by (cases pf; simp add: fold_case_def last_map)+
    ultimately have "below_scope (fold_case pf (url_path root)) (fold_case pf (url_path initial))"
      using startsWith_slash_parts by (metis append_butlast_last_id below_scope_def)
    then show ?thesis
      using scope_text_folded [OF root] local(1, 2, 5) by (simp add: authorize_def matchesLocalScope_def)
  next
    case (network initial scopes)
    then show ?thesis by (simp add: authorize_def)
  qed
  then show "authorize pf pol (pol_initial pol) = Inr ()" "parseAbsoluteUrl pf (cfg_manifestUrl cfg) = Inr (pol_initial pol)" by simp_all
qed

lemma authorize_configured:
  assumes "fromConfig pf cfg = Inr pol" "authorize pf pol u = Inr ()"
  shows "configured pf cfg u"
  using assms(1)
proof (cases rule: fromConfig_cases)
  case (local initial root)
  note wf = parseAbsoluteUrl_wf [OF local(1)]
  note dir = directoryUrl_wf [OF wf local(4)] directoryUrl_path [OF wf local(4)]
  have root: "url_path root \<noteq> []" using dir(1) normal_path_not_Nil by blast
  have "matchesLocalScope pf pol u"
    using assms(2) local(5) by (auto simp: authorize_def rejected_def split: if_splits)
  then have u: "url_scheme u = File" "below_scope (fold_case pf (url_path root)) (fold_case pf (url_path u))"
    using scope_text_folded [OF root] local(5) by (simp_all add: matchesLocalScope_def)
  with local dir(2) show ?thesis by (auto simp: configured_def)
next
  case (network initial scopes)
  have "matchesNetworkScope pf pol u"
    using assms(2) network(4) by (auto simp: authorize_def rejected_def split: if_splits)
  then obtain s where s: "url_scheme u \<noteq> File" "s \<in> set scopes" "sameOrigin u s"
      "scopeMatchesBoundary pf (url_path u) (url_path s) False"
    using network(4) by (auto simp: matchesNetworkScope_def list_ex_iff split: if_splits)
  from parseScopes_props [OF network(3) s(2)] obtain t where t: "t \<in> set (allowedBaseUrls (cfg_security cfg))"
    "parseAbsoluteUrl pf t = Inr s" "\<not> url_hasQuery s" by blast
  have "below_scope (url_path s) (url_path u)"
    using s(4) scope_text normal_path_not_Nil [OF parseAbsoluteUrl_wf [OF t(2)]] by blast
  then show ?thesis using s t by (auto simp: configured_def)
qed

text \<open>A small network configuration the witnesses share: it permits signed downgrades.\<close>

definition sample_config :: Config where
  "sample_config = (default_config ''1.0.0'')\<lparr>cfg_manifestUrl := ''https://a.io/v1/m.json'', cfg_tempDir := ''/t'',
     cfg_currentVersion := \<lparr>ver_major = 2, ver_minor = 0, ver_patch = 0, ver_prerelease = [], ver_build = []\<rparr>,
     cfg_security := (cfg_security (default_config ''1.0.0''))\<lparr>allowedBaseUrls := [''https://a.io/v1''],
       rejectDowngrade := False, requireManifestSignature := True\<rparr>\<rparr>"

definition sample_policy :: UrlPolicy where
  "sample_policy = \<lparr>pol_mode = Network,
     pol_initial = \<lparr>url_scheme = Https, url_host = ''a.io'', url_port = 443, url_ipv6Host = False,
       url_path = ''/v1/m.json'', url_query = [], url_hasQuery = False, url_canonical = ''https://a.io/v1/m.json''\<rparr>,
     pol_localRoot = default_url,
     pol_networkScopes = [\<lparr>url_scheme = Https, url_host = ''a.io'', url_port = 443, url_ipv6Host = False,
       url_path = ''/v1'', url_query = [], url_hasQuery = False, url_canonical = ''https://a.io/v1''\<rparr>]\<rparr>"

lemma sample_config_parts:
  "cfg_manifestUrl sample_config = ''https://a.io/v1/m.json''"
  "allowedBaseUrls (cfg_security sample_config) = [''https://a.io/v1'']"
  "allowLocalFileUrls (cfg_security sample_config) = False"
  by (simp_all add: sample_config_def default_config_def)

lemma sample_policy_ok: "fromConfig Posix sample_config = Inr sample_policy"
proof -
  have "parseAbsoluteUrl Posix ''https://a.io/v1/m.json'' = Inr (pol_initial sample_policy)"
    by (simp add: sample_policy_def eval_simps)
  moreover have "parseScopes Posix [''https://a.io/v1''] = Inr (pol_networkScopes sample_policy)"
    by (simp add: sample_policy_def eval_simps)
  ultimately show ?thesis
    by (simp add: fromConfig_def sample_config_parts) (simp add: sample_policy_def eval_simps)
qed

text \<open>
  C22: a policy never trusts more than the configuration, directly or through redirects: the manifest URL it
  starts from, every URL that it authorises, both ends of every transition that it authorises and
  every URL that it resolves from a reference are within what is configured; a transition neither leaves
  HTTPS for HTTP nor switches between local and network URLs; and resolving is such a transition.
\<close>

theorem policy_within_config:
  assumes "fromConfig pf cfg = Inr pol"
  shows "parseAbsoluteUrl pf (cfg_manifestUrl cfg) = Inr (pol_initial pol) \<and> authorize pf pol (pol_initial pol) = Inr ()
    \<and> (\<forall>u. authorize pf pol u = Inr () \<longrightarrow> configured pf cfg u)
    \<and> (\<forall>t u. authorizeText pf pol t = Inr u \<longrightarrow> parseAbsoluteUrl pf t = Inr u \<and> configured pf cfg u)
    \<and> (\<forall>a b. authorizeTransition pf pol a b = Inr () \<longrightarrow> configured pf cfg a \<and> configured pf cfg b
         \<and> (url_scheme a = Https \<longrightarrow> url_scheme b = Https) \<and> (url_scheme a = File \<longleftrightarrow> url_scheme b = File))
    \<and> (\<forall>a t b. resolveAndAuthorize pf pol a t = Inr b \<longrightarrow>
         resolveUrlReference pf a t = Inr b \<and> configured pf cfg a \<and> configured pf cfg b
         \<and> (url_scheme a = Https \<longrightarrow> url_scheme b = Https) \<and> (url_scheme a = File \<longleftrightarrow> url_scheme b = File))"
proof -
  have within: "configured pf cfg u" if "authorize pf pol u = Inr ()" for u by (rule authorize_configured [OF assms that])
  have step: "configured pf cfg a \<and> configured pf cfg b
      \<and> (url_scheme a = Https \<longrightarrow> url_scheme b = Https) \<and> (url_scheme a = File \<longleftrightarrow> url_scheme b = File)"
    if "authorizeTransition pf pol a b = Inr ()" for a b
    using policy.transition_allowed [OF that] policy.transition_secure [OF that] policy.transition_local [OF that] within by blast
  show ?thesis
    using fromConfig_initial [OF assms] within step by (auto simp: authorizeText_def resolveAndAuthorize_ok)
qed

theorem policy_within_config_witness:
  "resolveAndAuthorize Posix sample_policy (pol_initial sample_policy) ''x''
     = Inr ((pol_initial sample_policy)\<lparr>url_path := ''/v1/x'', url_canonical := ''https://a.io/v1/x''\<rparr>)
   \<and> configured Posix sample_config ((pol_initial sample_policy)\<lparr>url_path := ''/v1/x'', url_canonical := ''https://a.io/v1/x''\<rparr>)"
proof -
  have "resolveAndAuthorize Posix sample_policy (pol_initial sample_policy) ''x''
     = Inr ((pol_initial sample_policy)\<lparr>url_path := ''/v1/x'', url_canonical := ''https://a.io/v1/x''\<rparr>)"
    by (simp add: sample_policy_def eval_simps)
  with policy_within_config [OF sample_policy_ok] show ?thesis by blast
qed

end
