(* ===== verification/Update_Planner.thy ===== *)
theory Update_Planner
  imports Url_Policies
begin

text \<open>
  \<open>src/UpdatePlanner.cpp\<close>: from configuration, verified manifest, local snapshot, last accepted
  version and current time to the decision what to download and which operations to apply. The
  theorems: no downgrade without the four authorisations, nothing outside policy and whitelist,
  and executing the planned operations turns the local tree into the manifest's target state.
\<close>

section \<open>Definitions\<close>

definition parseOptionalTimestamp :: "string \<Rightarrow> string \<Rightarrow> UtcInstant option result" where
  "parseOptionalTimestamp v field =
     (if v = [] then Inr None
      else (case parseRfc3339 v of
              Inl _ \<Rightarrow> fail EC_ManifestParseFailed (field @ '' must use the documented RFC 3339 timestamp profile'')
            | Inr t \<Rightarrow> Inr (Some t)))"

definition file_target :: "ManifestFile \<Rightarrow> string" where
  "file_target f = (if mf_localPath f = [] then mf_path f else mf_localPath f)"

text \<open>\<open>!left.empty() && !right.empty() && left != right\<close>\<close>

definition mismatch :: "string \<Rightarrow> string \<Rightarrow> bool" where
  "mismatch l r \<longleftrightarrow> l \<noteq> [] \<and> r \<noteq> [] \<and> l \<noteq> r"

definition validateManifestAgainstConfig ::
    "platform \<Rightarrow> Config \<Rightarrow> ManifestEnvelope \<Rightarrow> UrlPolicy \<Rightarrow> UtcInstant \<Rightarrow> unit result" where
  "validateManifestAgainstConfig pf config envelope policy currentTime =
     (let manifest = env_manifest envelope
      in bindr (validateManagedTargetPaths (map file_target (m_files manifest) @ m_remove manifest)) (\<lambda>_.
         if cfg_installLayout config = PackageManagerOwned
         then fail EC_UnsupportedInstallLayout ''Package-manager-owned installs are not self-updated''
         else if mismatch (cfg_appId config) (m_appId manifest)
         then fail EC_SecurityPolicyViolation ''Manifest appId does not match config''
         else if mismatch (cfg_channel config) (m_channel manifest)
         then fail EC_SecurityPolicyViolation ''Manifest channel does not match config''
         else if mismatch (cfg_platform config) (m_platform manifest)
         then fail EC_SecurityPolicyViolation ''Manifest platform does not match config''
         else if mismatch (cfg_arch config) (m_arch manifest)
         then fail EC_SecurityPolicyViolation ''Manifest arch does not match config''
         else if (case m_minClientVersion manifest of None \<Rightarrow> False | Some v \<Rightarrow> version_less (cfg_clientVersion config) v)
         then fail EC_UnsupportedManifestSchema ''Updater client version is too old''
         else
           bindr (parseOptionalTimestamp (m_releaseDate manifest) ''releaseDate'') (\<lambda>_.
           bindr (parseOptionalTimestamp (m_publishedAt manifest) ''publishedAt'') (\<lambda>_.
           bindr (parseOptionalTimestamp (m_expiresAt manifest) ''expiresAt'') (\<lambda>expiresAt.
             if rejectExpiredManifest (cfg_security config)
                \<and> (case expiresAt of None \<Rightarrow> False | Some e \<Rightarrow> e \<le> currentTime)
             then fail EC_SecurityPolicyViolation ''Manifest has expired''
             else
               bindr (authorizeText pf policy (env_sourceUrl envelope)) (\<lambda>source.
               bindr (authorizeText pf policy (env_artifactBaseUrl envelope)) (\<lambda>artifactBase.
                 if url_path artifactBase = [] \<or> last (url_path artifactBase) \<noteq> slash \<or> url_hasQuery artifactBase
                 then fail EC_SecurityPolicyViolation ''Resolved artifact base URL is not a query-free directory''
                 else authorizeTransition pf policy source artifactBase)))))))"

text \<open>\<open>snapshotByPath\<close>: the first record of a lookup key wins.\<close>

fun indexSnapshot :: "LocalFileInfo list \<Rightarrow> (string \<rightharpoonup> LocalFileInfo) \<Rightarrow> (string \<rightharpoonup> LocalFileInfo) result" where
  "indexSnapshot [] snapshotByPath = Inr snapshotByPath"
| "indexSnapshot (loc # rest) snapshotByPath =
     bindr (validateManagedTargetPath (lf_path loc)) (\<lambda>_.
       let key = managedPathLookupKey (lf_path loc)
       in indexSnapshot rest
            (case snapshotByPath key of None \<Rightarrow> snapshotByPath(key \<mapsto> loc) | Some _ \<Rightarrow> snapshotByPath))"

definition needsDownload :: "(string \<rightharpoonup> LocalFileInfo) \<Rightarrow> ManifestFile \<Rightarrow> bool" where
  "needsDownload snapshotByPath f =
     (case snapshotByPath (managedPathLookupKey (file_target f)) of
        None \<Rightarrow> True
      | Some loc \<Rightarrow> \<not> lf_exists loc \<or> lf_sha256 loc \<noteq> mf_sha256 f)"

definition replaceOperation :: "ManifestFile \<Rightarrow> ApplyOperation" where
  "replaceOperation f = default_operation\<lparr>op_type := Replace, op_source := mf_path f, op_target := file_target f,
     op_sha256 := mf_sha256 f, op_size := mf_size f\<rparr>"

definition removeOperation :: "string \<Rightarrow> ApplyOperation" where
  "removeOperation path = default_operation\<lparr>op_type := Remove, op_target := path\<rparr>"

definition planDownload :: "platform \<Rightarrow> Config \<Rightarrow> UrlPolicy \<Rightarrow> ParsedUrl \<Rightarrow> ManifestFile \<Rightarrow> PlannedDownload result" where
  "planDownload pf config policy artifactBase f =
     bindr (appendEncodedPath pf artifactBase (mf_path f)) (\<lambda>artifactUrl.
     bindr (authorizeTransition pf policy artifactBase artifactUrl) (\<lambda>_.
     bindr (safeJoin (cfg_tempDir config) (mf_path f)) (\<lambda>stagingPath.
       Inr \<lparr>pd_file = f, pd_url = url_canonical artifactUrl, pd_stagingPath = stagingPath\<rparr>)))"

text \<open>The loop over \<open>manifest.files\<close>, with the decision built so far.\<close>

fun planFiles :: "platform \<Rightarrow> Config \<Rightarrow> UrlPolicy \<Rightarrow> ParsedUrl \<Rightarrow> (string \<rightharpoonup> LocalFileInfo) \<Rightarrow>
    ManifestFile list \<Rightarrow> UpdateDecision \<Rightarrow> UpdateDecision result" where
  "planFiles pf config policy artifactBase snapshotByPath [] decision = Inr decision"
| "planFiles pf config policy artifactBase snapshotByPath (f # rest) decision =
     bindr (validateManagedTargetPath (file_target f)) (\<lambda>_.
       if \<not> pathAllowedByWhitelist (file_target f) (cfg_managedPathWhitelist config)
       then fail EC_SecurityPolicyViolation ''Manifest file is outside managed whitelist''
       else if needsDownload snapshotByPath f
       then bindr (planDownload pf config policy artifactBase f) (\<lambda>download.
              planFiles pf config policy artifactBase snapshotByPath rest
                (decision\<lparr>ud_operations := ud_operations decision @ [replaceOperation f],
                          ud_downloads := ud_downloads decision @ [download]\<rparr>))
       else planFiles pf config policy artifactBase snapshotByPath rest decision)"

fun planRemovals :: "Config \<Rightarrow> string list \<Rightarrow> UpdateDecision \<Rightarrow> UpdateDecision result" where
  "planRemovals config [] decision = Inr decision"
| "planRemovals config (path # rest) decision =
     bindr (validateManagedTargetPath path) (\<lambda>_.
       if \<not> pathAllowedByWhitelist path (cfg_managedPathWhitelist config)
       then fail EC_SecurityPolicyViolation ''Remove path is outside managed whitelist''
       else planRemovals config rest
              (decision\<lparr>ud_operations := ud_operations decision @ [removeOperation path]\<rparr>))"

definition downgradeBaseline :: "Version \<Rightarrow> Version option \<Rightarrow> Version" where
  "downgradeBaseline current lastAccepted =
     (case lastAccepted of None \<Rightarrow> current | Some v \<Rightarrow> if version_less current v then v else current)"

definition downgradeAuthorized :: "Config \<Rightarrow> ManifestEnvelope \<Rightarrow> bool" where
  "downgradeAuthorized config envelope \<longleftrightarrow>
     \<not> rejectDowngrade (cfg_security config) \<and> requireManifestSignature (cfg_security config)
     \<and> env_releaseManifestSignatureVerified envelope \<and> m_allowDowngrade (env_manifest envelope)"

definition initialDecision :: "Config \<Rightarrow> Manifest \<Rightarrow> UpdateDecision" where
  "initialDecision config manifest =
     \<lparr>ud_checkResult = \<lparr>cr_updateAvailable = False, cr_reinstallRequired = False, cr_mandatory = m_mandatory manifest,
        cr_downgradeRejected = False, cr_currentVersion = cfg_currentVersion config,
        cr_remoteVersion = Some (m_version manifest), cr_releaseId = m_releaseId manifest, cr_notes = m_notes manifest\<rparr>,
      ud_downloads = [], ud_operations = []\<rparr>"

definition planUpdate :: "platform \<Rightarrow> Config \<Rightarrow> ManifestEnvelope \<Rightarrow> LocalSnapshot \<Rightarrow> Version option \<Rightarrow> UtcInstant \<Rightarrow>
    UpdateDecision result" where
  "planUpdate pf config envelope snapshot lastAcceptedVersion currentTime =
     (let manifest = env_manifest envelope
      in bindr (fromConfig pf config) (\<lambda>policy.
         bindr (validateManifestAgainstConfig pf config envelope policy currentTime) (\<lambda>_.
         bindr (authorizeText pf policy (env_artifactBaseUrl envelope)) (\<lambda>artifactBase.
           let decision = initialDecision config manifest;
               isDowngrade = version_less (m_version manifest)
                 (downgradeBaseline (cfg_currentVersion config) lastAcceptedVersion);
               authorized = isDowngrade \<and> downgradeAuthorized config envelope
           in if isDowngrade \<and> \<not> authorized
              then fail EC_SecurityPolicyViolation
                ''Manifest version is lower than the local baseline without verified downgrade authorization''
              else if (case m_minVersion manifest of None \<Rightarrow> False | Some v \<Rightarrow> version_less (cfg_currentVersion config) v)
              then Inr (decision\<lparr>ud_checkResult := (ud_checkResult decision)\<lparr>cr_reinstallRequired := True\<rparr>\<rparr>)
              else if \<not> version_less (cfg_currentVersion config) (m_version manifest)
                      \<and> \<not> (authorized \<and> \<not> version_eq (m_version manifest) (cfg_currentVersion config))
              then Inr decision
              else
                bindr (indexSnapshot snapshot Map.empty) (\<lambda>snapshotByPath.
                bindr (planFiles pf config policy artifactBase snapshotByPath (m_files manifest)
                  (decision\<lparr>ud_checkResult := (ud_checkResult decision)\<lparr>cr_updateAvailable := True\<rparr>\<rparr>))
                  (\<lambda>withFiles. planRemovals config (m_remove manifest) withFiles))))))"

lemmas [eval_simps] = parseOptionalTimestamp_def file_target_def mismatch_def validateManifestAgainstConfig_def
  needsDownload_def replaceOperation_def removeOperation_def planDownload_def downgradeBaseline_def
  downgradeAuthorized_def initialDecision_def planUpdate_def

section \<open>What a successful plan has checked\<close>

lemma planRemovals_props:
  "planRemovals cfg ps d = Inr d' \<longleftrightarrow>
     (\<forall>p \<in> set ps. validateManagedTargetPath p = Inr () \<and> pathAllowedByWhitelist p (cfg_managedPathWhitelist cfg))
     \<and> d' = d\<lparr>ud_operations := ud_operations d @ map removeOperation ps\<rparr>"
  by (induction ps arbitrary: d) auto

lemma planFiles_props:
  "planFiles pf cfg pol base snap fs d = Inr d' \<longleftrightarrow>
     (\<forall>f \<in> set fs. validateManagedTargetPath (file_target f) = Inr ()
        \<and> pathAllowedByWhitelist (file_target f) (cfg_managedPathWhitelist cfg))
     \<and> (\<exists>ds. list_all2 (\<lambda>f x. planDownload pf cfg pol base f = Inr x) (filter (needsDownload snap) fs) ds
          \<and> d' = d\<lparr>ud_operations := ud_operations d @ map replaceOperation (filter (needsDownload snap) fs),
                   ud_downloads := ud_downloads d @ ds\<rparr>)"
proof (induction fs arbitrary: d)
  case Nil
  show ?case by auto
next
  case (Cons f fs)
  show ?case
  proof (cases "needsDownload snap f")
    case True
    then show ?thesis using Cons.IH by (auto simp: list_all2_Cons1)
  next
    case False
    then show ?thesis using Cons.IH by auto
  qed
qed

text \<open>The checks every decision has passed.\<close>

definition plan_checked :: "platform \<Rightarrow> Config \<Rightarrow> ManifestEnvelope \<Rightarrow> Version option \<Rightarrow> UtcInstant \<Rightarrow>
    UrlPolicy \<Rightarrow> ParsedUrl \<Rightarrow> bool" where
  "plan_checked pf cfg env lastAccepted now pol base \<longleftrightarrow>
     fromConfig pf cfg = Inr pol \<and> validateManifestAgainstConfig pf cfg env pol now = Inr ()
     \<and> authorizeText pf pol (env_artifactBaseUrl env) = Inr base
     \<and> (version_less (m_version (env_manifest env)) (downgradeBaseline (cfg_currentVersion cfg) lastAccepted)
          \<longrightarrow> downgradeAuthorized cfg env)"

lemma planUpdate_cases:
  assumes "planUpdate pf cfg env snap lastAccepted now = Inr d"
  obtains (stay) pol base where "plan_checked pf cfg env lastAccepted now pol base"
      "ud_downloads d = []" "ud_operations d = []" "\<not> cr_updateAvailable (ud_checkResult d)"
  | (update) pol base snapMap where "plan_checked pf cfg env lastAccepted now pol base"
      "cr_updateAvailable (ud_checkResult d)"
      "indexSnapshot snap Map.empty = Inr snapMap"
      "\<And>f. f \<in> set (m_files (env_manifest env)) \<Longrightarrow> validateManagedTargetPath (file_target f) = Inr ()
         \<and> pathAllowedByWhitelist (file_target f) (cfg_managedPathWhitelist cfg)"
      "\<And>p. p \<in> set (m_remove (env_manifest env)) \<Longrightarrow> validateManagedTargetPath p = Inr ()
         \<and> pathAllowedByWhitelist p (cfg_managedPathWhitelist cfg)"
      "list_all2 (\<lambda>f x. planDownload pf cfg pol base f = Inr x)
         (filter (needsDownload snapMap) (m_files (env_manifest env))) (ud_downloads d)"
      "ud_operations d = map replaceOperation (filter (needsDownload snapMap) (m_files (env_manifest env)))
         @ map removeOperation (m_remove (env_manifest env))"
proof -
  let ?m = "env_manifest env"
  let ?down = "version_less (m_version ?m) (downgradeBaseline (cfg_currentVersion cfg) lastAccepted)"
  let ?init = "initialDecision cfg ?m"
  let ?avail = "?init\<lparr>ud_checkResult := (ud_checkResult ?init)\<lparr>cr_updateAvailable := True\<rparr>\<rparr>"
  from assms obtain pol base where pb: "fromConfig pf cfg = Inr pol" "validateManifestAgainstConfig pf cfg env pol now = Inr ()"
      "authorizeText pf pol (env_artifactBaseUrl env) = Inr base"
    and down: "?down \<longrightarrow> downgradeAuthorized cfg env"
    and branch: "d = ?init \<or> d = ?init\<lparr>ud_checkResult := (ud_checkResult ?init)\<lparr>cr_reinstallRequired := True\<rparr>\<rparr>
      \<or> (\<exists>snapMap w. indexSnapshot snap Map.empty = Inr snapMap
            \<and> planFiles pf cfg pol base snapMap (m_files ?m) ?avail = Inr w \<and> planRemovals cfg (m_remove ?m) w = Inr d)"
    by (auto simp: planUpdate_def Let_def split: if_splits)
  have checked: "plan_checked pf cfg env lastAccepted now pol base" using pb down by (simp add: plan_checked_def)
  from branch show ?thesis
  proof (elim disjE exE conjE)
    assume "d = ?init"
    with stay checked show ?thesis by (simp add: initialDecision_def)
  next
    assume "d = ?init\<lparr>ud_checkResult := (ud_checkResult ?init)\<lparr>cr_reinstallRequired := True\<rparr>\<rparr>"
    with stay checked show ?thesis by (simp add: initialDecision_def)
  next
    fix snapMap w assume snapMap: "indexSnapshot snap Map.empty = Inr snapMap"
      and w: "planFiles pf cfg pol base snapMap (m_files ?m) ?avail = Inr w" and d: "planRemovals cfg (m_remove ?m) w = Inr d"
    from w obtain ds where "list_all2 (\<lambda>f x. planDownload pf cfg pol base f = Inr x) (filter (needsDownload snapMap) (m_files ?m)) ds"
      "w = ?avail\<lparr>ud_operations := ud_operations ?avail @ map replaceOperation (filter (needsDownload snapMap) (m_files ?m)),
                  ud_downloads := ud_downloads ?avail @ ds\<rparr>"
      unfolding planFiles_props by blast
    with update [OF checked _ snapMap] w d show ?thesis
      by (auto simp: planFiles_props planRemovals_props initialDecision_def)
  qed
qed

lemma downgradeBaseline_upper:
  "\<not> version_less (downgradeBaseline current lastAccepted) current"
  "lastAccepted = Some v \<Longrightarrow> \<not> version_less (downgradeBaseline current lastAccepted) v"
  using version_less_irrefl version_less_asym by (auto simp: downgradeBaseline_def split: option.splits)

text \<open>
  C23: rollback protection. A decision is reached on a manifest older than the installed version
  or older than the last accepted one only when the configuration permits downgrades and demands
  signatures, the signature of this very manifest was verified, and the manifest asks for it.
\<close>

theorem planUpdate_no_downgrade:
  assumes "planUpdate pf cfg env snap lastAccepted now = Inr d"
    and "version_less (m_version (env_manifest env)) (cfg_currentVersion cfg)
      \<or> (\<exists>v. lastAccepted = Some v \<and> version_less (m_version (env_manifest env)) v)"
  shows "\<not> rejectDowngrade (cfg_security cfg) \<and> requireManifestSignature (cfg_security cfg)
    \<and> env_releaseManifestSignatureVerified env \<and> m_allowDowngrade (env_manifest env)"
proof -
  have "version_less (m_version (env_manifest env)) (downgradeBaseline (cfg_currentVersion cfg) lastAccepted)"
    using assms(2) version_less_le_trans downgradeBaseline_upper by blast
  with assms(1) have "downgradeAuthorized cfg env"
    by (cases rule: planUpdate_cases) (auto simp: plan_checked_def)
  then show ?thesis by (simp add: downgradeAuthorized_def)
qed

lemma planDownload_props:
  assumes "planDownload pf cfg pol base f = Inr x" "wf_url pf base"
  shows "pd_file x = f \<and> safeJoin (cfg_tempDir cfg) (mf_path f) = Inr (pd_stagingPath x)
    \<and> (\<exists>u enc. parseAbsoluteUrl pf (pd_url x) = Inr u \<and> authorize pf pol u = Inr () \<and> sameOrigin u base
         \<and> url_path u = url_path base @ enc \<and> percentDecode enc = mf_path f)"
proof -
  obtain u st where u: "appendEncodedPath pf base (mf_path f) = Inr u" "authorizeTransition pf pol base u = Inr ()"
    and st: "safeJoin (cfg_tempDir cfg) (mf_path f) = Inr st"
    and x: "x = \<lparr>pd_file = f, pd_url = url_canonical u, pd_stagingPath = st\<rparr>"
    using assms(1) by (auto simp: planDownload_def)
  have "last (url_path base) = slash" "\<not> url_hasQuery base"
    using u(1) by (auto simp: appendEncodedPath_def invalidUrl_def split: if_splits)
  moreover have "validateManagedPath (mf_path f) = Inr ()" using st by (auto simp: safeJoin_def)
  ultimately obtain enc where enc: "u = with_canonical (base\<lparr>url_path := url_path base @ enc\<rparr>)"
    "percentDecode enc = mf_path f" "wf_url pf u"
    using appendEncodedPath_spec [OF assms(2)] u(1) by (metis sum.inject(2))
  have "parseAbsoluteUrl pf (url_canonical u) = Inr u"
    using wf_url_parse [OF enc(3)] enc(3) by (simp add: wf_url_def)
  moreover have "authorize pf pol u = Inr ()" using u(2) by (simp add: authorizeTransition_ok)
  moreover have "sameOrigin u base" "url_path u = url_path base @ enc"
    using enc(1) by (simp_all add: sameOrigin_def with_canonical_def)
  ultimately show ?thesis using x st enc(2) by auto
qed

lemma authorizeText_ok:
  "authorizeText pf pol t = Inr u \<longleftrightarrow> parseAbsoluteUrl pf t = Inr u \<and> authorize pf pol u = Inr ()"
  by (auto simp: authorizeText_def)

text \<open>
  C24: a decision stays inside the policy. Every planned download has a URL that parses, is
  authorised by the policy of the configuration, has the origin of the artifact base and lies
  below its path, where it decodes to the file's path; its staging file is that path joined below
  the temporary directory; and every operation's target is a managed target inside the whitelist.
\<close>

theorem planUpdate_within_policy:
  assumes "planUpdate pf cfg env snap lastAccepted now = Inr d"
  shows "\<exists>pol base. fromConfig pf cfg = Inr pol \<and> parseAbsoluteUrl pf (env_artifactBaseUrl env) = Inr base
    \<and> (\<forall>x \<in> set (ud_downloads d). pd_file x \<in> set (m_files (env_manifest env))
         \<and> safeJoin (cfg_tempDir cfg) (mf_path (pd_file x)) = Inr (pd_stagingPath x)
         \<and> (\<exists>u enc. parseAbsoluteUrl pf (pd_url x) = Inr u \<and> authorize pf pol u = Inr () \<and> sameOrigin u base
              \<and> url_path u = url_path base @ enc \<and> percentDecode enc = mf_path (pd_file x)))
    \<and> (\<forall>q \<in> set (ud_operations d). validateManagedTargetPath (op_target q) = Inr ()
         \<and> pathAllowedByWhitelist (op_target q) (cfg_managedPathWhitelist cfg))"
  using assms
proof (cases rule: planUpdate_cases)
  case (stay pol base)
  then show ?thesis by (auto simp: plan_checked_def authorizeText_ok)
next
  case (update pol base snapMap)
  have base: "fromConfig pf cfg = Inr pol" "parseAbsoluteUrl pf (env_artifactBaseUrl env) = Inr base"
    using update(1) by (auto simp: plan_checked_def authorizeText_ok)
  note down = planDownload_props [OF _ parseAbsoluteUrl_wf [OF base(2)], of cfg pol]
  have "pd_file x \<in> set (m_files (env_manifest env)) \<and> planDownload pf cfg pol base (pd_file x) = Inr x"
    if "x \<in> set (ud_downloads d)" for x
  proof -
    obtain i where i: "i < length (ud_downloads d)" "x = ud_downloads d ! i" using \<open>x \<in> _\<close> by (metis in_set_conv_nth)
    let ?fs = "filter (needsDownload snapMap) (m_files (env_manifest env))"
    have "length ?fs = length (ud_downloads d)" using update(6) by (rule list_all2_lengthD)
    then have "planDownload pf cfg pol base (?fs ! i) = Inr x" "?fs ! i \<in> set ?fs"
      using list_all2_nthD2 [OF update(6) i(1)] i nth_mem [of i ?fs] by simp_all
    with down [of "?fs ! i" x] show ?thesis by auto
  qed
  moreover have "validateManagedTargetPath (op_target q) = Inr () \<and> pathAllowedByWhitelist (op_target q) (cfg_managedPathWhitelist cfg)"
    if "q \<in> set (ud_operations d)" for q
    using that update(4,5,7) by (auto simp: replaceOperation_def removeOperation_def)
  ultimately show ?thesis using base down by blast
qed

section \<open>Executing the operations reaches the manifest's state\<close>

text \<open>The installed tree as a map from lookup keys to content digests, and what one operation does to it.\<close>

type_synonym install_tree = "string \<rightharpoonup> string"

definition apply_operation :: "install_tree \<Rightarrow> ApplyOperation \<Rightarrow> install_tree" where
  "apply_operation tree q =
     (case op_type q of
        Replace \<Rightarrow> tree(managedPathLookupKey (op_target q) \<mapsto> op_sha256 q)
      | Remove \<Rightarrow> tree(managedPathLookupKey (op_target q) := None))"

definition target_state :: "Manifest \<Rightarrow> install_tree \<Rightarrow> install_tree" where
  "target_state m tree k =
     (case find (\<lambda>f. managedPathLookupKey (file_target f) = k) (m_files m) of
        Some f \<Rightarrow> Some (mf_sha256 f)
      | None \<Rightarrow> if k \<in> managedPathLookupKey ` set (m_remove m) then None else tree k)"

definition faithful_snapshot :: "LocalSnapshot \<Rightarrow> install_tree \<Rightarrow> bool" where
  "faithful_snapshot snap tree \<longleftrightarrow>
     list_all (\<lambda>loc. tree (managedPathLookupKey (lf_path loc)) =
       (if lf_exists loc then Some (lf_sha256 loc) else None)) snap"

lemma indexSnapshot_sound:
  assumes "indexSnapshot snap m = Inr m'" "m' k = Some loc"
  shows "m k = Some loc \<or> (loc \<in> set snap \<and> managedPathLookupKey (lf_path loc) = k)"
  using assms
proof (induction snap arbitrary: m)
  case (Cons x snap)
  let ?key = "managedPathLookupKey (lf_path x)"
  let ?m = "case m ?key of None \<Rightarrow> m(?key \<mapsto> x) | Some _ \<Rightarrow> m"
  have "indexSnapshot snap ?m = Inr m'" using Cons.prems(1) by (simp add: Let_def)
  with Cons.IH Cons.prems(2) have "?m k = Some loc \<or> (loc \<in> set snap \<and> managedPathLookupKey (lf_path loc) = k)" by blast
  then show ?case by (auto split: option.splits if_splits)
qed simp

lemma foldl_replace:
  assumes "distinct (map (\<lambda>f. managedPathLookupKey (file_target f)) fs)"
  shows "foldl apply_operation tree (map replaceOperation fs) k =
    (case find (\<lambda>f. managedPathLookupKey (file_target f) = k) fs of Some f \<Rightarrow> Some (mf_sha256 f) | None \<Rightarrow> tree k)"
  using assms
proof (induction fs arbitrary: tree)
  case (Cons f fs)
  have "find (\<lambda>g. managedPathLookupKey (file_target g) = managedPathLookupKey (file_target f)) fs = None"
    using Cons.prems unfolding find_None_iff by (simp add: image_iff) metis
  with Cons show ?case by (auto simp: apply_operation_def replaceOperation_def split: option.splits)
qed simp

lemma foldl_remove:
  "foldl apply_operation tree (map removeOperation ps) k =
     (if k \<in> managedPathLookupKey ` set ps then None else tree k)"
  by (induction ps arbitrary: tree) (auto simp: apply_operation_def removeOperation_def)

lemma find_filter_cases:
  assumes "find (\<lambda>y. g y = k) xs = Some x" "distinct (map g xs)"
  shows "find (\<lambda>y. g y = k) (filter Q xs) = (if Q x then Some x else None)"
  using assms
proof (induction xs)
  case (Cons a xs)
  show ?case
  proof (cases "g a = k")
    case True
    then have "x = a" "\<forall>y \<in> set xs. g y \<noteq> k" using Cons.prems by (auto simp: image_iff)
    with True show ?thesis by (auto simp: find_None_iff)
  next
    case False
    with Cons show ?thesis by auto
  qed
qed simp

lemma find_None_filter: "find P xs = None \<Longrightarrow> find P (filter Q xs) = None"
  by (auto simp: find_None_iff)

text \<open>
  C25: the plan converges. When the snapshot describes the installed tree, executing the planned
  operations in order yields exactly the manifest's target state: every manifest file has the
  signed digest, every removed path is gone, and nothing else changed; files that already match
  are skipped without harm.
\<close>

theorem planUpdate_converges:
  assumes "planUpdate pf cfg env snap lastAccepted now = Inr d" "cr_updateAvailable (ud_checkResult d)"
    "faithful_snapshot snap tree"
  shows "foldl apply_operation tree (ud_operations d) = target_state (env_manifest env) tree"
  using assms(1)
proof (cases rule: planUpdate_cases)
  case (update pol base snapMap)
  let ?m = "env_manifest env"
  let ?key = "\<lambda>f. managedPathLookupKey (file_target f)"
  let ?fs = "filter (needsDownload snapMap) (m_files ?m)"
  have "validateManagedTargetPaths (map file_target (m_files ?m) @ m_remove ?m) = Inr ()"
    using update(1) by (auto simp: plan_checked_def validateManifestAgainstConfig_def Let_def)
  then have keys: "distinct (map ?key (m_files ?m) @ map managedPathLookupKey (m_remove ?m))"
    by (simp add: validateManagedTargetPaths_keys comp_def)
  then have files: "distinct (map ?key (m_files ?m))" by simp
  have result: "foldl apply_operation tree (ud_operations d) k =
      (if k \<in> managedPathLookupKey ` set (m_remove ?m) then None
       else (case find (\<lambda>f. ?key f = k) ?fs of Some f \<Rightarrow> Some (mf_sha256 f) | None \<Rightarrow> tree k))" for k
    unfolding update(7) foldl_append foldl_remove
    using foldl_replace [OF distinct_map_filter [OF files]] by simp
  show ?thesis
  proof
    fix k
    show "foldl apply_operation tree (ud_operations d) k = target_state ?m tree k"
    proof (cases "find (\<lambda>f. ?key f = k) (m_files ?m)")
      case None
      then show ?thesis unfolding result target_state_def by (simp add: find_None_filter)
    next
      case (Some f)
      then have f: "f \<in> set (m_files ?m)" "?key f = k" by (auto simp: find_Some_iff)
      then have "k \<notin> managedPathLookupKey ` set (m_remove ?m)" using keys by auto
      moreover have "tree k = Some (mf_sha256 f)" if skip: "\<not> needsDownload snapMap f"
      proof -
        obtain loc where loc: "snapMap k = Some loc" "lf_exists loc" "lf_sha256 loc = mf_sha256 f"
          using skip f(2) by (auto simp: needsDownload_def split: option.splits)
        with indexSnapshot_sound [OF update(3) loc(1)] assms(3) show ?thesis
          by (auto simp: faithful_snapshot_def list_all_iff)
      qed
      ultimately show ?thesis
        unfolding result target_state_def using Some find_filter_cases [OF Some files] by auto
    qed
  qed
qed (use assms(2) in simp)

section \<open>A concrete plan\<close>

definition sample_file :: ManifestFile where
  "sample_file = \<lparr>mf_path = ''app'', mf_localPath = [], mf_sha256 = ''ab'', mf_size = 2\<rparr>"

definition sample_manifest :: Manifest where
  "sample_manifest = \<lparr>m_schemaVersion = 1, m_appId = [], m_channel = [], m_platform = [], m_arch = [],
     m_version = \<lparr>ver_major = 1, ver_minor = 0, ver_patch = 0, ver_prerelease = [], ver_build = []\<rparr>,
     m_releaseId = [], m_releaseDate = [], m_publishedAt = [], m_expiresAt = [], m_minVersion = None,
     m_minClientVersion = None, m_mandatory = False, m_allowDowngrade = True, m_notes = [], m_baseUrl = [],
     m_files = [sample_file], m_remove = [''old'']\<rparr>"

definition sample_envelope :: ManifestEnvelope where
  "sample_envelope = \<lparr>env_manifest = sample_manifest, env_rawBytes = [], env_sha256 = [],
     env_sourceUrl = ''https://a.io/v1/m.json'', env_artifactBaseUrl = ''https://a.io/v1/'',
     env_releaseManifestSignatureVerified = True\<rparr>"

definition sample_base :: ParsedUrl where
  "sample_base = \<lparr>url_scheme = Https, url_host = ''a.io'', url_port = 443, url_ipv6Host = False,
     url_path = ''/v1/'', url_query = [], url_hasQuery = False, url_canonical = ''https://a.io/v1/''\<rparr>"

lemma sample_authorized:
  "authorizeText Posix sample_policy ''https://a.io/v1/'' = Inr sample_base"
  "authorizeText Posix sample_policy ''https://a.io/v1/m.json'' = Inr (pol_initial sample_policy)"
  "authorizeTransition Posix sample_policy (pol_initial sample_policy) sample_base = Inr ()"
  by (simp_all add: sample_policy_def sample_base_def eval_simps)

lemma sample_validated:
  "validateManifestAgainstConfig Posix sample_config sample_envelope sample_policy now = Inr ()"
proof -
  have "validateManagedTargetPaths [''app'', ''old''] = Inr ()" by (simp add: eval_simps neighbour_ancestor_def)
  then show ?thesis
    using sample_authorized
    by (simp add: validateManifestAgainstConfig_def sample_envelope_def sample_manifest_def sample_file_def file_target_def
        sample_config_def default_config_def mismatch_def parseOptionalTimestamp_def)
      (simp add: sample_base_def)
qed

lemma sample_plan:
  "planUpdate Posix sample_config sample_envelope [] None now =
     Inr \<lparr>ud_checkResult = (ud_checkResult (initialDecision sample_config sample_manifest))\<lparr>cr_updateAvailable := True\<rparr>,
          ud_downloads = [\<lparr>pd_file = sample_file, pd_url = ''https://a.io/v1/app'', pd_stagingPath = ''/t/app''\<rparr>],
          ud_operations = [replaceOperation sample_file, removeOperation ''old'']\<rparr>"
proof -
  have "planDownload Posix sample_config sample_policy sample_base sample_file =
      Inr \<lparr>pd_file = sample_file, pd_url = ''https://a.io/v1/app'', pd_stagingPath = ''/t/app''\<rparr>"
    by (simp add: sample_file_def sample_base_def sample_policy_def sample_config_def eval_simps)
  moreover have "validateManagedTargetPath ''app'' = Inr ()" "validateManagedTargetPath ''old'' = Inr ()"
    by (simp_all add: eval_simps)
  moreover have "m_files sample_manifest = [sample_file]" "m_remove sample_manifest = [''old'']"
    "file_target sample_file = ''app''" "env_manifest sample_envelope = sample_manifest"
    "env_artifactBaseUrl sample_envelope = ''https://a.io/v1/''"
    by (simp_all add: sample_manifest_def sample_envelope_def sample_file_def file_target_def)
  moreover have "version_less (m_version sample_manifest) (downgradeBaseline (cfg_currentVersion sample_config) None)"
    "\<not> version_less (cfg_currentVersion sample_config) (m_version sample_manifest)"
    "\<not> version_eq (m_version sample_manifest) (cfg_currentVersion sample_config)"
    "downgradeAuthorized sample_config sample_envelope" "m_minVersion sample_manifest = None"
    "cfg_managedPathWhitelist sample_config = []"
    by (simp_all add: sample_manifest_def sample_envelope_def sample_config_def default_config_def eval_simps)
  ultimately show ?thesis
    using sample_policy_ok sample_validated sample_authorized(1)
    by (simp add: planUpdate_def Let_def needsDownload_def pathAllowedByWhitelist_def initialDecision_def)
qed

theorem planUpdate_no_downgrade_witness:
  "m_allowDowngrade sample_manifest \<and> env_releaseManifestSignatureVerified sample_envelope"
proof -
  have "version_less (m_version (env_manifest sample_envelope)) (cfg_currentVersion sample_config)"
    by (simp add: sample_envelope_def sample_manifest_def sample_config_def version_less_def)
  with planUpdate_no_downgrade [OF sample_plan] show ?thesis by (simp add: sample_envelope_def)
qed

theorem planUpdate_within_policy_witness:
  "\<exists>u enc. parseAbsoluteUrl Posix ''https://a.io/v1/app'' = Inr u \<and> sameOrigin u sample_base
     \<and> url_path u = url_path sample_base @ enc \<and> percentDecode enc = ''app''"
proof -
  have "parseAbsoluteUrl Posix (env_artifactBaseUrl sample_envelope) = Inr sample_base"
    by (simp add: sample_envelope_def sample_base_def eval_simps)
  then show ?thesis
    using planUpdate_within_policy [OF sample_plan [of "UtcInstant 0 0"]] by (auto simp: sample_file_def)
qed

theorem planUpdate_converges_witness:
  "foldl apply_operation [managedPathLookupKey ''old'' \<mapsto> ''cd'']
     [replaceOperation sample_file, removeOperation ''old'']
   = target_state sample_manifest [managedPathLookupKey ''old'' \<mapsto> ''cd'']"
  using planUpdate_converges [OF sample_plan [of "UtcInstant 0 0"], of "[managedPathLookupKey ''old'' \<mapsto> ''cd'']"]
  by (simp add: faithful_snapshot_def sample_envelope_def)

end
