(* ===== verification/Network_Limits.thy ===== *)
theory Network_Limits
  imports Url_Policies
begin

text \<open>
  \<open>src/NetworkLimits.cpp\<close> and the response types of \<open>INetworkClient.h\<close>: the byte budgets of
  network responses. Byte counts are 64-bit words, so that every overflow check of the source is
  one here; \<open>std::tolower\<close> is taken in the C locale. The theorems show that the checks compute the
  unbounded sums and values, that is, nothing wraps.
\<close>

section \<open>Definitions\<close>

record NetworkHeader =
  hdr_name :: string
  hdr_value :: string

record NetworkResponseInfo =
  resp_statusCode :: int
  resp_headers :: "NetworkHeader list"
  resp_effectiveUrl :: string

record TextResponse =
  txt_response :: NetworkResponseInfo
  txt_body :: string

definition kMaxNetworkResponseHeaderBytes :: u64 where
  "kMaxNetworkResponseHeaderBytes = 64 * 1024"

definition equalsHeaderName :: "string \<Rightarrow> string \<Rightarrow> bool" where
  "equalsHeaderName left expected =
     (if length left \<noteq> length expected then False
      else list_all2 (\<lambda>l r. lower_char l = lower_char r) left expected)"

definition isBlank :: "char \<Rightarrow> bool" where
  "isBlank c \<longleftrightarrow> c = CHR '' '' \<or> c = CHR 0x09"

definition trimOptionalWhitespace :: "string \<Rightarrow> string" where
  "trimOptionalWhitespace v = rev (dropWhile isBlank (rev (dropWhile isBlank v)))"

fun contentLengthLoop :: "ErrorCode \<Rightarrow> u64 \<Rightarrow> string \<Rightarrow> u64 result" where
  "contentLengthLoop invalidHeaderCode parsed [] = Inr parsed"
| "contentLengthLoop invalidHeaderCode parsed (character # rest) =
     (if \<not> isAsciiDigit character then fail invalidHeaderCode ''Content-Length is invalid''
      else let digit = (of_nat (digit_val character) :: u64)
           in if parsed > (- 1 - digit) div 10
              then fail EC_ResourceLimitExceeded ''Content-Length exceeds the supported byte range''
              else contentLengthLoop invalidHeaderCode (parsed * 10 + digit) rest)"

definition parseContentLength :: "string \<Rightarrow> ErrorCode \<Rightarrow> u64 result" where
  "parseContentLength raw invalidHeaderCode =
     (let v = trimOptionalWhitespace raw
      in if v = [] then fail invalidHeaderCode ''Content-Length is empty''
         else contentLengthLoop invalidHeaderCode 0 v)"

text \<open>One header's field bytes, \<open>name + value + 4\<close>, and the running total.\<close>

definition fieldBytes :: "NetworkHeader \<Rightarrow> u64 option" where
  "fieldBytes header =
     Option.bind (checkedAdd (of_nat (length (hdr_name header))) (of_nat (length (hdr_value header))))
       (\<lambda>b. checkedAdd b 4)"

fun headersBudget :: "u64 \<Rightarrow> NetworkHeader list \<Rightarrow> unit result" where
  "headersBudget acc [] = Inr ()"
| "headersBudget acc (header # rest) =
     (case Option.bind (fieldBytes header) (checkedAdd acc) of
        None \<Rightarrow> fail EC_ResourceLimitExceeded ''HTTP response headers exceed their byte limit''
      | Some acc' \<Rightarrow>
          if acc' > kMaxNetworkResponseHeaderBytes
          then fail EC_ResourceLimitExceeded ''HTTP response headers exceed their byte limit''
          else headersBudget acc' rest)"

definition validateResponseHeadersBudget :: "NetworkResponseInfo \<Rightarrow> unit result" where
  "validateResponseHeadersBudget response = headersBudget 0 (resp_headers response)"

fun contentLengths :: "ErrorCode \<Rightarrow> u64 option \<Rightarrow> NetworkHeader list \<Rightarrow> u64 option result" where
  "contentLengths invalidHeaderCode declared [] = Inr declared"
| "contentLengths invalidHeaderCode declared (header # rest) =
     (if \<not> equalsHeaderName (hdr_name header) ''content-length''
      then contentLengths invalidHeaderCode declared rest
      else if declared \<noteq> None
      then fail invalidHeaderCode ''Response contains multiple Content-Length headers''
      else bindr (parseContentLength (hdr_value header) invalidHeaderCode) (\<lambda>parsed.
        contentLengths invalidHeaderCode (Some parsed) rest))"

definition declaredContentLength :: "NetworkResponseInfo \<Rightarrow> ErrorCode \<Rightarrow> u64 option result" where
  "declaredContentLength response invalidHeaderCode = contentLengths invalidHeaderCode None (resp_headers response)"

definition validateResponseBodyBudget :: "NetworkResponseInfo \<Rightarrow> u64 \<Rightarrow> u64 \<Rightarrow> ErrorCode \<Rightarrow> unit result" where
  "validateResponseBodyBudget response actualBytes maxBytes invalidHeaderCode =
     bindr (validateResponseHeadersBudget response) (\<lambda>_.
     bindr (declaredContentLength response invalidHeaderCode) (\<lambda>declared.
       if (case declared of None \<Rightarrow> False | Some n \<Rightarrow> n > maxBytes) \<or> actualBytes > maxBytes
       then fail EC_ResourceLimitExceeded ''Response body exceeds its byte limit''
       else Inr ()))"

definition remainingTransferBudget :: "u64 \<Rightarrow> u64 \<Rightarrow> u64 result" where
  "remainingTransferBudget initialBytes maxTotalBytes =
     (if initialBytes > maxTotalBytes
      then fail EC_ResourceLimitExceeded ''Resume offset exceeds the signed artifact size''
      else Inr (maxTotalBytes - initialBytes))"

lemmas [eval_simps] = kMaxNetworkResponseHeaderBytes_def equalsHeaderName_def isBlank_def trimOptionalWhitespace_def
  parseContentLength_def fieldBytes_def validateResponseHeadersBudget_def declaredContentLength_def
  validateResponseBodyBudget_def remainingTransferBudget_def

section \<open>Content-Length\<close>

lemma digit_guard:
  assumes "digit_val c < 10"
  defines "digit \<equiv> of_nat (digit_val c) :: u64"
  shows "parsed \<le> (- 1 - digit) div 10 \<longleftrightarrow> unat parsed * 10 + digit_val c < 2 ^ 64"
    and "unat parsed * 10 + digit_val c < 2 ^ 64 \<Longrightarrow> unat (parsed * 10 + digit) = unat parsed * 10 + digit_val c"
proof -
  have d: "unat digit = digit_val c" using assms by (simp add: unat_of_nat take_bit_nat_eq_self)
  have "digit \<le> - 1" by simp
  then have "unat (- 1 - digit) = 2 ^ 64 - 1 - digit_val c"
    using d by (simp add: unat_sub unsigned_minus_1_eq_mask mask_eq_exp_minus_1)
  then have "unat ((- 1 - digit) div 10) = (2 ^ 64 - 1 - digit_val c) div 10"
    by (simp add: unat_div)
  then show "parsed \<le> (- 1 - digit) div 10 \<longleftrightarrow> unat parsed * 10 + digit_val c < 2 ^ 64"
    using assms(1) by (simp add: word_le_nat_alt) linarith
  assume fit: "unat parsed * 10 + digit_val c < 2 ^ 64"
  have "unat (parsed * 10 + digit) = (unat parsed * 10 + digit_val c) mod 2 ^ 64"
    by (simp add: unat_word_ariths d mod_simps)
  with fit show "unat (parsed * 10 + digit) = unat parsed * 10 + digit_val c" by simp
qed

lemma contentLengthLoop_iff:
  "contentLengthLoop ec v s = Inr n \<longleftrightarrow>
     list_all isAsciiDigit s \<and> unat v * 10 ^ length s + digits_val s < 2 ^ 64
     \<and> unat n = unat v * 10 ^ length s + digits_val s"
proof (induction s arbitrary: v)
  case Nil
  have "unat v < 2 ^ 64" using unsigned_less [of v, where ?'a = nat] by simp
  then show ?case by (auto simp: word_unat_eq_iff)
next
  case (Cons c s)
  show ?case
  proof (cases "isAsciiDigit c")
    case True
    note g = digit_guard [OF digit_val_less [OF True], of v]
    have step: "(unat v * 10 + digit_val c) * 10 ^ length s + digits_val s
        = unat v * 10 ^ length (c # s) + digits_val (c # s)"
      using digits_val_append [of "[c]" s] by (simp add: digits_val_single algebra_simps)
    show ?thesis
    proof (cases "unat v * 10 + digit_val c < 2 ^ 64")
      case fits: True
      then have "\<not> v > (- 1 - of_nat (digit_val c)) div 10" using g(1) by (simp add: not_less)
      then show ?thesis
        using True Cons.IH [of "v * 10 + of_nat (digit_val c)"] g(2) [OF fits] step by (simp add: Let_def)
    next
      case False
      then have "v > (- 1 - of_nat (digit_val c)) div 10" using g(1) by (simp add: not_less flip: not_le)
      moreover have "unat v * 10 + digit_val c \<le> unat v * 10 ^ length (c # s) + digits_val (c # s)"
        unfolding step [symmetric] by (simp add: trans_le_add1)
      ultimately show ?thesis using True False by (auto simp: Let_def)
    qed
  qed simp
qed

text \<open>
  C26: the \<open>Content-Length\<close> reader never wraps: it accepts exactly the trimmed digit texts whose
  value fits in 64 bits and returns that value; everything else is an error.
\<close>

theorem parseContentLength_exact:
  "parseContentLength raw ec = Inr n \<longleftrightarrow>
     trimOptionalWhitespace raw \<noteq> [] \<and> list_all isAsciiDigit (trimOptionalWhitespace raw)
     \<and> digits_val (trimOptionalWhitespace raw) < 2 ^ 64
     \<and> unat n = digits_val (trimOptionalWhitespace raw)"
  by (auto simp: parseContentLength_def Let_def contentLengthLoop_iff)

lemma parseContentLength_within:
  "(\<exists>n. parseContentLength raw ec = Inr n \<and> n \<le> limit) \<longleftrightarrow>
     trimOptionalWhitespace raw \<noteq> [] \<and> list_all isAsciiDigit (trimOptionalWhitespace raw)
     \<and> digits_val (trimOptionalWhitespace raw) \<le> unat limit" (is "?l \<longleftrightarrow> ?r")
proof
  assume ?l
  then show ?r by (auto simp: parseContentLength_def Let_def contentLengthLoop_iff word_le_nat_alt split: if_splits)
next
  assume r: ?r
  then have "digits_val (trimOptionalWhitespace raw) < 2 ^ 64" using unsigned_less [of limit, where ?'a = nat] by simp
  with r show ?l
    by (intro exI [of _ "of_nat (digits_val (trimOptionalWhitespace raw))"])
      (auto simp: parseContentLength_def Let_def contentLengthLoop_iff word_le_nat_alt unat_of_nat take_bit_nat_eq_self)
qed

section \<open>Header and body budgets\<close>

definition header_size :: "NetworkHeader \<Rightarrow> nat" where
  "header_size h = length (hdr_name h) + length (hdr_value h) + 4"

text \<open>Every text of the program has a size in 64 bits.\<close>

definition addressable :: "NetworkHeader list \<Rightarrow> bool" where
  "addressable hs \<longleftrightarrow> list_all (\<lambda>h. length (hdr_name h) < 2 ^ 64 \<and> length (hdr_value h) < 2 ^ 64) hs"

lemma fieldBytes_iff:
  assumes "addressable [h]"
  shows "fieldBytes h = Some b \<longleftrightarrow> unat b = header_size h"
proof -
  have n: "unat (of_nat (length (hdr_name h)) :: u64) = length (hdr_name h)"
    "unat (of_nat (length (hdr_value h)) :: u64) = length (hdr_value h)"
    using assms by (simp_all add: addressable_def unat_of_nat take_bit_nat_eq_self)
  have "fieldBytes h = Some b \<longleftrightarrow>
      (\<exists>x :: u64. unat x = length (hdr_name h) + length (hdr_value h) \<and> unat b = unat x + 4)"
    by (simp add: fieldBytes_def bind_eq_Some_conv checkedAdd_iff n)
  also have "\<dots> \<longleftrightarrow> unat b = header_size h"
  proof
    assume b: "unat b = header_size h"
    then have "unat (of_nat (length (hdr_name h) + length (hdr_value h)) :: u64) = length (hdr_name h) + length (hdr_value h)"
      using unsigned_less [of b, where ?'a = nat] by (simp add: header_size_def unat_of_nat take_bit_nat_eq_self del: of_nat_add)
    with b show "\<exists>x :: u64. unat x = length (hdr_name h) + length (hdr_value h) \<and> unat b = unat x + 4"
      by (intro exI [of _ "of_nat (length (hdr_name h) + length (hdr_value h))"]) (simp add: header_size_def)
  qed (auto simp: header_size_def)
  finally show ?thesis .
qed

lemma headersBudget_iff:
  assumes "addressable hs"
  shows "headersBudget v hs = Inr () \<longleftrightarrow> hs = [] \<or> unat v + sum_list (map header_size hs) \<le> 65536"
  using assms
proof (induction hs arbitrary: v)
  case (Cons h hs)
  have ad: "addressable [h]" "addressable hs" using Cons.prems by (simp_all add: addressable_def)
  have some: "Option.bind (fieldBytes h) (checkedAdd v) = Some w \<longleftrightarrow> unat w = unat v + header_size h" for w
  proof -
    have "Option.bind (fieldBytes h) (checkedAdd v) = Some w \<longleftrightarrow>
        (\<exists>b :: u64. unat b = header_size h \<and> unat w = unat v + unat b)"
      by (simp add: bind_eq_Some_conv fieldBytes_iff [OF ad(1)] checkedAdd_iff)
    also have "\<dots> \<longleftrightarrow> unat w = unat v + header_size h"
    proof
      assume w: "unat w = unat v + header_size h"
      then have "unat (of_nat (header_size h) :: u64) = header_size h"
        using unsigned_less [of w, where ?'a = nat] by (simp add: unat_of_nat take_bit_nat_eq_self)
      with w show "\<exists>b :: u64. unat b = header_size h \<and> unat w = unat v + unat b" by metis
    qed auto
    finally show ?thesis .
  qed
  show ?case
  proof (cases "Option.bind (fieldBytes h) (checkedAdd v)")
    case None
    have "\<not> unat v + header_size h < 2 ^ 64"
    proof
      assume "unat v + header_size h < 2 ^ 64"
      then have "unat (of_nat (unat v + header_size h) :: u64) = unat v + header_size h"
        by (simp add: unat_of_nat take_bit_nat_eq_self del: of_nat_add)
      with None some show False by (metis option.distinct(1))
    qed
    with None show ?thesis by auto
  next
    case (Some w)
    then have w: "unat w = unat v + header_size h" using some by blast
    have "w > kMaxNetworkResponseHeaderBytes \<longleftrightarrow> unat v + header_size h > 65536"
      by (simp add: kMaxNetworkResponseHeaderBytes_def word_less_nat_alt w)
    with Some w Cons.IH [OF ad(2), of w] show ?thesis by auto
  qed
qed simp

abbreviation lengthHeaders :: "NetworkHeader list \<Rightarrow> NetworkHeader list" where
  "lengthHeaders hs \<equiv> filter (\<lambda>h. equalsHeaderName (hdr_name h) ''content-length'') hs"

lemma contentLengths_iff:
  "contentLengths ec a hs = Inr r \<longleftrightarrow>
     (lengthHeaders hs = [] \<and> r = a
      \<or> (\<exists>h n. lengthHeaders hs = [h] \<and> a = None \<and> r = Some n \<and> parseContentLength (hdr_value h) ec = Inr n))"
  by (induction hs arbitrary: a) (auto simp: fail_def)

text \<open>
  C27: the response budget, exactly: a response is accepted if and only if its headers, counted without
  wrap-around as name, value and four more bytes each, take at most 64 KiB, the received body is
  within its limit, and it has no \<open>Content-Length\<close> header or a single one, whose trimmed value is a
  decimal number within the limit. (The declared and the received length are not compared.)
\<close>

theorem responseBodyBudget_exact:
  assumes "addressable (resp_headers r)"
  shows "validateResponseBodyBudget r actual limit ec = Inr () \<longleftrightarrow>
     sum_list (map header_size (resp_headers r)) \<le> 65536 \<and> actual \<le> limit
     \<and> (let ls = filter (\<lambda>h. equalsHeaderName (hdr_name h) ''content-length'') (resp_headers r)
        in ls = [] \<or> (\<exists>h. ls = [h] \<and> trimOptionalWhitespace (hdr_value h) \<noteq> []
             \<and> list_all isAsciiDigit (trimOptionalWhitespace (hdr_value h)) \<and> digits_val (trimOptionalWhitespace (hdr_value h)) \<le> unat limit))"
proof -
  have headers: "headersBudget 0 (resp_headers r) = Inr () \<longleftrightarrow> sum_list (map header_size (resp_headers r)) \<le> 65536"
    using headersBudget_iff [OF assms, of 0] by (cases "resp_headers r") auto
  have declared: "(\<exists>n. parseContentLength v ec = Inr n \<and> n \<le> limit) \<longleftrightarrow> trimOptionalWhitespace v \<noteq> []
      \<and> list_all isAsciiDigit (trimOptionalWhitespace v) \<and> digits_val (trimOptionalWhitespace v) \<le> unat limit" for v
    by (rule parseContentLength_within)
  show ?thesis
    unfolding validateResponseBodyBudget_def validateResponseHeadersBudget_def declaredContentLength_def Let_def
    by (auto simp: headers contentLengths_iff declared [symmetric] fail_def not_less split: if_splits option.splits)
qed

theorem responseBodyBudget_exact_witness:
  "validateResponseBodyBudget \<lparr>resp_statusCode = 200, resp_headers = [\<lparr>hdr_name = ''Content-Length'', hdr_value = '' 12 ''\<rparr>], resp_effectiveUrl = []\<rparr>
     12 20 EC_NetworkError = Inr ()
   \<and> validateResponseBodyBudget \<lparr>resp_statusCode = 200, resp_headers = [\<lparr>hdr_name = ''Content-Length'', hdr_value = '' 12 ''\<rparr>,
        \<lparr>hdr_name = ''content-length'', hdr_value = ''12''\<rparr>], resp_effectiveUrl = []\<rparr> 12 20 EC_NetworkError \<noteq> Inr ()"
proof -
  let ?r = "\<lparr>resp_statusCode = 200, resp_headers = [\<lparr>hdr_name = ''Content-Length'', hdr_value = '' 12 ''\<rparr>], resp_effectiveUrl = []\<rparr>"
  let ?r' = "\<lparr>resp_statusCode = 200, resp_headers = [\<lparr>hdr_name = ''Content-Length'', hdr_value = '' 12 ''\<rparr>,
     \<lparr>hdr_name = ''content-length'', hdr_value = ''12''\<rparr>], resp_effectiveUrl = []\<rparr>"
  have names: "equalsHeaderName ''Content-Length'' ''content-length''" "equalsHeaderName ''content-length'' ''content-length''"
    by (simp_all add: eval_simps)
  have digits: "trimOptionalWhitespace '' 12 '' = ''12''" "isAsciiDigit CHR ''1''" "isAsciiDigit CHR ''2''" "digits_val ''12'' = 12"
    by (simp_all add: eval_simps)
  have "addressable (resp_headers ?r)" "addressable (resp_headers ?r')" by (simp_all add: addressable_def)
  then show ?thesis
    using responseBodyBudget_exact [of ?r 12 20 EC_NetworkError] responseBodyBudget_exact [of ?r' 12 20 EC_NetworkError]
    by (simp add: names digits header_size_def)
qed

end
