(* ===== verification/Network_Requests.thy ===== *)
theory Network_Requests
  imports Network_Limits
begin

text \<open>
  The redirect coordinator of \<open>src/NetworkRequest.cpp\<close> for text requests. The network adapter is
  a parameter: \<open>getText\<close> maps options, the network's state, a URL and a byte limit to a response
  or a transport error and the next network state, with no law assumed about it, so every theorem
  holds for an adapter that misbehaves. The loop returns, beside the result, the URLs it
  requested, in order; the program does not keep them.
\<close>

section \<open>Definitions\<close>

type_synonym 'n text_client = "NetworkOptions \<Rightarrow> 'n \<Rightarrow> string \<Rightarrow> u64 \<Rightarrow> TextResponse result \<times> 'n"

record RedirectedTextResult =
  rtr_body :: string
  rtr_effectiveUrl :: string
  rtr_response :: NetworkResponseInfo

definition isRedirectStatus :: "int \<Rightarrow> bool" where
  "isRedirectStatus statusCode \<longleftrightarrow>
     statusCode = 301 \<or> statusCode = 302 \<or> statusCode = 303 \<or> statusCode = 307 \<or> statusCode = 308"

definition isSuccessfulStatus :: "int \<Rightarrow> bool" where
  "isSuccessfulStatus statusCode \<longleftrightarrow> statusCode \<ge> 200 \<and> statusCode < 300"

fun locations :: "string option \<Rightarrow> NetworkHeader list \<Rightarrow> string option result" where
  "locations location [] = Inr location"
| "locations location (header # rest) =
     (if \<not> equalsHeaderName (hdr_name header) ''location'' then locations location rest
      else if location \<noteq> None
      then fail EC_SecurityPolicyViolation ''Redirect response contains multiple Location headers''
      else locations (Some (trimOptionalWhitespace (hdr_value header))) rest)"

definition uniqueLocation :: "NetworkResponseInfo \<Rightarrow> string result" where
  "uniqueLocation response =
     bindr (locations None (resp_headers response)) (\<lambda>location.
       case location of
         Some l \<Rightarrow> if l = [] then fail EC_SecurityPolicyViolation ''Redirect response is missing a Location header'' else Inr l
       | None \<Rightarrow> fail EC_SecurityPolicyViolation ''Redirect response is missing a Location header'')"

definition validateSingleHopEffectiveUrl ::
    "platform \<Rightarrow> ParsedUrl \<Rightarrow> NetworkResponseInfo \<Rightarrow> UrlPolicy \<Rightarrow> unit result" where
  "validateSingleHopEffectiveUrl pf requested response policy =
     (if resp_effectiveUrl response = []
      then fail EC_SecurityPolicyViolation ''Network adapter did not report an effective URL''
      else bindr (authorizeText pf policy (resp_effectiveUrl response)) (\<lambda>effective.
        if \<not> urlsEquivalent requested effective
        then fail EC_SecurityPolicyViolation ''Network adapter followed or rewrote a URL unexpectedly''
        else Inr ()))"

text \<open>The next URL and the enlarged set of visited canonical texts.\<close>

definition nextRedirect :: "platform \<Rightarrow> ParsedUrl \<Rightarrow> NetworkResponseInfo \<Rightarrow> UrlPolicy \<Rightarrow> string set \<Rightarrow> nat \<Rightarrow> nat \<Rightarrow>
    (ParsedUrl \<times> string set) result" where
  "nextRedirect pf current response policy visited redirectCount maximum =
     (if redirectCount \<ge> maximum then fail EC_SecurityPolicyViolation ''Redirect limit exceeded''
      else
        bindr (uniqueLocation response) (\<lambda>location.
        bindr (resolveAndAuthorize pf policy current location) (\<lambda>next'.
          if url_canonical next' \<in> visited then fail EC_SecurityPolicyViolation ''Redirect loop detected''
          else Inr (next', insert (url_canonical next') visited))))"

definition httpError :: "ErrorCode \<Rightarrow> int \<Rightarrow> 'a result" where
  "httpError code statusCode = fail code (''HTTP error '' @ decimalText statusCode)"

text \<open>One turn of the loop after a response has arrived: the request ends or follows a redirect.\<close>

datatype 'a hop = Finish "'a result" | Follow ParsedUrl "string set"

definition textHop :: "platform \<Rightarrow> UrlPolicy \<Rightarrow> NetworkOptions \<Rightarrow> u64 \<Rightarrow> ParsedUrl \<Rightarrow> string set \<Rightarrow> nat \<Rightarrow> TextResponse \<Rightarrow>
    RedirectedTextResult hop" where
  "textHop pf policy options maxResponseBytes current visited redirectCount response =
     (let info = txt_response response;
          actualBytes = (of_nat (length (txt_body response)) :: u64)
      in case bindr (validateResponseHeadersBudget info) (\<lambda>_.
           bindr (if actualBytes > maxResponseBytes
                  then fail EC_ResourceLimitExceeded ''Response body exceeds its byte limit''
                  else Inr ()) (\<lambda>_.
           bindr (if resp_statusCode info = 200
                  then validateResponseBodyBudget info actualBytes maxResponseBytes EC_NetworkError
                  else Inr ()) (\<lambda>_.
             validateSingleHopEffectiveUrl pf current info policy))) of
           Inl e \<Rightarrow> Finish (Inl e)
         | Inr _ \<Rightarrow>
             if isRedirectStatus (resp_statusCode info)
             then (case nextRedirect pf current info policy visited redirectCount (maxRedirects options) of
                     Inl e \<Rightarrow> Finish (Inl e)
                   | Inr (next', visited') \<Rightarrow> Follow next' visited')
             else if resp_statusCode info \<noteq> 200
             then Finish (httpError EC_NetworkError (resp_statusCode info))
             else Finish (Inr \<lparr>rtr_body = txt_body response, rtr_effectiveUrl = url_canonical current,
                               rtr_response = info\<rparr>))"

lemma nextRedirect_ok:
  "nextRedirect pf current info pol visited n m = Inr (next', visited') \<longleftrightarrow>
     n < m \<and> (\<exists>location. uniqueLocation info = Inr location \<and> resolveAndAuthorize pf pol current location = Inr next')
     \<and> url_canonical next' \<notin> visited \<and> visited' = insert (url_canonical next') visited"
  by (auto simp: nextRedirect_def)

lemma textHop_follow:
  assumes "textHop pf pol opts lim current visited n r = Follow next' visited'"
  shows "nextRedirect pf current (txt_response r) pol visited n (maxRedirects opts) = Inr (next', visited')"
  using assms by (auto simp: textHop_def Let_def httpError_def split: sum.splits prod.splits if_splits)

text \<open>The loop; it ends because a followed redirect raises \<open>redirectCount\<close> below its maximum.\<close>

function fetchTextLoop :: "platform \<Rightarrow> UrlPolicy \<Rightarrow> 'n text_client \<Rightarrow> NetworkOptions \<Rightarrow> u64 \<Rightarrow> ParsedUrl \<Rightarrow> string set \<Rightarrow> nat \<Rightarrow> 'n \<Rightarrow>
    RedirectedTextResult result \<times> ParsedUrl list \<times> 'n" where
  "fetchTextLoop pf policy getText options maxResponseBytes current visited redirectCount network =
     (case getText options network (url_canonical current) maxResponseBytes of
        (Inl e, network') \<Rightarrow> (Inl e, [current], network')
      | (Inr response, network') \<Rightarrow>
          (case textHop pf policy options maxResponseBytes current visited redirectCount response of
             Finish res \<Rightarrow> (res, [current], network')
           | Follow next' visited' \<Rightarrow>
               (case fetchTextLoop pf policy getText options maxResponseBytes next' visited' (redirectCount + 1) network' of
                  (res, requested, network'') \<Rightarrow> (res, current # requested, network''))))"
  by pat_completeness auto

termination
  by (relation "measure (\<lambda>(pf, policy, getText, options, maxB, current, visited, n, network). maxRedirects options - n)")
    (auto dest!: textHop_follow simp: nextRedirect_ok)

declare fetchTextLoop.simps [simp del]

definition fetchTextWithRedirects :: "platform \<Rightarrow> string \<Rightarrow> NetworkOptions \<Rightarrow> u64 \<Rightarrow> UrlPolicy \<Rightarrow> 'n text_client \<Rightarrow> 'n \<Rightarrow>
    RedirectedTextResult result \<times> ParsedUrl list \<times> 'n" where
  "fetchTextWithRedirects pf initialUrl options maxResponseBytes policy getText network =
     (case authorizeText pf policy initialUrl of
        Inl e \<Rightarrow> (Inl e, [], network)
      | Inr current \<Rightarrow>
          fetchTextLoop pf policy getText options maxResponseBytes current {url_canonical current} 0 network)"

lemmas [eval_simps] = isRedirectStatus_def isSuccessfulStatus_def uniqueLocation_def validateSingleHopEffectiveUrl_def
  nextRedirect_def httpError_def textHop_def fetchTextWithRedirects_def

section \<open>The requests of one call\<close>

lemma fetchTextLoop_requests:
  assumes "fetchTextLoop pf pol getText opts lim current visited n net = (res, us, net')"
    "policy.chain pf pol (vs @ [current])" "url_canonical current \<in> visited"
  shows "policy.chain pf pol (vs @ us) \<and> us \<noteq> [] \<and> hd us = current
    \<and> length us \<le> Suc (maxRedirects opts - n) \<and> distinct (map url_canonical us)
    \<and> (\<forall>u \<in> set (tl us). url_canonical u \<notin> visited)"
  using assms
proof (induction pf pol getText opts lim current visited n net arbitrary: vs us net' rule: fetchTextLoop.induct)
  case (1 pf pol getText opts lim current visited n net)
  obtain r net1 where call: "getText opts net (url_canonical current) lim = (r, net1)" by force
  consider (stop) "us = [current]"
    | (follow) resp next' visited' us' net2 where "r = Inr resp"
        "textHop pf pol opts lim current visited n resp = Follow next' visited'"
        "fetchTextLoop pf pol getText opts lim next' visited' (n + 1) net1 = (res, us', net2)" "us = current # us'"
    using 1(2) call
    by (subst (asm) fetchTextLoop.simps) (auto split: sum.splits hop.splits prod.splits)
  then show ?case
  proof cases
    case stop
    with 1 show ?thesis by simp
  next
    case follow
    note next_ok = textHop_follow [OF follow(2), unfolded nextRedirect_ok]
    then obtain location where loc: "resolveAndAuthorize pf pol current location = Inr next'" by blast
    have "policy.chain pf pol ((vs @ [current]) @ [next'])"
      using policy.chain_step [OF 1(3) loc] by simp
    moreover have "url_canonical next' \<in> visited'" using next_ok by simp
    ultimately have IH: "policy.chain pf pol ((vs @ [current]) @ us')" "us' \<noteq> []" "hd us' = next'"
        "length us' \<le> Suc (maxRedirects opts - (n + 1))" "distinct (map url_canonical us')"
        "\<forall>u \<in> set (tl us'). url_canonical u \<notin> visited'"
      using 1(1) [OF call [symmetric] follow(1) follow(2) follow(3)] by blast+
    have "\<forall>u \<in> set us'. url_canonical u \<notin> visited"
      using IH(2,3,6) next_ok by (cases us') auto
    with IH follow(4) 1(4) next_ok show ?thesis by auto
  qed
qed

lemma textHop_result:
  assumes "textHop pf pol opts lim current visited n r = Finish (Inr out)"
  shows "rtr_effectiveUrl out = url_canonical current \<and> rtr_response out = txt_response r \<and> rtr_body out = txt_body r
    \<and> resp_statusCode (txt_response r) = 200
    \<and> validateResponseBodyBudget (txt_response r) (of_nat (length (txt_body r))) lim EC_NetworkError = Inr ()"
  using assms
  by (auto simp: textHop_def Let_def httpError_def split: sum.splits prod.splits if_splits)

lemma fetchTextLoop_result:
  assumes "fetchTextLoop pf pol getText opts lim current visited n net = (Inr out, us, net')"
  shows "us \<noteq> [] \<and> rtr_effectiveUrl out = url_canonical (last us) \<and> resp_statusCode (rtr_response out) = 200
    \<and> validateResponseBodyBudget (rtr_response out) (of_nat (length (rtr_body out))) lim EC_NetworkError = Inr ()"
  using assms
proof (induction pf pol getText opts lim current visited n net arbitrary: us net' rule: fetchTextLoop.induct)
  case (1 pf pol getText opts lim current visited n net)
  obtain r net1 where call: "getText opts net (url_canonical current) lim = (r, net1)" by force
  consider (stop) resp where "textHop pf pol opts lim current visited n resp = Finish (Inr out)" "us = [current]"
    | (follow) resp next' visited' us' net2 where "r = Inr resp"
        "textHop pf pol opts lim current visited n resp = Follow next' visited'"
        "fetchTextLoop pf pol getText opts lim next' visited' (n + 1) net1 = (Inr out, us', net2)" "us = current # us'"
    using 1(2) call
    by (subst (asm) fetchTextLoop.simps) (auto split: sum.splits hop.splits prod.splits)
  then show ?case
  proof cases
    case (stop resp)
    then show ?thesis using textHop_result [OF stop(1)] by simp
  next
    case follow
    from 1(1) [OF call [symmetric] follow(1) follow(2) follow(3)] follow(4) show ?thesis by auto
  qed
qed

text \<open>
  C28: whatever the network answers, a text request makes at most one more request than the
  redirect limit, never requests the same canonical URL twice, requests only URLs the policy
  authorises, never switches between local and network URLs, and once on HTTPS never leaves it.
\<close>

theorem fetchText_requests_authorized:
  assumes "fetchTextWithRedirects pf url opts lim pol getText net = (res, us, net')"
  shows "length us \<le> maxRedirects opts + 1 \<and> distinct (map url_canonical us)
    \<and> (\<forall>u \<in> set us. authorize pf pol u = Inr () \<and> wf_url pf u
         \<and> (url_scheme u = File \<longleftrightarrow> url_scheme (hd us) = File) \<and> (url_scheme (hd us) = Https \<longrightarrow> url_scheme u = Https))"
proof (cases "authorizeText pf pol url")
  case (Inl e)
  with assms show ?thesis by (simp add: fetchTextWithRedirects_def)
next
  case (Inr current)
  then have current: "parseAbsoluteUrl pf url = Inr current" "authorize pf pol current = Inr ()"
    by (auto simp: authorizeText_def)
  have loop: "fetchTextLoop pf pol getText opts lim current {url_canonical current} 0 net = (res, us, net')"
    using assms Inr by (simp add: fetchTextWithRedirects_def)
  have "policy.chain pf pol ([] @ [current])" using policy.chain_start current(2) by auto
  from fetchTextLoop_requests [OF loop this] have us: "policy.chain pf pol us" "hd us = current"
    "length us \<le> maxRedirects opts + 1" "distinct (map url_canonical us)" by simp_all
  from policy.chain_sound [OF us(1)] us parseAbsoluteUrl_wf [OF current(1)] show ?thesis by auto
qed

theorem fetchText_requests_authorized_witness:
  "maxRedirects (cfg_network sample_config) = 5
   \<and> fst (snd (fetchTextWithRedirects Posix ''https://a.io/v1/m.json'' (cfg_network sample_config) 10 sample_policy
        (\<lambda>opts n u lim. (Inl (mk_error EC_NetworkError []), n)) ())) = [pol_initial sample_policy]
   \<and> wf_url Posix (pol_initial sample_policy)"
proof -
  let ?get = "\<lambda>(opts :: NetworkOptions) n (u :: string) (lim :: u64). (Inl (mk_error EC_NetworkError []) :: TextResponse result, n :: unit)"
  have "authorizeText Posix sample_policy ''https://a.io/v1/m.json'' = Inr (pol_initial sample_policy)"
    by (simp add: sample_policy_def eval_simps)
  then have run: "fetchTextWithRedirects Posix ''https://a.io/v1/m.json'' (cfg_network sample_config) 10 sample_policy ?get ()
      = (Inl (mk_error EC_NetworkError []), [pol_initial sample_policy], ())"
    by (simp add: fetchTextWithRedirects_def fetchTextLoop.simps)
  from fetchText_requests_authorized [OF run] run show ?thesis by (simp add: sample_config_def default_config_def)
qed

text \<open>
  C29: a text that is returned came from an authorised URL with status 200, after at most as many
  redirects as are allowed: its effective URL is the canonical text of the last requested URL, its
  body is within the caller's byte limit and its headers are within 64 KiB.
\<close>

theorem fetchText_result_bounded:
  assumes "fetchTextWithRedirects pf url opts lim pol getText net = (Inr out, us, net')"
    "length (rtr_body out) < 2 ^ 64" "addressable (resp_headers (rtr_response out))"
  shows "length (rtr_body out) \<le> unat lim \<and> resp_statusCode (rtr_response out) = 200
    \<and> sum_list (map header_size (resp_headers (rtr_response out))) \<le> 65536
    \<and> us \<noteq> [] \<and> length us \<le> maxRedirects opts + 1
    \<and> rtr_effectiveUrl out = url_canonical (last us) \<and> authorize pf pol (last us) = Inr ()
    \<and> parseAbsoluteUrl pf (rtr_effectiveUrl out) = Inr (last us)"
proof -
  obtain current where current: "parseAbsoluteUrl pf url = Inr current" "authorize pf pol current = Inr ()"
    and loop: "fetchTextLoop pf pol getText opts lim current {url_canonical current} 0 net = (Inr out, us, net')"
    using assms(1) by (auto simp: fetchTextWithRedirects_def authorizeText_def split: sum.splits)
  note res = fetchTextLoop_result [OF loop]
  have "policy.chain pf pol ([] @ [current])" using policy.chain_start current(2) by auto
  from fetchTextLoop_requests [OF loop this] have us: "policy.chain pf pol us" "hd us = current"
    "us \<noteq> []" "length us \<le> maxRedirects opts + 1" by simp_all
  have "last us \<in> set us" using res by simp
  with policy.chain_sound [OF us(1)] us parseAbsoluteUrl_wf [OF current(1)]
  have last: "authorize pf pol (last us) = Inr ()" "wf_url pf (last us)" by auto
  have budget: "headersBudget 0 (resp_headers (rtr_response out)) = Inr ()"
      "(of_nat (length (rtr_body out)) :: u64) \<le> lim"
    using res by (auto simp: validateResponseBodyBudget_def validateResponseHeadersBudget_def not_less split: if_splits)
  have "length (rtr_body out) \<le> unat lim"
    using budget(2) assms(2) by (simp add: word_le_nat_alt unat_of_nat take_bit_nat_eq_self)
  moreover have "sum_list (map header_size (resp_headers (rtr_response out))) \<le> 65536"
    using budget(1) headersBudget_iff [OF assms(3), of 0] by (cases "resp_headers (rtr_response out)") auto
  moreover have "parseAbsoluteUrl pf (url_canonical (last us)) = Inr (last us)"
    using wf_url_parse [OF last(2)] last(2) by (simp add: wf_url_def)
  ultimately show ?thesis using res last(1) us(3, 4) by simp
qed

theorem fetchText_result_bounded_witness:
  "length ''hi'' \<le> unat (10 :: u64) \<and> authorize Posix sample_policy (pol_initial sample_policy) = Inr ()"
proof -
  let ?info = "\<lparr>resp_statusCode = 200, resp_headers = [], resp_effectiveUrl = ''https://a.io/v1/m.json''\<rparr>"
  let ?get = "\<lambda>(opts :: NetworkOptions) n (u :: string) (lim :: u64).
    (Inr \<lparr>txt_response = ?info, txt_body = ''hi''\<rparr> :: TextResponse result, n :: unit)"
  let ?out = "\<lparr>rtr_body = ''hi'', rtr_effectiveUrl = ''https://a.io/v1/m.json'', rtr_response = ?info\<rparr>"
  have auth: "authorizeText Posix sample_policy ''https://a.io/v1/m.json'' = Inr (pol_initial sample_policy)"
    by (simp add: sample_policy_def eval_simps)
  have canon: "url_canonical (pol_initial sample_policy) = ''https://a.io/v1/m.json''" by (simp add: sample_policy_def)
  have "textHop Posix sample_policy (cfg_network sample_config) 10 (pol_initial sample_policy)
      {url_canonical (pol_initial sample_policy)} 0 \<lparr>txt_response = ?info, txt_body = ''hi''\<rparr> = Finish (Inr ?out)"
    using auth canon
    by (simp add: textHop_def validateResponseBodyBudget_def validateResponseHeadersBudget_def declaredContentLength_def
        validateSingleHopEffectiveUrl_def urlsEquivalent_def isRedirectStatus_def)
  then have run: "fetchTextWithRedirects Posix ''https://a.io/v1/m.json'' (cfg_network sample_config) 10 sample_policy ?get ()
      = (Inr ?out, [pol_initial sample_policy], ())"
    using auth by (simp add: fetchTextWithRedirects_def fetchTextLoop.simps)
  from fetchText_result_bounded [OF run] show ?thesis by (simp add: addressable_def)
qed

end
