(* ===== verification/Json.thy ===== *)
theory Json
  imports Update_Types
begin

text \<open>
  \<open>src/util/Json.h\<close> and \<open>Json.cpp\<close>: the JSON values, the resource-limited parser and the writer.
  This theory holds the definitions; the theorems are in \<open>Json_Facts\<close>.

  The parser's position in the input is the remaining text, \<open>nodeCount_\<close> is threaded along. The
  mutually recursive \<open>parseValue\<close>, \<open>parseObject\<close> and \<open>parseArray\<close> take fuel, and \<open>None\<close> means the
  fuel ran out; \<open>Json_Facts\<close> shows that the fuel \<open>json_parse\<close> provides always suffices. A floating-point
  number is kept as its decimal text, with the range check of \<open>std::from_chars\<close> on its exact
  rational value; printing one is the parameter \<open>fpText\<close>. An object is the sorted association list
  that iterating the \<open>std::map\<close> gives.
\<close>

section \<open>UTF-8\<close>

definition isContinuationByte :: "char \<Rightarrow> bool" where
  "isContinuationByte c \<longleftrightarrow> byte_of c \<ge> 0x80 \<and> byte_of c \<le> 0xBF"

definition validSecond3 :: "char \<Rightarrow> char \<Rightarrow> bool" where
  "validSecond3 first second =
     (if byte_of first = 0xE0 then byte_of second \<ge> 0xA0 \<and> byte_of second \<le> 0xBF
      else if byte_of first = 0xED then byte_of second \<ge> 0x80 \<and> byte_of second \<le> 0x9F
      else isContinuationByte second)"

definition validSecond4 :: "char \<Rightarrow> char \<Rightarrow> bool" where
  "validSecond4 first second =
     (if byte_of first = 0xF0 then byte_of second \<ge> 0x90 \<and> byte_of second \<le> 0xBF
      else if byte_of first = 0xF4 then byte_of second \<ge> 0x80 \<and> byte_of second \<le> 0x8F
      else isContinuationByte second)"

fun isValidUtf8 :: "string \<Rightarrow> bool" where
  "isValidUtf8 [] = True"
| "isValidUtf8 (first # rest) =
     (if byte_of first \<le> 0x7F then isValidUtf8 rest
      else if byte_of first \<ge> 0xC2 \<and> byte_of first \<le> 0xDF
      then (case rest of b # rest' \<Rightarrow> isContinuationByte b \<and> isValidUtf8 rest' | _ \<Rightarrow> False)
      else if byte_of first \<ge> 0xE0 \<and> byte_of first \<le> 0xEF
      then (case rest of
              second # third # rest' \<Rightarrow> isContinuationByte third \<and> validSecond3 first second \<and> isValidUtf8 rest'
            | _ \<Rightarrow> False)
      else if byte_of first \<ge> 0xF0 \<and> byte_of first \<le> 0xF4
      then (case rest of
              second # third # fourth # rest' \<Rightarrow>
                isContinuationByte third \<and> isContinuationByte fourth \<and> validSecond4 first second \<and> isValidUtf8 rest'
            | _ \<Rightarrow> False)
      else False)"

section \<open>Values\<close>

datatype Json =
    JNull
  | JBool bool
  | JInt int
  | JUInt u64
  | JDouble string
  | JString string
  | JObject "(string \<times> Json) list"
  | JArray "Json list"

definition isNumber :: "Json \<Rightarrow> bool" where
  "isNumber v = (case v of JInt _ \<Rightarrow> True | JUInt _ \<Rightarrow> True | JDouble _ \<Rightarrow> True | _ \<Rightarrow> False)"

definition isInteger :: "Json \<Rightarrow> bool" where
  "isInteger v = (case v of JInt _ \<Rightarrow> True | JUInt _ \<Rightarrow> True | _ \<Rightarrow> False)"

definition isNull :: "Json \<Rightarrow> bool" where
  "isNull v = (case v of JNull \<Rightarrow> True | _ \<Rightarrow> False)"

definition isSignedInteger :: "Json \<Rightarrow> bool" where
  "isSignedInteger v = (case v of JInt _ \<Rightarrow> True | _ \<Rightarrow> False)"

definition isUnsignedInteger :: "Json \<Rightarrow> bool" where
  "isUnsignedInteger v = (case v of JUInt _ \<Rightarrow> True | _ \<Rightarrow> False)"

definition isBool :: "Json \<Rightarrow> bool" where
  "isBool v = (case v of JBool _ \<Rightarrow> True | _ \<Rightarrow> False)"

definition isString :: "Json \<Rightarrow> bool" where
  "isString v = (case v of JString _ \<Rightarrow> True | _ \<Rightarrow> False)"

definition isObject :: "Json \<Rightarrow> bool" where
  "isObject v = (case v of JObject _ \<Rightarrow> True | _ \<Rightarrow> False)"

definition isArray :: "Json \<Rightarrow> bool" where
  "isArray v = (case v of JArray _ \<Rightarrow> True | _ \<Rightarrow> False)"

definition asBool :: "Json \<Rightarrow> bool \<Rightarrow> bool" where
  "asBool v fallback = (case v of JBool b \<Rightarrow> b | _ \<Rightarrow> fallback)"

definition asInt64 :: "Json \<Rightarrow> int \<Rightarrow> int" where
  "asInt64 v fallback =
     (case v of JInt i \<Rightarrow> i | JUInt u \<Rightarrow> if unat u \<le> 2 ^ 63 - 1 then int (unat u) else fallback | _ \<Rightarrow> fallback)"

definition asUInt64 :: "Json \<Rightarrow> u64 \<Rightarrow> u64" where
  "asUInt64 v fallback =
     (case v of JUInt u \<Rightarrow> u | JInt i \<Rightarrow> if i \<ge> 0 then of_int i else fallback | _ \<Rightarrow> fallback)"

definition asString :: "Json \<Rightarrow> string" where
  "asString v = (case v of JString s \<Rightarrow> s | _ \<Rightarrow> [])"

definition asObject :: "Json \<Rightarrow> (string \<times> Json) list" where
  "asObject v = (case v of JObject m \<Rightarrow> m | _ \<Rightarrow> [])"

definition asArray :: "Json \<Rightarrow> Json list" where
  "asArray v = (case v of JArray xs \<Rightarrow> xs | _ \<Rightarrow> [])"

definition json_get :: "Json \<Rightarrow> string \<Rightarrow> Json option" where
  "json_get v key = (case v of JObject m \<Rightarrow> map_of m key | _ \<Rightarrow> None)"

definition json_contains :: "Json \<Rightarrow> string \<Rightarrow> bool" where
  "json_contains v key \<longleftrightarrow> json_get v key \<noteq> None"

text \<open>\<open>map.emplace(key, value)\<close> of a \<open>std::map\<close> with string keys: a present key keeps its value.\<close>

fun object_emplace :: "string \<Rightarrow> 'v \<Rightarrow> (string \<times> 'v) list \<Rightarrow> (string \<times> 'v) list" where
  "object_emplace key v [] = [(key, v)]"
| "object_emplace key v ((k, w) # m) =
     (if key < k then (key, v) # (k, w) # m else if key = k then (k, w) # m else (k, w) # object_emplace key v m)"

section \<open>The parser\<close>

definition jfail :: "string \<Rightarrow> 'a result" where
  "jfail message = fail EC_ManifestParseFailed message"

definition jlimit :: "string \<Rightarrow> 'a result" where
  "jlimit message = fail EC_ResourceLimitExceeded message"

definition isJsonWhitespace :: "char \<Rightarrow> bool" where
  "isJsonWhitespace c \<longleftrightarrow> c = CHR '' '' \<or> c = CHR 0x09 \<or> c = CHR 0x0A \<or> c = CHR 0x0D"

definition skipWhitespace :: "string \<Rightarrow> string" where
  "skipWhitespace s = dropWhile isJsonWhitespace s"

abbreviation quote :: char where "quote \<equiv> CHR 0x22"

text \<open>The remaining text after a consumed character.\<close>

definition consume :: "char \<Rightarrow> string \<Rightarrow> string option" where
  "consume expected s = (case s of [] \<Rightarrow> None | c # rest \<Rightarrow> if c = expected then Some rest else None)"

definition match_keyword :: "string \<Rightarrow> string \<Rightarrow> string option" where
  "match_keyword keyword s = (if take (length keyword) s = keyword then Some (drop (length keyword) s) else None)"

definition hexDigit :: "char \<Rightarrow> nat option" where
  "hexDigit d =
     (if CHR ''0'' \<le> d \<and> d \<le> CHR ''9'' then Some (byte_of d - 48)
      else if CHR ''a'' \<le> d \<and> d \<le> CHR ''f'' then Some (byte_of d - 97 + 10)
      else if CHR ''A'' \<le> d \<and> d \<le> CHR ''F'' then Some (byte_of d - 65 + 10)
      else None)"

text \<open>Four hexadecimal digits; \<open>(value << 4) | digit\<close> has no overlapping bits.\<close>

definition parseHexCodeUnit :: "string \<Rightarrow> (nat \<times> string) option" where
  "parseHexCodeUnit s =
     (case s of
        a # b # c # d # rest \<Rightarrow>
          (case (hexDigit a, hexDigit b, hexDigit c, hexDigit d) of
             (Some w, Some x, Some y, Some z) \<Rightarrow> Some (((w * 16 + x) * 16 + y) * 16 + z, rest)
           | _ \<Rightarrow> None)
      | _ \<Rightarrow> None)"

text \<open>The bytes of a code point; the \<open>|\<close> of the source combines disjoint bits.\<close>

definition encodeCodePoint :: "nat \<Rightarrow> string" where
  "encodeCodePoint cp =
     (if cp \<le> 0x7F then [char_of cp]
      else if cp \<le> 0x7FF then [char_of (0xC0 + cp div 64), char_of (0x80 + cp mod 64)]
      else if cp \<le> 0xFFFF
      then [char_of (0xE0 + cp div 4096), char_of (0x80 + cp div 64 mod 64), char_of (0x80 + cp mod 64)]
      else [char_of (0xF0 + cp div 262144), char_of (0x80 + cp div 4096 mod 64),
            char_of (0x80 + cp div 64 mod 64), char_of (0x80 + cp mod 64)])"

definition appendCodePoint :: "JsonResourceLimits \<Rightarrow> string \<Rightarrow> nat \<Rightarrow> string option" where
  "appendCodePoint limits output cp =
     (let encoded = encodeCodePoint cp
      in if length output > maxStringBytes limits \<or> length encoded > maxStringBytes limits - length output
         then None else Some (output @ encoded))"

definition appendByte :: "JsonResourceLimits \<Rightarrow> string \<Rightarrow> char \<Rightarrow> string option" where
  "appendByte limits output c = (if length output \<ge> maxStringBytes limits then None else Some (output @ [c]))"

definition simpleEscape :: "char \<Rightarrow> char option" where
  "simpleEscape e =
     (if e = quote then Some quote
      else if e = CHR 0x5C then Some (CHR 0x5C)
      else if e = CHR ''/'' then Some (CHR ''/'')
      else if e = CHR ''b'' then Some (CHR 0x08)
      else if e = CHR ''f'' then Some (CHR 0x0C)
      else if e = CHR ''n'' then Some (CHR 0x0A)
      else if e = CHR ''r'' then Some (CHR 0x0D)
      else if e = CHR ''t'' then Some (CHR 0x09)
      else None)"

text \<open>The code point of a \<open>\\u\<close> escape, after the \<open>u\<close>: one unit or a surrogate pair.\<close>

definition unicodeEscape :: "string \<Rightarrow> (nat \<times> string) result" where
  "unicodeEscape s =
     (case parseHexCodeUnit s of
        None \<Rightarrow> jfail ''Invalid unicode escape''
      | Some (first, r1) \<Rightarrow>
          if 0xD800 \<le> first \<and> first \<le> 0xDBFF
          then (case r1 of
                  b # u # r2 \<Rightarrow>
                    if b \<noteq> CHR 0x5C \<or> u \<noteq> CHR ''u'' then jfail ''Unpaired high surrogate in JSON string''
                    else (case parseHexCodeUnit r2 of
                            None \<Rightarrow> jfail ''Invalid low surrogate in JSON string''
                          | Some (second, r3) \<Rightarrow>
                              if second < 0xDC00 \<or> second > 0xDFFF
                              then jfail ''Invalid low surrogate in JSON string''
                              else Inr (0x10000 + (first - 0xD800) * 1024 + (second - 0xDC00), r3))
                | _ \<Rightarrow> jfail ''Unpaired high surrogate in JSON string'')
          else if 0xDC00 \<le> first \<and> first \<le> 0xDFFF then jfail ''Unpaired low surrogate in JSON string''
          else Inr (first, r1))"

lemma parseHexCodeUnit_shorter: "parseHexCodeUnit s = Some (v, r) \<Longrightarrow> length s = length r + 4"
  by (auto simp: parseHexCodeUnit_def split: list.splits option.splits)

lemma unicodeEscape_shorter: "unicodeEscape s = Inr (v, r) \<Longrightarrow> length r < length s"
  by (auto simp: unicodeEscape_def jfail_def dest!: parseHexCodeUnit_shorter split: option.splits if_splits list.splits)

text \<open>The loop of \<open>parseString\<close> after the opening quote.\<close>

function parseStringBody :: "JsonResourceLimits \<Rightarrow> string \<Rightarrow> string \<Rightarrow> (string \<times> string) result" where
  "parseStringBody limits [] output = jfail ''Unterminated string''"
| "parseStringBody limits (c # rest) output =
     (if c = quote then Inr (output, rest)
      else if byte_of c < 0x20 then jfail ''Unescaped control character in JSON string''
      else if c \<noteq> CHR 0x5C
      then (case appendByte limits output c of
              None \<Rightarrow> jlimit ''JSON string limit exceeded''
            | Some output' \<Rightarrow> parseStringBody limits rest output')
      else (case rest of
              [] \<Rightarrow> jfail ''Invalid string escape''
            | escaped # rest' \<Rightarrow>
                if escaped = CHR ''u''
                then (case unicodeEscape rest' of
                        Inl e \<Rightarrow> Inl e
                      | Inr (codePoint, rest'') \<Rightarrow>
                          (case appendCodePoint limits output codePoint of
                             None \<Rightarrow> jlimit ''JSON string limit exceeded''
                           | Some output' \<Rightarrow> parseStringBody limits rest'' output'))
                else (case simpleEscape escaped of
                        None \<Rightarrow> jfail ''Invalid string escape''
                      | Some b \<Rightarrow>
                          (case appendByte limits output b of
                             None \<Rightarrow> jlimit ''JSON string limit exceeded''
                           | Some output' \<Rightarrow> parseStringBody limits rest' output'))))"
  by pat_completeness auto

termination
  by (relation "measure (\<lambda>(limits, s, output). length s)") (auto dest!: unicodeEscape_shorter)

definition parseString :: "JsonResourceLimits \<Rightarrow> string \<Rightarrow> (string \<times> string) result" where
  "parseString limits s =
     (case consume quote s of None \<Rightarrow> jfail ''Expected string'' | Some rest \<Rightarrow> parseStringBody limits rest [])"

text \<open>Numbers: \<open>n\<close> is \<open>pos_ - start\<close>.\<close>

definition consumeNumberByte :: "JsonResourceLimits \<Rightarrow> nat \<Rightarrow> nat result" where
  "consumeNumberByte limits n =
     (if n \<ge> maxNumberBytes limits then jlimit ''JSON number length limit exceeded'' else Inr (n + 1))"

fun digitRun :: "JsonResourceLimits \<Rightarrow> nat \<Rightarrow> string \<Rightarrow> (nat \<times> string) result" where
  "digitRun limits n [] = Inr (n, [])"
| "digitRun limits n (c # s) =
     (if isAsciiDigit c then bindr (consumeNumberByte limits n) (\<lambda>n'. digitRun limits n' s) else Inr (n, c # s))"

definition startsWithDigit :: "string \<Rightarrow> bool" where
  "startsWithDigit s \<longleftrightarrow> s \<noteq> [] \<and> isAsciiDigit (hd s)"

definition numberInteger :: "JsonResourceLimits \<Rightarrow> nat \<Rightarrow> string \<Rightarrow> (nat \<times> string) result" where
  "numberInteger limits n s =
     (if s = [] then jfail ''Invalid number''
      else if hd s = CHR ''0''
      then bindr (consumeNumberByte limits n) (\<lambda>n'.
             if startsWithDigit (tl s) then jfail ''JSON numbers cannot contain leading zeroes'' else Inr (n', tl s))
      else if CHR ''1'' \<le> hd s \<and> hd s \<le> CHR ''9'' then digitRun limits n s
      else jfail ''Invalid number'')"

definition numberFraction :: "JsonResourceLimits \<Rightarrow> nat \<Rightarrow> string \<Rightarrow> (nat \<times> string \<times> bool) result" where
  "numberFraction limits n s =
     (if s \<noteq> [] \<and> hd s = CHR ''.''
      then bindr (consumeNumberByte limits n) (\<lambda>n'.
             if \<not> startsWithDigit (tl s) then jfail ''Invalid number fraction''
             else bindr (digitRun limits n' (tl s)) (\<lambda>(n'', s'). Inr (n'', s', True)))
      else Inr (n, s, False))"

definition numberExponent :: "JsonResourceLimits \<Rightarrow> nat \<Rightarrow> string \<Rightarrow> bool \<Rightarrow> (nat \<times> string \<times> bool) result" where
  "numberExponent limits n s floatingPoint =
     (if s \<noteq> [] \<and> (hd s = CHR ''e'' \<or> hd s = CHR ''E'')
      then bindr (consumeNumberByte limits n) (\<lambda>n1.
           bindr (if tl s \<noteq> [] \<and> (hd (tl s) = CHR ''+'' \<or> hd (tl s) = CHR ''-'')
                  then bindr (consumeNumberByte limits n1) (\<lambda>n2. Inr (n2, tl (tl s)))
                  else Inr (n1, tl s)) (\<lambda>(n3, s3).
             if \<not> startsWithDigit s3 then jfail ''Invalid number exponent''
             else bindr (digitRun limits n3 s3) (\<lambda>(n4, s4). Inr (n4, s4, True))))
      else Inr (n, s, floatingPoint))"

definition parseInteger :: "string \<Rightarrow> Json result" where
  "parseInteger token =
     (if token \<noteq> [] \<and> hd token = CHR ''-''
      then (case from_chars_dec (2 ^ 64 - 1) (tl token) of
              None \<Rightarrow> jfail ''Signed JSON integer is out of range''
            | Some magnitude \<Rightarrow>
                if magnitude > 2 ^ 63 then jfail ''Signed JSON integer is out of range''
                else Inr (JInt (- int magnitude)))
      else (case from_chars_dec (2 ^ 64 - 1) token of
              None \<Rightarrow> jfail ''Unsigned JSON integer is out of range''
            | Some v \<Rightarrow> Inr (JUInt (of_nat v))))"

text \<open>The exact value of a decimal token \<open>[-]int[.frac][(e|E)[+|-]exp]\<close>, without its sign, as
  numerator and denominator.\<close>

definition decimal_value :: "string \<Rightarrow> nat \<times> nat" where
  "decimal_value token =
     (let unsigned = (if token \<noteq> [] \<and> hd token = CHR ''-'' then tl token else token);
          e = find_first_of ''eE'' unsigned;
          significand = prefix_upto e unsigned;
          exponent = rest_after e unsigned;
          dot = find_char (CHR ''.'') significand;
          whole = prefix_upto dot significand;
          fraction = rest_after dot significand;
          negative = exponent \<noteq> [] \<and> hd exponent = CHR ''-'';
          magnitude = digits_val (if exponent \<noteq> [] \<and> (hd exponent = CHR ''+'' \<or> hd exponent = CHR ''-'')
                                  then tl exponent else exponent);
          digits = digits_val (whole @ fraction);
          scale = 10 ^ length fraction
      in if negative then (digits, scale * 10 ^ magnitude) else (digits * 10 ^ magnitude, scale))"

text \<open>\<open>std::from_chars\<close> rounds to nearest, ties to even: a positive value is out of range exactly
  when it rounds to infinity (from \<open>2 ^ 1024 - 2 ^ 970\<close> on) or to zero (up to \<open>1 / 2 ^ 1075\<close>).\<close>

definition double_in_range :: "nat \<times> nat \<Rightarrow> bool" where
  "double_in_range v \<longleftrightarrow> snd v < fst v * 2 ^ 1075 \<and> fst v < (2 ^ 1024 - 2 ^ 970) * snd v"

definition parseFloatingPoint :: "string \<Rightarrow> Json result" where
  "parseFloatingPoint token =
     (let significand = prefix_upto (find_first_of ''eE'' token) token
      in if \<not> list_ex (\<lambda>c. CHR ''1'' \<le> c \<and> c \<le> CHR ''9'') significand
         then Inr (JDouble (if token \<noteq> [] \<and> hd token = CHR ''-'' then ''-0.0'' else ''0.0''))
         else if \<not> double_in_range (decimal_value token)
         then jfail ''JSON floating-point number is out of range''
         else Inr (JDouble token))"

definition json_parseNumber :: "JsonResourceLimits \<Rightarrow> string \<Rightarrow> (Json \<times> string) result" where
  "json_parseNumber limits s =
     bindr (if hd s = CHR ''-'' then bindr (consumeNumberByte limits 0) (\<lambda>n. Inr (n, tl s)) else Inr (0, s)) (\<lambda>(n1, s1).
     bindr (numberInteger limits n1 s1) (\<lambda>(n2, s2).
     bindr (numberFraction limits n2 s2) (\<lambda>(n3, s3, fp3).
     bindr (numberExponent limits n3 s3 fp3) (\<lambda>(n4, s4, fp4).
       let token = take n4 s
       in bindr (if fp4 then parseFloatingPoint token else parseInteger token) (\<lambda>v. Inr (v, s4))))))"

text \<open>Sequencing of fuelled results: \<open>None\<close> is out of fuel.\<close>

definition bindp :: "'a result option \<Rightarrow> ('a \<Rightarrow> 'b result option) \<Rightarrow> 'b result option" where
  "bindp r f = (case r of None \<Rightarrow> None | Some (Inl e) \<Rightarrow> Some (Inl e) | Some (Inr x) \<Rightarrow> f x)"

text \<open>
  The mutually recursive parser: a call of \<open>parseValue\<close>, a turn of the loop in \<open>parseObject\<close> (with
  the object and the entry count so far) or a turn of the loop in \<open>parseArray\<close>. Each step receives
  the parser for its own recursive calls.
\<close>

datatype parse_call =
    ParseValue nat string nat
  | ParseObject nat "(string \<times> Json) list" nat string nat
  | ParseArray nat "Json list" string nat

type_synonym parse_outcome = "(Json \<times> string \<times> nat) result option"

definition parseKeyword :: "string \<Rightarrow> nat \<Rightarrow> (Json \<times> string \<times> nat) result" where
  "parseKeyword s nodes =
     (case match_keyword ''true'' s of
        Some s2 \<Rightarrow> Inr (JBool True, s2, nodes)
      | None \<Rightarrow>
          (case match_keyword ''false'' s of
             Some s2 \<Rightarrow> Inr (JBool False, s2, nodes)
           | None \<Rightarrow>
               (case match_keyword ''null'' s of
                  Some s2 \<Rightarrow> Inr (JNull, s2, nodes)
                | None \<Rightarrow> jfail ''Invalid JSON value'')))"

definition parseValue :: "(parse_call \<Rightarrow> parse_outcome) \<Rightarrow> JsonResourceLimits \<Rightarrow> nat \<Rightarrow> string \<Rightarrow> nat \<Rightarrow> parse_outcome" where
  "parseValue self limits depth s nodes =
     (let s1 = skipWhitespace s
      in if depth > maxDepth limits then Some (jlimit ''JSON depth limit exceeded'')
         else if nodes \<ge> maxNodes limits then Some (jlimit ''JSON node limit exceeded'')
         else
           let nodes1 = nodes + 1
           in if s1 = [] then Some (jfail ''Unexpected end of JSON'')
              else if hd s1 = quote
              then Some (bindr (parseString limits s1) (\<lambda>(t, s2). Inr (JString t, s2, nodes1)))
              else if hd s1 = CHR ''{''
              then let s2 = skipWhitespace (tl s1)
                   in (case consume (CHR ''}'') s2 of
                         Some s3 \<Rightarrow> Some (Inr (JObject [], s3, nodes1))
                       | None \<Rightarrow> self (ParseObject depth [] 0 s2 nodes1))
              else if hd s1 = CHR ''[''
              then let s2 = skipWhitespace (tl s1)
                   in (case consume (CHR '']'') s2 of
                         Some s3 \<Rightarrow> Some (Inr (JArray [], s3, nodes1))
                       | None \<Rightarrow> self (ParseArray depth [] s2 nodes1))
              else if hd s1 = CHR ''-'' \<or> isAsciiDigit (hd s1)
              then Some (bindr (json_parseNumber limits s1) (\<lambda>(v, s2). Inr (v, s2, nodes1)))
              else Some (parseKeyword s1 nodes1))"

definition parseObject :: "(parse_call \<Rightarrow> parse_outcome) \<Rightarrow> JsonResourceLimits \<Rightarrow> nat \<Rightarrow> (string \<times> Json) list \<Rightarrow> nat \<Rightarrow>
    string \<Rightarrow> nat \<Rightarrow> parse_outcome" where
  "parseObject self limits depth object entryCount s nodes =
     (if entryCount \<ge> maxContainerEntries limits then Some (jlimit ''JSON object entry limit exceeded'')
      else
        let s1 = skipWhitespace s
        in if s1 = [] \<or> hd s1 \<noteq> quote then Some (jfail ''Expected object key'')
           else (case parseString limits s1 of
                   Inl e \<Rightarrow> Some (Inl e)
                 | Inr (key, s2) \<Rightarrow>
                     if map_of object key \<noteq> None then Some (jfail ''Duplicate JSON object key'')
                     else (case consume (CHR '':'') (skipWhitespace s2) of
                             None \<Rightarrow> Some (jfail (''Expected '' @ [CHR 0x27] @ '':'' @ [CHR 0x27] @ '' after object key''))
                           | Some s3 \<Rightarrow>
                               if depth \<ge> maxDepth limits then Some (jlimit ''JSON depth limit exceeded'')
                               else bindp (self (ParseValue (depth + 1) s3 nodes)) (\<lambda>(v, s4, nodes1).
                                 let object1 = object_emplace key v object;
                                     s5 = skipWhitespace s4
                                 in (case consume (CHR ''}'') s5 of
                                       Some s6 \<Rightarrow> Some (Inr (JObject object1, s6, nodes1))
                                     | None \<Rightarrow>
                                         (case consume (CHR '','') s5 of
                                            None \<Rightarrow> Some (jfail (''Expected '' @ [CHR 0x27] @ '','' @ [CHR 0x27] @ '' or ''
                                                        @ [CHR 0x27] @ ''}'' @ [CHR 0x27] @ '' in object''))
                                          | Some s6 \<Rightarrow> self (ParseObject depth object1 (entryCount + 1) s6 nodes1)))))))"

definition parseArray :: "(parse_call \<Rightarrow> parse_outcome) \<Rightarrow> JsonResourceLimits \<Rightarrow> nat \<Rightarrow> Json list \<Rightarrow> string \<Rightarrow> nat \<Rightarrow>
    parse_outcome" where
  "parseArray self limits depth array s nodes =
     (if length array \<ge> maxContainerEntries limits then Some (jlimit ''JSON array entry limit exceeded'')
      else if depth \<ge> maxDepth limits then Some (jlimit ''JSON depth limit exceeded'')
      else bindp (self (ParseValue (depth + 1) s nodes)) (\<lambda>(v, s1, nodes1).
        let array1 = array @ [v];
            s2 = skipWhitespace s1
        in (case consume (CHR '']'') s2 of
              Some s3 \<Rightarrow> Some (Inr (JArray array1, s3, nodes1))
            | None \<Rightarrow>
                (case consume (CHR '','') s2 of
                   None \<Rightarrow> Some (jfail (''Expected '' @ [CHR 0x27] @ '','' @ [CHR 0x27] @ '' or ''
                               @ [CHR 0x27] @ '']'' @ [CHR 0x27] @ '' in array''))
                 | Some s3 \<Rightarrow> self (ParseArray depth array1 s3 nodes1)))))"

definition parse_step :: "JsonResourceLimits \<Rightarrow> (parse_call \<Rightarrow> parse_outcome) \<Rightarrow> parse_call \<Rightarrow> parse_outcome" where
  "parse_step limits self call =
     (case call of
        ParseValue depth s nodes \<Rightarrow> parseValue self limits depth s nodes
      | ParseObject depth object entryCount s nodes \<Rightarrow> parseObject self limits depth object entryCount s nodes
      | ParseArray depth array s nodes \<Rightarrow> parseArray self limits depth array s nodes)"

primrec run_parser :: "nat \<Rightarrow> JsonResourceLimits \<Rightarrow> parse_call \<Rightarrow> parse_outcome" where
  "run_parser 0 limits call = None"
| "run_parser (Suc fuel) limits call = parse_step limits (run_parser fuel limits) call"

lemma run_parser_numeral [eval_simps]:
  "run_parser (numeral k) limits call = parse_step limits (run_parser (pred_numeral k) limits) call"
  by (simp add: numeral_eq_Suc)

text \<open>\<open>Parser::parse\<close>, with fuel for every call the text can cause.\<close>

definition parser_parse :: "nat \<Rightarrow> JsonResourceLimits \<Rightarrow> string \<Rightarrow> Json result option" where
  "parser_parse fuel limits t =
     bindp (run_parser fuel limits (ParseValue 1 (skipWhitespace t) 0)) (\<lambda>(v, s, nodes).
       if skipWhitespace s \<noteq> [] then Some (jfail ''Unexpected trailing JSON content'') else Some (Inr v))"

definition limitsExceedSafetyCeiling :: "JsonResourceLimits \<Rightarrow> bool" where
  "limitsExceedSafetyCeiling limits \<longleftrightarrow>
     maxDepth limits > maxDepth absolute_json_limits \<or> maxNodes limits > maxNodes absolute_json_limits
     \<or> maxStringBytes limits > maxStringBytes absolute_json_limits
     \<or> maxNumberBytes limits > maxNumberBytes absolute_json_limits
     \<or> maxContainerEntries limits > maxContainerEntries absolute_json_limits"

definition json_fuel :: "string \<Rightarrow> nat" where
  "json_fuel t = 2 * length t + 1"

definition json_parse :: "string \<Rightarrow> JsonResourceLimits \<Rightarrow> Json result option" where
  "json_parse t limits =
     (if limitsExceedSafetyCeiling limits
      then Some (fail EC_InvalidConfig ''JSON resource limit exceeds the safety ceiling'')
      else if \<not> isValidUtf8 t then Some (jfail ''JSON input is not valid UTF-8'')
      else parser_parse (json_fuel t) limits t)"

section \<open>Resource usage and printing\<close>

text \<open>The source loops of \<open>jsonEscape\<close>, \<open>validateValueResources\<close> and \<open>stringifyInto\<close>; \<open>None\<close> is the
  exception \<open>jsonEscape\<close> throws on text that is not UTF-8.\<close>

definition lowerHexDigit :: "nat \<Rightarrow> char" where
  "lowerHexDigit d = ''0123456789abcdef'' ! (d mod 16)"

definition escapeByte :: "char \<Rightarrow> string" where
  "escapeByte c =
     (if c = quote then [CHR 0x5C, quote]
      else if c = CHR 0x5C then [CHR 0x5C, CHR 0x5C]
      else if c = CHR 0x08 then [CHR 0x5C, CHR ''b'']
      else if c = CHR 0x0C then [CHR 0x5C, CHR ''f'']
      else if c = CHR 0x0A then [CHR 0x5C, CHR ''n'']
      else if c = CHR 0x0D then [CHR 0x5C, CHR ''r'']
      else if c = CHR 0x09 then [CHR 0x5C, CHR ''t'']
      else if byte_of c < 0x20
      then [CHR 0x5C, CHR ''u'', CHR ''0'', CHR ''0'', lowerHexDigit (byte_of c div 16), lowerHexDigit (byte_of c)]
      else [c])"

definition jsonEscape :: "string \<Rightarrow> string option" where
  "jsonEscape t = (if \<not> isValidUtf8 t then None else Some (concat (map escapeByte t)))"

definition integerText :: "int \<Rightarrow> string" where
  "integerText i = decimalText i"

definition numberText :: "(string \<Rightarrow> string) \<Rightarrow> Json \<Rightarrow> string" where
  "numberText fpText v =
     (case v of JInt i \<Rightarrow> integerText i | JUInt u \<Rightarrow> integerText (int (unat u)) | JDouble t \<Rightarrow> fpText t | _ \<Rightarrow> fpText ''0.0'')"

fun validateValueResources :: "(string \<Rightarrow> string) \<Rightarrow> JsonResourceLimits \<Rightarrow> nat \<Rightarrow> Json \<Rightarrow> nat \<Rightarrow> nat result"
  and validateItems :: "(string \<Rightarrow> string) \<Rightarrow> JsonResourceLimits \<Rightarrow> nat \<Rightarrow> Json list \<Rightarrow> nat \<Rightarrow> nat result"
  and validateMembers :: "(string \<Rightarrow> string) \<Rightarrow> JsonResourceLimits \<Rightarrow> nat \<Rightarrow> (string \<times> Json) list \<Rightarrow> nat \<Rightarrow> nat result" where
  "validateValueResources fpText limits depth v nodes =
     (if depth > maxDepth limits then jlimit ''JSON depth limit exceeded''
      else if nodes \<ge> maxNodes limits then jlimit ''JSON node limit exceeded''
      else
        (case v of
           JString t \<Rightarrow>
             if \<not> isValidUtf8 t then jfail ''JSON string is not valid UTF-8''
             else if length t > maxStringBytes limits then jlimit ''JSON string limit exceeded''
             else Inr (nodes + 1)
         | JArray xs \<Rightarrow>
             if length xs > maxContainerEntries limits then jlimit ''JSON array entry limit exceeded''
             else validateItems fpText limits depth xs (nodes + 1)
         | JObject m \<Rightarrow>
             if length m > maxContainerEntries limits then jlimit ''JSON object entry limit exceeded''
             else validateMembers fpText limits depth m (nodes + 1)
         | JNull \<Rightarrow> Inr (nodes + 1)
         | JBool _ \<Rightarrow> Inr (nodes + 1)
         | _ \<Rightarrow>
             if length (numberText fpText v) > maxNumberBytes limits then jlimit ''JSON number length limit exceeded''
             else Inr (nodes + 1)))"
| "validateItems fpText limits depth [] nodes = Inr nodes"
| "validateItems fpText limits depth (x # xs) nodes =
     (if depth \<ge> maxDepth limits then jlimit ''JSON depth limit exceeded''
      else bindr (validateValueResources fpText limits (depth + 1) x nodes) (\<lambda>nodes'.
        validateItems fpText limits depth xs nodes'))"
| "validateMembers fpText limits depth [] nodes = Inr nodes"
| "validateMembers fpText limits depth ((k, x) # m) nodes =
     (if \<not> isValidUtf8 k then jfail ''JSON object key is not valid UTF-8''
      else if length k > maxStringBytes limits then jlimit ''JSON string limit exceeded''
      else if depth \<ge> maxDepth limits then jlimit ''JSON depth limit exceeded''
      else bindr (validateValueResources fpText limits (depth + 1) x nodes) (\<lambda>nodes'.
        validateMembers fpText limits depth m nodes'))"

definition validateResourceUsage :: "(string \<Rightarrow> string) \<Rightarrow> Json \<Rightarrow> JsonResourceLimits \<Rightarrow> unit result" where
  "validateResourceUsage fpText v limits =
     (if limitsExceedSafetyCeiling limits
      then fail EC_InvalidConfig ''JSON resource limit exceeds the safety ceiling''
      else bindr (validateValueResources fpText limits 1 v 0) (\<lambda>_. Inr ()))"

text \<open>A line break and indentation before an entry, when printing with indentation.\<close>

definition lineBreak :: "nat \<Rightarrow> nat \<Rightarrow> string" where
  "lineBreak indent depth = (if indent > 0 then CHR 0x0A # replicate depth (CHR '' '') else [])"

fun stringifyInto :: "(string \<Rightarrow> string) \<Rightarrow> nat \<Rightarrow> nat \<Rightarrow> Json \<Rightarrow> string option"
  and stringifyItems :: "(string \<Rightarrow> string) \<Rightarrow> nat \<Rightarrow> nat \<Rightarrow> Json list \<Rightarrow> string option"
  and stringifyMembers :: "(string \<Rightarrow> string) \<Rightarrow> nat \<Rightarrow> nat \<Rightarrow> (string \<times> Json) list \<Rightarrow> string option" where
  "stringifyInto fpText indent depth v =
     (case v of
        JNull \<Rightarrow> Some ''null''
      | JBool b \<Rightarrow> Some (if b then ''true'' else ''false'')
      | JString t \<Rightarrow> map_option (\<lambda>e. quote # e @ [quote]) (jsonEscape t)
      | JArray xs \<Rightarrow>
          map_option (\<lambda>e. CHR ''['' # e @ (if xs \<noteq> [] then lineBreak indent depth else []) @ [CHR '']''])
            (stringifyItems fpText indent (if indent > 0 then depth + indent else depth) xs)
      | JObject m \<Rightarrow>
          map_option (\<lambda>e. CHR ''{'' # e @ (if m \<noteq> [] then lineBreak indent depth else []) @ [CHR ''}''])
            (stringifyMembers fpText indent (if indent > 0 then depth + indent else depth) m)
      | _ \<Rightarrow> Some (numberText fpText v))"
| "stringifyItems fpText indent childDepth [] = Some []"
| "stringifyItems fpText indent childDepth (x # xs) =
     Option.bind (stringifyInto fpText indent childDepth x) (\<lambda>e.
     Option.bind (stringifyItems fpText indent childDepth xs) (\<lambda>es.
       Some (lineBreak indent childDepth @ e @ (if xs \<noteq> [] then [CHR '',''] else []) @ es)))"
| "stringifyMembers fpText indent childDepth [] = Some []"
| "stringifyMembers fpText indent childDepth ((k, x) # m) =
     Option.bind (jsonEscape k) (\<lambda>key.
     Option.bind (stringifyInto fpText indent childDepth x) (\<lambda>e.
     Option.bind (stringifyMembers fpText indent childDepth m) (\<lambda>es.
       Some (lineBreak indent childDepth @ quote # key @ [quote, CHR '':''] @ (if indent > 0 then '' '' else [])
             @ e @ (if m \<noteq> [] then [CHR '',''] else []) @ es))))"

definition stringify :: "(string \<Rightarrow> string) \<Rightarrow> int \<Rightarrow> Json \<Rightarrow> string option" where
  "stringify fpText indent v = stringifyInto fpText (if indent > 0 then nat indent else 0) 0 v"

lemmas [eval_simps] = isNull_def isSignedInteger_def isUnsignedInteger_def isContinuationByte_def validSecond3_def validSecond4_def isNumber_def isInteger_def isBool_def
  isString_def isObject_def isArray_def asBool_def asInt64_def asUInt64_def asString_def asObject_def asArray_def
  json_get_def json_contains_def jfail_def jlimit_def isJsonWhitespace_def skipWhitespace_def consume_def
  match_keyword_def hexDigit_def parseHexCodeUnit_def encodeCodePoint_def appendCodePoint_def appendByte_def
  simpleEscape_def unicodeEscape_def parseString_def consumeNumberByte_def startsWithDigit_def numberInteger_def
  numberFraction_def numberExponent_def parseInteger_def json_parseNumber_def bindp_def parseKeyword_def
  parseValue_def parseObject_def parseArray_def parse_step_def parser_parse_def limitsExceedSafetyCeiling_def
  json_fuel_def json_parse_def lowerHexDigit_def escapeByte_def jsonEscape_def integerText_def numberText_def
  validateResourceUsage_def lineBreak_def stringify_def

end
