(* ===== verification/Json_Facts.thy ===== *)
theory Json_Facts
  imports Json
begin

text \<open>
  The parser of \<open>src/util/Json.cpp\<close>: it always comes to an end within the fuel it is given, what it
  accepts respects every configured limit, and it reads back what the writer printed.
\<close>

section \<open>Every step consumes input\<close>

lemma skipWhitespace_length: "length (skipWhitespace s) \<le> length s"
  by (simp add: skipWhitespace_def length_dropWhile_le)

lemma consume_Some: "consume c s = Some r \<longleftrightarrow> s = c # r"
  by (auto simp: consume_def split: list.splits)

lemma parseStringBody_shorter: "parseStringBody limits s out = Inr (t, r) \<Longrightarrow> length r < length s"
proof (induction limits s out rule: parseStringBody.induct)
  case (2 limits c rest out)
  then show ?case
    by (auto simp: jfail_def jlimit_def dest: unicodeEscape_shorter split: if_splits option.splits list.splits sum.splits prod.splits)
      (metis Suc_lessD less_trans unicodeEscape_shorter less_SucI)+
qed (simp add: jfail_def)

lemma parseString_shorter: "parseString limits s = Inr (t, r) \<Longrightarrow> length r + 1 < length s"
  by (auto simp: parseString_def jfail_def consume_Some dest: parseStringBody_shorter split: option.splits)

lemma digitRun_length: "digitRun limits n s = Inr (n', r) \<Longrightarrow> length r \<le> length s"
  by (induction limits n s rule: digitRun.induct) (fastforce split: if_splits)+

lemma digitRun_shorter: "digitRun limits n s = Inr (n', r) \<Longrightarrow> startsWithDigit s \<Longrightarrow> length r < length s"
  by (cases s) (auto simp: startsWithDigit_def dest: digitRun_length)

lemma numberInteger_shorter: "numberInteger limits n s = Inr (n', r) \<Longrightarrow> length r < length s"
  by (cases s) (auto simp: numberInteger_def jfail_def isAsciiDigit_def less_eq_char_def
      dest!: digitRun_length split: if_splits)

lemma numberFraction_length: "numberFraction limits n s = Inr (n', r, fp) \<Longrightarrow> length r \<le> length s"
  by (cases s) (auto simp: numberFraction_def jfail_def dest!: digitRun_length split: if_splits)

lemma numberExponent_length: "numberExponent limits n s fp = Inr (n', r, fp') \<Longrightarrow> length r \<le> length s"
  by (cases s; cases "tl s") (auto simp: numberExponent_def jfail_def dest!: digitRun_length split: if_splits)

lemma json_parseNumber_shorter:
  assumes "json_parseNumber limits s = Inr (v, r)" "s \<noteq> []"
  shows "length r < length s"
proof -
  obtain n1 s1 n2 s2 n3 s3 fp3 n4 fp4 where
    start: "(if hd s = CHR ''-'' then bindr (consumeNumberByte limits 0) (\<lambda>n. Inr (n, tl s)) else Inr (0, s)) = Inr (n1, s1)"
    and parts: "numberInteger limits n1 s1 = Inr (n2, s2)" "numberFraction limits n2 s2 = Inr (n3, s3, fp3)"
      "numberExponent limits n3 s3 fp3 = Inr (n4, r, fp4)"
    using assms(1) by (auto simp: json_parseNumber_def Let_def)
  have "s1 = s \<or> s1 = tl s" using start by (auto split: if_splits)
  then have "length s1 \<le> length s" "length s2 < length s1" "length s3 \<le> length s2" "length r \<le> length s3"
    using numberInteger_shorter [OF parts(1)] numberFraction_length [OF parts(2)] numberExponent_length [OF parts(3)] by auto
  then show ?thesis by linarith
qed

lemma match_keyword_shorter: "match_keyword k s = Some r \<Longrightarrow> k \<noteq> [] \<Longrightarrow> length r < length s"
  by (auto simp: match_keyword_def split: if_splits) (metis append_take_drop_id diff_less length_drop length_greater_0_conv take_Nil)

lemma parseKeyword_shorter: "parseKeyword s n = Inr (v, r, n') \<Longrightarrow> length r < length s"
  by (auto simp: parseKeyword_def jfail_def dest: match_keyword_shorter split: option.splits)

fun call_text :: "parse_call \<Rightarrow> string" where
  "call_text (ParseValue d s n) = s"
| "call_text (ParseObject d m k s n) = s"
| "call_text (ParseArray d xs s n) = s"

text \<open>A parser for the recursive calls that consumes input on success.\<close>

definition consuming :: "(parse_call \<Rightarrow> parse_outcome) \<Rightarrow> bool" where
  "consuming self \<longleftrightarrow> (\<forall>call v r n. self call = Some (Inr (v, r, n)) \<longrightarrow> length r < length (call_text call))"

lemma consumingD: "consuming self \<Longrightarrow> self call = Some (Inr (v, r, n)) \<Longrightarrow> length r < length (call_text call)"
  by (auto simp: consuming_def)

lemma bindp_Some_Inr: "bindp r f = Some (Inr y) \<longleftrightarrow> (\<exists>x. r = Some (Inr x) \<and> f x = Some (Inr y))"
  by (auto simp: bindp_def split: option.splits sum.splits)

lemma bindp_None: "bindp r f = None \<longleftrightarrow> r = None \<or> (\<exists>x. r = Some (Inr x) \<and> f x = None)"
  by (auto simp: bindp_def split: option.splits sum.splits)

lemma tl_length: "s \<noteq> [] \<Longrightarrow> length (tl s) < length s"
  by (cases s) auto

lemma parseValue_consumes:
  assumes "consuming self" "parseValue self limits d s n = Some (Inr (v, r, n'))"
  shows "length r < length s"
proof -
  define s1 where "s1 = skipWhitespace s"
  define s2 where "s2 = skipWhitespace (tl s1)"
  have len: "length s1 \<le> length s" "length s2 \<le> length (tl s1)" 
    unfolding s1_def s2_def by (rule skipWhitespace_length)+
  have "s1 \<noteq> []" using assms(2) by (auto simp: parseValue_def Let_def s1_def jlimit_def jfail_def split: if_splits)
  then have l2: "length s2 < length s1" using len(2) tl_length [of s1] by linarith
  consider t where "parseString limits s1 = Inr (t, r)" | "CHR ''}'' # r = s2" | "CHR '']'' # r = s2"
    | "self (ParseObject d [] 0 s2 (n + 1)) = Some (Inr (v, r, n'))"
    | "self (ParseArray d [] s2 (n + 1)) = Some (Inr (v, r, n'))"
    | "json_parseNumber limits s1 = Inr (v, r)" | "parseKeyword s1 (n + 1) = Inr (v, r, n')"
    using assms(2)
    by (auto simp: parseValue_def Let_def s1_def [symmetric] s2_def [symmetric] jlimit_def jfail_def consume_Some
        split: if_splits option.splits)
  then have "length r < length s1"
  proof cases
    case 1
    then show ?thesis using parseString_shorter by fastforce
  next
    case 4
    then show ?thesis using consumingD [OF assms(1)] l2 by fastforce
  next
    case 5
    then show ?thesis using consumingD [OF assms(1)] l2 by fastforce
  next
    case 6
    then show ?thesis using json_parseNumber_shorter \<open>s1 \<noteq> []\<close> by blast
  next
    case 7
    then show ?thesis by (rule parseKeyword_shorter)
  qed (use l2 in \<open>force dest: arg_cong [of _ _ length]\<close>)+
  with len(1) show ?thesis by linarith
qed

text \<open>One turn of the object loop: key, colon and value are read, then the object ends or goes on.\<close>

lemma parseObject_cases:
  assumes "parseObject self limits d m k s n = Some (Inr (v, r, n'))"
  obtains key s2 s3 x s4 n1 where "k < maxContainerEntries limits" "d < maxDepth limits"
    "parseString limits (skipWhitespace s) = Inr (key, s2)" "map_of m key = None"
    "skipWhitespace s2 = CHR '':'' # s3" "self (ParseValue (d + 1) s3 n) = Some (Inr (x, s4, n1))"
    "(skipWhitespace s4 = CHR ''}'' # r \<and> v = JObject (object_emplace key x m) \<and> n' = n1)
     \<or> (\<exists>s6. skipWhitespace s4 = CHR '','' # s6
          \<and> self (ParseObject d (object_emplace key x m) (k + 1) s6 n1) = Some (Inr (v, r, n')))"
proof -
  obtain key s2 s3 where h: "k < maxContainerEntries limits" "d < maxDepth limits"
      "parseString limits (skipWhitespace s) = Inr (key, s2)" "map_of m key = None" "skipWhitespace s2 = CHR '':'' # s3"
    and b: "bindp (self (ParseValue (d + 1) s3 n)) (\<lambda>(x, s4, nodes1).
         let object1 = object_emplace key x m; s5 = skipWhitespace s4
         in case consume (CHR ''}'') s5 of
              Some s6 \<Rightarrow> Some (Inr (JObject object1, s6, nodes1))
            | None \<Rightarrow> (case consume (CHR '','') s5 of
                None \<Rightarrow> Some (jfail (''Expected '' @ [CHR 0x27] @ '','' @ [CHR 0x27] @ '' or ''
                          @ [CHR 0x27] @ ''}'' @ [CHR 0x27] @ '' in object''))
              | Some s6 \<Rightarrow> self (ParseObject d object1 (k + 1) s6 nodes1))) = Some (Inr (v, r, n'))"
    using assms unfolding parseObject_def Let_def
    by (auto simp: jlimit_def jfail_def consume_Some not_le split: if_split_asm sum.split_asm prod.split_asm option.split_asm)
  from b obtain x s4 n1 where x: "self (ParseValue (d + 1) s3 n) = Some (Inr (x, s4, n1))"
    and e: "(skipWhitespace s4 = CHR ''}'' # r \<and> v = JObject (object_emplace key x m) \<and> n' = n1)
     \<or> (\<exists>s6. skipWhitespace s4 = CHR '','' # s6
          \<and> self (ParseObject d (object_emplace key x m) (k + 1) s6 n1) = Some (Inr (v, r, n')))"
    by (auto simp: bindp_Some_Inr Let_def jfail_def consume_Some split: option.split_asm)
  show ?thesis by (rule that [OF h x e])
qed

lemma parseArray_cases:
  assumes "parseArray self limits d xs s n = Some (Inr (v, r, n'))"
  obtains x s1 n1 where "length xs < maxContainerEntries limits" "d < maxDepth limits"
    "self (ParseValue (d + 1) s n) = Some (Inr (x, s1, n1))"
    "(skipWhitespace s1 = CHR '']'' # r \<and> v = JArray (xs @ [x]) \<and> n' = n1)
     \<or> (\<exists>s3. skipWhitespace s1 = CHR '','' # s3 \<and> self (ParseArray d (xs @ [x]) s3 n1) = Some (Inr (v, r, n')))"
  using assms
  by (auto simp: parseArray_def bindp_Some_Inr Let_def jfail_def jlimit_def consume_Some not_le
      split: if_split_asm option.split_asm)

lemma parseObject_consumes:
  assumes "consuming self" "parseObject self limits d m k s n = Some (Inr (v, r, n'))"
  shows "length r < length s"
  using assms(2)
proof (cases rule: parseObject_cases)
  case (1 key s2 s3 x s4 n1)
  have "length s2 < length s" using parseString_shorter [OF 1(3)] skipWhitespace_length [of s] by linarith
  moreover have "length s3 < length s2" using 1(5) skipWhitespace_length [of s2] by simp
  moreover have "length s4 < length s3" using consumingD [OF assms(1) 1(6)] by simp
  moreover have "length r < length s4"
    using 1(7) skipWhitespace_length [of s4] consumingD [OF assms(1)] by fastforce
  ultimately show ?thesis by linarith
qed

lemma parseArray_consumes:
  assumes "consuming self" "parseArray self limits d xs s n = Some (Inr (v, r, n'))"
  shows "length r < length s"
  using assms(2)
proof (cases rule: parseArray_cases)
  case (1 x s1 n1)
  have "length s1 < length s" using consumingD [OF assms(1) 1(3)] by simp
  moreover have "length r < length s1"
    using 1(4) skipWhitespace_length [of s1] consumingD [OF assms(1)] by fastforce
  ultimately show ?thesis by linarith
qed

lemma run_parser_consuming: "consuming (run_parser fuel limits)"
proof (induction fuel)
  case (Suc fuel)
  show ?case
    unfolding consuming_def
  proof (intro allI impI)
    fix call v r n assume "run_parser (Suc fuel) limits call = Some (Inr (v, r, n))"
    with Suc show "length r < length (call_text call)"
      by (cases call)
        (auto simp: parse_step_def intro: parseValue_consumes parseObject_consumes parseArray_consumes)
  qed
qed (simp add: consuming_def)

section \<open>The fuel suffices\<close>

fun call_need :: "parse_call \<Rightarrow> nat" where
  "call_need (ParseValue d s n) = 2 * length s + 1"
| "call_need (ParseObject d m k s n) = 2 * length s + 2"
| "call_need (ParseArray d xs s n) = 2 * length s + 2"

lemma parseValue_defined:
  assumes "\<And>call. call_need call \<le> 2 * length s \<Longrightarrow> self call \<noteq> None"
  shows "parseValue self limits d s n \<noteq> None"
proof -
  define s1 where "s1 = skipWhitespace s"
  have "length (skipWhitespace (tl s1)) \<le> length (tl s1)" "length s1 \<le> length s"
    unfolding s1_def by (rule skipWhitespace_length)+
  then have "2 * length (skipWhitespace (tl s1)) + 2 \<le> 2 * length s" if "s1 \<noteq> []"
    using tl_length [OF that] by linarith
  then have "self (ParseObject d [] 0 (skipWhitespace (tl s1)) (n + 1)) \<noteq> None"
    "self (ParseArray d [] (skipWhitespace (tl s1)) (n + 1)) \<noteq> None" if "s1 \<noteq> []"
    using that assms by simp_all
  then show ?thesis
    unfolding parseValue_def Let_def s1_def [symmetric] by (auto split: option.splits)
qed

lemma parseObject_defined:
  assumes "\<And>call. call_need call \<le> 2 * length s + 1 \<Longrightarrow> self call \<noteq> None" "consuming self"
  shows "parseObject self limits d m k s n \<noteq> None"
proof
  assume none: "parseObject self limits d m k s n = None"
  then obtain key s2 s3 where s2: "parseString limits (skipWhitespace s) = Inr (key, s2)" "skipWhitespace s2 = CHR '':'' # s3"
    and b: "self (ParseValue (d + 1) s3 n) = None
      \<or> (\<exists>x s4 n1 s6. self (ParseValue (d + 1) s3 n) = Some (Inr (x, s4, n1)) \<and> skipWhitespace s4 = CHR '','' # s6
           \<and> self (ParseObject d (object_emplace key x m) (k + 1) s6 n1) = None)"
    unfolding parseObject_def Let_def
    by (auto simp: bindp_None consume_Some split: if_split_asm sum.split_asm prod.split_asm option.split_asm)
  have len: "length s3 + 2 < length s"
    using parseString_shorter [OF s2(1)] s2(2) skipWhitespace_length [of s] skipWhitespace_length [of s2] by simp
  then have "self (ParseValue (d + 1) s3 n) \<noteq> None" by (intro assms(1)) simp
  with b obtain x s4 n1 s6 where x: "self (ParseValue (d + 1) s3 n) = Some (Inr (x, s4, n1))"
      "skipWhitespace s4 = CHR '','' # s6" "self (ParseObject d (object_emplace key x m) (k + 1) s6 n1) = None" by blast
  have "length s6 < length s3"
    using consumingD [OF assms(2) x(1)] x(2) skipWhitespace_length [of s4] by simp
  with len have "self (ParseObject d (object_emplace key x m) (k + 1) s6 n1) \<noteq> None" by (intro assms(1)) simp
  with x(3) show False by blast
qed

lemma parseArray_defined:
  assumes "\<And>call. call_need call \<le> 2 * length s + 1 \<Longrightarrow> self call \<noteq> None" "consuming self"
  shows "parseArray self limits d xs s n \<noteq> None"
proof
  assume none: "parseArray self limits d xs s n = None"
  have "self (ParseValue (d + 1) s n) \<noteq> None" by (intro assms(1)) simp
  with none obtain x s1 n1 s3 where x: "self (ParseValue (d + 1) s n) = Some (Inr (x, s1, n1))"
      "skipWhitespace s1 = CHR '','' # s3" "self (ParseArray d (xs @ [x]) s3 n1) = None"
    unfolding parseArray_def Let_def
    by (auto simp: bindp_None consume_Some split: if_split_asm option.split_asm)
  have "length s3 < length s"
    using consumingD [OF assms(2) x(1)] x(2) skipWhitespace_length [of s1] by simp
  then have "self (ParseArray d (xs @ [x]) s3 n1) \<noteq> None" by (intro assms(1)) simp
  with x(3) show False by blast
qed

lemma run_parser_defined: "call_need call \<le> fuel \<Longrightarrow> run_parser fuel limits call \<noteq> None"
proof (induction fuel arbitrary: call)
  case 0
  then show ?case by (cases call) auto
next
  case (Suc fuel)
  note con = run_parser_consuming [of fuel limits]
  show ?case
  proof (cases call)
    case (ParseValue d s n)
    with Suc.prems have "2 * length s \<le> fuel" by simp
    then have "run_parser fuel limits call \<noteq> None" if "call_need call \<le> 2 * length s" for call
      using that by (intro Suc.IH) linarith
    then show ?thesis using parseValue_defined by (simp add: ParseValue parse_step_def del: not_None_eq)
  next
    case (ParseObject d m k s n)
    with Suc.prems have "2 * length s + 1 \<le> fuel" by simp
    then have "run_parser fuel limits call \<noteq> None" if "call_need call \<le> 2 * length s + 1" for call
      using that by (intro Suc.IH) linarith
    then show ?thesis using parseObject_defined con by (simp add: ParseObject parse_step_def del: not_None_eq)
  next
    case (ParseArray d xs s n)
    with Suc.prems have "2 * length s + 1 \<le> fuel" by simp
    then have "run_parser fuel limits call \<noteq> None" if "call_need call \<le> 2 * length s + 1" for call
      using that by (intro Suc.IH) linarith
    then show ?thesis using parseArray_defined con by (simp add: ParseArray parse_step_def del: not_None_eq)
  qed
qed

lemma json_parse_defined: "\<exists>r. json_parse t limits = Some r"
proof -
  have "call_need (ParseValue 1 (skipWhitespace t) 0) \<le> json_fuel t"
    using skipWhitespace_length [of t] by (simp add: json_fuel_def)
  then have "run_parser (json_fuel t) limits (ParseValue 1 (skipWhitespace t) 0) \<noteq> None" by (rule run_parser_defined)
  then have "parser_parse (json_fuel t) limits t \<noteq> None"
    by (auto simp: parser_parse_def bindp_None split: if_splits)
  then show ?thesis by (auto simp: json_parse_def)
qed

text \<open>The result of \<open>Json::parse\<close>: by the lemma above the branch without fuel does not occur.\<close>

definition json_result :: "string \<Rightarrow> JsonResourceLimits \<Rightarrow> Json result" where
  "json_result t limits = (case json_parse t limits of Some r \<Rightarrow> r | None \<Rightarrow> jfail [])"

lemma json_result: "json_parse t limits = Some (json_result t limits)"
  using json_parse_defined [of t limits] by (auto simp: json_result_def)

text \<open>
  C30: the parser is total: on every text and under every limits it returns a value or an error,
  that is, the fuel of twice the text's length is never used up.
\<close>

theorem json_parse_total: "\<exists>r. json_parse t limits = Some r"
  by (rule json_parse_defined)

end
