(* ===== verification/Json_Roundtrip.thy ===== *)
theory Json_Roundtrip
  imports Json_Facts
begin

text \<open>
  The parser of \<open>src/util/Json.cpp\<close> reads back what the writer prints. The values the sources write
  hold no floating-point numbers, no negative number out of range and no duplicate or unsorted key
  (an object is a \<open>std::map\<close>): these are the \<open>canonical\<close> values.
\<close>

section \<open>Strings\<close>

lemma hexDigit_lowerHexDigit: "d < 16 \<Longrightarrow> hexDigit (lowerHexDigit d) = Some d"
proof -
  assume "d < 16"
  then have "d \<in> set [0..<16]" by simp
  moreover have "\<forall>d \<in> set [0..<16]. hexDigit (lowerHexDigit d) = Some d"
    by (simp add: upt_rec hexDigit_def lowerHexDigit_def less_eq_char_def)
  ultimately show ?thesis by blast
qed

lemma unicodeEscape_control:
  assumes "byte_of c < 0x20"
  shows "unicodeEscape (CHR ''0'' # CHR ''0'' # lowerHexDigit (byte_of c div 16) # lowerHexDigit (byte_of c) # s)
    = Inr (byte_of c, s)"
proof -
  have z: "hexDigit (CHR ''0'') = Some 0" by (simp add: hexDigit_def less_eq_char_def)
  have "hexDigit (lowerHexDigit (byte_of c)) = hexDigit (lowerHexDigit (byte_of c mod 16))"
    by (simp add: lowerHexDigit_def)
  also have "\<dots> = Some (byte_of c mod 16)" by (rule hexDigit_lowerHexDigit) simp
  finally have l: "hexDigit (lowerHexDigit (byte_of c)) = Some (byte_of c mod 16)" .
  have h: "hexDigit (lowerHexDigit (byte_of c div 16)) = Some (byte_of c div 16)"
    using assms by (intro hexDigit_lowerHexDigit) simp
  have "byte_of c div 16 * 16 + byte_of c mod 16 = (byte_of c :: nat)" by simp
  then show ?thesis using assms by (simp add: unicodeEscape_def parseHexCodeUnit_def z l h)
qed

lemma parse_escaped_byte:
  assumes "length out < maxStringBytes limits"
  shows "parseStringBody limits (escapeByte c @ s) out = parseStringBody limits s (out @ [c])"
proof -
  consider "c \<in> {quote, CHR 0x5C, CHR 0x08, CHR 0x0C, CHR 0x0A, CHR 0x0D, CHR 0x09}"
    | "c \<notin> {quote, CHR 0x5C, CHR 0x08, CHR 0x0C, CHR 0x0A, CHR 0x0D, CHR 0x09}" "byte_of c < 0x20"
    | "c \<notin> {quote, CHR 0x5C, CHR 0x08, CHR 0x0C, CHR 0x0A, CHR 0x0D, CHR 0x09}" "\<not> byte_of c < 0x20" by blast
  then show ?thesis
  proof cases
    case 1
    then show ?thesis using assms by (auto simp: escapeByte_def simpleEscape_def appendByte_def)
  next
    case 2
    then have e: "escapeByte c = [CHR 0x5C, CHR ''u'', CHR ''0'', CHR ''0'', lowerHexDigit (byte_of c div 16),
        lowerHexDigit (byte_of c)]" by (simp add: escapeByte_def)
    have "appendCodePoint limits out (byte_of c) = Some (out @ [c])"
      using assms 2(2) by (simp add: appendCodePoint_def encodeCodePoint_def Let_def)
    with 2(2) show ?thesis by (simp add: e unicodeEscape_control)
  next
    case 3
    then show ?thesis using assms by (simp add: escapeByte_def appendByte_def)
  qed
qed

lemma parse_escaped_text:
  "length out + length t \<le> maxStringBytes limits \<Longrightarrow>
   parseStringBody limits (concat (map escapeByte t) @ quote # s) out = Inr (out @ t, s)"
  by (induction t arbitrary: out) (simp_all add: parse_escaped_byte)

lemma parseString_escaped:
  assumes "jsonEscape t = Some e" "length t \<le> maxStringBytes limits"
  shows "parseString limits (quote # e @ quote # s) = Inr (t, s)"
  using assms parse_escaped_text [of "[]" t limits s]
  by (auto simp: jsonEscape_def parseString_def consume_def split: if_splits)

section \<open>Numbers\<close>

text \<open>The text after a number does not continue it.\<close>

definition ends_number :: "string \<Rightarrow> bool" where
  "ends_number s \<longleftrightarrow> s = [] \<or> \<not> (isAsciiDigit (hd s) \<or> hd s \<in> {CHR ''.'', CHR ''e'', CHR ''E''})"

lemma ends_number_simps [simp]:
  "ends_number []" "ends_number (CHR '','' # s)" "ends_number (CHR '']'' # s)" "ends_number (CHR ''}'' # s)"
  "ends_number (CHR 0x0A # s)"
  by (simp_all add: ends_number_def isAsciiDigit_def less_eq_char_def)

lemma digitRun_digits:
  assumes "list_all isAsciiDigit t" "n + length t \<le> maxNumberBytes limits" "ends_number s"
  shows "digitRun limits n (t @ s) = Inr (n + length t, s)"
  using assms
proof (induction t arbitrary: n)
  case Nil
  then show ?case by (cases s) (auto simp: ends_number_def)
qed (simp add: consumeNumberByte_def)

lemma numberInteger_canonical:
  assumes "canonical_decimal t" "n + length t \<le> maxNumberBytes limits" "ends_number s"
  shows "numberInteger limits n (t @ s) = Inr (n + length t, s)"
proof (cases "hd t = CHR ''0''")
  case True
  with assms(1) have t: "t = ''0''" by (cases t) (auto simp: canonical_decimal_def)
  from assms(3) have "\<not> startsWithDigit s" by (auto simp: ends_number_def startsWithDigit_def)
  with assms(2) show ?thesis by (simp add: t numberInteger_def consumeNumberByte_def)
next
  case False
  obtain c t' where t: "t = c # t'" and d: "isAsciiDigit c" "c \<noteq> CHR ''0''"
    using assms(1) False by (cases t) (auto simp: canonical_decimal_def)
  then have "CHR ''1'' \<le> c \<and> c \<le> CHR ''9''"
    by (auto simp: isAsciiDigit_def less_eq_char_def char_eq_byte)
  with d show ?thesis
    using digitRun_digits [of t n limits s] assms by (simp add: t numberInteger_def canonical_decimal_def)
qed

lemma digit_not_minus: "isAsciiDigit c \<Longrightarrow> c \<noteq> CHR ''-''"
  by (auto simp: isAsciiDigit_def less_eq_char_def)

lemma number_tail:
  assumes "ends_number s"
  shows "numberFraction limits n s = Inr (n, s, False)" "numberExponent limits n s fp = Inr (n, s, fp)"
  using assms by (auto simp: numberFraction_def numberExponent_def ends_number_def)

lemma parse_unsigned:
  assumes "length (decimal_text n) \<le> maxNumberBytes limits" "n < 2 ^ 64" "ends_number s"
  shows "json_parseNumber limits (decimal_text n @ s) = Inr (JUInt (of_nat n), s)"
proof -
  have can: "canonical_decimal (decimal_text n)" by (rule canonical_decimal_text)
  obtain c t' where t: "decimal_text n = c # t'" and d: "isAsciiDigit c"
    using can by (cases "decimal_text n") (auto simp: canonical_decimal_def)
  have i: "numberInteger limits 0 (decimal_text n @ s) = Inr (length (decimal_text n), s)"
    using numberInteger_canonical [OF can, of 0] assms by simp
  have "parseInteger (decimal_text n) = Inr (JUInt (of_nat n))"
    using can digit_not_minus [OF d] assms(2)
    by (simp add: parseInteger_def t [symmetric] from_chars_dec_def canonical_decimal_def) (simp add: t)
  moreover have "hd (decimal_text n @ s) \<noteq> CHR ''-''" using digit_not_minus [OF d] by (simp add: t)
  ultimately show ?thesis
    using i number_tail [OF assms(3)] by (simp add: json_parseNumber_def Let_def)
qed

lemma parse_negative:
  assumes "Suc (length (decimal_text n)) \<le> maxNumberBytes limits" "n \<le> 2 ^ 63" "ends_number s"
  shows "json_parseNumber limits (CHR ''-'' # decimal_text n @ s) = Inr (JInt (- int n), s)"
proof -
  have can: "canonical_decimal (decimal_text n)" by (rule canonical_decimal_text)
  have i: "numberInteger limits 1 (decimal_text n @ s) = Inr (Suc (length (decimal_text n)), s)"
    using numberInteger_canonical [OF can, of 1] assms by simp
  have "parseInteger (CHR ''-'' # decimal_text n) = Inr (JInt (- int n))"
    using can assms(2) by (simp add: parseInteger_def from_chars_dec_def canonical_decimal_def)
  with i show ?thesis
    using number_tail [OF assms(3)] assms(1) by (simp add: json_parseNumber_def Let_def consumeNumberByte_def)
qed

section \<open>More fuel gives the same result\<close>

definition extends_parser :: "(parse_call \<Rightarrow> parse_outcome) \<Rightarrow> (parse_call \<Rightarrow> parse_outcome) \<Rightarrow> bool" where
  "extends_parser self self' \<longleftrightarrow> (\<forall>call r. self call = Some r \<longrightarrow> self' call = Some r)"

lemma extendsD: "extends_parser self self' \<Longrightarrow> self call = Some r \<Longrightarrow> self' call = Some r"
  by (simp add: extends_parser_def)

lemma bindp_mono:
  assumes "bindp x f = Some r" "\<And>y. x = Some y \<Longrightarrow> x' = Some y" "\<And>y z. f y = Some z \<Longrightarrow> f' y = Some z"
  shows "bindp x' f' = Some r"
  using assms by (cases x) (auto simp: bindp_def split: sum.splits)

lemma parse_step_mono:
  assumes "extends_parser self self'" "parse_step limits self call = Some r"
  shows "parse_step limits self' call = Some r"
proof (cases call)
  case (ParseValue d s n)
  then show ?thesis
    using assms(2) unfolding parse_step_def parseValue_def Let_def
    by (auto split: if_splits option.splits intro: extendsD [OF assms(1)])
next
  case (ParseObject d m k s n)
  show ?thesis
    using assms(2) unfolding ParseObject parse_step_def parseObject_def Let_def
    by (auto split: if_splits option.splits sum.splits prod.splits intro: extendsD [OF assms(1)] elim!: bindp_mono)
next
  case (ParseArray d xs s n)
  show ?thesis
    using assms(2) unfolding ParseArray parse_step_def parseArray_def Let_def
    by (auto split: if_splits option.splits prod.splits intro: extendsD [OF assms(1)] elim!: bindp_mono)
qed

lemma run_parser_Suc: "extends_parser (run_parser fuel limits) (run_parser (Suc fuel) limits)"
proof (induction fuel)
  case (Suc fuel)
  have "parse_step limits (run_parser (Suc fuel) limits) call = Some r"
    if "parse_step limits (run_parser fuel limits) call = Some r" for call r
    using parse_step_mono [OF Suc that] .
  then show ?case by (simp add: extends_parser_def)
qed (simp add: extends_parser_def)

lemma run_parser_mono: "fuel \<le> fuel' \<Longrightarrow> run_parser fuel limits call = Some r \<Longrightarrow> run_parser fuel' limits call = Some r"
proof (induction rule: dec_induct)
  case (step k)
  then show ?case using extendsD [OF run_parser_Suc [of k limits]] by blast
qed

text \<open>The result of a call, for some amount of fuel.\<close>

definition yields :: "JsonResourceLimits \<Rightarrow> parse_call \<Rightarrow> Json \<times> string \<times> nat \<Rightarrow> bool" where
  "yields limits call y \<longleftrightarrow> (\<exists>fuel. run_parser fuel limits call = Some (Inr y))"

lemma yields_step: "run_parser (Suc fuel) limits call = Some (Inr y) \<Longrightarrow> yields limits call y"
  unfolding yields_def by blast

lemma yields_Suc:
  assumes "yields limits call y"
  obtains fuel where "run_parser (Suc fuel) limits call = Some (Inr y)"
proof -
  obtain fuel where "run_parser fuel limits call = Some (Inr y)" using assms by (auto simp: yields_def)
  then show ?thesis by (cases fuel) (auto intro: that)
qed

lemma yields_needed:
  assumes "yields limits call y" "call_need call \<le> fuel"
  shows "run_parser fuel limits call = Some (Inr y)"
proof -
  obtain f where f: "run_parser f limits call = Some (Inr y)" using assms(1) by (auto simp: yields_def)
  obtain r where r: "run_parser fuel limits call = Some r" using run_parser_defined [OF assms(2)] by auto
  have "run_parser (max f fuel) limits call = Some (Inr y)" "run_parser (max f fuel) limits call = Some r"
    using run_parser_mono [OF max.cobounded1 f] run_parser_mono [OF max.cobounded2 r] by blast+
  with r show ?thesis by simp
qed

lemma yields_both:
  assumes "yields limits c1 y1" "yields limits c2 y2"
  obtains fuel where "run_parser fuel limits c1 = Some (Inr y1)" "run_parser fuel limits c2 = Some (Inr y2)"
proof -
  obtain f g where "run_parser f limits c1 = Some (Inr y1)" "run_parser g limits c2 = Some (Inr y2)"
    using assms by (auto simp: yields_def)
  then show ?thesis
    using that [of "max f g"] run_parser_mono [OF max.cobounded1] run_parser_mono [OF max.cobounded2] by metis
qed

section \<open>Steps of the parser on printed text\<close>

lemma skip_idem [simp]: "skipWhitespace (skipWhitespace s) = skipWhitespace s"
  by (simp add: skipWhitespace_def)

lemma skip_blank [simp]: "list_all isJsonWhitespace w \<Longrightarrow> skipWhitespace (w @ s) = skipWhitespace s"
  by (induction w) (simp_all add: skipWhitespace_def)

lemma blank_simps [simp]: "list_all isJsonWhitespace (lineBreak indent depth)" "list_all isJsonWhitespace '' ''"
  by (auto simp: lineBreak_def isJsonWhitespace_def list_all_iff)

lemma skip_token: "\<not> isJsonWhitespace c \<Longrightarrow> skipWhitespace (c # s) = c # s"
  by (simp add: skipWhitespace_def)

lemma skip_punctuation [simp]:
  "skipWhitespace (CHR '']'' # s) = CHR '']'' # s" "skipWhitespace (CHR ''}'' # s) = CHR ''}'' # s"
  "skipWhitespace (CHR '','' # s) = CHR '','' # s" "skipWhitespace (CHR '':'' # s) = CHR '':'' # s"
  "skipWhitespace (CHR ''['' # s) = CHR ''['' # s" "skipWhitespace (CHR ''{'' # s) = CHR ''{'' # s"
  "skipWhitespace (quote # s) = quote # s"
  by (simp_all add: skip_token isJsonWhitespace_def)

lemma yields_skip_value: "yields limits (ParseValue d (skipWhitespace s) n) y \<longleftrightarrow> yields limits (ParseValue d s n) y"
proof -
  have "run_parser fuel limits (ParseValue d (skipWhitespace s) n) = run_parser fuel limits (ParseValue d s n)" for fuel
    by (cases fuel) (simp_all add: parse_step_def parseValue_def)
  then show ?thesis by (simp add: yields_def)
qed

lemma yields_blank_value:
  assumes "list_all isJsonWhitespace w"
  shows "yields limits (ParseValue d (w @ s) n) y \<longleftrightarrow> yields limits (ParseValue d s n) y"
  using yields_skip_value [of limits d "w @ s"] yields_skip_value [of limits d s] skip_blank [OF assms] by simp

lemma yields_skip_array:
  assumes "yields limits (ParseArray d xs s n) y"
  shows "yields limits (ParseArray d xs (skipWhitespace s) n) y"
proof -
  obtain fuel where f: "run_parser (Suc fuel) limits (ParseArray d xs s n) = Some (Inr y)"
    using assms by (rule yields_Suc)
  have "run_parser fuel limits (ParseValue (Suc d) (skipWhitespace s) n) = run_parser fuel limits (ParseValue (Suc d) s n)"
    by (cases fuel) (simp_all add: parse_step_def parseValue_def)
  then have "run_parser (Suc fuel) limits (ParseArray d xs (skipWhitespace s) n) = run_parser (Suc fuel) limits (ParseArray d xs s n)"
    by (simp add: parse_step_def parseArray_def)
  with f show ?thesis by (simp only: yields_step)
qed

lemma yields_skip_object:
  assumes "yields limits (ParseObject d m k s n) y"
  shows "yields limits (ParseObject d m k (skipWhitespace s) n) y"
proof -
  have "run_parser fuel limits (ParseObject d m k (skipWhitespace s) n) = run_parser fuel limits (ParseObject d m k s n)" for fuel
    by (cases fuel) (simp_all add: parse_step_def parseObject_def)
  with assms show ?thesis by (simp add: yields_def)
qed

text \<open>What printed text starts with.\<close>

definition value_start :: "char \<Rightarrow> bool" where
  "value_start c \<longleftrightarrow> isAsciiDigit c \<or> c \<in> set ''ntf-[{'' \<or> c = quote"

lemma value_start_token: "value_start c \<Longrightarrow> \<not> isJsonWhitespace c \<and> c \<noteq> CHR '']'' \<and> c \<noteq> CHR ''}''"
  by (auto simp: value_start_def isJsonWhitespace_def isAsciiDigit_def less_eq_char_def)

lemma yields_array:
  assumes v: "yields limits (ParseValue (Suc d) s n) (x, s1, n1)"
    and lim: "length xs < maxContainerEntries limits" "d < maxDepth limits"
    and rest: "(skipWhitespace s1 = CHR '']'' # r \<and> v = JArray (xs @ [x]) \<and> n' = n1)
      \<or> (\<exists>s3. skipWhitespace s1 = CHR '','' # s3 \<and> yields limits (ParseArray d (xs @ [x]) s3 n1) (v, r, n'))"
  shows "yields limits (ParseArray d xs s n) (v, r, n')"
  using rest
proof (elim disjE exE conjE)
  assume e: "skipWhitespace s1 = CHR '']'' # r" "v = JArray (xs @ [x])" "n' = n1"
  obtain fuel where "run_parser fuel limits (ParseValue (Suc d) s n) = Some (Inr (x, s1, n1))"
    using v by (auto simp: yields_def)
  with e lim have "run_parser (Suc fuel) limits (ParseArray d xs s n) = Some (Inr (v, r, n'))"
    by (simp add: parse_step_def parseArray_def bindp_def consume_def)
  then show ?thesis by (rule yields_step)
next
  fix s3 assume e: "skipWhitespace s1 = CHR '','' # s3"
    and y: "yields limits (ParseArray d (xs @ [x]) s3 n1) (v, r, n')"
  obtain fuel where "run_parser fuel limits (ParseValue (Suc d) s n) = Some (Inr (x, s1, n1))"
    "run_parser fuel limits (ParseArray d (xs @ [x]) s3 n1) = Some (Inr (v, r, n'))" by (rule yields_both [OF v y])
  with e lim have "run_parser (Suc fuel) limits (ParseArray d xs s n) = Some (Inr (v, r, n'))"
    by (simp add: parse_step_def parseArray_def bindp_def consume_def)
  then show ?thesis by (rule yields_step)
qed

lemma yields_object:
  assumes key: "parseString limits (skipWhitespace s) = Inr (k, s2)" "skipWhitespace s2 = CHR '':'' # s3" "map_of m k = None"
    and v: "yields limits (ParseValue (Suc d) s3 n) (x, s4, n1)"
    and lim: "c < maxContainerEntries limits" "d < maxDepth limits"
    and rest: "(skipWhitespace s4 = CHR ''}'' # r \<and> v = JObject (object_emplace k x m) \<and> n' = n1)
      \<or> (\<exists>s6. skipWhitespace s4 = CHR '','' # s6
            \<and> yields limits (ParseObject d (object_emplace k x m) (Suc c) s6 n1) (v, r, n'))"
  shows "yields limits (ParseObject d m c s n) (v, r, n')"
proof -
  have q: "skipWhitespace s \<noteq> []" "hd (skipWhitespace s) = quote"
    using key(1) by (auto simp: parseString_def consume_def jfail_def split: list.splits if_splits option.splits)
  show ?thesis
    using rest
  proof (elim disjE exE conjE)
    assume e: "skipWhitespace s4 = CHR ''}'' # r" "v = JObject (object_emplace k x m)" "n' = n1"
    obtain fuel where "run_parser fuel limits (ParseValue (Suc d) s3 n) = Some (Inr (x, s4, n1))"
      using v by (auto simp: yields_def)
    with e lim key q have "run_parser (Suc fuel) limits (ParseObject d m c s n) = Some (Inr (v, r, n'))"
      by (simp add: parse_step_def parseObject_def bindp_def consume_def)
    then show ?thesis by (rule yields_step)
  next
    fix s6 assume e: "skipWhitespace s4 = CHR '','' # s6"
      and y: "yields limits (ParseObject d (object_emplace k x m) (Suc c) s6 n1) (v, r, n')"
    obtain fuel where "run_parser fuel limits (ParseValue (Suc d) s3 n) = Some (Inr (x, s4, n1))"
      "run_parser fuel limits (ParseObject d (object_emplace k x m) (Suc c) s6 n1) = Some (Inr (v, r, n'))"
      by (rule yields_both [OF v y])
    with e lim key q have "run_parser (Suc fuel) limits (ParseObject d m c s n) = Some (Inr (v, r, n'))"
      by (simp add: parse_step_def parseObject_def bindp_def consume_def)
    then show ?thesis by (rule yields_step)
  qed
qed

section \<open>The round trip\<close>

fun canonical :: "Json \<Rightarrow> bool" where
  "canonical (JInt i) = (- (2 ^ 63) \<le> i \<and> i < 0)"
| "canonical (JDouble t) = False"
| "canonical (JObject m) = (sorted (map fst m) \<and> distinct (map fst m) \<and> list_all (\<lambda>kv. canonical (snd kv)) m)"
| "canonical (JArray xs) = list_all canonical xs"
| "canonical _ = True"

lemma emplace_last:
  "\<forall>k' \<in> set (map fst m). k' < k \<Longrightarrow> object_emplace k x m = m @ [(k, x)]"
  by (induction k x m rule: object_emplace.induct) (auto simp: not_less_iff_gr_or_eq)

lemma ends_number_blank:
  assumes "list_all isJsonWhitespace w" "ends_number s"
  shows "ends_number (w @ s)"
  using assms by (cases w) (auto simp: ends_number_def isJsonWhitespace_def isAsciiDigit_def less_eq_char_def)

lemma printed_number:
  assumes "canonical v" "isNumber v" "length (numberText fp v) \<le> maxNumberBytes limits" "ends_number rest"
  shows "json_parseNumber limits (numberText fp v @ rest) = Inr (v, rest)"
proof (cases v)
  case (JInt i)
  then have i: "- (2 ^ 63) \<le> i" "i < 0" using assms(1) by auto
  then have "nat (- i) \<le> 2 ^ 63" "- int (nat (- i)) = i" by auto
  with parse_negative [of "nat (- i)" limits rest] JInt i assms(3, 4) show ?thesis
    by (simp add: numberText_def integerText_def decimalText_def)
next
  case (JUInt u)
  have "unat u < 2 ^ 64" using unsigned_less [of u, where ?'a = nat] by simp
  then show ?thesis
    using parse_unsigned [of "unat u" limits rest] JUInt assms(3, 4)
    by (simp add: numberText_def integerText_def decimalText_def)
qed (use assms in \<open>auto simp: isNumber_def\<close>)

lemma numberText_start:
  assumes "canonical v" "isNumber v"
  shows "numberText fp v \<noteq> [] \<and> (isAsciiDigit (hd (numberText fp v)) \<or> hd (numberText fp v) = CHR ''-'')"
proof -
  have "decimal_text n \<noteq> [] \<and> isAsciiDigit (hd (decimal_text n))" for n
    using canonical_decimal_text [of n] by (cases "decimal_text n") (auto simp: canonical_decimal_def)
  then show ?thesis
    using assms by (cases v) (auto simp: isNumber_def numberText_def integerText_def decimalText_def)
qed

lemma stringify_start:
  assumes "canonical v" "stringifyInto fp indent depth v = Some e"
  shows "e \<noteq> [] \<and> value_start (hd e)"
proof (cases "isNumber v")
  case True
  then have "stringifyInto fp indent depth v = Some (numberText fp v)" by (cases v) (auto simp: isNumber_def)
  with numberText_start [OF assms(1) True, of fp] assms(2) show ?thesis by (auto simp: value_start_def)
next
  case False
  with assms show ?thesis by (cases v) (auto simp: isNumber_def value_start_def split: if_splits)
qed

lemma keyword_parse:
  "parseKeyword (''null'' @ rest) n = Inr (JNull, rest, n)" "parseKeyword (''true'' @ rest) n = Inr (JBool True, rest, n)"
  "parseKeyword (''false'' @ rest) n = Inr (JBool False, rest, n)"
  by (simp_all add: parseKeyword_def match_keyword_def)

text \<open>A value that is not a container needs no recursive call.\<close>

lemma yields_scalar:
  assumes "canonical v" "validateValueResources fp limits d v n = Inr n'" "stringifyInto fp indent depth v = Some e"
    "ends_number rest" "\<not> isObject v" "\<not> isArray v"
  shows "yields limits (ParseValue d (e @ rest) n) (v, rest, n')"
proof -
  have lim: "d \<le> maxDepth limits" "n < maxNodes limits"
    using assms(2) by (auto simp: jlimit_def not_less not_le split: if_splits)
  have start: "e \<noteq> []" "value_start (hd e)" using stringify_start [OF assms(1, 3)] by auto
  have skip: "skipWhitespace (e @ rest) = e @ rest"
    using start value_start_token by (cases e) (auto simp: skip_token)
  have "parseValue self limits d (e @ rest) n = Some (Inr (v, rest, n'))" for self
  proof (cases "isNumber v")
    case True
    then have e: "e = numberText fp v" and n': "n' = Suc n" and len: "length (numberText fp v) \<le> maxNumberBytes limits"
      using assms(2, 3) lim by (cases v; auto simp: isNumber_def jlimit_def not_less split: if_splits)+
    have hd: "isAsciiDigit (hd e) \<or> hd e = CHR ''-''" using numberText_start [OF assms(1) True] e by blast
    then have "hd e \<noteq> quote \<and> hd e \<noteq> CHR ''{'' \<and> hd e \<noteq> CHR ''[''"
      by (auto simp: isAsciiDigit_def less_eq_char_def)
    with hd printed_number [OF assms(1) True len assms(4)] lim start show ?thesis
      unfolding parseValue_def Let_def skip by (auto simp: e [symmetric] n')
  next
    case False
    with assms(1, 2, 3, 5, 6) lim show ?thesis
    proof (cases v)
      case (JString t)
      then obtain b where b: "jsonEscape t = Some b" "e = quote # b @ [quote]" using assms(3) by auto
      have "parseString limits (e @ rest) = Inr (t, rest)"
        using parseString_escaped [OF b(1), of limits rest] assms(2) lim JString b(2)
        by (auto simp: jlimit_def jfail_def split: if_splits)
      with b(2) lim assms(2) JString show ?thesis
        unfolding parseValue_def Let_def skip by (auto simp: jlimit_def jfail_def split: if_splits)
    next
      case (JBool b)
      with assms(2, 3) lim show ?thesis
        unfolding parseValue_def Let_def skip
        by (cases b) (auto simp: isAsciiDigit_def less_eq_char_def keyword_parse [simplified] split: if_splits)
    qed (auto simp: parseValue_def Let_def skip isNumber_def isObject_def isArray_def isAsciiDigit_def less_eq_char_def
        keyword_parse [simplified])
  qed
  then have "run_parser (Suc 0) limits (ParseValue d (e @ rest) n) = Some (Inr (v, rest, n'))" by (simp add: parse_step_def)
  then show ?thesis by (rule yields_step)
qed

text \<open>Entering a container that is not empty.\<close>

lemma yields_enter_array:
  assumes "yields limits (ParseArray d [] s (Suc n)) y" "d \<le> maxDepth limits" "n < maxNodes limits"
    "skipWhitespace s = c # s'" "c \<noteq> CHR '']''"
  shows "yields limits (ParseValue d (CHR ''['' # s) n) y"
proof -
  obtain fuel where "run_parser fuel limits (ParseArray d [] (skipWhitespace s) (Suc n)) = Some (Inr y)"
    using yields_skip_array [OF assms(1)] by (auto simp: yields_def)
  with assms have "run_parser (Suc fuel) limits (ParseValue d (CHR ''['' # s) n) = Some (Inr y)"
    by (simp add: parse_step_def parseValue_def consume_def)
  then show ?thesis by (rule yields_step)
qed

lemma yields_enter_object:
  assumes "yields limits (ParseObject d [] 0 s (Suc n)) y" "d \<le> maxDepth limits" "n < maxNodes limits"
    "skipWhitespace s = c # s'" "c \<noteq> CHR ''}''"
  shows "yields limits (ParseValue d (CHR ''{'' # s) n) y"
proof -
  obtain fuel where "run_parser fuel limits (ParseObject d [] 0 (skipWhitespace s) (Suc n)) = Some (Inr y)"
    using yields_skip_object [OF assms(1)] by (auto simp: yields_def)
  with assms have "run_parser (Suc fuel) limits (ParseValue d (CHR ''{'' # s) n) = Some (Inr y)"
    by (simp add: parse_step_def parseValue_def consume_def)
  then show ?thesis by (rule yields_step)
qed

lemma yields_empty:
  assumes "d \<le> maxDepth limits" "n < maxNodes limits"
  shows "yields limits (ParseValue d (CHR ''['' # CHR '']'' # s) n) (JArray [], s, Suc n)"
    "yields limits (ParseValue d (CHR ''{'' # CHR ''}'' # s) n) (JObject [], s, Suc n)"
  using assms
  by (auto intro!: yields_step [of 0] simp: parse_step_def parseValue_def consume_def)

text \<open>The first entry of a printed container follows optional white space.\<close>

lemma printed_items_start:
  assumes "stringifyItems fp indent cd (x # xs) = Some es" "canonical x"
  obtains c s' where "skipWhitespace (es @ s) = c # s'" "value_start c"
proof -
  obtain e es' where e: "stringifyInto fp indent cd x = Some e"
    and es: "es = lineBreak indent cd @ e @ es'"
    using assms(1) by (auto simp: bind_eq_Some_conv simp del: stringifyInto.simps)
  obtain c s' where c: "e = c # s'" "value_start c" using stringify_start [OF assms(2) e] by (cases e) auto
  then show ?thesis using that value_start_token [OF c(2)] by (simp add: es skip_token)
qed

lemma printed_members_start:
  assumes "stringifyMembers fp indent cd (kv # m) = Some es"
  obtains s' where "skipWhitespace (es @ s) = quote # s'"
proof -
  obtain es' where "es = lineBreak indent cd @ quote # es'"
    using assms by (cases kv) (auto simp: bind_eq_Some_conv simp del: stringifyInto.simps)
  then show ?thesis using that by simp
qed

lemma print_parse:
  "canonical v \<Longrightarrow> validateValueResources fp limits d v n = Inr n' \<Longrightarrow> stringifyInto fp indent depth v = Some e \<Longrightarrow>
   ends_number rest \<Longrightarrow> yields limits (ParseValue d (e @ rest) n) (v, rest, n')"
  "xs \<noteq> [] \<Longrightarrow> list_all canonical xs \<Longrightarrow> validateItems fp limits d xs n = Inr n' \<Longrightarrow>
   length acc + length xs \<le> maxContainerEntries limits \<Longrightarrow> stringifyItems fp indent depth xs = Some es \<Longrightarrow>
   list_all isJsonWhitespace w \<Longrightarrow>
   yields limits (ParseArray d acc (es @ w @ CHR '']'' # rest) n) (JArray (acc @ xs), rest, n')"
  "m \<noteq> [] \<Longrightarrow> list_all (\<lambda>kv. canonical (snd kv)) m \<Longrightarrow> validateMembers fp limits d m n = Inr n' \<Longrightarrow>
   sorted (map fst (macc @ m)) \<Longrightarrow> distinct (map fst (macc @ m)) \<Longrightarrow>
   length macc + length m \<le> maxContainerEntries limits \<Longrightarrow> stringifyMembers fp indent depth m = Some es \<Longrightarrow>
   list_all isJsonWhitespace w \<Longrightarrow>
   yields limits (ParseObject d macc (length macc) (es @ w @ CHR ''}'' # rest) n) (JObject (macc @ m), rest, n')"
proof (induction fp indent depth v and fp indent depth xs and fp indent depth m
    arbitrary: d n n' e rest and d n n' acc es w rest and d n n' macc es w rest
    rule: stringifyInto_stringifyItems_stringifyMembers.induct)
  case (1 fp indent depth v)
  have lim: "d \<le> maxDepth limits" "n < maxNodes limits"
    using 1(4) by (auto simp: jlimit_def not_less not_le split: if_splits)
  show ?case
  proof (cases "isObject v \<or> isArray v")
    case False
    then show ?thesis using yields_scalar [OF 1(3-6)] by blast
  next
    case True
    then obtain xs m where "v = JArray xs \<or> v = JObject m" by (cases v) (auto simp: isObject_def isArray_def)
    then consider "v = JArray []" | "v = JObject []" | x xs where "v = JArray (x # xs)" | kv m where "v = JObject (kv # m)"
      by (cases xs; cases m) blast+
    then show ?thesis
    proof cases
      case 1
      then show ?thesis using yields_empty(1) [OF lim, of rest] "1.prems"(2, 3) lim by auto
    next
      case 2
      then show ?thesis using yields_empty(2) [OF lim, of rest] "1.prems"(2, 3) lim by auto
    next
      case (3 x xs)
      let ?cd = "if indent > 0 then depth + indent else depth"
      have c: "list_all canonical (x # xs)" using "1.prems"(1) 3 by simp
      have l: "length (x # xs) \<le> maxContainerEntries limits" and
        it: "validateItems fp limits d (x # xs) (Suc n) = Inr n'"
        using "1.prems"(2) lim 3 by (auto simp: jlimit_def not_less simp del: validateItems.simps split: if_splits)
      obtain es where es: "stringifyItems fp indent ?cd (x # xs) = Some es"
        and e: "e = CHR ''['' # es @ lineBreak indent depth @ [CHR '']'']"
        using "1.prems"(3) 3 by (auto simp del: stringifyItems.simps)
      have "yields limits (ParseArray d [] (es @ lineBreak indent depth @ CHR '']'' # rest) (Suc n)) (v, rest, n')"
        using "1.IH"(2) [OF 3 _ c it _ es, of "[]"] l 3 by simp
      moreover obtain c s' where "skipWhitespace (es @ lineBreak indent depth @ CHR '']'' # rest) = c # s'" "value_start c"
        by (rule printed_items_start [OF es]) (use c in auto)
      ultimately show ?thesis
        using yields_enter_array [OF _ lim] value_start_token by (simp add: e)
    next
      case (4 kv m)
      let ?cd = "if indent > 0 then depth + indent else depth"
      have c: "list_all (\<lambda>kv. canonical (snd kv)) (kv # m)" "sorted (map fst (kv # m))" "distinct (map fst (kv # m))"
        using "1.prems"(1) 4 by simp_all
      have l: "length (kv # m) \<le> maxContainerEntries limits" and
        it: "validateMembers fp limits d (kv # m) (Suc n) = Inr n'"
        using "1.prems"(2) lim 4 by (auto simp: jlimit_def not_less simp del: validateMembers.simps split: if_splits)
      obtain es where es: "stringifyMembers fp indent ?cd (kv # m) = Some es"
        and e: "e = CHR ''{'' # es @ lineBreak indent depth @ [CHR ''}'']"
        using "1.prems"(3) 4 by (auto simp del: stringifyMembers.simps)
      have "yields limits (ParseObject d [] 0 (es @ lineBreak indent depth @ CHR ''}'' # rest) (Suc n)) (v, rest, n')"
        using "1.IH"(1) [OF 4 _ c(1) it _ _ _ es, of "[]"] c l 4 by simp
      moreover obtain s' where "skipWhitespace (es @ lineBreak indent depth @ CHR ''}'' # rest) = quote # s'"
        by (rule printed_members_start [OF es])
      ultimately show ?thesis
        using yields_enter_object [OF _ lim] by (simp add: e)
    qed
  qed
next
  case (2 fp indent cd)
  then show ?case by simp
next
  case (3 fp indent cd x xs)
  obtain n1 where v: "d < maxDepth limits" "validateValueResources fp limits (Suc d) x n = Inr n1" "validateItems fp limits d xs n1 = Inr n'"
    using "3.prems"(3) by (auto simp: jlimit_def not_le simp del: validateValueResources.simps split: if_splits)
  obtain e es' where e: "stringifyInto fp indent cd x = Some e" "stringifyItems fp indent cd xs = Some es'"
    and es: "es = lineBreak indent cd @ e @ (if xs \<noteq> [] then [CHR '',''] else []) @ es'"
    using "3.prems"(5) by (auto simp: bind_eq_Some_conv simp del: stringifyInto.simps)
  let ?tail = "(if xs \<noteq> [] then [CHR '',''] else []) @ es' @ w @ CHR '']'' # rest"
  have es_Nil: "xs = [] \<Longrightarrow> es' = []" using e(2) by simp
  have "ends_number ?tail"
    using es_Nil by (cases "xs = []") (auto intro: ends_number_blank [OF "3.prems"(6)])
  then have "yields limits (ParseValue (Suc d) (e @ ?tail) n) (x, ?tail, n1)"
    using "3.IH"(1) [OF _ v(2) e(1)] "3.prems"(2) by simp
  then have val: "yields limits (ParseValue (Suc d) (es @ w @ CHR '']'' # rest) n) (x, ?tail, n1)"
    using yields_blank_value [of "lineBreak indent cd"] by (simp add: es)
  show ?case
  proof (rule yields_array [OF val])
    show "length acc < maxContainerEntries limits" "d < maxDepth limits" using "3.prems"(4) v(1) by auto
    show "(skipWhitespace ?tail = CHR '']'' # rest \<and> JArray (acc @ x # xs) = JArray (acc @ [x]) \<and> n' = n1)
      \<or> (\<exists>s3. skipWhitespace ?tail = CHR '','' # s3
            \<and> yields limits (ParseArray d (acc @ [x]) s3 n1) (JArray (acc @ x # xs), rest, n'))"
    proof (cases "xs = []")
      case True
      with v(3) es_Nil "3.prems"(6) show ?thesis by simp
    next
      case False
      then have "yields limits (ParseArray d (acc @ [x]) (es' @ w @ CHR '']'' # rest) n1) (JArray ((acc @ [x]) @ xs), rest, n')"
        using "3.IH"(2) [OF e(1) False _ v(3) _ e(2) "3.prems"(6), of "acc @ [x]"] "3.prems"(2, 4) by simp
      with False show ?thesis by simp
    qed
  qed
next
  case (4 fp indent cd)
  then show ?case by simp
next
  case (5 fp indent cd k x m)
  obtain n1 where v: "d < maxDepth limits" "length k \<le> maxStringBytes limits"
      "validateValueResources fp limits (Suc d) x n = Inr n1" "validateMembers fp limits d m n1 = Inr n'"
    using "5.prems"(3) by (auto simp: jlimit_def jfail_def not_le not_less simp del: validateValueResources.simps split: if_splits)
  obtain key e es' where k: "jsonEscape k = Some key"
    and e: "stringifyInto fp indent cd x = Some e" "stringifyMembers fp indent cd m = Some es'"
    and es: "es = lineBreak indent cd @ quote # key @ [quote, CHR '':''] @ (if indent > 0 then '' '' else [])
             @ e @ (if m \<noteq> [] then [CHR '',''] else []) @ es'"
    using "5.prems"(7) by (auto simp: bind_eq_Some_conv simp del: stringifyInto.simps)
  let ?tail = "(if m \<noteq> [] then [CHR '',''] else []) @ es' @ w @ CHR ''}'' # rest"
  let ?gap = "if indent > 0 then '' '' else []"
  have es_Nil: "m = [] \<Longrightarrow> es' = []" using e(2) by simp
  have "ends_number ?tail"
    using es_Nil by (cases "m = []") (auto intro: ends_number_blank [OF "5.prems"(8)])
  then have "yields limits (ParseValue (Suc d) (e @ ?tail) n) (x, ?tail, n1)"
    using "5.IH"(1) [OF k _ v(3) e(1)] "5.prems"(2) by simp
  then have val: "yields limits (ParseValue (Suc d) (?gap @ e @ ?tail) n) (x, ?tail, n1)"
    by (subst yields_blank_value) (simp_all add: isJsonWhitespace_def)
  have last: "\<forall>k' \<in> set (map fst macc). k' < k"
    using "5.prems"(4, 5) by (auto simp: sorted_append image_iff order_less_le)
  have emp: "object_emplace k x macc = macc @ [(k, x)]" by (rule emplace_last [OF last])
  have key: "parseString limits (skipWhitespace (es @ w @ CHR ''}'' # rest)) = Inr (k, CHR '':'' # ?gap @ e @ ?tail)"
    using parseString_escaped [OF k v(2)] by (simp add: es)
  have new: "map_of macc k = None" using "5.prems"(5) by (auto simp: map_of_eq_None_iff)
  show ?case
  proof (rule yields_object [OF key _ new val])
    show "skipWhitespace (CHR '':'' # ?gap @ e @ ?tail) = CHR '':'' # ?gap @ e @ ?tail"
      by simp
    show "length macc < maxContainerEntries limits" "d < maxDepth limits" using "5.prems"(6) v(1) by auto
    show "(skipWhitespace ?tail = CHR ''}'' # rest \<and> JObject (macc @ (k, x) # m) = JObject (object_emplace k x macc) \<and> n' = n1)
      \<or> (\<exists>s6. skipWhitespace ?tail = CHR '','' # s6
            \<and> yields limits (ParseObject d (object_emplace k x macc) (Suc (length macc)) s6 n1) (JObject (macc @ (k, x) # m), rest, n'))"
    proof (cases "m = []")
      case True
      with v(4) es_Nil "5.prems"(8) show ?thesis by (simp add: emp)
    next
      case False
      then have "yields limits (ParseObject d (macc @ [(k, x)]) (Suc (length macc)) (es' @ w @ CHR ''}'' # rest) n1)
          (JObject ((macc @ [(k, x)]) @ m), rest, n')"
        using "5.IH"(2) [OF k e(1) False _ v(4) _ _ _ e(2) "5.prems"(8), of "macc @ [(k, x)]"] "5.prems"(2, 4, 5, 6) by simp
      with False show ?thesis by (simp add: emp)
    qed
  qed
qed

text \<open>Printed text is UTF-8: escaping only touches ASCII bytes and the rest of the text is ASCII.\<close>

definition is_ascii :: "string \<Rightarrow> bool" where
  "is_ascii s \<longleftrightarrow> list_all (\<lambda>c. byte_of c < 0x80) s"

lemma utf8_ascii_append: "is_ascii a \<Longrightarrow> isValidUtf8 (a @ s) = isValidUtf8 s"
  by (induction a) (auto simp: is_ascii_def)

lemma escapeByte_ascii: "byte_of c < 0x80 \<Longrightarrow> is_ascii (escapeByte c)"
proof -
  have "(byte_of (lowerHexDigit d) :: nat) < 0x80" for d
  proof -
    have "d mod 16 \<in> set [0..<16]" by simp
    moreover have "\<forall>d \<in> set [0..<16]. (byte_of (''0123456789abcdef'' ! d) :: nat) < 0x80" by (simp add: upt_rec)
    ultimately show ?thesis unfolding lowerHexDigit_def by blast
  qed
  then show "byte_of c < 0x80 \<Longrightarrow> is_ascii (escapeByte c)" by (simp add: is_ascii_def escapeByte_def)
qed

lemma escapeByte_high:
  assumes "byte_of c \<ge> 0x80"
  shows "escapeByte c = [c]"
proof -
  have "c \<notin> {quote, CHR 0x5C, CHR 0x08, CHR 0x0C, CHR 0x0A, CHR 0x0D, CHR 0x09}" using assms by auto
  with assms show ?thesis by (simp add: escapeByte_def)
qed

lemma continuation_high: "isContinuationByte c \<Longrightarrow> escapeByte c = [c]" "validSecond3 a c \<Longrightarrow> escapeByte c = [c]"
  "validSecond4 a c \<Longrightarrow> escapeByte c = [c]"
  by (rule escapeByte_high; auto simp: isContinuationByte_def validSecond3_def validSecond4_def split: if_splits)+

text \<open>One character of UTF-8 text: its bytes after the first are kept by the escaping.\<close>

lemma utf8_character:
  assumes "isValidUtf8 (first # rest)" "\<not> byte_of first \<le> 0x7F"
  obtains cont rest' where "rest = cont @ rest'" "concat (map escapeByte cont) = cont" "isValidUtf8 rest'"
    "\<And>z. isValidUtf8 (first # cont @ z) = isValidUtf8 z"
proof -
  consider "byte_of first \<ge> 0xC2 \<and> byte_of first \<le> 0xDF" | "byte_of first \<ge> 0xE0 \<and> byte_of first \<le> 0xEF"
    | "byte_of first \<ge> 0xF0 \<and> byte_of first \<le> 0xF4"
    using assms by (auto split: if_splits)
  then show ?thesis
  proof cases
    case 1
    then obtain b r where r: "rest = b # r" "isContinuationByte b" "isValidUtf8 r" using assms by (cases rest) auto
    then show ?thesis using that [of "[b]" r] 1 assms(2) continuation_high by simp
  next
    case 2
    then obtain b c r where r: "rest = b # c # r" "isContinuationByte c" "validSecond3 first b" "isValidUtf8 r"
      using assms by (auto split: list.splits)
    then show ?thesis using that [of "[b, c]" r] 2 assms(2) continuation_high by simp
  next
    case 3
    then obtain b c e r where r: "rest = b # c # e # r" "isContinuationByte c" "isContinuationByte e" "validSecond4 first b"
        "isValidUtf8 r" using assms by (auto split: list.splits)
    then show ?thesis using that [of "[b, c, e]" r] 3 assms(2) continuation_high by simp
  qed
qed

lemma utf8_escaped: "isValidUtf8 t \<Longrightarrow> isValidUtf8 (concat (map escapeByte t) @ s) = isValidUtf8 s"
proof (induction t rule: length_induct)
  case (1 t)
  show ?case
  proof (cases t)
    case (Cons first rest)
    show ?thesis
    proof (cases "byte_of first \<le> 0x7F")
      case True
      then show ?thesis using 1 escapeByte_ascii [of first] by (simp add: utf8_ascii_append Cons)
    next
      case False
      obtain cont rest' where c: "rest = cont @ rest'" "concat (map escapeByte cont) = cont" "isValidUtf8 rest'"
        "\<And>z. isValidUtf8 (first # cont @ z) = isValidUtf8 z"
        using utf8_character [OF _ False] 1(2) Cons by metis
      then have "concat (map escapeByte t) @ s = first # cont @ concat (map escapeByte rest') @ s"
        using False by (simp add: Cons escapeByte_high)
      moreover have "isValidUtf8 (concat (map escapeByte rest') @ s) = isValidUtf8 s" using 1(1) c(1, 3) Cons by simp
      ultimately show ?thesis using c(4) by metis
    qed
  qed simp
qed

lemma utf8_jsonEscape: "jsonEscape t = Some e \<Longrightarrow> isValidUtf8 (e @ s) = isValidUtf8 s"
  by (auto simp: jsonEscape_def utf8_escaped split: if_splits)

lemma is_ascii_simps [simp]: "is_ascii []" "is_ascii (c # s) \<longleftrightarrow> byte_of c < 0x80 \<and> is_ascii s"
  "is_ascii (lineBreak i d)"
  by (auto simp: is_ascii_def lineBreak_def list_all_iff)

lemma numberText_ascii: "canonical v \<Longrightarrow> isNumber v \<Longrightarrow> is_ascii (numberText fp v)"
proof -
  have "is_ascii (decimal_text n)" for n
    using canonical_decimal_text [of n] by (auto simp: is_ascii_def canonical_decimal_def list_all_iff isAsciiDigit_byte)
  then show "canonical v \<Longrightarrow> isNumber v \<Longrightarrow> is_ascii (numberText fp v)"
    by (cases v) (auto simp: isNumber_def numberText_def integerText_def decimalText_def)
qed

lemma stringify_utf8:
  "canonical v \<Longrightarrow> stringifyInto fp indent depth v = Some e \<Longrightarrow> isValidUtf8 (e @ s) = isValidUtf8 s"
  "list_all canonical xs \<Longrightarrow> stringifyItems fp indent depth xs = Some e \<Longrightarrow> isValidUtf8 (e @ s) = isValidUtf8 s"
  "list_all (\<lambda>kv. canonical (snd kv)) m \<Longrightarrow> stringifyMembers fp indent depth m = Some e \<Longrightarrow> isValidUtf8 (e @ s) = isValidUtf8 s"
proof (induction fp indent depth v and fp indent depth xs and fp indent depth m arbitrary: e s and e s and e s
    rule: stringifyInto_stringifyItems_stringifyMembers.induct)
  case (1 fp indent depth v)
  show ?case
  proof (cases "isNumber v")
    case True
    then have "e = numberText fp v" using "1.prems"(2) by (cases v) (auto simp: isNumber_def)
    then show ?thesis using numberText_ascii [OF "1.prems"(1) True] by (simp add: utf8_ascii_append)
  next
    case False
    with 1 show ?thesis
      by (cases v) (auto simp: isNumber_def utf8_jsonEscape utf8_ascii_append simp del: stringifyItems.simps stringifyMembers.simps split: if_splits)
  qed
next
  case (3 fp indent cd x xs)
  then show ?case by (auto simp: bind_eq_Some_conv utf8_ascii_append simp del: stringifyInto.simps)
next
  case (5 fp indent cd k x m)
  then show ?case by (auto simp: bind_eq_Some_conv utf8_ascii_append utf8_jsonEscape simp del: stringifyInto.simps)
qed simp_all

text \<open>A value within the limits holds only UTF-8 text, so it can be printed.\<close>

lemma stringify_defined:
  "validateValueResources fp limits d v n = Inr n' \<Longrightarrow> \<exists>e. stringifyInto fp indent depth v = Some e"
  "validateItems fp limits d xs n = Inr n' \<Longrightarrow> \<exists>e. stringifyItems fp indent depth xs = Some e"
  "validateMembers fp limits d m n = Inr n' \<Longrightarrow> \<exists>e. stringifyMembers fp indent depth m = Some e"
proof (induction fp limits d v n and fp limits d xs n and fp limits d m n arbitrary: n' depth and n' depth and n' depth
    rule: validateValueResources_validateItems_validateMembers.induct)
  case (1 fp limits d v n)
  have lim: "\<not> d > maxDepth limits" "\<not> n \<ge> maxNodes limits"
    using "1.prems" by (auto simp: jlimit_def split: if_splits)
  show ?case
  proof (cases v)
    case (JString t)
    then show ?thesis using "1.prems" lim by (auto simp: jsonEscape_def jfail_def split: if_splits)
  next
    case (JArray xs)
    then have "length xs \<le> maxContainerEntries limits" "validateItems fp limits d xs (n + 1) = Inr n'"
      using "1.prems" lim by (auto simp: jlimit_def not_less split: if_splits)
    then obtain e where "stringifyItems fp indent (if indent > 0 then depth + indent else depth) xs = Some e"
      using "1.IH"(2) [OF lim JArray] by (auto simp: not_less)
    then show ?thesis using JArray by simp
  next
    case (JObject m)
    then have "length m \<le> maxContainerEntries limits" "validateMembers fp limits d m (n + 1) = Inr n'"
      using "1.prems" lim by (auto simp: jlimit_def not_less split: if_splits)
    then obtain e where "stringifyMembers fp indent (if indent > 0 then depth + indent else depth) m = Some e"
      using "1.IH"(1) [OF lim JObject] by (auto simp: not_less)
    then show ?thesis using JObject by simp
  qed auto
next
  case (3 fp limits d x xs n)
  then obtain n1 where "\<not> d \<ge> maxDepth limits" "validateValueResources fp limits (d + 1) x n = Inr n1" "validateItems fp limits d xs n1 = Inr n'"
    by (auto simp: jlimit_def simp del: validateValueResources.simps split: if_splits)
  with 3(1, 2) obtain e es where "stringifyInto fp indent depth x = Some e" "stringifyItems fp indent depth xs = Some es" by meson
  then show ?case by (simp del: stringifyInto.simps)
next
  case (5 fp limits d k x m n)
  then obtain n1 where "isValidUtf8 k" "\<not> length k > maxStringBytes limits" "\<not> d \<ge> maxDepth limits"
    "validateValueResources fp limits (d + 1) x n = Inr n1" "validateMembers fp limits d m n1 = Inr n'"
    by (auto simp: jlimit_def jfail_def simp del: validateValueResources.simps split: if_splits)
  with 5(1, 2) obtain e es where "stringifyInto fp indent depth x = Some e" "stringifyMembers fp indent depth m = Some es" by meson
  with \<open>isValidUtf8 k\<close> show ?case by (simp add: jsonEscape_def del: stringifyInto.simps)
qed simp_all

lemma print_parse_value:
  assumes "canonical v" "validateResourceUsage fp v limits = Inr ()"
  shows "\<exists>t. stringify fp indent v = Some t \<and> json_parse t limits = Some (Inr v)"
proof -
  have lim: "\<not> limitsExceedSafetyCeiling limits" using assms(2) by (auto simp: validateResourceUsage_def split: if_splits)
  then obtain n where n: "validateValueResources fp limits 1 v 0 = Inr n"
    using assms(2) by (auto simp: validateResourceUsage_def simp del: validateValueResources.simps)
  obtain t where t: "stringifyInto fp (if indent > 0 then nat indent else 0) 0 v = Some t"
    using stringify_defined(1) [OF n] by blast
  have "yields limits (ParseValue 1 (t @ []) 0) (v, [], n)" by (rule print_parse(1) [OF assms(1) n t]) simp
  then have "yields limits (ParseValue 1 (skipWhitespace t) 0) (v, [], n)" by (simp add: yields_skip_value)
  moreover have "call_need (ParseValue 1 (skipWhitespace t) 0) \<le> json_fuel t"
    using skipWhitespace_length [of t] by (simp add: json_fuel_def)
  ultimately have "run_parser (json_fuel t) limits (ParseValue 1 (skipWhitespace t) 0) = Some (Inr (v, [], n))"
    by (rule yields_needed)
  moreover have "isValidUtf8 t" using stringify_utf8(1) [OF assms(1) t, of "[]"] by simp
  ultimately have "json_parse t limits = Some (Inr v)"
    using lim by (simp add: json_parse_def parser_parse_def bindp_def skipWhitespace_def)
  with t show ?thesis by (auto simp: stringify_def simp del: stringifyInto.simps)
qed

section \<open>Values the sources build\<close>

text \<open>A signed integer that is not negative is printed like the unsigned one and is read back as that.\<close>

fun settle :: "Json \<Rightarrow> Json" where
  "settle (JInt i) = (if i \<ge> 0 then JUInt (of_int i) else JInt i)"
| "settle (JObject m) = JObject (map (\<lambda>kv. (fst kv, settle (snd kv))) m)"
| "settle (JArray xs) = JArray (map settle xs)"
| "settle v = v"

fun storable :: "Json \<Rightarrow> bool" where
  "storable (JInt i) = (- (2 ^ 63) \<le> i \<and> i < 2 ^ 63)"
| "storable (JDouble t) = False"
| "storable (JObject m) = (sorted (map fst m) \<and> distinct (map fst m) \<and> list_all (\<lambda>kv. storable (snd kv)) m)"
| "storable (JArray xs) = list_all storable xs"
| "storable _ = True"

lemma settle_canonical: "storable v \<Longrightarrow> canonical (settle v)"
  by (induction v rule: storable.induct) (auto simp: list_all_iff comp_def)

lemma settle_number: "0 \<le> i \<Longrightarrow> i < 2 ^ 63 \<Longrightarrow> uint (word_of_int i :: u64) = i"
  by (simp add: uint_word_of_int_eq take_bit_int_eq_self)

lemma numberText_settle: "storable v \<Longrightarrow> isNumber v \<Longrightarrow> numberText fp (settle v) = numberText fp v"
  by (cases v) (simp_all add: numberText_def settle_number isNumber_def)

lemma stringify_settle:
  "storable v \<Longrightarrow> stringifyInto fp indent depth (settle v) = stringifyInto fp indent depth v"
  "list_all storable xs \<Longrightarrow> stringifyItems fp indent depth (map settle xs) = stringifyItems fp indent depth xs"
  "list_all (\<lambda>kv. storable (snd kv)) m \<Longrightarrow>
   stringifyMembers fp indent depth (map (\<lambda>kv. (fst kv, settle (snd kv))) m) = stringifyMembers fp indent depth m"
proof (induction fp indent depth v and fp indent depth xs and fp indent depth m
    rule: stringifyInto_stringifyItems_stringifyMembers.induct)
  case (1 fp indent depth v)
  show ?case
  proof (cases v)
    case (JInt i)
    then show ?thesis using numberText_settle [OF 1(3), of fp] by (auto simp: isNumber_def)
  next
    case (JObject m)
    then show ?thesis using 1(1) [OF JObject] "1.prems" by simp
  next
    case (JArray xs)
    then show ?thesis using 1(2) [OF JArray] "1.prems" by simp
  qed (use 1 in auto)
next
  case (3 fp indent cd x xs)
  then show ?case by (cases "stringifyInto fp indent cd x") (simp_all del: stringifyInto.simps)
next
  case (5 fp indent cd k x m)
  then show ?case
    by (cases "jsonEscape k"; cases "stringifyInto fp indent cd x") (simp_all del: stringifyInto.simps)
qed simp_all

lemma validate_settle:
  "storable v \<Longrightarrow> validateValueResources fp limits d (settle v) n = validateValueResources fp limits d v n"
  "list_all storable xs \<Longrightarrow> validateItems fp limits d (map settle xs) n = validateItems fp limits d xs n"
  "list_all (\<lambda>kv. storable (snd kv)) m \<Longrightarrow>
   validateMembers fp limits d (map (\<lambda>kv. (fst kv, settle (snd kv))) m) n = validateMembers fp limits d m n"
proof (induction fp limits d v n and fp limits d xs n and fp limits d m n
    rule: validateValueResources_validateItems_validateMembers.induct)
  case (1 fp limits d v n)
  show ?case
  proof (cases "d > maxDepth limits \<or> n \<ge> maxNodes limits")
    case False
    show ?thesis
    proof (cases v)
      case (JInt i)
      then show ?thesis using numberText_settle [OF "1.prems", of fp] by (auto simp: isNumber_def)
    next
      case (JObject m)
      then show ?thesis using 1(1) [OF _ _ JObject] "1.prems" False by simp
    next
      case (JArray xs)
      then show ?thesis using 1(2) [OF _ _ JArray] "1.prems" False by simp
    qed (use 1 in auto)
  qed auto
next
  case (3 fp limits d x xs n)
  then show ?case by (simp del: validateValueResources.simps cong: bindr_cong)
next
  case (5 fp limits d k x m n)
  then show ?case by (simp del: validateValueResources.simps cong: bindr_cong)
qed simp_all

lemma print_parse_settle:
  assumes "storable v" "validateResourceUsage fp v limits = Inr ()"
  shows "\<exists>t. stringify fp indent v = Some t \<and> json_parse t limits = Some (Inr (settle v))"
proof -
  have "validateResourceUsage fp (settle v) limits = Inr ()"
    using assms(2) validate_settle(1) [OF assms(1), of fp limits 1 0] by (simp only: validateResourceUsage_def)
  moreover have "stringify fp indent (settle v) = stringify fp indent v"
    using assms(1) by (simp add: stringify_def stringify_settle del: stringifyInto.simps)
  ultimately show ?thesis using print_parse_value [OF settle_canonical [OF assms(1)]] by metis
qed

text \<open>
  C32: what the writer prints is parsed back. A value without floating-point numbers, within the
  resource limits, prints with any indentation, and parsing the printed text under the same limits
  returns the value; only a non-negative signed integer comes back as the unsigned one.
\<close>

theorem json_print_parse:
  assumes "storable v" "validateResourceUsage fp v limits = Inr ()"
  shows "\<exists>t. stringify fp indent v = Some t \<and> json_parse t limits = Some (Inr (settle v))"
  using assms by (rule print_parse_settle)

theorem json_print_parse_witness:
  "\<exists>t. stringify id 2 (JObject [(''a'', JArray [JInt 7, JInt (- 3)]), (''b'', JString ''x'')]) = Some t
     \<and> json_parse t default_json_limits =
       Some (Inr (settle (JObject [(''a'', JArray [JInt 7, JInt (- 3)]), (''b'', JString ''x'')])))"
proof (rule json_print_parse)
  show "storable (JObject [(''a'', JArray [JInt 7, JInt (- 3)]), (''b'', JString ''x'')])" by simp
  show "validateResourceUsage id (JObject [(''a'', JArray [JInt 7, JInt (- 3)]), (''b'', JString ''x'')]) default_json_limits = Inr ()"
    by (simp add: eval_simps default_json_limits_def absolute_json_limits_def decimalText_def decimal_text.simps)
qed

end
