(* ===== verification/Json_Limits.thy ===== *)
theory Json_Limits
  imports Json_Facts
begin

text \<open>
  What the JSON parser accepts respects the configured limits: depth, number of values, sizes of
  strings, numbers and containers; the members of an object are sorted and have distinct keys.
\<close>

section \<open>Measures of a value\<close>

fun json_nodes :: "Json \<Rightarrow> nat" where
  "json_nodes (JObject m) = 1 + sum_list (map (\<lambda>kv. json_nodes (snd kv)) m)"
| "json_nodes (JArray xs) = 1 + sum_list (map json_nodes xs)"
| "json_nodes _ = 1"

fun json_depth :: "Json \<Rightarrow> nat" where
  "json_depth (JObject m) = 1 + fold max (map (\<lambda>kv. json_depth (snd kv)) m) 0"
| "json_depth (JArray xs) = 1 + fold max (map json_depth xs) 0"
| "json_depth _ = 1"

text \<open>
  Strings and keys are short enough, containers small enough, and keys strictly sorted. A number is as
  short in its canonical text (the token itself, for a floating-point number that is not zero).
\<close>

fun json_sized :: "JsonResourceLimits \<Rightarrow> Json \<Rightarrow> bool" where
  "json_sized limits (JString s) = (length s \<le> maxStringBytes limits)"
| "json_sized limits (JObject m) =
     (length m \<le> maxContainerEntries limits \<and> sorted (map fst m) \<and> distinct (map fst m)
      \<and> list_all (\<lambda>k. length k \<le> maxStringBytes limits) (map fst m)
      \<and> list_all (\<lambda>kv. json_sized limits (snd kv)) m)"
| "json_sized limits (JArray xs) = (length xs \<le> maxContainerEntries limits \<and> list_all (json_sized limits) xs)"
| "json_sized limits JNull = True"
| "json_sized limits (JBool b) = True"
| "json_sized limits v = (length (numberText id v) \<le> maxNumberBytes limits)"

definition members_nodes :: "(string \<times> Json) list \<Rightarrow> nat" where
  "members_nodes m = sum_list (map (\<lambda>kv. json_nodes (snd kv)) m)"

lemma fold_max: "fold max xs (a :: nat) \<le> b \<longleftrightarrow> a \<le> b \<and> (\<forall>x \<in> set xs. x \<le> b)"
  by (induction xs arbitrary: a) auto

lemma json_depth_le:
  "json_depth (JObject m) \<le> Suc b \<longleftrightarrow> (\<forall>kv \<in> set m. json_depth (snd kv) \<le> b)"
  "json_depth (JArray xs) \<le> Suc b \<longleftrightarrow> (\<forall>x \<in> set xs. json_depth x \<le> b)"
  by (auto simp: fold_max)

section \<open>Inserting a member\<close>

lemma emplace_keys: "set (map fst (object_emplace k v m)) = insert k (set (map fst m))"
  by (induction k v m rule: object_emplace.induct) auto

lemma emplace_props:
  assumes "map_of m k = None"
  shows "length (object_emplace k v m) = Suc (length m)" "set (object_emplace k v m) = insert (k, v) (set m)"
    "members_nodes (object_emplace k v m) = json_nodes v + members_nodes m"
  using assms by (induction k v m rule: object_emplace.induct) (auto simp: members_nodes_def split: if_splits)

lemma emplace_sorted:
  assumes "map_of m k = None" "sorted (map fst m)" "distinct (map fst m)"
  shows "sorted (map fst (object_emplace k v m)) \<and> distinct (map fst (object_emplace k v m))"
  using assms
proof (induction k v m rule: object_emplace.induct)
  case (2 key v k w m)
  then have "key \<noteq> k" by auto
  show ?case
  proof (cases "key < k")
    case True
    with 2 show ?thesis by (fastforce simp: image_iff)
  next
    case False
    with 2 \<open>key \<noteq> k\<close> emplace_keys [of key v m] show ?thesis by (auto simp: not_less)
  qed
qed simp

section \<open>Strings and steps\<close>

lemma parseStringBody_length:
  "parseStringBody limits s out = Inr (t, r) \<Longrightarrow> length out \<le> maxStringBytes limits \<Longrightarrow> length t \<le> maxStringBytes limits"
proof (induction limits s out rule: parseStringBody.induct)
  case (2 limits c rest out)
  have "length out' \<le> maxStringBytes limits" if "appendByte limits out b = Some out'" for b out'
    using that by (auto simp: appendByte_def split: if_splits)
  moreover have "length out' \<le> maxStringBytes limits" if "appendCodePoint limits out cp = Some out'" for cp out'
    using that by (auto simp: appendCodePoint_def Let_def split: if_splits)
  ultimately show ?case
    using 2 by (auto simp: jfail_def jlimit_def split: if_splits option.splits list.splits sum.splits prod.splits)
qed (simp add: jfail_def)

lemma parseString_length: "parseString limits s = Inr (t, r) \<Longrightarrow> length t \<le> maxStringBytes limits"
  by (auto simp: parseString_def jfail_def intro: parseStringBody_length split: option.splits)

text \<open>What a completed call guarantees, relative to the object or array it was entered with.\<close>

fun call_sound :: "JsonResourceLimits \<Rightarrow> parse_call \<Rightarrow> Json \<Rightarrow> nat \<Rightarrow> bool" where
  "call_sound limits (ParseValue d s n) v n' \<longleftrightarrow>
     n' = n + json_nodes v \<and> n' \<le> maxNodes limits \<and> d + json_depth v \<le> Suc (maxDepth limits) \<and> json_sized limits v"
| "call_sound limits (ParseObject d m k s n) v n' \<longleftrightarrow>
     (json_sized limits (JObject m) \<and> k = length m \<and> n \<le> maxNodes limits
        \<and> (\<forall>kv \<in> set m. d + json_depth (snd kv) \<le> maxDepth limits) \<longrightarrow>
      (\<exists>m'. v = JObject m' \<and> json_sized limits v \<and> n' \<le> maxNodes limits
         \<and> n' + members_nodes m = n + members_nodes m' \<and> (\<forall>kv \<in> set m'. d + json_depth (snd kv) \<le> maxDepth limits)))"
| "call_sound limits (ParseArray d xs s n) v n' \<longleftrightarrow>
     (json_sized limits (JArray xs) \<and> n \<le> maxNodes limits
        \<and> (\<forall>x \<in> set xs. d + json_depth x \<le> maxDepth limits) \<longrightarrow>
      (\<exists>xs'. v = JArray xs' \<and> json_sized limits v \<and> n' \<le> maxNodes limits
         \<and> n' + sum_list (map json_nodes xs) = n + sum_list (map json_nodes xs')
         \<and> (\<forall>x \<in> set xs'. d + json_depth x \<le> maxDepth limits)))"

definition sound_parser :: "JsonResourceLimits \<Rightarrow> (parse_call \<Rightarrow> parse_outcome) \<Rightarrow> bool" where
  "sound_parser limits self \<longleftrightarrow> (\<forall>call v r n. self call = Some (Inr (v, r, n)) \<longrightarrow> call_sound limits call v n)"

lemma sound_parserD: "sound_parser limits self \<Longrightarrow> self call = Some (Inr (v, r, n)) \<Longrightarrow> call_sound limits call v n"
  by (auto simp: sound_parser_def)

lemma parseArray_sound:
  assumes self: "sound_parser limits self" and run: "parseArray self limits d xs s n = Some (Inr (v, r, n'))"
  shows "call_sound limits (ParseArray d xs s n) v n'"
  using run
proof (cases rule: parseArray_cases)
  case (1 x s1 n1)
  have x: "n1 = n + json_nodes x" "n1 \<le> maxNodes limits" "d + json_depth x \<le> maxDepth limits" "json_sized limits x"
    using sound_parserD [OF self 1(3)] by auto
  from 1(4) show ?thesis
  proof (elim disjE exE conjE)
    assume "v = JArray (xs @ [x])" "n' = n1"
    with x 1(1) show ?thesis by auto
  next
    fix s3 assume "self (ParseArray d (xs @ [x]) s3 n1) = Some (Inr (v, r, n'))"
    from sound_parserD [OF self this] x 1(1) show ?thesis by (auto; fastforce)
  qed
qed

lemma emplace_sized:
  assumes "json_sized limits (JObject m)" "map_of m k = None" "length m < maxContainerEntries limits"
    "length k \<le> maxStringBytes limits" "json_sized limits x"
  shows "json_sized limits (JObject (object_emplace k x m))"
  using assms emplace_props [OF assms(2), of x] emplace_sorted [OF assms(2), of x]
  by (auto simp: list_all_iff)

lemma parseObject_sound:
  assumes self: "sound_parser limits self" and run: "parseObject self limits d m k s n = Some (Inr (v, r, n'))"
  shows "call_sound limits (ParseObject d m k s n) v n'"
  using run
proof (cases rule: parseObject_cases)
  case (1 key s2 s3 x s4 n1)
  let ?m = "object_emplace key x m"
  have x: "n1 = n + json_nodes x" "n1 \<le> maxNodes limits" "d + json_depth x \<le> maxDepth limits" "json_sized limits x"
    using sound_parserD [OF self 1(6)] by auto
  have m: "json_sized limits (JObject ?m)" if "json_sized limits (JObject m)" "k = length m"
    using emplace_sized [OF that(1) 1(4) _ parseString_length [OF 1(3)] x(4)] 1(1) that(2) by blast
  note props = emplace_props [OF 1(4), of x]
  from 1(7) show ?thesis
  proof (elim disjE exE conjE)
    assume "v = JObject ?m" "n' = n1"
    with x m props show ?thesis by auto
  next
    fix s6 assume "self (ParseObject d ?m (k + 1) s6 n1) = Some (Inr (v, r, n'))"
    from sound_parserD [OF self this] have
      "json_sized limits (JObject ?m) \<and> k + 1 = length ?m \<and> n1 \<le> maxNodes limits
        \<and> (\<forall>kv \<in> set ?m. d + json_depth (snd kv) \<le> maxDepth limits) \<longrightarrow>
      (\<exists>m'. v = JObject m' \<and> json_sized limits v \<and> n' \<le> maxNodes limits
         \<and> n' + members_nodes ?m = n1 + members_nodes m' \<and> (\<forall>kv \<in> set m'. d + json_depth (snd kv) \<le> maxDepth limits))"
      by simp
    with x m props show ?thesis by (simp del: json_sized.simps)
  qed
qed

text \<open>Numbers: every byte of the token was counted, and no canonical text is longer than its token.\<close>

lemma consumeNumberByte_ok: "consumeNumberByte limits n = Inr n' \<longleftrightarrow> n' = n + 1 \<and> n < maxNumberBytes limits"
  by (auto simp: consumeNumberByte_def jlimit_def)

lemma digitRun_bound:
  "digitRun limits n s = Inr (n', r) \<Longrightarrow> n \<le> maxNumberBytes limits \<Longrightarrow>
     n' \<le> maxNumberBytes limits \<and> n \<le> n' \<and> (startsWithDigit s \<longrightarrow> n < n')"
  by (induction limits n s rule: digitRun.induct) (fastforce simp: consumeNumberByte_ok startsWithDigit_def split: if_splits)+

lemma numberInteger_bound:
  "numberInteger limits n s = Inr (n', r) \<Longrightarrow> n \<le> maxNumberBytes limits \<Longrightarrow> n' \<le> maxNumberBytes limits \<and> n < n'"
  using digitRun_bound [of limits n s n' r]
  by (auto simp: numberInteger_def consumeNumberByte_ok startsWithDigit_def isAsciiDigit_def jfail_def less_eq_char_def split: if_splits)

lemma numberFraction_bound:
  assumes "numberFraction limits n s = Inr (n', r, fp)" "n \<le> maxNumberBytes limits"
  shows "n' \<le> maxNumberBytes limits \<and> n \<le> n' \<and> (fp \<longrightarrow> n + 2 \<le> n')"
proof (cases "s \<noteq> [] \<and> hd s = CHR ''.''")
  case True
  with assms show ?thesis
    using digitRun_bound [of limits "n + 1" "tl s" n' r] by (auto simp: numberFraction_def consumeNumberByte_ok jfail_def split: if_splits)
qed (use assms in \<open>auto simp: numberFraction_def\<close>)

lemma numberExponent_bound:
  assumes "numberExponent limits n s fp = Inr (n', r, fp')" "n \<le> maxNumberBytes limits"
  shows "n' \<le> maxNumberBytes limits \<and> n \<le> n' \<and> (fp' \<longrightarrow> fp \<or> n + 2 \<le> n')"
proof (cases "s \<noteq> [] \<and> (hd s = CHR ''e'' \<or> hd s = CHR ''E'')")
  case True
  with assms(1) obtain n3 s3 where "startsWithDigit s3" "digitRun limits n3 s3 = Inr (n', r)" "n + 1 \<le> n3" "n3 \<le> maxNumberBytes limits"
    by (auto simp: numberExponent_def consumeNumberByte_ok jfail_def split: if_splits)
  then show ?thesis using digitRun_bound [of limits n3 s3 n' r] by auto
qed (use assms in \<open>auto simp: numberExponent_def\<close>)

lemma from_chars_dec_length: "from_chars_dec b t = Some n \<Longrightarrow> length (decimal_text n) \<le> length t \<and> n \<le> b"
  by (auto simp: from_chars_dec_def digits_val_bound intro!: decimal_text_length split: if_splits)

lemma parseInteger_text:
  assumes "parseInteger t = Inr v"
  shows "json_nodes v = 1 \<and> json_depth v = 1 \<and> (length t \<le> maxNumberBytes limits \<longrightarrow> json_sized limits v)"
  using assms
  by (cases t) (auto simp: parseInteger_def jfail_def numberText_def integerText_def decimalText_def unat_of_nat take_bit_nat_eq_self
      dest!: from_chars_dec_length split: if_splits option.splits)

lemma parseFloatingPoint_text:
  assumes "parseFloatingPoint t = Inr v" "length t \<le> maxNumberBytes limits" "3 \<le> maxNumberBytes limits"
    "t \<noteq> [] \<and> hd t = CHR ''-'' \<longrightarrow> 4 \<le> maxNumberBytes limits"
  shows "json_nodes v = 1 \<and> json_depth v = 1 \<and> json_sized limits v"
  using assms by (auto simp: parseFloatingPoint_def jfail_def Let_def numberText_def split: if_splits)

lemma number_leaf:
  assumes "json_parseNumber limits s = Inr (v, r)"
  shows "json_nodes v = 1 \<and> json_depth v = 1 \<and> json_sized limits v"
proof -
  obtain n1 s1 n2 s2 n3 s3 fp3 n4 s4 fp4 where
    n1: "n1 = (if hd s = CHR ''-'' then 1 else 0)" "n1 \<le> maxNumberBytes limits" and
    i: "numberInteger limits n1 s1 = Inr (n2, s2)" and f: "numberFraction limits n2 s2 = Inr (n3, s3, fp3)" and
    e: "numberExponent limits n3 s3 fp3 = Inr (n4, s4, fp4)" and
    v: "(if fp4 then parseFloatingPoint (take n4 s) else parseInteger (take n4 s)) = Inr v"
    using assms by (auto simp: json_parseNumber_def Let_def consumeNumberByte_ok split: if_splits)
  note i' = numberInteger_bound [OF i n1(2)]
  then have f': "n3 \<le> maxNumberBytes limits \<and> n2 \<le> n3 \<and> (fp3 \<longrightarrow> n2 + 2 \<le> n3)" using numberFraction_bound [OF f] by simp
  then have e': "n4 \<le> maxNumberBytes limits \<and> n3 \<le> n4 \<and> (fp4 \<longrightarrow> fp3 \<or> n3 + 2 \<le> n4)" using numberExponent_bound [OF e] by simp
  have token: "length (take n4 s) \<le> maxNumberBytes limits" using e' by auto
  show ?thesis
  proof (cases fp4)
    case True
    then have "n1 + 3 \<le> maxNumberBytes limits" using i' f' e' by auto
    moreover have "take n4 s \<noteq> [] \<and> hd (take n4 s) = CHR ''-'' \<longrightarrow> n1 = 1" using n1(1) by auto
    ultimately show ?thesis using parseFloatingPoint_text [OF _ token] v True by auto
  next
    case False
    then show ?thesis using parseInteger_text [of "take n4 s" v limits] v token by simp
  qed
qed

lemma keyword_leaf: "parseKeyword s n = Inr (v, r, n') \<Longrightarrow> n' = n \<and> json_nodes v = 1 \<and> json_depth v = 1 \<and> json_sized limits v"
  by (auto simp: parseKeyword_def jfail_def split: option.splits)

lemma parseValue_sound:
  assumes self: "sound_parser limits self" and run: "parseValue self limits d s n = Some (Inr (v, r, n'))"
  shows "call_sound limits (ParseValue d s n) v n'"
proof -
  define s1 where "s1 = skipWhitespace s"
  define s2 where "s2 = skipWhitespace (tl s1)"
  have g: "d \<le> maxDepth limits" "n < maxNodes limits"
    using run by (auto simp: parseValue_def Let_def jlimit_def split: if_splits)
  consider (str) t where "parseString limits s1 = Inr (t, r)" "v = JString t" "n' = n + 1"
    | (empty) "v = JObject [] \<or> v = JArray []" "n' = n + 1"
    | (object) "self (ParseObject d [] 0 s2 (n + 1)) = Some (Inr (v, r, n'))"
    | (array) "self (ParseArray d [] s2 (n + 1)) = Some (Inr (v, r, n'))"
    | (num) "json_parseNumber limits s1 = Inr (v, r)" "n' = n + 1" | (key) "parseKeyword s1 (n + 1) = Inr (v, r, n')"
    using run
    by (auto simp: parseValue_def Let_def s1_def [symmetric] s2_def [symmetric] jlimit_def jfail_def consume_Some
        split: if_splits option.splits)
  then show ?thesis
  proof cases
    case str
    then show ?thesis using parseString_length g by auto
  next
    case empty
    then show ?thesis using g by auto
  next
    case object
    from sound_parserD [OF self this] g obtain m' where "v = JObject m'" "json_sized limits v" "n' \<le> maxNodes limits"
        "n' = n + 1 + members_nodes m'" "\<forall>kv \<in> set m'. d + json_depth (snd kv) \<le> maxDepth limits"
      by (auto simp: members_nodes_def)
    moreover from this have "json_depth v \<le> Suc (maxDepth limits - d)" by (auto simp: json_depth_le simp del: json_depth.simps)
    ultimately show ?thesis using g(1) by (simp add: members_nodes_def del: json_depth.simps json_sized.simps)
  next
    case array
    from sound_parserD [OF self this] g obtain xs' where "v = JArray xs'" "json_sized limits v" "n' \<le> maxNodes limits"
        "n' = n + 1 + sum_list (map json_nodes xs')" "\<forall>x \<in> set xs'. d + json_depth x \<le> maxDepth limits"
      by auto
    moreover from this have "json_depth v \<le> Suc (maxDepth limits - d)" by (auto simp: json_depth_le simp del: json_depth.simps)
    ultimately show ?thesis using g(1) by (simp del: json_depth.simps json_sized.simps)
  next
    case num
    then show ?thesis using number_leaf g by auto
  next
    case key
    from keyword_leaf [OF this, of limits] g show ?thesis by auto
  qed
qed

lemma run_parser_sound: "sound_parser limits (run_parser fuel limits)"
proof (induction fuel)
  case (Suc fuel)
  show ?case
    unfolding sound_parser_def
  proof (intro allI impI)
    fix call v r n assume "run_parser (Suc fuel) limits call = Some (Inr (v, r, n))"
    with Suc show "call_sound limits call v n"
      by (cases call) (auto simp: parse_step_def simp del: call_sound.simps
          intro: parseValue_sound parseObject_sound parseArray_sound)
  qed
qed (simp add: sound_parser_def)

text \<open>
  C31: a value the parser returns is within every limit it was given: nesting depth, number of
  values, bytes of every string and key, bytes of every number, entries of every container; and the keys
  of every object are strictly sorted, in particular without duplicates.
\<close>

theorem json_parse_within_limits:
  assumes "json_parse t limits = Some (Inr v)"
  shows "json_depth v \<le> maxDepth limits \<and> json_nodes v \<le> maxNodes limits \<and> json_sized limits v"
proof -
  obtain s n where "run_parser (json_fuel t) limits (ParseValue 1 (skipWhitespace t) 0) = Some (Inr (v, s, n))"
    using assms by (auto simp: json_parse_def parser_parse_def bindp_Some_Inr jfail_def split: if_splits)
  from sound_parserD [OF run_parser_sound this] show ?thesis by simp
qed

theorem json_parse_within_limits_witness:
  "json_depth (JArray [JUInt 12, JArray []]) \<le> 3 \<and> json_nodes (JArray [JUInt 12, JArray []]) \<le> 4
   \<and> length (numberText id (JUInt 12)) \<le> 2"
proof -
  have "json_parse ''[12,[]]'' \<lparr>maxDepth = 3, maxNodes = 4, maxStringBytes = 9, maxNumberBytes = 2, maxContainerEntries = 2\<rparr>
      = Some (Inr (JArray [JUInt 12, JArray []]))"
    by (simp add: eval_simps)
  from json_parse_within_limits [OF this] show ?thesis by simp
qed

end
