(* ===== verification/Sha256.thy ===== *)
theory Sha256
  imports Prelude
begin

text \<open>
  \<open>src/util/Sha256.cpp\<close>: the streaming SHA-256 and its textual digest. The hasher is the record of
  its four members; \<open>update\<close> and \<open>final\<close> are the member functions, on 32-bit words that wrap. The
  reference is the algorithm of FIPS 180-4 on a whole message: pad, cut into blocks, compress.
\<close>

unbundle bit_operations_syntax

section \<open>The hasher\<close>

text \<open>The table \<open>k\<close>, row by row: each numeral is the eight constants of a row, one after the other.\<close>

definition table_row :: "int \<Rightarrow> u32 list" where
  "table_row n = map (\<lambda>i. word_of_int (n div 2 ^ (32 * i))) (rev [0..<8])"

definition sha_k :: "u32 list" where
  "sha_k = concat (map table_row [
    0x428a2f9871374491b5c0fbcfe9b5dba53956c25b59f111f1923f82a4ab1c5ed5,
    0xd807aa9812835b01243185be550c7dc372be5d7480deb1fe9bdc06a7c19bf174,
    0xe49b69c1efbe47860fc19dc6240ca1cc2de92c6f4a7484aa5cb0a9dc76f988da,
    0x983e5152a831c66db00327c8bf597fc7c6e00bf3d5a7914706ca635114292967,
    0x27b70a852e1b21384d2c6dfc53380d13650a7354766a0abb81c2c92e92722c85,
    0xa2bfe8a1a81a664bc24b8b70c76c51a3d192e819d6990624f40e3585106aa070,
    0x19a4c1161e376c082748774c34b0bcb5391c0cb34ed8aa4a5b9cca4f682e6ff3,
    0x748f82ee78a5636f84c878148cc7020890befffaa4506cebbef9a3f7c67178f2])"

definition rotr :: "u32 \<Rightarrow> nat \<Rightarrow> u32" where
  "rotr x n = drop_bit n x OR push_bit (32 - n) x"

definition choose_bits :: "u32 \<Rightarrow> u32 \<Rightarrow> u32 \<Rightarrow> u32" where
  "choose_bits e f g = (e AND f) XOR (NOT e AND g)"

definition majority :: "u32 \<Rightarrow> u32 \<Rightarrow> u32 \<Rightarrow> u32" where
  "majority a b c = (a AND b) XOR (a AND c) XOR (b AND c)"

definition bigSigma0 :: "u32 \<Rightarrow> u32" where
  "bigSigma0 x = rotr x 2 XOR rotr x 13 XOR rotr x 22"

definition bigSigma1 :: "u32 \<Rightarrow> u32" where
  "bigSigma1 x = rotr x 6 XOR rotr x 11 XOR rotr x 25"

definition smallSigma0 :: "u32 \<Rightarrow> u32" where
  "smallSigma0 x = rotr x 7 XOR rotr x 18 XOR drop_bit 3 x"

definition smallSigma1 :: "u32 \<Rightarrow> u32" where
  "smallSigma1 x = rotr x 17 XOR rotr x 19 XOR drop_bit 10 x"

record Sha256 =
  sha_state :: "u32 list"
  sha_buffer :: "u8 list"
  sha_bufferSize :: nat
  sha_totalBytes :: u64

definition initialState :: "u32 list" where
  "initialState = [0x6a09e667, 0xbb67ae85, 0x3c6ef372, 0xa54ff53a, 0x510e527f, 0x9b05688c, 0x1f83d9ab, 0x5be0cd19]"

definition sha_init :: Sha256 where
  "sha_init = \<lparr>sha_state = initialState, sha_buffer = replicate 64 0, sha_bufferSize = 0, sha_totalBytes = 0\<rparr>"

text \<open>The two loops that fill \<open>w\<close>, and the sixty-four rounds.\<close>

definition block_word :: "u8 list \<Rightarrow> nat \<Rightarrow> u32" where
  "block_word block i =
     push_bit 24 (ucast (block ! (i * 4))) OR push_bit 16 (ucast (block ! (i * 4 + 1)))
     OR push_bit 8 (ucast (block ! (i * 4 + 2))) OR ucast (block ! (i * 4 + 3))"

definition extend_schedule :: "u32 list \<Rightarrow> nat \<Rightarrow> u32 list" where
  "extend_schedule w i =
     w[i := smallSigma1 (w ! (i - 2)) + w ! (i - 7) + smallSigma0 (w ! (i - 15)) + w ! (i - 16)]"

definition schedule :: "u8 list \<Rightarrow> u32 list" where
  "schedule block =
     foldl extend_schedule (foldl (\<lambda>w i. w[i := block_word block i]) (replicate 64 0) [0..<16]) [16..<64]"

type_synonym working = "u32 \<times> u32 \<times> u32 \<times> u32 \<times> u32 \<times> u32 \<times> u32 \<times> u32"

definition sha_round :: "u32 list \<Rightarrow> working \<Rightarrow> nat \<Rightarrow> working" where
  "sha_round w = (\<lambda>(a, b, c, d, e, f, g, h) i.
     let t1 = h + bigSigma1 e + choose_bits e f g + sha_k ! i + w ! i;
         t2 = bigSigma0 a + majority a b c
     in (t1 + t2, a, b, c, d + t1, e, f, g))"

definition transform :: "u32 list \<Rightarrow> u8 list \<Rightarrow> u32 list" where
  "transform st block =
     (let w = schedule block;
          (a, b, c, d, e, f, g, h) =
            foldl (sha_round w) (st ! 0, st ! 1, st ! 2, st ! 3, st ! 4, st ! 5, st ! 6, st ! 7) [0..<64]
      in [st ! 0 + a, st ! 1 + b, st ! 2 + c, st ! 3 + d, st ! 4 + e, st ! 5 + f, st ! 6 + g, st ! 7 + h])"

text \<open>\<open>std::copy_n(data, n, buffer + at)\<close>.\<close>

definition copy_n :: "u8 list \<Rightarrow> nat \<Rightarrow> u8 list \<Rightarrow> nat \<Rightarrow> u8 list" where
  "copy_n data n buffer at = take at buffer @ take n data @ drop (at + n) buffer"

text \<open>The loop over whole blocks: the state and the data that is left.\<close>

function transformBlocks :: "u32 list \<Rightarrow> u8 list \<Rightarrow> u32 list \<times> u8 list" where
  "transformBlocks st data = (if length data \<ge> 64 then transformBlocks (transform st data) (drop 64 data) else (st, data))"
  by pat_completeness auto

termination
  by (relation "measure (\<lambda>(st, data). length data)") auto

declare transformBlocks.simps [simp del]

definition absorb :: "Sha256 \<Rightarrow> u8 list \<Rightarrow> Sha256" where
  "absorb sha data =
     (let (st, remaining) = transformBlocks (sha_state sha) data
      in if remaining \<noteq> []
         then sha\<lparr>sha_state := st, sha_buffer := copy_n remaining (length remaining) (sha_buffer sha) 0,
                  sha_bufferSize := length remaining\<rparr>
         else sha\<lparr>sha_state := st\<rparr>)"

definition sha_update :: "Sha256 \<Rightarrow> u8 list \<Rightarrow> Sha256" where
  "sha_update sha0 data =
     (if data = [] then sha0
      else
        let sha = sha0\<lparr>sha_totalBytes := sha_totalBytes sha0 + of_nat (length data)\<rparr>
        in if sha_bufferSize sha \<noteq> 0
           then
             let copied = min (length data) (length (sha_buffer sha) - sha_bufferSize sha);
                 buffer = copy_n data copied (sha_buffer sha) (sha_bufferSize sha);
                 size1 = sha_bufferSize sha + copied
             in if size1 < length (sha_buffer sha) then sha\<lparr>sha_buffer := buffer, sha_bufferSize := size1\<rparr>
                else absorb (sha\<lparr>sha_state := transform (sha_state sha) buffer, sha_buffer := buffer, sha_bufferSize := 0\<rparr>)
                       (drop copied data)
           else absorb sha data)"

text \<open>\<open>while (bufferSize_ < bound) buffer_[bufferSize_++] = 0\<close>.\<close>

definition fill_zero :: "nat \<Rightarrow> nat \<Rightarrow> u8 list \<Rightarrow> u8 list" where
  "fill_zero filled bound buffer = take filled buffer @ replicate (bound - filled) 0 @ drop (max filled bound) buffer"

definition length_bytes :: "u64 \<Rightarrow> u8 list" where
  "length_bytes bitLength = map (\<lambda>i. ucast (drop_bit (i * 8) bitLength AND 0xff)) [7, 6, 5, 4, 3, 2, 1, 0]"

definition word_bytes :: "u32 \<Rightarrow> u8 list" where
  "word_bytes s = [ucast (drop_bit 24 s AND 0xff), ucast (drop_bit 16 s AND 0xff), ucast (drop_bit 8 s AND 0xff),
                   ucast (s AND 0xff)]"

definition sha_final :: "Sha256 \<Rightarrow> u8 list" where
  "sha_final sha =
     (let bitLength = sha_totalBytes sha * 8;
          buffer1 = (sha_buffer sha)[sha_bufferSize sha := 0x80];
          size1 = sha_bufferSize sha + 1;
          (st2, buffer2, size2) =
            (if size1 > 56
             then (let b = fill_zero size1 64 buffer1 in (transform (sha_state sha) b, b, 0))
             else (sha_state sha, buffer1, size1));
          buffer3 = fill_zero size2 56 buffer2;
          buffer4 = copy_n (length_bytes bitLength) 8 buffer3 56;
          st5 = transform st2 buffer4
      in concat (map word_bytes st5))"

definition hexChar :: "nat \<Rightarrow> char" where
  "hexChar d = ''0123456789abcdef'' ! d"

definition toHex :: "u8 list \<Rightarrow> string" where
  "toHex digest = concat (map (\<lambda>b. [hexChar (unat b div 16), hexChar (unat b mod 16)]) digest)"

definition bytes_of :: "string \<Rightarrow> u8 list" where
  "bytes_of s = map (\<lambda>c. of_nat (byte_of c)) s"

definition sha256Bytes :: "string \<Rightarrow> string" where
  "sha256Bytes data = toHex (sha_final (sha_update sha_init (bytes_of data)))"

definition isLowerHexSha256 :: "string \<Rightarrow> bool" where
  "isLowerHexSha256 s \<longleftrightarrow>
     length s = 64 \<and> list_all (\<lambda>c. (CHR ''0'' \<le> c \<and> c \<le> CHR ''9'') \<or> (CHR ''a'' \<le> c \<and> c \<le> CHR ''f'')) s"

text \<open>
  \<open>sha256RootedFile\<close>: the \<open>IRootedFile\<close> is a state with its \<open>seek\<close> and \<open>read\<close> operations. The loop ends
  when a read returns no bytes or fails; a file that always returns bytes gives \<open>None\<close>.
\<close>

type_synonym 'f seek_op = "'f \<Rightarrow> u64 \<Rightarrow> unit result \<times> 'f"
type_synonym 'f read_op = "'f \<Rightarrow> nat \<Rightarrow> u8 list result \<times> 'f"

partial_function (option) sha256RootedLoop :: "'f read_op \<Rightarrow> 'f \<Rightarrow> Sha256 \<Rightarrow> (Sha256 result \<times> 'f) option" where
  "sha256RootedLoop read f sha =
     (case read f 65536 of
        (Inl e, f1) \<Rightarrow> Some (Inl e, f1)
      | (Inr bytes, f1) \<Rightarrow> if bytes = [] then Some (Inr sha, f1) else sha256RootedLoop read f1 (sha_update sha bytes))"

definition sha256RootedFile :: "'f seek_op \<Rightarrow> 'f read_op \<Rightarrow> 'f \<Rightarrow> (string result \<times> 'f) option" where
  "sha256RootedFile seek read f =
     (case seek f 0 of
        (Inl e, f1) \<Rightarrow> Some (Inl e, f1)
      | (Inr _, f1) \<Rightarrow>
          (case sha256RootedLoop read f1 sha_init of
             None \<Rightarrow> None
           | Some (Inl e, f2) \<Rightarrow> Some (Inl e, f2)
           | Some (Inr sha, f2) \<Rightarrow>
               (case seek f2 0 of
                  (Inl e, f3) \<Rightarrow> Some (Inl e, f3)
                | (Inr _, f3) \<Rightarrow> Some (Inr (toHex (sha_final sha)), f3))))"

section \<open>The algorithm of FIPS 180-4\<close>

text \<open>Big-endian words of bytes and bytes of words.\<close>

definition be_word :: "u8 list \<Rightarrow> 'a::len word" where
  "be_word bs = of_nat (foldl (\<lambda>v b. v * 256 + unat b) 0 bs)"

definition be_bytes :: "nat \<Rightarrow> 'a::len word \<Rightarrow> u8 list" where
  "be_bytes n w = map (\<lambda>i. of_nat (unat w div 256 ^ i)) (rev [0..<n])"

text \<open>
  The constants of the standard: the first 32 bits of the fractional parts of the cube roots of the
  first sixty-four primes, and of the square roots of the first eight. The bits of the root of \<open>p\<close>
  down to \<open>2 ^ - 32\<close> are the integer root of \<open>p * 2 ^ (32 * n)\<close>; as a 32-bit word it has the fraction.
\<close>

fun sieve :: "int list \<Rightarrow> int list" where
  "sieve [] = []"
| "sieve (p # xs) = p # sieve (filter (\<lambda>x. x mod p \<noteq> 0) xs)"

definition primes_below :: "int \<Rightarrow> int list" where
  "primes_below n = sieve [2..n - 1]"

definition floor_root :: "nat \<Rightarrow> int \<Rightarrow> int" where
  "floor_root n x = Max {r. 0 \<le> r \<and> r ^ n \<le> x}"

definition fraction_bits :: "nat \<Rightarrow> int \<Rightarrow> u32" where
  "fraction_bits n p = word_of_int (floor_root n (p * 2 ^ (32 * n)))"

definition fips_K :: "nat \<Rightarrow> u32" where
  "fips_K t = fraction_bits 3 (primes_below 312 ! t)"

definition fips_H0 :: "u32 list" where
  "fips_H0 = map (fraction_bits 2) (primes_below 20)"

definition fips_Sigma0 :: "u32 \<Rightarrow> u32" where
  "fips_Sigma0 x = word_rotr 2 x XOR word_rotr 13 x XOR word_rotr 22 x"

definition fips_Sigma1 :: "u32 \<Rightarrow> u32" where
  "fips_Sigma1 x = word_rotr 6 x XOR word_rotr 11 x XOR word_rotr 25 x"

definition fips_sigma0 :: "u32 \<Rightarrow> u32" where
  "fips_sigma0 x = word_rotr 7 x XOR word_rotr 18 x XOR drop_bit 3 x"

definition fips_sigma1 :: "u32 \<Rightarrow> u32" where
  "fips_sigma1 x = word_rotr 17 x XOR word_rotr 19 x XOR drop_bit 10 x"

text \<open>The message schedule \<open>W\<close> of a block and the working variables after a number of rounds.\<close>

fun fips_W :: "u8 list \<Rightarrow> nat \<Rightarrow> u32" where
  "fips_W block t =
     (if t < 16 then be_word [block ! (4 * t), block ! (4 * t + 1), block ! (4 * t + 2), block ! (4 * t + 3)]
      else fips_sigma1 (fips_W block (t - 2)) + fips_W block (t - 7) + fips_sigma0 (fips_W block (t - 15)) + fips_W block (t - 16))"

declare fips_W.simps [simp del]

fun fips_rounds :: "u8 list \<Rightarrow> working \<Rightarrow> nat \<Rightarrow> working" where
  "fips_rounds block v 0 = v"
| "fips_rounds block v (Suc t) =
     (case fips_rounds block v t of (a, b, c, d, e, f, g, h) \<Rightarrow>
        let t1 = h + fips_Sigma1 e + ((e AND f) XOR (NOT e AND g)) + fips_K t + fips_W block t;
            t2 = fips_Sigma0 a + ((a AND b) XOR (a AND c) XOR (b AND c))
        in (t1 + t2, a, b, c, d + t1, e, f, g))"

definition fips_compress :: "u32 list \<Rightarrow> u8 list \<Rightarrow> u32 list" where
  "fips_compress H block =
     (case fips_rounds block (H ! 0, H ! 1, H ! 2, H ! 3, H ! 4, H ! 5, H ! 6, H ! 7) 64 of (a, b, c, d, e, f, g, h) \<Rightarrow>
        [a + H ! 0, b + H ! 1, c + H ! 2, d + H ! 3, e + H ! 4, f + H ! 5, g + H ! 6, h + H ! 7])"

text \<open>Padding: a one bit, the least number of zero bits, and the length in bits as 64 bits.\<close>

definition fips_pad :: "u8 list \<Rightarrow> u8 list" where
  "fips_pad m = m @ 0x80 # replicate ((119 - length m mod 64) mod 64) 0 @ be_bytes 8 (of_nat (8 * length m) :: u64)"

function fips_hash :: "u32 list \<Rightarrow> u8 list \<Rightarrow> u32 list" where
  "fips_hash H m = (if m = [] then H else fips_hash (fips_compress H (take 64 m)) (drop 64 m))"
  by pat_completeness auto

termination
  by (relation "measure (\<lambda>(H, m). length m)") auto

declare fips_hash.simps [simp del]

definition sha256_digest :: "u8 list \<Rightarrow> u8 list" where
  "sha256_digest m = concat (map (be_bytes 4) (fips_hash fips_H0 (fips_pad m)))"

section \<open>The constants\<close>

lemma floor_root:
  assumes "0 \<le> r" "r ^ n \<le> x" "x < (r + 1) ^ n"
  shows "floor_root n x = r"
proof -
  have below: "s \<le> r" if "s ^ n \<le> x" for s
    using power_less_imp_less_base [of s n "r + 1"] that assms by simp
  then have "{s. 0 \<le> s \<and> s ^ n \<le> x} \<subseteq> {0..r}" by auto
  then show ?thesis
    unfolding floor_root_def using assms(1, 2) below by (intro Max_eqI) (auto intro: finite_subset)
qed

definition root_digits :: "nat \<Rightarrow> int \<Rightarrow> u32 \<Rightarrow> bool" where
  "root_digits n p w =
     list_ex (\<lambda>m. let r = m * 2 ^ 32 + uint w in r ^ n \<le> p * 2 ^ (32 * n) \<and> p * 2 ^ (32 * n) < (r + 1) ^ n) [1..9]"

lemma root_digits: "root_digits n p w \<Longrightarrow> fraction_bits n p = w"
proof -
  assume "root_digits n p w"
  then obtain m where m: "1 \<le> m" "(m * 2 ^ 32 + uint w) ^ n \<le> p * 2 ^ (32 * n)" "p * 2 ^ (32 * n) < (m * 2 ^ 32 + uint w + 1) ^ n"
    by (auto simp: root_digits_def Let_def list_ex_iff)
  then have root: "floor_root n (p * 2 ^ (32 * n)) = m * 2 ^ 32 + uint w" by (intro floor_root) simp_all
  have wrap: "(4294967296 :: u32) = 0" by (simp add: word_uint_eq_iff)
  show ?thesis by (simp add: fraction_bits_def root wrap)
qed

lemma primes_312: "list_all2 (root_digits 3) (primes_below 312) sha_k"
  by code_simp

lemma primes_20: "list_all2 (root_digits 2) (primes_below 20) initialState"
  by code_simp

lemma sha_k_fips: "i < 64 \<Longrightarrow> sha_k ! i = fips_K i"
proof -
  have "length sha_k = 64" by (simp add: sha_k_def table_row_def)
  then show "i < 64 \<Longrightarrow> ?thesis"
    using primes_312 by (auto simp: list_all2_conv_all_nth fips_K_def intro!: root_digits [symmetric])
qed

lemma initialState_fips: "fips_H0 = initialState"
  using primes_20 unfolding fips_H0_def
  by (intro nth_equalityI) (auto simp: list_all2_conv_all_nth intro!: root_digits)

section \<open>The compression function\<close>

lemma rotr_word_rotr:
  assumes "0 < n" "n < 32"
  shows "rotr x n = word_rotr n x"
proof (rule bit_word_eqI)
  fix m assume m: "m < LENGTH(32)"
  show "bit (rotr x n) m \<longleftrightarrow> bit (word_rotr n x) m"
  proof (cases "m + n < 32")
    case True
    then have "\<not> 32 - n \<le> m" by simp
    with m assms True show ?thesis by (auto simp: rotr_def bit_simps add.commute)
  next
    case False
    then have "(m + n) mod 32 = m + n - 32" using m assms by (simp add: mod_if)
    moreover have "\<not> bit x (m + n)" using False bit_imp_le_length [of x "m + n"] by auto
    moreover have "32 - n \<le> m" "m - (32 - n) = m + n - 32" using False assms by simp_all
    ultimately show ?thesis using m assms by (simp add: rotr_def bit_simps add.commute)
  qed
qed

lemma sigma_fips: "bigSigma0 x = fips_Sigma0 x" "bigSigma1 x = fips_Sigma1 x" "smallSigma0 x = fips_sigma0 x" "smallSigma1 x = fips_sigma1 x"
  by (simp_all add: bigSigma0_def bigSigma1_def smallSigma0_def smallSigma1_def fips_Sigma0_def fips_Sigma1_def
      fips_sigma0_def fips_sigma1_def rotr_word_rotr)

lemma fill_words_nth:
  "t \<le> n \<Longrightarrow> n \<le> length w \<Longrightarrow> length (foldl (\<lambda>w i. w[i := f i]) w [0..<n]) = length w"
  "t < n \<Longrightarrow> n \<le> length w \<Longrightarrow> foldl (\<lambda>w i. w[i := f i]) w [0..<n] ! t = f t"
proof (induction n)
  case (Suc n)
  have len: "length (foldl (\<lambda>w i. w[i := f i]) w [0..<n]) = length w" for n by (induction n) auto
  { case 1 show ?case by (rule len) }
  { case 2 then show ?case using Suc.IH(2) len by (cases "t = n") (auto simp: less_Suc_eq) }
qed auto

lemma extend_schedule_length: "length (foldl extend_schedule w xs) = length w"
  by (induction xs arbitrary: w) (simp_all add: extend_schedule_def)

lemma schedule_nth:
  assumes "n \<le> 64" "16 \<le> n" "length w = 64" "\<And>t. t < 16 \<Longrightarrow> w ! t = fips_W block t" "t < n"
  shows "foldl extend_schedule w [16..<n] ! t = fips_W block t"
  using assms(2, 1, 5)
proof (induction n arbitrary: t rule: dec_induct)
  case (step n)
  let ?w = "foldl extend_schedule w [16..<n]"
  have len: "length ?w = 64" by (simp add: extend_schedule_length assms(3))
  have IH: "t < n \<Longrightarrow> ?w ! t = fips_W block t" for t using step by simp
  have "extend_schedule ?w n ! t = fips_W block t"
  proof (cases "t = n")
    case True
    have "extend_schedule ?w n ! n
        = smallSigma1 (?w ! (n - 2)) + ?w ! (n - 7) + smallSigma0 (?w ! (n - 15)) + ?w ! (n - 16)"
      using len step.prems(1) by (simp add: extend_schedule_def)
    also have "\<dots> = fips_W block n"
      using step.hyps IH fips_W.simps [of block n] by (simp add: sigma_fips)
    finally show ?thesis using True by simp
  next
    case False
    then show ?thesis using IH step.prems by (simp add: extend_schedule_def)
  qed
  then show ?case using step.hyps by simp
qed (simp add: assms(4))

lemma byte_bits: "bit b n \<Longrightarrow> n < 8" for b :: u8
  using bit_imp_le_length [of b n] by simp

lemma or_add: "x AND y = 0 \<Longrightarrow> x OR y = x + y" for x y :: "'a::len word"
  by (simp add: disjunctive_add_eq_or)

lemma block_word_be: "block_word block t = be_word [block ! (4 * t), block ! (4 * t + 1), block ! (4 * t + 2), block ! (4 * t + 3)]"
proof -
  define a b c d where "a = block ! (4 * t)" "b = block ! (4 * t + 1)" "c = block ! (4 * t + 2)" "d = block ! (4 * t + 3)"
  have 1: "push_bit 8 (ucast c) OR ucast d = push_bit 8 (ucast c) + (ucast d :: u32)"
    by (rule or_add, rule bit_word_eqI) (auto simp: bit_simps dest: byte_bits)
  have 2: "push_bit 16 (ucast b) OR (push_bit 8 (ucast c) OR ucast d)
      = push_bit 16 (ucast b) + (push_bit 8 (ucast c) OR (ucast d :: u32))"
    by (rule or_add, rule bit_word_eqI) (auto simp: bit_simps dest: byte_bits)
  have 3: "push_bit 24 (ucast a) OR (push_bit 16 (ucast b) OR (push_bit 8 (ucast c) OR ucast d))
      = push_bit 24 (ucast a) + (push_bit 16 (ucast b) OR (push_bit 8 (ucast c) OR (ucast d :: u32)))"
    by (rule or_add, rule bit_word_eqI) (auto simp: bit_simps dest: byte_bits)
  have "block_word block t = push_bit 24 (ucast a) OR (push_bit 16 (ucast b) OR (push_bit 8 (ucast c) OR ucast d))"
    by (simp add: block_word_def a_b_c_d_def or.assoc mult.commute)
  also have "\<dots> = push_bit 24 (ucast a) + (push_bit 16 (ucast b) + (push_bit 8 (ucast c) + ucast d))"
    by (subst 3, subst 2, subst 1) (rule refl)
  also have "\<dots> = be_word [a, b, c, d]" by (simp add: be_word_def push_bit_eq_mult algebra_simps)
  finally show ?thesis by (simp add: a_b_c_d_def)
qed

lemma schedule_fips: "t < 64 \<Longrightarrow> schedule block ! t = fips_W block t"
  unfolding schedule_def
proof (rule schedule_nth)
  show "length (foldl (\<lambda>w i. w[i := block_word block i]) (replicate 64 0) [0..<16]) = 64"
    by (subst fill_words_nth(1) [of 0]) simp_all
  show "foldl (\<lambda>w i. w[i := block_word block i]) (replicate 64 0) [0..<16] ! t = fips_W block t" if "t < 16" for t
    using that by (subst fill_words_nth(2)) (simp_all add: fips_W.simps block_word_be)
qed simp_all

lemma rounds_fips: "n \<le> 64 \<Longrightarrow> foldl (sha_round (schedule block)) v [0..<n] = fips_rounds block v n"
proof (induction n)
  case (Suc n)
  then show ?case
    by (simp add: sha_k_fips sha_round_def schedule_fips sigma_fips choose_bits_def majority_def Let_def split: prod.split)
qed simp

lemma transform_fips: "transform st block = fips_compress st block"
  by (simp add: transform_def fips_compress_def rounds_fips Let_def add.commute split: prod.split)

text \<open>Only the first sixty-four bytes count.\<close>

lemma fips_W_prefix: "t < 64 \<Longrightarrow> fips_W (take 64 block) t = fips_W block t"
proof (induction t rule: less_induct)
  case (less t)
  then show ?case by (subst (1 2) fips_W.simps) simp
qed

lemma fips_rounds_prefix: "n \<le> 64 \<Longrightarrow> fips_rounds (take 64 block) v n = fips_rounds block v n"
  by (induction n) (simp_all add: fips_W_prefix)

lemma fips_compress_prefix: "fips_compress st (take 64 block) = fips_compress st block"
  by (simp add: fips_compress_def fips_rounds_prefix)

lemma transform_prefix: "take 64 a = take 64 b \<Longrightarrow> transform st a = transform st b"
  using fips_compress_prefix [of st a] fips_compress_prefix [of st b] by (simp add: transform_fips)

section \<open>Streaming\<close>

lemma transformBlocks_length: "length (snd (transformBlocks st data)) < 64"
  by (induction st data rule: transformBlocks.induct) (subst transformBlocks.simps, auto)

lemma transformBlocks_short [simp]: "length data < 64 \<Longrightarrow> transformBlocks st data = (st, data)"
  by (simp add: transformBlocks.simps)

lemma transformBlocks_block:
  "length block = 64 \<Longrightarrow> transformBlocks st (block @ data) = transformBlocks (transform st block) data"
  using transform_prefix [of "block @ data" block st] by (subst transformBlocks.simps) simp

lemma transformBlocks_append:
  "transformBlocks st (a @ b) = transformBlocks (fst (transformBlocks st a)) (snd (transformBlocks st a) @ b)"
proof (induction st a rule: transformBlocks.induct)
  case (1 st a)
  show ?case
  proof (cases "length a \<ge> 64")
    case True
    then have "take 64 a @ drop 64 a @ b = a @ b" "length (take 64 a) = 64" by simp_all
    then have "transformBlocks st (a @ b) = transformBlocks (transform st (take 64 a)) (drop 64 a @ b)"
      using transformBlocks_block by metis
    also have "transform st (take 64 a) = transform st a" by (rule transform_prefix) simp
    finally show ?thesis using 1 [OF True] True by (simp add: transformBlocks.simps [of st a])
  qed (simp add: transformBlocks.simps [of st a])
qed

lemma transformBlocks_state: "length st = 8 \<Longrightarrow> length (fst (transformBlocks st data)) = 8"
proof (induction st data rule: transformBlocks.induct)
  case (1 st data)
  have "length (transform st data) = 8" by (simp add: transform_def Let_def split: prod.split)
  with 1 show ?case by (subst transformBlocks.simps) simp
qed

text \<open>A hasher has absorbed a message when its state is that of the message's whole blocks and its
  buffer holds the rest.\<close>

definition absorbed :: "Sha256 \<Rightarrow> u8 list \<Rightarrow> bool" where
  "absorbed sha m \<longleftrightarrow>
     length (sha_buffer sha) = 64 \<and> sha_bufferSize sha < 64 \<and> sha_totalBytes sha = of_nat (length m)
     \<and> transformBlocks initialState m = (sha_state sha, take (sha_bufferSize sha) (sha_buffer sha))"

lemma absorbed_init: "absorbed sha_init []"
  by (simp add: absorbed_def sha_init_def)

lemma copy_n_length: "at + n \<le> length buffer \<Longrightarrow> n \<le> length data \<Longrightarrow> length (copy_n data n buffer at) = length buffer"
  by (simp add: copy_n_def)

lemma copy_n_take: "at + n \<le> length buffer \<Longrightarrow> n \<le> length data \<Longrightarrow> take (at + n) (copy_n data n buffer at) = take at buffer @ take n data"
  by (simp add: copy_n_def)

lemma absorb_absorbed:
  assumes "length (sha_buffer sha) = 64" "sha_bufferSize sha = 0" "sha_totalBytes sha = of_nat (length m)"
    "transformBlocks initialState m = transformBlocks (sha_state sha) data"
  shows "absorbed (absorb sha data) m"
proof -
  obtain st r where r: "transformBlocks (sha_state sha) data = (st, r)" by (cases "transformBlocks (sha_state sha) data")
  with transformBlocks_length [of "sha_state sha" data] have "length r < 64" by simp
  with r assms copy_n_take [of 0 "length r" "sha_buffer sha" r] show ?thesis
    by (auto simp: absorb_def absorbed_def copy_n_length)
qed

lemma sha_update_absorbed:
  assumes "absorbed sha m"
  shows "absorbed (sha_update sha data) (m @ data)"
proof (cases "data = []")
  case True
  then show ?thesis using assms by (simp add: sha_update_def)
next
  case False
  let ?b = "sha_buffer sha" and ?n = "sha_bufferSize sha"
  let ?total = "sha_totalBytes sha + of_nat (length data)"
  have inv: "length ?b = 64" "?n < 64" "?total = of_nat (length (m @ data))"
    "transformBlocks initialState m = (sha_state sha, take ?n ?b)"
    using assms by (simp_all add: absorbed_def)
  have all: "transformBlocks initialState (m @ data) = transformBlocks (sha_state sha) (take ?n ?b @ data)"
    using transformBlocks_append [of initialState m data] inv(4) by simp
  show ?thesis
  proof (cases "?n = 0")
    case True
    then have "sha_update sha data = absorb (sha\<lparr>sha_totalBytes := ?total\<rparr>) data"
      using False by (simp add: sha_update_def)
    then show ?thesis using absorb_absorbed [of "sha\<lparr>sha_totalBytes := ?total\<rparr>" "m @ data" data] inv all True by simp
  next
    case nz: False
    define c where "c = min (length data) (64 - ?n)"
    define b where "b = copy_n data c ?b ?n"
    have b: "length b = 64" "take (?n + c) b = take ?n ?b @ take c data"
      using inv copy_n_length [of ?n c ?b data] copy_n_take [of ?n c ?b data] by (simp_all add: b_def c_def)
    show ?thesis
    proof (cases "?n + c < 64")
      case True
      then have "c = length data" by (auto simp: c_def)
      have "sha_update sha data = sha\<lparr>sha_totalBytes := ?total, sha_buffer := b, sha_bufferSize := ?n + c\<rparr>"
        using False nz True inv(1) by (simp add: sha_update_def Let_def c_def [symmetric] b_def [symmetric])
      moreover have "transformBlocks initialState (m @ data) = (sha_state sha, take (?n + c) b)"
        using all b(2) True \<open>c = length data\<close> inv(1) by simp
      ultimately show ?thesis using b inv True by (simp add: absorbed_def)
    next
      case full: False
      then have c: "?n + c = 64" using inv by (auto simp: c_def)
      let ?sha = "sha\<lparr>sha_totalBytes := ?total, sha_state := transform (sha_state sha) b, sha_buffer := b, sha_bufferSize := 0\<rparr>"
      have "sha_update sha data = absorb ?sha (drop c data)"
        using False nz full inv(1) by (simp add: sha_update_def Let_def c_def [symmetric] b_def [symmetric])
      moreover have "take ?n ?b @ data = b @ drop c data"
        using b c by (metis append_assoc append_take_drop_id order_refl take_all)
      then have "transformBlocks initialState (m @ data) = transformBlocks (transform (sha_state sha) b) (drop c data)"
        using all transformBlocks_block [OF b(1)] by simp
      ultimately show ?thesis using absorb_absorbed [of ?sha "m @ data" "drop c data"] b inv by simp
    qed
  qed
qed

section \<open>Padding and digest\<close>

lemma byte_extract: "ucast (drop_bit (i * 8) w AND 0xff) = (of_nat (unat w div 256 ^ i) :: u8)" for w :: "'a::len word"
proof -
  have "ucast (x AND 0xff) = (ucast x :: u8)" for x :: "'a word"
  proof (rule bit_word_eqI)
    fix n assume "n < LENGTH(8)"
    then have "bit (0xff :: 'a word) n \<longleftrightarrow> n < LENGTH('a)"
      using bit_mask_iff [of 8 n, where 'a = "'a word"] by (simp add: mask_eq_exp_minus_1)
    then show "bit (ucast (x AND 0xff) :: u8) n = bit (ucast x :: u8) n"
      by (auto simp: bit_simps dest: bit_imp_le_length)
  qed
  moreover have "unat (drop_bit (i * 8) w) = unat w div 256 ^ i"
    unfolding unat_drop_bit_eq by (simp add: drop_bit_eq_div mult.commute [of i] power_mult)
  ultimately show ?thesis
    by (metis of_nat_unat)
qed

lemma word_bytes_be: "word_bytes s = be_bytes 4 s"
  using byte_extract [of 3 s] byte_extract [of 2 s] byte_extract [of 1 s] byte_extract [of 0 s]
  by (simp add: word_bytes_def be_bytes_def upt_rec)

lemma length_bytes_be: "length_bytes l = be_bytes 8 l"
  using byte_extract [where w = l] by (simp add: length_bytes_def be_bytes_def upt_rec)

lemma transformBlocks_rest: "length (snd (transformBlocks st data)) = length data mod 64"
proof (induction st data rule: transformBlocks.induct)
  case (1 st data)
  then show ?case by (subst transformBlocks.simps) (simp add: le_mod_geq)
qed

lemma fips_hash_blocks: "length m mod 64 = 0 \<Longrightarrow> fips_hash H m = fst (transformBlocks H m)"
proof (induction H m rule: fips_hash.induct)
  case (1 H m)
  show ?case
  proof (cases "m = []")
    case True
    then show ?thesis by (simp add: fips_hash.simps)
  next
    case False
    with 1(2) have l: "length m \<ge> 64" by (cases "length m < 64") auto
    then have "length (drop 64 m) mod 64 = 0" using 1(2) by (simp add: le_mod_geq)
    moreover have "transform H m = fips_compress H (take 64 m)" by (simp add: transform_fips fips_compress_prefix)
    ultimately show ?thesis
      using 1(1) [OF False] False l by (simp add: fips_hash.simps [of H m] transformBlocks.simps [of H m])
  qed
qed

lemma pad_zeros:
  fixes n :: nat
  shows "n < 56 \<Longrightarrow> (119 - n) mod 64 = 55 - n" "56 \<le> n \<Longrightarrow> (119 - n) mod 64 = 119 - n"
proof -
  assume "n < 56"
  then have "119 - n = (55 - n) + 64" by simp
  then show "(119 - n) mod 64 = 55 - n" by (simp only: mod_add_self2) simp
qed simp

lemma sha_final_digest:
  assumes "absorbed sha m"
  shows "sha_final sha = sha256_digest m"
proof -
  define n where "n = sha_bufferSize sha"
  define r where "r = take n (sha_buffer sha)"
  define b where "b = (sha_buffer sha)[n := 0x80]"
  define l where "l = be_bytes 8 (of_nat (8 * length m) :: u64)"
  define z where "z = (119 - n) mod 64"
  have inv: "length (sha_buffer sha) = 64" "n < 64" "transformBlocks initialState m = (sha_state sha, r)" "length r = n"
    using assms by (simp_all add: absorbed_def n_def r_def)
  have len: "length m mod 64 = n" using transformBlocks_rest [of initialState m] inv(3, 4) by simp
  have l: "length_bytes (sha_totalBytes sha * 8) = l" "length l = 8"
    using assms by (simp_all add: length_bytes_be l_def absorbed_def mult.commute be_bytes_def)
  have b: "length b = 64" "take (Suc n) b = r @ [0x80]"
    using inv(1, 2) by (simp_all add: b_def r_def take_Suc_conv_app_nth)
  have pad: "fips_pad m = m @ 0x80 # replicate z 0 @ l" by (simp add: fips_pad_def len z_def l_def)
  have "length (fips_pad m) mod 64 = (length m mod 64 + (z + 9)) mod 64"
    unfolding mod_add_left_eq using l(2) by (simp add: pad add.assoc add.commute [of z])
  moreover have "n + (z + 9) = 64 \<or> n + (z + 9) = 128"
    unfolding z_def using inv(2) by (cases "n < 56") (simp_all add: pad_zeros)
  ultimately have "length (fips_pad m) mod 64 = 0" unfolding len by (elim disjE) (simp_all only:, simp_all)
  then have ref: "fips_hash initialState (fips_pad m) = fst (transformBlocks (sha_state sha) (r @ 0x80 # replicate z 0 @ l))"
    using transformBlocks_append [of initialState m] inv(3) by (simp add: fips_hash_blocks) (simp add: pad)
  have "sha_final sha = concat (map word_bytes (fst (transformBlocks (sha_state sha) (r @ 0x80 # replicate z 0 @ l))))"
  proof (cases "n < 56")
    case True
    then have z: "z = 55 - n" by (simp add: z_def pad_zeros)
    have "56 - n = Suc (55 - n)" using True by simp
    then have "copy_n l 8 (fill_zero (Suc n) 56 b) 56 = r @ 0x80 # replicate z 0 @ l"
      using True b inv(4) l(2) z by (simp add: copy_n_def fill_zero_def)
    moreover have "transformBlocks (sha_state sha) (r @ 0x80 # replicate z 0 @ l) = (transform (sha_state sha) (r @ 0x80 # replicate z 0 @ l), [])"
      using transformBlocks_block [of "r @ 0x80 # replicate z 0 @ l" _ "[]"] True inv(4) l(2) z by simp
    ultimately show ?thesis
      using True by (simp add: sha_final_def Let_def n_def [symmetric] b_def [symmetric] l(1))
  next
    case False
    then have z: "replicate z 0 = replicate (63 - n) 0 @ replicate 56 (0 :: u8)"
      using inv(2) False by (simp add: z_def pad_zeros flip: replicate_add)
    define c where "c = r @ 0x80 # replicate (63 - n) 0"
    have c: "fill_zero (Suc n) 64 b = c" "length c = 64" using False b inv(2, 4) by (simp_all add: fill_zero_def c_def)
    have d: "copy_n l 8 (fill_zero 0 56 c) 56 = replicate 56 0 @ l"
      using c(2) l(2) by (simp add: copy_n_def fill_zero_def)
    have "transformBlocks (sha_state sha) (r @ 0x80 # replicate z 0 @ l) = transformBlocks (transform (sha_state sha) c) (replicate 56 0 @ l)"
      using transformBlocks_block [OF c(2)] by (simp add: z c_def)
    also have "\<dots> = (transform (transform (sha_state sha) c) (replicate 56 0 @ l), [])"
      using transformBlocks_block [of "replicate 56 0 @ l" _ "[]"] l(2) by simp
    finally show ?thesis
      using False c d by (simp add: sha_final_def Let_def n_def [symmetric] b_def [symmetric] l(1))
  qed
  then show ?thesis by (simp add: sha256_digest_def initialState_fips ref word_bytes_be [abs_def])
qed

lemma updates_absorbed: "absorbed sha m \<Longrightarrow> absorbed (foldl sha_update sha pieces) (m @ concat pieces)"
proof (induction pieces arbitrary: sha m)
  case (Cons p ps)
  then show ?case using Cons.IH [OF sha_update_absorbed [OF Cons.prems, of p]] by simp
qed simp

lemma sha256Bytes_digest: "sha256Bytes data = toHex (sha256_digest (bytes_of data))"
  using sha_final_digest [OF sha_update_absorbed [OF absorbed_init]] by (simp add: sha256Bytes_def)

text \<open>
  C33: the streaming hasher computes SHA-256. However the message is cut into pieces, hashing the
  pieces one after the other gives the digest FIPS 180-4 defines for the whole message: padding,
  message schedule and rounds included, for every length. In particular \<open>sha256Bytes\<close> is that digest.
\<close>

theorem sha256_streaming:
  "sha_final (foldl sha_update sha_init pieces) = sha256_digest (concat pieces)
   \<and> sha256Bytes data = toHex (sha256_digest (bytes_of data))"
  using sha_final_digest [OF updates_absorbed [OF absorbed_init, of pieces]] sha256Bytes_digest by simp

section \<open>Digest text\<close>

lemma hexChar_lower: "d < 16 \<Longrightarrow> (CHR ''0'' \<le> hexChar d \<and> hexChar d \<le> CHR ''9'') \<or> (CHR ''a'' \<le> hexChar d \<and> hexChar d \<le> CHR ''f'')"
proof -
  assume "d < 16"
  then have "d \<in> set [0..<16]" by simp
  moreover have "\<forall>d \<in> set [0..<16]. (CHR ''0'' \<le> hexChar d \<and> hexChar d \<le> CHR ''9'') \<or> (CHR ''a'' \<le> hexChar d \<and> hexChar d \<le> CHR ''f'')"
    by (simp add: upt_rec hexChar_def less_eq_char_def)
  ultimately show ?thesis by blast
qed

lemma toHex_lower:
  assumes "length digest = 32"
  shows "isLowerHexSha256 (toHex digest)"
proof -
  have "length (toHex bs) = 2 * length bs" for bs by (induction bs) (simp_all add: toHex_def)
  moreover have "unat (b :: u8) div 16 < 16" for b using unsigned_less [of b, where ?'a = nat] by simp
  ultimately show ?thesis
    using assms by (auto simp: isLowerHexSha256_def toHex_def list_all_iff hexChar_lower)
qed

lemma fips_hash_length: "length H = 8 \<Longrightarrow> length (fips_hash H m) = 8"
proof (induction H m rule: fips_hash.induct)
  case (1 H m)
  then show ?case by (subst fips_hash.simps) (auto simp: fips_compress_def split: prod.split)
qed

lemma sha256_digest_length: "length (sha256_digest m) = 32"
proof -
  have "length (concat (map (be_bytes 4) ws)) = 4 * length ws" for ws :: "u32 list"
    by (induction ws) (simp_all add: be_bytes_def)
  then show ?thesis by (simp add: sha256_digest_def initialState_fips fips_hash_length initialState_def)
qed

lemma sha256Bytes_lower: "isLowerHexSha256 (sha256Bytes data)"
  by (simp add: sha256Bytes_digest toHex_lower sha256_digest_length)

section \<open>Hashing a file\<close>

text \<open>
  What the interface promises of a file with the given contents: \<open>at f = Some p\<close> is an open file at
  position \<open>p\<close>; rewinding works, a read returns the next bytes, at most as many as asked for, and
  none only at the end.
\<close>

definition serves :: "'f seek_op \<Rightarrow> 'f read_op \<Rightarrow> ('f \<Rightarrow> nat option) \<Rightarrow> u8 list \<Rightarrow> bool" where
  "serves seek read at contents \<longleftrightarrow>
     (\<forall>f p. at f = Some p \<longrightarrow> (\<exists>f1. seek f 0 = (Inr (), f1) \<and> at f1 = Some 0))
     \<and> (\<forall>f p n. at f = Some p \<longrightarrow> p \<le> length contents \<longrightarrow> n > 0 \<longrightarrow>
          (\<exists>bytes f1. read f n = (Inr bytes, f1) \<and> length bytes \<le> n \<and> bytes = take (length bytes) (drop p contents)
             \<and> at f1 = Some (p + length bytes) \<and> (bytes = [] \<longrightarrow> p = length contents)))"

lemma rooted_loop:
  assumes "serves seek read at contents" "at f = Some p" "p \<le> length contents" "absorbed sha (take p contents)"
  shows "\<exists>sha' f'. sha256RootedLoop read f sha = Some (Inr sha', f') \<and> absorbed sha' contents \<and> at f' = Some (length contents)"
  using assms(2-4)
proof (induction "length contents - p" arbitrary: f p sha rule: less_induct)
  case less
  have "0 < (65536 :: nat)" by simp
  then obtain bytes f1 where r: "read f 65536 = (Inr bytes, f1)" "bytes = take (length bytes) (drop p contents)"
      "at f1 = Some (p + length bytes)" "bytes = [] \<Longrightarrow> p = length contents"
    using assms(1) less.prems(1, 2) unfolding serves_def by meson
  have le: "p + length bytes \<le> length contents"
    using arg_cong [OF r(2), of length] less.prems(2) by auto
  show ?case
  proof (cases "bytes = []")
    case True
    then show ?thesis using r less.prems by (auto simp: sha256RootedLoop.simps [of read f])
  next
    case False
    then have dec: "length contents - (p + length bytes) < length contents - p" using le by (cases bytes) auto
    have "take p contents @ bytes = take (p + length bytes) contents" using r(2) by (metis take_add)
    then have "absorbed (sha_update sha bytes) (take (p + length bytes) contents)"
      using sha_update_absorbed [OF less.prems(3), of bytes] by simp
    then have "\<exists>sha' f'. sha256RootedLoop read f1 (sha_update sha bytes) = Some (Inr sha', f') \<and> absorbed sha' contents
        \<and> at f' = Some (length contents)"
      using less.hyps [OF dec r(3) le, of "sha_update sha bytes"] by blast
    then show ?thesis using r(1) False by (simp add: sha256RootedLoop.simps [of read f])
  qed
qed

text \<open>
  C34: hashing an open file ends and returns the SHA-256 of its contents, whatever the sizes of the
  single reads; the digest is 64 lower-case hexadecimal digits and the file is rewound.
\<close>

theorem sha256RootedFile_digest:
  assumes "serves seek read at contents" "at f = Some p"
  shows "\<exists>f'. sha256RootedFile seek read f = Some (Inr (toHex (sha256_digest contents)), f') \<and> at f' = Some 0
    \<and> isLowerHexSha256 (toHex (sha256_digest contents))"
proof -
  obtain f1 where f1: "seek f 0 = (Inr (), f1)" "at f1 = Some 0" using assms unfolding serves_def by meson
  obtain sha f2 where f2: "sha256RootedLoop read f1 sha_init = Some (Inr sha, f2)" "absorbed sha contents" "at f2 = Some (length contents)"
    using rooted_loop [OF assms(1) f1(2), of sha_init] absorbed_init by auto
  obtain f3 where "seek f2 0 = (Inr (), f3)" "at f3 = Some 0" using assms(1) f2(3) unfolding serves_def by meson
  with f1 f2 show ?thesis
    by (simp add: sha256RootedFile_def sha_final_digest toHex_lower sha256_digest_length)
qed

text \<open>A file whose reads return at most two bytes at a time.\<close>

definition small_read :: "u8 list \<Rightarrow> nat read_op" where
  "small_read contents p n = (let bytes = take (min n 2) (drop p contents) in (Inr bytes, p + length bytes))"

lemma small_read_serves: "serves (\<lambda>p off. (Inr (), unat off)) (small_read contents) Some contents"
  unfolding serves_def by (auto simp: small_read_def Let_def min_def)

theorem sha256RootedFile_digest_witness:
  "\<exists>f'. sha256RootedFile (\<lambda>p off. (Inr (), unat off)) (small_read [1, 2, 3]) 2 = Some (Inr (toHex (sha256_digest [1, 2, 3])), f')
     \<and> Some f' = Some 0 \<and> isLowerHexSha256 (toHex (sha256_digest [1, 2, 3]))"
  by (rule sha256RootedFile_digest [OF small_read_serves]) simp

end
