(* ===== verification/Json_Fields.thy ===== *)
theory Json_Fields
  imports Json_Roundtrip Json_Limits Managed_Paths Sha256 Rfc3339
begin

text \<open>
  The field readers that \<open>src/Manifest.cpp\<close> and \<open>src/ApplyPlan.cpp\<close> share (both files define the same
  local functions) and the facts about objects built with \<open>emplace\<close> that the round trips need.
\<close>

section \<open>Reading fields\<close>

definition requiredString :: "Json \<Rightarrow> string \<Rightarrow> string result" where
  "requiredString object key =
     (case json_get object key of
        None \<Rightarrow> fail EC_ManifestParseFailed (''Required string field missing: '' @ key)
      | Some v \<Rightarrow>
          if \<not> isString v then fail EC_ManifestParseFailed (''Required string field missing: '' @ key)
          else Inr (asString v))"

definition optionalString :: "Json \<Rightarrow> string \<Rightarrow> string result" where
  "optionalString object key =
     (case json_get object key of
        None \<Rightarrow> Inr []
      | Some v \<Rightarrow>
          if \<not> isString v then fail EC_ManifestParseFailed (''Optional field must be a string: '' @ key)
          else Inr (asString v))"

definition optionalBool :: "Json \<Rightarrow> string \<Rightarrow> bool \<Rightarrow> bool result" where
  "optionalBool object key fallback =
     (case json_get object key of
        None \<Rightarrow> Inr fallback
      | Some v \<Rightarrow>
          if \<not> isBool v then fail EC_ManifestParseFailed (''Optional field must be a boolean: '' @ key)
          else Inr (asBool v False))"

definition validateOptionalTimestamp :: "Json \<Rightarrow> string \<Rightarrow> unit result" where
  "validateOptionalTimestamp object key =
     (case json_get object key of
        None \<Rightarrow> Inr ()
      | Some v \<Rightarrow>
          if \<not> isString v \<or> asString v = [] \<or> \<not> is_ok (parseRfc3339 (asString v))
          then fail EC_ManifestParseFailed (key @ '' must use the documented RFC 3339 timestamp profile'')
          else Inr ())"

fun checkKeys :: "(string \<times> Json) list \<Rightarrow> string list \<Rightarrow> string \<Rightarrow> unit result" where
  "checkKeys [] allowedKeys context = Inr ()"
| "checkKeys ((key, v) # m) allowedKeys context =
     (if key \<notin> set allowedKeys then fail EC_ManifestParseFailed (context @ '' contains unknown field: '' @ key)
      else checkKeys m allowedKeys context)"

definition requireOnlyKeys :: "Json \<Rightarrow> string list \<Rightarrow> string \<Rightarrow> unit result" where
  "requireOnlyKeys object allowedKeys context = checkKeys (asObject object) allowedKeys context"

definition isNonNegativeInteger :: "Json \<Rightarrow> bool" where
  "isNonNegativeInteger v \<longleftrightarrow> isUnsignedInteger v \<or> (isSignedInteger v \<and> asInt64 v (- 1) \<ge> 0)"

definition portableSourceKey :: "string \<Rightarrow> string" where
  "portableSourceKey path = map (\<lambda>c. if c = slash then nul else lower_char c) path"

text \<open>The map \<open>sourceEvidence\<close> from source keys to digest and size.\<close>

type_synonym evidence = "(string \<times> string \<times> u64) list"

fun scanSources :: "string \<Rightarrow> string list \<Rightarrow> unit result" where
  "scanSources message (previous # current # keys) =
     (if neighbour_ancestor nul previous current then fail EC_ManifestParseFailed message
      else scanSources message (current # keys))"
| "scanSources message _ = Inr ()"

definition validateSourceTopology :: "string \<Rightarrow> evidence \<Rightarrow> unit result" where
  "validateSourceTopology message sourceEvidence = scanSources message (map fst sourceEvidence)"

text \<open>Looking a source up in the evidence, adding it when it is new.\<close>

definition recordEvidence :: "string \<Rightarrow> evidence \<Rightarrow> string \<Rightarrow> string \<Rightarrow> u64 \<Rightarrow> evidence result" where
  "recordEvidence message sourceEvidence source sha256 bytes =
     (let sourceKey = portableSourceKey source
      in case map_of sourceEvidence sourceKey of
           None \<Rightarrow> Inr (object_emplace sourceKey (sha256, bytes) sourceEvidence)
         | Some (sha, n) \<Rightarrow> if sha \<noteq> sha256 \<or> n \<noteq> bytes then fail EC_ManifestParseFailed message else Inr sourceEvidence)"

definition optionalVersion :: "Json \<Rightarrow> string \<Rightarrow> Version option result" where
  "optionalVersion object key =
     (case json_get object key of
        None \<Rightarrow> Inr None
      | Some v \<Rightarrow>
          if isNull v then Inr None
          else if \<not> isString v then fail EC_ManifestParseFailed (''Version field must be string: '' @ key)
          else bindr (version_parse (asString v)) (\<lambda>parsed. Inr (Some parsed)))"

definition addString :: "(string \<times> Json) list \<Rightarrow> string \<Rightarrow> string \<Rightarrow> (string \<times> Json) list" where
  "addString object key v = (if v \<noteq> [] then object_emplace key (JString v) object else object)"

section \<open>Objects built with emplace\<close>

definition keyed :: "(string \<times> 'v) list \<Rightarrow> bool" where
  "keyed m \<longleftrightarrow> sorted (map fst m) \<and> distinct (map fst m)"

lemma keyed_Nil [simp]: "keyed []" "keyed [x]"
  by (simp_all add: keyed_def)

lemma emplace_present: "map_of m k = Some w \<Longrightarrow> keyed m \<Longrightarrow> object_emplace k v m = m"
proof (induction k v m rule: object_emplace.induct)
  case (2 key v k w' m)
  show ?case
  proof (cases "key = k")
    case False
    with 2(2) have "map_of m key = Some w" by simp
    moreover from this have "k < key"
      using 2(3) False by (auto simp: keyed_def order_less_le dest!: map_of_SomeD)
    ultimately show ?thesis using 2(1, 3) False by (simp add: keyed_def)
  qed simp
qed simp

lemma keyed_emplace [simp]: "keyed m \<Longrightarrow> keyed (object_emplace k v m)"
proof (cases "map_of m k")
  case (Some w)
  then show "keyed m \<Longrightarrow> ?thesis" by (simp add: emplace_present)
next
  case None
  then show "keyed m \<Longrightarrow> ?thesis"
  proof (induction k v m rule: object_emplace.induct)
    case (2 key v k w m)
    then show ?case
      by (auto simp: keyed_def emplace_keys [simplified] not_less order_le_less split: if_splits)
  qed (simp add: keyed_def)
qed

lemma map_of_emplace [simp]:
  "keyed m \<Longrightarrow> map_of (object_emplace k v m) k' = (if k' = k then Some (case map_of m k of None \<Rightarrow> v | Some w \<Rightarrow> w) else map_of m k')"
proof (cases "map_of m k")
  case None
  then show "keyed m \<Longrightarrow> ?thesis"
    by (induction k v m rule: object_emplace.induct) (auto simp: keyed_def)
qed (auto simp: emplace_present)

lemma list_all_emplace: "list_all P m \<Longrightarrow> P (k, v) \<Longrightarrow> list_all P (object_emplace k v m)"
  by (induction k v m rule: object_emplace.induct) auto

lemma keyed_addString [simp]: "keyed m \<Longrightarrow> keyed (addString m k v)"
  by (simp add: addString_def)

lemma map_of_addString [simp]:
  "keyed m \<Longrightarrow> map_of (addString m k v) k' =
     (if k' = k \<and> v \<noteq> [] then Some (case map_of m k of None \<Rightarrow> JString v | Some w \<Rightarrow> w) else map_of m k')"
  by (simp add: addString_def)

lemma list_all_addString: "list_all P m \<Longrightarrow> P (k, JString v) \<Longrightarrow> list_all P (addString m k v)"
  by (simp add: addString_def list_all_emplace)

lemma keys_emplace: "fst ` set (object_emplace k v m) = insert k (fst ` set m)"
  using emplace_keys [of k v m] by simp

lemma emplace_keys_le: "fst ` set (object_emplace k v m) \<subseteq> insert k (fst ` set m)"
  by (simp add: keys_emplace)

lemma addString_keys: "fst ` set (addString m k v) = (if v = [] then fst ` set m else insert k (fst ` set m))"
  by (simp add: addString_def keys_emplace)

lemma addString_keys_le: "fst ` set (addString m k v) \<subseteq> insert k (fst ` set m)"
  by (auto simp: addString_keys)

lemma checkKeys_ok: "checkKeys m allowed context = Inr () \<longleftrightarrow> fst ` set m \<subseteq> set allowed"
  by (induction m) (auto split: if_splits)

lemma requireOnlyKeys_ok: "requireOnlyKeys (JObject m) allowed context = Inr () \<longleftrightarrow> fst ` set m \<subseteq> set allowed"
  by (simp add: requireOnlyKeys_def asObject_def checkKeys_ok)

lemma json_get_object [simp]: "json_get (JObject m) k = map_of m k"
  by (simp add: json_get_def)

lemma storable_object: "keyed m \<Longrightarrow> list_all (\<lambda>kv. storable (snd kv)) m \<Longrightarrow> storable (JObject m)"
  by (simp add: keyed_def)

section \<open>Fields of a value that was printed and read back\<close>

lemma json_get_settle: "json_get (settle v) k = map_option settle (json_get v k)"
proof (cases v)
  case (JObject m)
  show ?thesis unfolding JObject by (induction m) auto
qed (auto simp: json_get_def)

lemma settle_kind [simp]: "isString (settle v) = isString v" "isBool (settle v) = isBool v" "isNull (settle v) = isNull v"
  "isObject (settle v) = isObject v" "isArray (settle v) = isArray v" "asString (settle v) = asString v"
  "asBool (settle v) b = asBool v b" "asArray (settle v) = map settle (asArray v)"
  "isNonNegativeInteger (settle v) = isNonNegativeInteger v"
  by (cases v; simp add: isString_def isBool_def isNull_def isObject_def isArray_def asString_def asBool_def asArray_def
      isNonNegativeInteger_def isUnsignedInteger_def isSignedInteger_def asInt64_def)+

lemma asUInt64_settle [simp]: "asUInt64 (settle v) b = asUInt64 v b"
  by (cases v) (simp_all add: asUInt64_def)

lemma fields_settle [simp]:
  "requiredString (settle v) k = requiredString v k" "optionalString (settle v) k = optionalString v k"
  "optionalBool (settle v) k b = optionalBool v k b"
  "validateOptionalTimestamp (settle v) k = validateOptionalTimestamp v k" "optionalVersion (settle v) k = optionalVersion v k"
  by (simp_all add: requiredString_def optionalString_def optionalBool_def validateOptionalTimestamp_def optionalVersion_def
      json_get_settle split: option.split)

lemma requireOnlyKeys_settle [simp]: "requireOnlyKeys (settle v) allowed context = requireOnlyKeys v allowed context"
proof (cases v)
  case (JObject m)
  show ?thesis
    unfolding JObject requireOnlyKeys_def asObject_def by (simp, induction m) auto
qed (simp_all add: requireOnlyKeys_def asObject_def)

section \<open>Evidence of shared sources\<close>

type_synonym source = "string \<times> string \<times> u64"

definition consistent_sources :: "source list \<Rightarrow> bool" where
  "consistent_sources ts \<longleftrightarrow>
     (\<forall>t \<in> set ts. \<forall>u \<in> set ts. portableSourceKey (fst t) = portableSourceKey (fst u) \<longrightarrow> snd t = snd u)"

definition separate_sources :: "source list \<Rightarrow> bool" where
  "separate_sources ts \<longleftrightarrow>
     (\<forall>t \<in> set ts. \<forall>u \<in> set ts. \<not> key_ancestor nul (portableSourceKey (fst t)) (portableSourceKey (fst u)))"

definition evidence_for :: "source list \<Rightarrow> evidence \<Rightarrow> bool" where
  "evidence_for ts ev \<longleftrightarrow> keyed ev \<and> set ev = (\<lambda>t. (portableSourceKey (fst t), snd t)) ` set ts"

lemma evidence_for_Nil [simp]: "evidence_for [] []"
  by (simp add: evidence_for_def)

lemma emplace_set: "map_of m k = None \<Longrightarrow> set (object_emplace k v m) = insert (k, v) (set m)"
  by (induction k v m rule: object_emplace.induct) auto

lemma recordEvidence_sound:
  assumes "evidence_for ts ev" "recordEvidence message ev src sha n = Inr ev'"
  shows "evidence_for (ts @ [(src, sha, n)]) ev'"
proof (cases "map_of ev (portableSourceKey src)")
  case None
  with assms have "ev' = object_emplace (portableSourceKey src) (sha, n) ev" by (simp add: recordEvidence_def)
  with None assms(1) show ?thesis by (simp add: evidence_for_def emplace_set)
next
  case (Some e)
  then have "(portableSourceKey src, e) \<in> set ev" by (rule map_of_SomeD)
  moreover have "e = (sha, n)" "ev' = ev" using assms(2) Some by (cases e; auto simp: recordEvidence_def split: if_splits)+
  ultimately show ?thesis using assms(1) by (auto simp: evidence_for_def)
qed

lemma evidence_consistent: "evidence_for ts ev \<Longrightarrow> consistent_sources ts"
  unfolding consistent_sources_def evidence_for_def keyed_def
  by (metis (no_types, lifting) eq_key_imp_eq_value image_eqI)

lemma recordEvidence_complete:
  assumes "evidence_for ts ev" "consistent_sources (ts @ [(src, sha, n)])"
  shows "\<exists>ev'. recordEvidence message ev src sha n = Inr ev'"
proof (cases "map_of ev (portableSourceKey src)")
  case (Some e)
  then have "(portableSourceKey src, e) \<in> set ev" by (rule map_of_SomeD)
  then obtain t where "t \<in> set ts" "portableSourceKey (fst t) = portableSourceKey src" "snd t = e"
    using assms(1) by (auto simp: evidence_for_def)
  then have "e = (sha, n)"
    using assms(2) [unfolded consistent_sources_def, rule_format, of t "(src, sha, n)"] by simp
  with Some show ?thesis by (simp add: recordEvidence_def)
qed (simp add: recordEvidence_def)

lemma scanSources_adjacent: "distinct ks \<Longrightarrow> scanSources message ks = Inr () \<longleftrightarrow> adjacent_ok nul ks"
  by (induction message ks rule: scanSources.induct) auto

lemma validateSourceTopology_iff:
  assumes "evidence_for ts ev"
  shows "validateSourceTopology message ev = Inr () \<longleftrightarrow> separate_sources ts"
proof -
  have k: "sorted (map fst ev)" "distinct (map fst ev)" using assms by (auto simp: evidence_for_def keyed_def)
  have s: "set (map fst ev) = (\<lambda>t. portableSourceKey (fst t)) ` set ts"
    using assms by (simp add: evidence_for_def image_image)
  have "adjacent_ok nul (map fst ev) \<longleftrightarrow> (\<forall>a \<in> set (map fst ev). \<forall>b \<in> set (map fst ev). \<not> key_ancestor nul a b)"
    using adjacent_ok_sound [OF nul_least k(1)] adjacent_ok_complete [OF k(2)] by blast
  then show ?thesis unfolding s by (simp add: validateSourceTopology_def scanSources_adjacent k(2) separate_sources_def)
qed

end
