(* ===== verification/Apply_Plans.thy ===== *)
theory Apply_Plans
  imports Json_Fields
begin

text \<open>
  \<open>src/ApplyPlan.cpp\<close>: reading and writing \<open>apply-plan.json\<close>, the contract between the library and the
  external updater. File system paths are their generic UTF-8 text, so \<open>pathFromUtf8\<close> and
  \<open>pathToUtf8\<close> are the identity.
\<close>

section \<open>Reading\<close>

definition hasEmbeddedNul :: "string \<Rightarrow> bool" where
  "hasEmbeddedNul v \<longleftrightarrow> nul \<in> set v"

definition opToString :: "ApplyOperationType \<Rightarrow> string" where
  "opToString t = (if t = Replace then ''replace'' else ''remove'')"

definition intentToString :: "ApplyPlanIntent \<Rightarrow> string" where
  "intentToString i = (if i = Rollback then ''rollback'' else ''install'')"

definition intentFromString :: "string \<Rightarrow> ApplyPlanIntent result" where
  "intentFromString t =
     (if t = ''install'' then Inr Install
      else if t = ''rollback'' then Inr Rollback
      else fail EC_ManifestParseFailed ''Unknown apply plan intent'')"

definition opFromString :: "string \<Rightarrow> ApplyOperationType result" where
  "opFromString t =
     (if t = ''replace'' then Inr Replace
      else if t = ''remove'' then Inr Remove
      else fail EC_ManifestParseFailed ''Unknown apply operation type'')"

definition operationSize :: "Json \<Rightarrow> ResourceLimits \<Rightarrow> bool \<Rightarrow> u64 result" where
  "operationSize object limits required =
     (case json_get object ''size'' of
        None \<Rightarrow> if \<not> required then Inr 0 else fail EC_ManifestParseFailed ''operation size is required''
      | Some v \<Rightarrow>
          if \<not> isNonNegativeInteger v then fail EC_ManifestParseFailed ''operation size must be a non-negative integer''
          else if asUInt64 v 0 > maxArtifactBytes limits
          then fail EC_ResourceLimitExceeded ''Apply operation exceeds the artifact byte limit''
          else Inr (asUInt64 v 0))"

definition kPortablePermissionMask :: u64 where
  "kPortablePermissionMask = 0x1FF"

definition operationPermissions :: "Json \<Rightarrow> int \<Rightarrow> u32 option result" where
  "operationPermissions object schemaVersion =
     (case json_get object ''permissions'' of
        None \<Rightarrow> Inr None
      | Some v \<Rightarrow>
          if schemaVersion < 2
          then fail EC_ManifestParseFailed ''operation permissions require apply plan schemaVersion 2''
          else if \<not> isNonNegativeInteger v
          then fail EC_ManifestParseFailed ''operation permissions must be a non-negative integer''
          else if asUInt64 v 0 > kPortablePermissionMask
          then fail EC_ManifestParseFailed ''operation permissions must be portable rwx bits''
          else Inr (Some (ucast (asUInt64 v 0))))"

definition missing_precondition :: ApplyOperationPrecondition where
  "missing_precondition = \<lparr>pre_exists = False, pre_size = 0, pre_sha256 = [], pre_permissions = None\<rparr>"

definition operationPrecondition :: "Json \<Rightarrow> int \<Rightarrow> ResourceLimits \<Rightarrow> ApplyOperationPrecondition option result" where
  "operationPrecondition object schemaVersion limits =
     (case json_get object ''precondition'' of
        None \<Rightarrow> Inr None
      | Some v \<Rightarrow>
          if schemaVersion < 2 \<or> \<not> isObject v
          then fail EC_ManifestParseFailed ''operation precondition requires a schemaVersion 2 object''
          else
            bindr (requireOnlyKeys v [''exists'', ''size'', ''sha256'', ''permissions''] ''Apply operation precondition'') (\<lambda>_.
            (case json_get v ''exists'' of
               None \<Rightarrow> fail EC_ManifestParseFailed ''operation precondition exists flag is required''
             | Some e \<Rightarrow>
                 if \<not> isBool e then fail EC_ManifestParseFailed ''operation precondition exists flag is required''
                 else if \<not> asBool e False
                 then (if json_contains v ''size'' \<or> json_contains v ''sha256'' \<or> json_contains v ''permissions''
                       then fail EC_ManifestParseFailed ''missing-file preconditions cannot contain file evidence''
                       else Inr (Some missing_precondition))
                 else
                   (case (json_get v ''size'', json_get v ''sha256'') of
                      (Some _, Some sha256) \<Rightarrow>
                        if \<not> isString sha256 \<or> \<not> isLowerHexSha256 (asString sha256)
                        then fail EC_ManifestParseFailed ''existing-file precondition evidence is invalid''
                        else
                          bindr (operationSize v limits True) (\<lambda>parsedSize.
                          bindr (operationPermissions v schemaVersion) (\<lambda>parsedPermissions.
                            Inr (Some \<lparr>pre_exists = True, pre_size = parsedSize, pre_sha256 = asString sha256,
                                      pre_permissions = parsedPermissions\<rparr>)))
                    | _ \<Rightarrow> fail EC_ManifestParseFailed ''existing-file precondition evidence is invalid''))))"

text \<open>The transaction intent: \<open>intent\<close> and \<open>rollbackOf\<close>.\<close>

definition readRollbackOf :: "Json \<Rightarrow> ApplyTransactionReference result" where
  "readRollbackOf rollbackOf =
     bindr (requireOnlyKeys rollbackOf [''transactionId'', ''planDigest''] ''Apply rollback reference'') (\<lambda>_.
     bindr (requiredString rollbackOf ''transactionId'') (\<lambda>transactionId.
     bindr (requiredString rollbackOf ''planDigest'') (\<lambda>planDigest.
       if \<not> isLowerHexSha256 transactionId \<or> \<not> isLowerHexSha256 planDigest
       then fail EC_ManifestParseFailed ''Rollback transaction reference is invalid''
       else Inr \<lparr>ref_transactionId = transactionId, ref_planDigest = planDigest\<rparr>)))"

definition readIntent :: "Json \<Rightarrow> int \<Rightarrow> (ApplyPlanIntent \<times> ApplyTransactionReference option) result" where
  "readIntent json schemaVersion =
     (if schemaVersion = 1
      then (if json_contains json ''intent'' \<or> json_contains json ''rollbackOf''
            then fail EC_ManifestParseFailed ''Apply plan schemaVersion 1 cannot contain transaction intent''
            else Inr (Install, None))
      else
        (case json_get json ''intent'' of
           None \<Rightarrow> fail EC_ManifestParseFailed ''Apply plan intent is required''
         | Some intent \<Rightarrow>
             if \<not> isString intent then fail EC_ManifestParseFailed ''Apply plan intent is required''
             else
               bindr (intentFromString (asString intent)) (\<lambda>parsedIntent.
                 if parsedIntent = Rollback
                 then (case json_get json ''rollbackOf'' of
                         None \<Rightarrow> fail EC_ManifestParseFailed ''Rollback plans require rollbackOf''
                       | Some rollbackOf \<Rightarrow>
                           if \<not> isObject rollbackOf then fail EC_ManifestParseFailed ''Rollback plans require rollbackOf''
                           else bindr (readRollbackOf rollbackOf) (\<lambda>reference. Inr (Rollback, Some reference)))
                 else if json_contains json ''rollbackOf''
                 then fail EC_ManifestParseFailed ''Install plans cannot contain rollbackOf''
                 else Inr (Install, None))))"

fun readRestart :: "Json list \<Rightarrow> string list result" where
  "readRestart [] = Inr []"
| "readRestart (item # items) =
     (if \<not> isString item \<or> hasEmbeddedNul (asString item)
      then fail EC_ManifestParseFailed ''restartCommand items must be NUL-free strings''
      else bindr (readRestart items) (\<lambda>args. Inr (asString item # args)))"

definition readRestartCommand :: "Json \<Rightarrow> string list result" where
  "readRestartCommand json =
     (case json_get json ''restartCommand'' of
        None \<Rightarrow> Inr []
      | Some restart \<Rightarrow>
          if \<not> isArray restart then fail EC_ManifestParseFailed ''restartCommand must be an array''
          else bindr (readRestart (asArray restart)) (\<lambda>args.
            if args \<noteq> [] \<and> hd args = [] then fail EC_ManifestParseFailed ''restartCommand executable must not be empty''
            else Inr args))"

text \<open>The scalar fields up to \<open>backupDir\<close>.\<close>

definition readPlanFields :: "Json \<Rightarrow> ApplyPlan \<Rightarrow> ApplyPlan result" where
  "readPlanFields json plan =
     bindr (optionalString json ''appId'') (\<lambda>appId.
     bindr (optionalString json ''fromVersion'') (\<lambda>fromVersion.
     bindr (optionalString json ''toVersion'') (\<lambda>toVersion.
     bindr (optionalString json ''releaseId'') (\<lambda>releaseId.
     bindr (optionalString json ''manifestSha256'') (\<lambda>manifestSha256.
       if fromVersion \<noteq> [] \<and> \<not> is_ok (version_parse fromVersion)
       then fail EC_ManifestParseFailed ''Apply plan fromVersion is invalid''
       else if toVersion \<noteq> [] \<and> \<not> is_ok (version_parse toVersion)
       then fail EC_ManifestParseFailed ''Apply plan toVersion is invalid''
       else if manifestSha256 \<noteq> [] \<and> \<not> isLowerHexSha256 manifestSha256
       then fail EC_ManifestParseFailed ''Apply plan manifestSha256 is invalid''
       else
         bindr (requiredString json ''installDir'') (\<lambda>installDir.
         bindr (requiredString json ''stagingDir'') (\<lambda>stagingDir.
         bindr (requiredString json ''backupDir'') (\<lambda>backupDir.
           if installDir = [] \<or> stagingDir = [] \<or> backupDir = [] \<or> hasEmbeddedNul installDir \<or> hasEmbeddedNul stagingDir
              \<or> hasEmbeddedNul backupDir
           then fail EC_ManifestParseFailed ''Apply plan paths must be non-empty and contain no NUL''
           else Inr (plan\<lparr>ap_appId := appId, ap_fromVersion := fromVersion, ap_toVersion := toVersion, ap_releaseId := releaseId,
                       ap_manifestSha256 := manifestSha256, ap_installDir := installDir, ap_stagingDir := stagingDir,
                       ap_backupDir := backupDir\<rparr>)))))))))"

text \<open>One operation: its fields, then its checks against the operations before it.\<close>

definition readReplaceFields :: "Json \<Rightarrow> (string \<times> string) result" where
  "readReplaceFields item =
     bindr (requiredString item ''source'') (\<lambda>source.
     bindr (requiredString item ''sha256'') (\<lambda>sha256.
       if \<not> isLowerHexSha256 sha256
       then fail EC_ManifestParseFailed ''Replace operation sha256 must be a lowercase SHA-256 digest''
       else Inr (source, sha256)))"

definition readOperation :: "int \<Rightarrow> ResourceLimits \<Rightarrow> Json \<Rightarrow> ApplyOperation result" where
  "readOperation schemaVersion limits item =
     (if \<not> isObject item then fail EC_ManifestParseFailed ''operation must be object''
      else
        bindr (requiredString item ''type'') (\<lambda>typeText.
        bindr (opFromString typeText) (\<lambda>type.
        bindr (requireOnlyKeys item
                 (if schemaVersion = 1 then [''type'', ''source'', ''target'', ''sha256'', ''size'']
                  else [''type'', ''source'', ''target'', ''sha256'', ''size'', ''permissions'', ''precondition''])
                 ''Apply operation'') (\<lambda>_.
        bindr (requiredString item ''target'') (\<lambda>target.
        bindr (if type = Replace then readReplaceFields item
               else if json_contains item ''source'' \<or> json_contains item ''sha256''
               then fail EC_ManifestParseFailed ''Remove operations cannot specify source or sha256''
               else Inr ([], [])) (\<lambda>(source, sha256).
        bindr (operationSize item limits (type = Replace)) (\<lambda>bytes.
          if type = Remove \<and> bytes \<noteq> 0 then fail EC_ManifestParseFailed ''Remove operation size must be zero''
          else
            bindr (operationPermissions item schemaVersion) (\<lambda>permissions.
            bindr (operationPrecondition item schemaVersion limits) (\<lambda>precondition.
              Inr \<lparr>op_type = type, op_source = source, op_target = target, op_sha256 = sha256, op_size = bytes,
                   op_permissions = permissions, op_precondition = precondition\<rparr>)))))))))"

record op_progress =
  opp_total :: u64
  opp_evidence :: evidence
  opp_operations :: "ApplyOperation list"

definition acceptOperation :: "ResourceLimits \<Rightarrow> ApplyOperation \<Rightarrow> op_progress \<Rightarrow> op_progress result" where
  "acceptOperation limits op p =
     bindr (validateManagedTargetPath (op_target op)) (\<lambda>_.
       if op_type op = Replace
       then
         bindr (validateManagedPath (op_source op)) (\<lambda>_.
         bindr (recordEvidence ''Shared apply sources must use identical size and SHA-256 evidence''
                  (opp_evidence p) (op_source op) (op_sha256 op) (op_size op)) (\<lambda>sourceEvidence.
           (case checkedAdd (opp_total p) (op_size op) of
              None \<Rightarrow> fail EC_ResourceLimitExceeded ''Apply operations exceed the total artifact byte limit''
            | Some updatedTotal \<Rightarrow>
                if updatedTotal > maxTotalArtifactBytes limits
                then fail EC_ResourceLimitExceeded ''Apply operations exceed the total artifact byte limit''
                else Inr \<lparr>opp_total = updatedTotal, opp_evidence = sourceEvidence, opp_operations = opp_operations p @ [op]\<rparr>)))
       else if op_permissions op \<noteq> None
       then fail EC_ManifestParseFailed ''Remove operations cannot specify permissions''
       else Inr (p\<lparr>opp_operations := opp_operations p @ [op]\<rparr>))"

fun readOperations :: "int \<Rightarrow> ResourceLimits \<Rightarrow> Json list \<Rightarrow> op_progress \<Rightarrow> op_progress result" where
  "readOperations schemaVersion limits [] p = Inr p"
| "readOperations schemaVersion limits (item # items) p =
     bindr (readOperation schemaVersion limits item) (\<lambda>op.
     bindr (acceptOperation limits op p) (\<lambda>p'. readOperations schemaVersion limits items p'))"

definition planKeys :: "int \<Rightarrow> string list" where
  "planKeys schemaVersion =
     (if schemaVersion = 1
      then [''schemaVersion'', ''appId'', ''fromVersion'', ''toVersion'', ''releaseId'', ''manifestSha256'', ''installDir'',
            ''stagingDir'', ''backupDir'', ''restartCommand'', ''operations'']
      else [''schemaVersion'', ''intent'', ''rollbackOf'', ''appId'', ''fromVersion'', ''toVersion'', ''releaseId'',
            ''manifestSha256'', ''installDir'', ''stagingDir'', ''backupDir'', ''restartCommand'', ''operations''])"

definition empty_plan :: ApplyPlan where
  "empty_plan = \<lparr>ap_schemaVersion = 2, ap_intent = Install, ap_rollbackOf = None, ap_appId = [], ap_fromVersion = [],
     ap_toVersion = [], ap_releaseId = [], ap_manifestSha256 = [], ap_installDir = [], ap_stagingDir = [], ap_backupDir = [],
     ap_restartCommand = [], ap_operations = []\<rparr>"

definition readSchema :: "Json \<Rightarrow> int result" where
  "readSchema json =
     (case json_get json ''schemaVersion'' of
        None \<Rightarrow> fail EC_UnsupportedManifestSchema ''Unsupported apply plan schemaVersion''
      | Some schema \<Rightarrow>
          if \<not> isNonNegativeInteger schema \<or> (asUInt64 schema 0 \<noteq> 1 \<and> asUInt64 schema 0 \<noteq> 2)
          then fail EC_UnsupportedManifestSchema ''Unsupported apply plan schemaVersion''
          else Inr (uint (asUInt64 schema 0)))"

definition readOperationItems :: "Json \<Rightarrow> Json list result" where
  "readOperationItems json =
     (case json_get json ''operations'' of
        None \<Rightarrow> fail EC_ManifestParseFailed ''operations array is required''
      | Some operations \<Rightarrow>
          if \<not> isArray operations then fail EC_ManifestParseFailed ''operations array is required''
          else Inr (asArray operations))"

definition readPlan :: "Json \<Rightarrow> ResourceLimits \<Rightarrow> ApplyPlan result" where
  "readPlan json limits =
     (if \<not> isObject json then fail EC_ManifestParseFailed ''Apply plan root must be object''
      else
        bindr (readSchema json) (\<lambda>schemaVersion.
        bindr (requireOnlyKeys json (planKeys schemaVersion) ''Apply plan'') (\<lambda>_.
        bindr (readIntent json schemaVersion) (\<lambda>(intent, rollbackOf).
        bindr (readPlanFields json (empty_plan\<lparr>ap_schemaVersion := schemaVersion, ap_intent := intent, ap_rollbackOf := rollbackOf\<rparr>)) (\<lambda>plan.
        bindr (readRestartCommand json) (\<lambda>restart.
        bindr (readOperationItems json) (\<lambda>items.
        bindr (readOperations schemaVersion limits items \<lparr>opp_total = 0, opp_evidence = [], opp_operations = []\<rparr>) (\<lambda>p.
        bindr (validateSourceTopology ''Apply source paths have an ancestor/descendant conflict'' (opp_evidence p)) (\<lambda>_.
        bindr (validateManagedTargetPaths (map op_target (opp_operations p))) (\<lambda>_.
          Inr (plan\<lparr>ap_restartCommand := restart, ap_operations := opp_operations p\<rparr>)))))))))))"

definition plan_parse :: "string \<Rightarrow> ResourceLimits \<Rightarrow> ApplyPlan result" where
  "plan_parse jsonText limits =
     (if length jsonText > unat (maxApplyPlanBytes limits)
      then fail EC_ResourceLimitExceeded ''Apply plan exceeds its byte limit''
      else bindr (json_result jsonText (limits_json limits)) (\<lambda>json. readPlan json limits))"

section \<open>Writing\<close>

definition addPermissions :: "(string \<times> Json) list \<Rightarrow> u32 option \<Rightarrow> (string \<times> Json) list" where
  "addPermissions object permissions =
     (case permissions of None \<Rightarrow> object | Some bits \<Rightarrow> object_emplace ''permissions'' (JUInt (ucast bits)) object)"

definition preconditionJson :: "ApplyOperationPrecondition \<Rightarrow> Json" where
  "preconditionJson c =
     (let o1 = object_emplace ''exists'' (JBool (pre_exists c)) []
      in JObject (if pre_exists c
           then addPermissions (object_emplace ''sha256'' (JString (pre_sha256 c)) (object_emplace ''size'' (JUInt (pre_size c)) o1))
                  (pre_permissions c)
           else o1))"

definition addPrecondition :: "(string \<times> Json) list \<Rightarrow> ApplyOperationPrecondition option \<Rightarrow> (string \<times> Json) list" where
  "addPrecondition object precondition =
     (case precondition of None \<Rightarrow> object | Some c \<Rightarrow> object_emplace ''precondition'' (preconditionJson c) object)"

definition operationJson :: "int \<Rightarrow> ApplyOperation \<Rightarrow> Json" where
  "operationJson schemaVersion operation =
     (let i1 = object_emplace ''type'' (JString (opToString (op_type operation))) [];
          i2 = addString i1 ''source'' (op_source operation);
          i3 = object_emplace ''target'' (JString (op_target operation)) i2;
          i4 = addString i3 ''sha256'' (op_sha256 operation);
          i5 = object_emplace ''size'' (JUInt (op_size operation)) i4;
          i6 = (if schemaVersion \<ge> 2 then addPermissions i5 (op_permissions operation) else i5);
          i7 = (if schemaVersion \<ge> 2 then addPrecondition i6 (op_precondition operation) else i6)
      in JObject i7)"

definition referenceJson :: "ApplyTransactionReference \<Rightarrow> Json" where
  "referenceJson reference =
     JObject (object_emplace ''planDigest'' (JString (ref_planDigest reference))
       (object_emplace ''transactionId'' (JString (ref_transactionId reference)) []))"

definition addIntent :: "(string \<times> Json) list \<Rightarrow> ApplyPlan \<Rightarrow> (string \<times> Json) list" where
  "addIntent root plan =
     (if ap_schemaVersion plan \<ge> 2
      then (let r = object_emplace ''intent'' (JString (intentToString (ap_intent plan))) root
            in case ap_rollbackOf plan of None \<Rightarrow> r | Some reference \<Rightarrow> object_emplace ''rollbackOf'' (referenceJson reference) r)
      else root)"

definition planJson :: "ApplyPlan \<Rightarrow> Json" where
  "planJson plan =
     (let r1 = object_emplace ''schemaVersion'' (JInt (ap_schemaVersion plan)) [];
          r2 = addIntent r1 plan;
          r3 = addString r2 ''appId'' (ap_appId plan);
          r4 = addString r3 ''fromVersion'' (ap_fromVersion plan);
          r5 = addString r4 ''toVersion'' (ap_toVersion plan);
          r6 = addString r5 ''releaseId'' (ap_releaseId plan);
          r7 = addString r6 ''manifestSha256'' (ap_manifestSha256 plan);
          r8 = object_emplace ''installDir'' (JString (ap_installDir plan)) r7;
          r9 = object_emplace ''stagingDir'' (JString (ap_stagingDir plan)) r8;
          r10 = object_emplace ''backupDir'' (JString (ap_backupDir plan)) r9;
          r11 = object_emplace ''restartCommand'' (JArray (map JString (ap_restartCommand plan))) r10
      in JObject (object_emplace ''operations'' (JArray (map (operationJson (ap_schemaVersion plan)) (ap_operations plan))) r11))"

definition plan_toJson :: "(string \<Rightarrow> string) \<Rightarrow> ApplyPlan \<Rightarrow> string option" where
  "plan_toJson fpText plan = stringify fpText 2 (planJson plan)"

end
