(* ===== verification/Manifests.thy ===== *)
theory Manifests
  imports Json_Fields
begin

text \<open>
  \<open>src/Manifest.cpp\<close>: reading and writing release manifests, reading index manifests. The reader's
  loop over the files threads the byte total, the evidence of the source paths and the targets.
\<close>

section \<open>Release manifests\<close>

definition kSupportedManifestSchema :: int where
  "kSupportedManifestSchema = 1"

definition artifactSize :: "Json \<Rightarrow> ResourceLimits \<Rightarrow> u64 result" where
  "artifactSize object limits =
     (case json_get object ''size'' of
        None \<Rightarrow> fail EC_ManifestParseFailed ''file size is required''
      | Some v \<Rightarrow>
          if \<not> isNonNegativeInteger v then fail EC_ManifestParseFailed ''file size is required''
          else if asUInt64 v 0 > maxArtifactBytes limits
          then fail EC_ResourceLimitExceeded ''Artifact exceeds the per-file byte limit''
          else Inr (asUInt64 v 0))"

record file_progress =
  fp_total :: u64
  fp_evidence :: evidence
  fp_targets :: "string list"
  fp_files :: "ManifestFile list"

text \<open>One file of the \<open>files\<close> array.\<close>

definition readManifestFile :: "ResourceLimits \<Rightarrow> Json \<Rightarrow> ManifestFile result" where
  "readManifestFile limits item =
     (if \<not> isObject item then fail EC_ManifestParseFailed ''files item must be object''
      else
        bindr (requireOnlyKeys item [''path'', ''localPath'', ''sha256'', ''size''] ''Manifest file'') (\<lambda>_.
        bindr (requiredString item ''path'') (\<lambda>path.
        bindr (requiredString item ''sha256'') (\<lambda>sha.
        bindr (optionalString item ''localPath'') (\<lambda>localPath.
          if \<not> isLowerHexSha256 sha then fail EC_ManifestParseFailed ''file sha256 must be a lowercase SHA-256 digest''
          else bindr (artifactSize item limits) (\<lambda>bytes.
            Inr \<lparr>mf_path = path, mf_localPath = localPath, mf_sha256 = sha, mf_size = bytes\<rparr>))))))"

definition acceptManifestFile :: "ResourceLimits \<Rightarrow> ManifestFile \<Rightarrow> file_progress \<Rightarrow> file_progress result" where
  "acceptManifestFile limits mfile p =
     (case checkedAdd (fp_total p) (mf_size mfile) of
        None \<Rightarrow> fail EC_ResourceLimitExceeded ''Manifest artifacts exceed the total byte limit''
      | Some updatedTotal \<Rightarrow>
          if updatedTotal > maxTotalArtifactBytes limits
          then fail EC_ResourceLimitExceeded ''Manifest artifacts exceed the total byte limit''
          else
            bindr (validateManagedPath (mf_path mfile)) (\<lambda>_.
            bindr (if mf_localPath mfile \<noteq> [] then validateManagedPath (mf_localPath mfile) else Inr ()) (\<lambda>_.
            bindr (recordEvidence ''Shared manifest source paths must use identical size and SHA-256 evidence''
                     (fp_evidence p) (mf_path mfile) (mf_sha256 mfile) (mf_size mfile)) (\<lambda>sourceEvidence.
              Inr \<lparr>fp_total = updatedTotal, fp_evidence = sourceEvidence,
                   fp_targets = fp_targets p @ [if mf_localPath mfile = [] then mf_path mfile else mf_localPath mfile],
                   fp_files = fp_files p @ [mfile]\<rparr>))))"

fun readManifestFiles :: "ResourceLimits \<Rightarrow> Json list \<Rightarrow> file_progress \<Rightarrow> file_progress result" where
  "readManifestFiles limits [] p = Inr p"
| "readManifestFiles limits (item # items) p =
     bindr (readManifestFile limits item) (\<lambda>mfile.
     bindr (acceptManifestFile limits mfile p) (\<lambda>p'. readManifestFiles limits items p'))"

fun readRemovals :: "Json list \<Rightarrow> string list result" where
  "readRemovals [] = Inr []"
| "readRemovals (item # items) =
     (if \<not> isString item then fail EC_ManifestParseFailed ''remove item must be string''
      else bindr (validateManagedPath (asString item)) (\<lambda>_.
           bindr (readRemovals items) (\<lambda>paths. Inr (asString item # paths))))"

definition jsonArray :: "Json \<Rightarrow> string \<Rightarrow> string \<Rightarrow> Json list result" where
  "jsonArray object key message =
     (case json_get object key of
        None \<Rightarrow> Inr []
      | Some v \<Rightarrow> if \<not> isArray v then fail EC_ManifestParseFailed message else Inr (asArray v))"

definition manifestKeys :: "string list" where
  "manifestKeys = [''schemaVersion'', ''appId'', ''channel'', ''platform'', ''arch'', ''version'', ''releaseId'',
     ''releaseDate'', ''publishedAt'', ''expiresAt'', ''minVersion'', ''minClientVersion'', ''mandatory'',
     ''allowDowngrade'', ''notes'', ''baseUrl'', ''files'', ''remove'']"

text \<open>The scalar fields, in the order in which the source reports their errors.\<close>

definition readManifestFields :: "Json \<Rightarrow> Manifest result" where
  "readManifestFields json =
     bindr (requiredString json ''version'') (\<lambda>versionText.
     bindr (version_parse versionText) (\<lambda>version.
     bindr (optionalString json ''appId'') (\<lambda>appId.
     bindr (optionalString json ''channel'') (\<lambda>channel.
     bindr (optionalString json ''platform'') (\<lambda>platform.
     bindr (optionalString json ''arch'') (\<lambda>arch.
     bindr (optionalString json ''releaseId'') (\<lambda>releaseId.
     bindr (optionalString json ''releaseDate'') (\<lambda>releaseDate.
     bindr (optionalString json ''publishedAt'') (\<lambda>publishedAt.
     bindr (optionalString json ''expiresAt'') (\<lambda>expiresAt.
     bindr (optionalString json ''notes'') (\<lambda>notes.
     bindr (optionalString json ''baseUrl'') (\<lambda>baseUrl.
     bindr (optionalBool json ''mandatory'' False) (\<lambda>mandatory.
     bindr (optionalBool json ''allowDowngrade'' False) (\<lambda>allowDowngrade.
     bindr (validateOptionalTimestamp json ''releaseDate'') (\<lambda>_.
     bindr (validateOptionalTimestamp json ''publishedAt'') (\<lambda>_.
     bindr (validateOptionalTimestamp json ''expiresAt'') (\<lambda>_.
     bindr (optionalVersion json ''minVersion'') (\<lambda>minVersion.
     bindr (optionalVersion json ''minClientVersion'') (\<lambda>minClientVersion.
       Inr \<lparr>m_schemaVersion = kSupportedManifestSchema, m_appId = appId, m_channel = channel, m_platform = platform,
            m_arch = arch, m_version = version, m_releaseId = releaseId, m_releaseDate = releaseDate,
            m_publishedAt = publishedAt, m_expiresAt = expiresAt, m_minVersion = minVersion,
            m_minClientVersion = minClientVersion, m_mandatory = mandatory, m_allowDowngrade = allowDowngrade,
            m_notes = notes, m_baseUrl = baseUrl, m_files = [], m_remove = []\<rparr>)))))))))))))))))))"

definition readManifest :: "Json \<Rightarrow> ResourceLimits \<Rightarrow> Manifest result" where
  "readManifest json limits =
     (if \<not> isObject json then fail EC_ManifestParseFailed ''Manifest root must be object''
      else
        (case json_get json ''schemaVersion'' of
           None \<Rightarrow> fail EC_ManifestParseFailed ''schemaVersion is required''
         | Some schema \<Rightarrow>
             if \<not> isNonNegativeInteger schema then fail EC_ManifestParseFailed ''schemaVersion is required''
             else if asUInt64 schema 0 \<noteq> of_int kSupportedManifestSchema
             then fail EC_UnsupportedManifestSchema ''Unsupported manifest schemaVersion''
             else
               bindr (requireOnlyKeys json manifestKeys ''Manifest'') (\<lambda>_.
               bindr (readManifestFields json) (\<lambda>manifest.
               bindr (jsonArray json ''files'' ''files must be array'') (\<lambda>items.
               bindr (readManifestFiles limits items \<lparr>fp_total = 0, fp_evidence = [], fp_targets = [], fp_files = []\<rparr>) (\<lambda>p.
               bindr (jsonArray json ''remove'' ''remove must be array'') (\<lambda>removals.
               bindr (readRemovals removals) (\<lambda>remove.
               bindr (validateSourceTopology ''Manifest source paths have an ancestor/descendant conflict'' (fp_evidence p)) (\<lambda>_.
               bindr (validateManagedTargetPaths (fp_targets p @ remove)) (\<lambda>_.
                 Inr (manifest\<lparr>m_files := fp_files p, m_remove := remove\<rparr>)))))))))))"

definition manifest_parse :: "string \<Rightarrow> ResourceLimits \<Rightarrow> Manifest result" where
  "manifest_parse jsonText limits =
     (if length jsonText > unat (maxManifestBytes limits)
      then fail EC_ResourceLimitExceeded ''Manifest exceeds its byte limit''
      else bindr (json_result jsonText (limits_json limits)) (\<lambda>json. readManifest json limits))"

definition manifestFileJson :: "ManifestFile \<Rightarrow> Json" where
  "manifestFileJson mfile =
     (let item1 = object_emplace ''path'' (JString (mf_path mfile)) [];
          item2 = (if mf_localPath mfile \<noteq> [] then object_emplace ''localPath'' (JString (mf_localPath mfile)) item1 else item1);
          item3 = object_emplace ''sha256'' (JString (mf_sha256 mfile)) item2
      in JObject (object_emplace ''size'' (JUInt (mf_size mfile)) item3))"

definition addVersion :: "(string \<times> Json) list \<Rightarrow> string \<Rightarrow> Version option \<Rightarrow> (string \<times> Json) list" where
  "addVersion object key v = (case v of None \<Rightarrow> object | Some w \<Rightarrow> object_emplace key (JString (version_toString w)) object)"

definition manifestJson :: "Manifest \<Rightarrow> Json" where
  "manifestJson m =
     (let r1 = object_emplace ''schemaVersion'' (JInt (m_schemaVersion m)) [];
          r2 = addString r1 ''appId'' (m_appId m);
          r3 = addString r2 ''channel'' (m_channel m);
          r4 = addString r3 ''platform'' (m_platform m);
          r5 = addString r4 ''arch'' (m_arch m);
          r6 = object_emplace ''version'' (JString (version_toString (m_version m))) r5;
          r7 = addString r6 ''releaseId'' (m_releaseId m);
          r8 = addString r7 ''releaseDate'' (m_releaseDate m);
          r9 = addString r8 ''publishedAt'' (m_publishedAt m);
          r10 = addString r9 ''expiresAt'' (m_expiresAt m);
          r11 = addVersion r10 ''minVersion'' (m_minVersion m);
          r12 = addVersion r11 ''minClientVersion'' (m_minClientVersion m);
          r13 = object_emplace ''mandatory'' (JBool (m_mandatory m)) r12;
          r14 = object_emplace ''allowDowngrade'' (JBool (m_allowDowngrade m)) r13;
          r15 = addString r14 ''notes'' (m_notes m);
          r16 = addString r15 ''baseUrl'' (m_baseUrl m);
          r17 = object_emplace ''files'' (JArray (map manifestFileJson (m_files m))) r16
      in JObject (object_emplace ''remove'' (JArray (map JString (m_remove m))) r17))"

definition manifest_toJson :: "(string \<Rightarrow> string) \<Rightarrow> Manifest \<Rightarrow> string option" where
  "manifest_toJson fpText m = stringify fpText 2 (manifestJson m)"

section \<open>Index manifests\<close>

fun readIndexTargets :: "Json list \<Rightarrow> (string \<times> string) set \<Rightarrow> IndexTarget list result" where
  "readIndexTargets [] selectors = Inr []"
| "readIndexTargets (item # items) selectors =
     (if \<not> isObject item then fail EC_ManifestParseFailed ''target must be object''
      else
        bindr (requireOnlyKeys item [''platform'', ''arch'', ''manifestUrl''] ''Index target'') (\<lambda>_.
        bindr (optionalString item ''platform'') (\<lambda>platform.
        bindr (optionalString item ''arch'') (\<lambda>arch.
        bindr (requiredString item ''manifestUrl'') (\<lambda>url.
          if url = [] then fail EC_ManifestParseFailed ''Index target manifestUrl must not be empty''
          else if (platform, arch) \<in> selectors then fail EC_ManifestParseFailed ''Index target selectors must be unique''
          else bindr (readIndexTargets items (insert (platform, arch) selectors)) (\<lambda>targets.
            Inr (\<lparr>it_platform = platform, it_arch = arch, it_manifestUrl = url\<rparr> # targets)))))))"

definition readIndex :: "Json \<Rightarrow> IndexManifest result" where
  "readIndex json =
     (if \<not> isObject json then fail EC_ManifestParseFailed ''Index manifest root must be object''
      else
        (case json_get json ''schemaVersion'' of
           None \<Rightarrow> fail EC_ManifestParseFailed ''schemaVersion is required''
         | Some schema \<Rightarrow>
             if \<not> isNonNegativeInteger schema then fail EC_ManifestParseFailed ''schemaVersion is required''
             else if asUInt64 schema 0 \<noteq> of_int kSupportedManifestSchema
             then fail EC_UnsupportedManifestSchema ''Unsupported index manifest schemaVersion''
             else
               bindr (requireOnlyKeys json [''schemaVersion'', ''appId'', ''channel'', ''generatedAt'', ''targets''] ''Index manifest'') (\<lambda>_.
               bindr (optionalString json ''appId'') (\<lambda>appId.
               bindr (optionalString json ''channel'') (\<lambda>channel.
               bindr (optionalString json ''generatedAt'') (\<lambda>generatedAt.
               bindr (validateOptionalTimestamp json ''generatedAt'') (\<lambda>_.
                 (case json_get json ''targets'' of
                    None \<Rightarrow> fail EC_ManifestParseFailed ''targets array is required''
                  | Some items \<Rightarrow>
                      if \<not> isArray items then fail EC_ManifestParseFailed ''targets array is required''
                      else bindr (readIndexTargets (asArray items) {}) (\<lambda>targets.
                        Inr \<lparr>im_schemaVersion = kSupportedManifestSchema, im_appId = appId, im_channel = channel,
                             im_generatedAt = generatedAt, im_targets = targets\<rparr>)))))))))"

definition index_parse :: "string \<Rightarrow> ResourceLimits \<Rightarrow> IndexManifest result" where
  "index_parse jsonText limits =
     (if length jsonText > unat (maxIndexBytes limits)
      then fail EC_ResourceLimitExceeded ''Index manifest exceeds its byte limit''
      else bindr (json_result jsonText (limits_json limits)) readIndex)"

end
