(* ===== verification/Manifest_Facts.thy ===== *)
theory Manifest_Facts
  imports Manifests
begin

text \<open>
  What an accepted release manifest guarantees (\<open>wf_manifest\<close>), and that writing such a manifest
  and reading it again gives it back.
\<close>

section \<open>Well-formed manifests\<close>

definition file_source :: "ManifestFile \<Rightarrow> source" where
  "file_source f = (mf_path f, mf_sha256 f, mf_size f)"

definition install_target :: "ManifestFile \<Rightarrow> string" where
  "install_target f = (if mf_localPath f = [] then mf_path f else mf_localPath f)"

definition wf_manifest_file :: "ResourceLimits \<Rightarrow> ManifestFile \<Rightarrow> bool" where
  "wf_manifest_file limits f \<longleftrightarrow>
     validateManagedPath (mf_path f) = Inr () \<and> (mf_localPath f = [] \<or> validateManagedPath (mf_localPath f) = Inr ())
     \<and> isLowerHexSha256 (mf_sha256 f) \<and> mf_size f \<le> maxArtifactBytes limits"

definition total_size :: "ManifestFile list \<Rightarrow> nat" where
  "total_size fs = sum_list (map (\<lambda>f. unat (mf_size f)) fs)"

definition wf_files :: "ResourceLimits \<Rightarrow> ManifestFile list \<Rightarrow> bool" where
  "wf_files limits fs \<longleftrightarrow>
     list_all (wf_manifest_file limits) fs \<and> total_size fs \<le> unat (maxTotalArtifactBytes limits)
     \<and> consistent_sources (map file_source fs)"

definition valid_timestamp :: "string \<Rightarrow> bool" where
  "valid_timestamp t \<longleftrightarrow> t = [] \<or> is_ok (parseRfc3339 t)"

definition wf_manifest :: "ResourceLimits \<Rightarrow> Manifest \<Rightarrow> bool" where
  "wf_manifest limits m \<longleftrightarrow>
     m_schemaVersion m = 1 \<and> wf_version (m_version m)
     \<and> pred_option wf_version (m_minVersion m) \<and> pred_option wf_version (m_minClientVersion m)
     \<and> valid_timestamp (m_releaseDate m) \<and> valid_timestamp (m_publishedAt m) \<and> valid_timestamp (m_expiresAt m)
     \<and> wf_files limits (m_files m) \<and> separate_sources (map file_source (m_files m))
     \<and> list_all (\<lambda>p. validateManagedPath p = Inr ()) (m_remove m)
     \<and> validateManagedTargetPaths (map install_target (m_files m) @ m_remove m) = Inr ()"

section \<open>Reading\<close>

text \<open>The loop's state describes the files read so far.\<close>

definition progress_for :: "file_progress \<Rightarrow> ManifestFile list \<Rightarrow> bool" where
  "progress_for p fs \<longleftrightarrow>
     fp_files p = fs \<and> fp_targets p = map install_target fs \<and> unat (fp_total p) = total_size fs
     \<and> evidence_for (map file_source fs) (fp_evidence p)"

lemma progress_Nil: "progress_for \<lparr>fp_total = 0, fp_evidence = [], fp_targets = [], fp_files = []\<rparr> []"
  by (simp add: progress_for_def total_size_def)

lemma readManifestFile_sound:
  "readManifestFile limits item = Inr f \<Longrightarrow> isLowerHexSha256 (mf_sha256 f) \<and> mf_size f \<le> maxArtifactBytes limits"
  by (auto simp: readManifestFile_def artifactSize_def split: if_splits option.splits)

lemma acceptManifestFile_sound:
  assumes "acceptManifestFile limits f p = Inr p'" "progress_for p fs"
  shows "progress_for p' (fs @ [f]) \<and> validateManagedPath (mf_path f) = Inr ()
    \<and> (mf_localPath f = [] \<or> validateManagedPath (mf_localPath f) = Inr ())
    \<and> total_size (fs @ [f]) \<le> unat (maxTotalArtifactBytes limits)"
proof -
  obtain n ev where n: "checkedAdd (fp_total p) (mf_size f) = Some n" "n \<le> maxTotalArtifactBytes limits"
    and ev: "recordEvidence ''Shared manifest source paths must use identical size and SHA-256 evidence''
      (fp_evidence p) (mf_path f) (mf_sha256 f) (mf_size f) = Inr ev"
    and v: "validateManagedPath (mf_path f) = Inr ()" "mf_localPath f = [] \<or> validateManagedPath (mf_localPath f) = Inr ()"
    and p': "p' = \<lparr>fp_total = n, fp_evidence = ev, fp_targets = fp_targets p @ [install_target f], fp_files = fp_files p @ [f]\<rparr>"
    using assms(1) by (auto simp: acceptManifestFile_def install_target_def not_less split: option.splits if_splits)
  have "evidence_for (map file_source (fs @ [f])) ev"
    using recordEvidence_sound [OF _ ev] assms(2) by (simp add: progress_for_def file_source_def)
  moreover have "unat n = total_size (fs @ [f])"
    using n(1) assms(2) by (simp add: checkedAdd_iff progress_for_def total_size_def)
  ultimately show ?thesis using v p' assms(2) n(2) by (simp add: progress_for_def word_le_nat_alt)
qed

lemma readManifestFiles_sound:
  assumes "readManifestFiles limits items p = Inr p'" "progress_for p fs" "wf_files limits fs"
  shows "\<exists>gs. progress_for p' (fs @ gs) \<and> wf_files limits (fs @ gs)"
  using assms
proof (induction items arbitrary: p fs)
  case Nil
  then show ?case by (intro exI [of _ "[]"]) simp
next
  case (Cons item items)
  obtain f q where f: "readManifestFile limits item = Inr f" and q: "acceptManifestFile limits f p = Inr q"
    and rest: "readManifestFiles limits items q = Inr p'"
    using Cons.prems(1) by auto
  note a = acceptManifestFile_sound [OF q Cons.prems(2)]
  have "wf_files limits (fs @ [f])"
    using a readManifestFile_sound [OF f] Cons.prems(3) evidence_consistent
    by (auto simp: wf_files_def wf_manifest_file_def progress_for_def)
  then obtain gs where "progress_for p' ((fs @ [f]) @ gs) \<and> wf_files limits ((fs @ [f]) @ gs)"
    using Cons.IH [OF rest] a by blast
  then show ?case by (intro exI [of _ "f # gs"]) simp
qed

lemma readRemovals_Inr:
  "readRemovals items = Inr ps \<Longrightarrow> list_all (\<lambda>p. validateManagedPath p = Inr ()) ps"
  by (induction items arbitrary: ps) (auto split: if_splits)

lemma optional_timestamp:
  assumes "optionalString json k = Inr t" "validateOptionalTimestamp json k = Inr u"
  shows "valid_timestamp t"
  using assms by (auto simp: optionalString_def validateOptionalTimestamp_def valid_timestamp_def split: option.splits if_splits)

lemma optionalVersion_wf: "optionalVersion json k = Inr v \<Longrightarrow> pred_option wf_version v"
  by (auto simp: optionalVersion_def dest: version_parse_InrD split: option.splits if_splits)

lemma readManifestFields_sound:
  assumes "readManifestFields json = Inr m"
  shows "m_schemaVersion m = 1 \<and> wf_version (m_version m)
     \<and> pred_option wf_version (m_minVersion m) \<and> pred_option wf_version (m_minClientVersion m)
     \<and> valid_timestamp (m_releaseDate m) \<and> valid_timestamp (m_publishedAt m) \<and> valid_timestamp (m_expiresAt m)"
  using assms
  by (auto simp: readManifestFields_def kSupportedManifestSchema_def dest: version_parse_InrD optional_timestamp optionalVersion_wf)

lemma readManifest_cases:
  assumes "readManifest json limits = Inr m"
  obtains m0 items p removals remove where "readManifestFields json = Inr m0"
    "readManifestFiles limits items \<lparr>fp_total = 0, fp_evidence = [], fp_targets = [], fp_files = []\<rparr> = Inr p"
    "readRemovals removals = Inr remove"
    "validateSourceTopology ''Manifest source paths have an ancestor/descendant conflict'' (fp_evidence p) = Inr ()"
    "validateManagedTargetPaths (fp_targets p @ remove) = Inr ()" "m = m0\<lparr>m_files := fp_files p, m_remove := remove\<rparr>"
  using assms by (auto simp: readManifest_def split: if_splits option.splits)

lemma readManifest_wf:
  assumes "readManifest json limits = Inr m"
  shows "wf_manifest limits m"
  using assms
proof (cases rule: readManifest_cases)
  case (1 m0 items p removals remove)
  obtain fs where fs: "progress_for p fs" "wf_files limits fs"
    using readManifestFiles_sound [OF 1(2) progress_Nil]
    by (auto simp: wf_files_def total_size_def consistent_sources_def)
  then have "separate_sources (map file_source fs)"
    using 1(4) validateSourceTopology_iff by (auto simp: progress_for_def)
  with fs 1 readManifestFields_sound [OF 1(1)] readRemovals_Inr [OF 1(3)] show ?thesis
    by (simp add: wf_manifest_def progress_for_def)
qed

text \<open>
  C35: an accepted release manifest is well formed. Its paths are managed paths and its install
  targets and removals neither alias nor nest; digests are lower-case SHA-256; no file is larger
  than the artifact limit and all files together stay within the total limit, counted without
  overflow; files that share a source path (up to ASCII case) agree on digest and size, and no source
  path is a directory above another; versions and timestamps are valid.
\<close>

theorem manifest_parse_wf:
  assumes "manifest_parse t limits = Inr m"
  shows "wf_manifest limits m \<and> length t \<le> unat (maxManifestBytes limits)"
  using assms readManifest_wf by (auto simp: manifest_parse_def not_less split: if_splits)

section \<open>Writing and reading back\<close>

lemma keyed_addVersion [simp]: "keyed m \<Longrightarrow> keyed (addVersion m k v)"
  by (simp add: addVersion_def split: option.split)

lemma map_of_addVersion [simp]:
  "keyed m \<Longrightarrow> map_of (addVersion m k v) k' =
     (case v of None \<Rightarrow> map_of m k'
      | Some w \<Rightarrow> if k' = k then Some (case map_of m k of None \<Rightarrow> JString (version_toString w) | Some u \<Rightarrow> u) else map_of m k')"
  by (simp add: addVersion_def split: option.split)

lemma list_all_addVersion: "list_all P m \<Longrightarrow> (\<And>s. P (k, JString s)) \<Longrightarrow> list_all P (addVersion m k v)"
  by (simp add: addVersion_def list_all_emplace split: option.split)

lemma addVersion_keys: "fst ` set (addVersion m k v) \<subseteq> insert k (fst ` set m)"
  by (cases v) (simp_all add: addVersion_def emplace_keys_le subset_insertI)

lemma manifestFileJson_storable: "storable (manifestFileJson f)"
  by (simp add: manifestFileJson_def Let_def)

lemma manifestFileJson_read:
  assumes "wf_manifest_file limits f"
  shows "readManifestFile limits (settle (manifestFileJson f)) = Inr f"
proof -
  have get: "json_get (manifestFileJson f) ''path'' = Some (JString (mf_path f))"
    "json_get (manifestFileJson f) ''localPath'' = (if mf_localPath f = [] then None else Some (JString (mf_localPath f)))"
    "json_get (manifestFileJson f) ''sha256'' = Some (JString (mf_sha256 f))"
    "json_get (manifestFileJson f) ''size'' = Some (JUInt (mf_size f))"
    by (simp_all add: manifestFileJson_def Let_def)
  have keys: "requireOnlyKeys (manifestFileJson f) [''path'', ''localPath'', ''sha256'', ''size''] ''Manifest file'' = Inr ()"
    unfolding manifestFileJson_def Let_def requireOnlyKeys_ok using emplace_keys [simplified] by auto
  have obj: "isObject (manifestFileJson f)" by (simp add: manifestFileJson_def Let_def isObject_def)
  have "artifactSize (settle (manifestFileJson f)) limits = Inr (mf_size f)"
    using assms
    by (simp add: artifactSize_def json_get_settle get isNonNegativeInteger_def isUnsignedInteger_def asUInt64_def
        wf_manifest_file_def not_less)
  moreover have "requiredString (manifestFileJson f) ''path'' = Inr (mf_path f)"
    "requiredString (manifestFileJson f) ''sha256'' = Inr (mf_sha256 f)"
    "optionalString (manifestFileJson f) ''localPath'' = Inr (mf_localPath f)"
    by (simp_all add: requiredString_def optionalString_def get isString_def asString_def)
  ultimately show ?thesis using assms keys obj by (simp add: readManifestFile_def wf_manifest_file_def)
qed

lemma acceptManifestFile_complete:
  assumes "progress_for p fs" "wf_files limits (fs @ [f])"
  shows "\<exists>p'. acceptManifestFile limits f p = Inr p'"
proof -
  have wf: "validateManagedPath (mf_path f) = Inr ()" "mf_localPath f = [] \<or> validateManagedPath (mf_localPath f) = Inr ()"
    "total_size (fs @ [f]) \<le> unat (maxTotalArtifactBytes limits)" "consistent_sources (map file_source fs @ [file_source f])"
    using assms(2) by (auto simp: wf_files_def wf_manifest_file_def)
  have sum: "unat (fp_total p) + unat (mf_size f) \<le> unat (maxTotalArtifactBytes limits)"
    using wf(3) assms(1) by (simp add: progress_for_def total_size_def)
  then have "unat (fp_total p) + unat (mf_size f) < 2 ^ 64"
    using unsigned_less [of "maxTotalArtifactBytes limits", where ?'a = nat] by simp
  then obtain n where n: "checkedAdd (fp_total p) (mf_size f) = Some n" by (auto simp: checkedAdd_Some)
  then have "n \<le> maxTotalArtifactBytes limits" using sum by (simp add: checkedAdd_iff word_le_nat_alt)
  moreover obtain ev where "recordEvidence ''Shared manifest source paths must use identical size and SHA-256 evidence''
      (fp_evidence p) (mf_path f) (mf_sha256 f) (mf_size f) = Inr ev"
    using recordEvidence_complete wf(4) assms(1) unfolding progress_for_def file_source_def by blast
  ultimately show ?thesis using n wf by (auto simp: acceptManifestFile_def not_less)
qed

lemma wf_files_prefix: "wf_files limits (fs @ gs) \<Longrightarrow> wf_files limits fs"
  by (auto simp: wf_files_def total_size_def consistent_sources_def)

lemma readManifestFiles_complete:
  assumes "progress_for p fs" "wf_files limits (fs @ gs)"
  shows "\<exists>p'. readManifestFiles limits (map (\<lambda>f. settle (manifestFileJson f)) gs) p = Inr p' \<and> progress_for p' (fs @ gs)"
  using assms
proof (induction gs arbitrary: p fs)
  case (Cons g gs)
  have wf: "wf_files limits (fs @ [g])" using wf_files_prefix [of limits "fs @ [g]" gs] Cons.prems(2) by simp
  then have g: "wf_manifest_file limits g" by (simp add: wf_files_def)
  obtain q where q: "acceptManifestFile limits g p = Inr q"
    using acceptManifestFile_complete [OF Cons.prems(1) wf] by blast
  then have "progress_for q (fs @ [g])" using acceptManifestFile_sound [OF q Cons.prems(1)] by blast
  then show ?case using Cons.IH [of q "fs @ [g]"] Cons.prems(2) manifestFileJson_read [OF g] q by simp
qed simp

lemma readRemovals_complete:
  "list_all (\<lambda>p. validateManagedPath p = Inr ()) ps \<Longrightarrow> readRemovals (map (\<lambda>p. settle (JString p)) ps) = Inr ps"
  by (induction ps) (simp_all add: isString_def asString_def)

lemma manifestJson_get:
  "json_get (manifestJson m) ''schemaVersion'' = Some (JInt (m_schemaVersion m))"
  "json_get (manifestJson m) ''appId'' = (if m_appId m = [] then None else Some (JString (m_appId m)))"
  "json_get (manifestJson m) ''channel'' = (if m_channel m = [] then None else Some (JString (m_channel m)))"
  "json_get (manifestJson m) ''platform'' = (if m_platform m = [] then None else Some (JString (m_platform m)))"
  "json_get (manifestJson m) ''arch'' = (if m_arch m = [] then None else Some (JString (m_arch m)))"
  "json_get (manifestJson m) ''version'' = Some (JString (version_toString (m_version m)))"
  "json_get (manifestJson m) ''releaseId'' = (if m_releaseId m = [] then None else Some (JString (m_releaseId m)))"
  "json_get (manifestJson m) ''releaseDate'' = (if m_releaseDate m = [] then None else Some (JString (m_releaseDate m)))"
  "json_get (manifestJson m) ''publishedAt'' = (if m_publishedAt m = [] then None else Some (JString (m_publishedAt m)))"
  "json_get (manifestJson m) ''expiresAt'' = (if m_expiresAt m = [] then None else Some (JString (m_expiresAt m)))"
  "json_get (manifestJson m) ''minVersion'' = map_option (\<lambda>v. JString (version_toString v)) (m_minVersion m)"
  "json_get (manifestJson m) ''minClientVersion'' = map_option (\<lambda>v. JString (version_toString v)) (m_minClientVersion m)"
  "json_get (manifestJson m) ''mandatory'' = Some (JBool (m_mandatory m))"
  "json_get (manifestJson m) ''allowDowngrade'' = Some (JBool (m_allowDowngrade m))"
  "json_get (manifestJson m) ''notes'' = (if m_notes m = [] then None else Some (JString (m_notes m)))"
  "json_get (manifestJson m) ''baseUrl'' = (if m_baseUrl m = [] then None else Some (JString (m_baseUrl m)))"
  "json_get (manifestJson m) ''files'' = Some (JArray (map manifestFileJson (m_files m)))"
  "json_get (manifestJson m) ''remove'' = Some (JArray (map JString (m_remove m)))"
  by (simp_all add: manifestJson_def Let_def split: option.split)

lemma manifestJson_storable: "m_schemaVersion m = 1 \<Longrightarrow> storable (manifestJson m)"
  unfolding manifestJson_def Let_def
  by (intro storable_object list_all_emplace list_all_addString list_all_addVersion)
    (simp_all add: list_all_iff manifestFileJson_storable)

lemma manifestJson_keys: "requireOnlyKeys (manifestJson m) manifestKeys context = Inr ()"
proof -
  have "fst ` set (asObject (manifestJson m)) \<subseteq> set manifestKeys"
    unfolding manifestJson_def Let_def asObject_def Json.case
    by (intro subset_trans [OF emplace_keys_le] subset_trans [OF addString_keys_le] subset_trans [OF addVersion_keys]
        insert_subsetI) (simp_all add: manifestKeys_def)
  then show ?thesis by (simp add: requireOnlyKeys_def checkKeys_ok)
qed

lemma stored_fields:
  "json_get json k = (if t = [] then None else Some (JString t)) \<Longrightarrow> optionalString json k = Inr t"
  "json_get json k = (if t = [] then None else Some (JString t)) \<Longrightarrow> valid_timestamp t \<Longrightarrow> validateOptionalTimestamp json k = Inr ()"
  "json_get json k = Some (JString t) \<Longrightarrow> requiredString json k = Inr t"
  "json_get json k = Some (JBool b) \<Longrightarrow> optionalBool json k c = Inr b"
  "json_get json k = map_option (\<lambda>v. JString (version_toString v)) w \<Longrightarrow> pred_option wf_version w \<Longrightarrow>
     optionalVersion json k = Inr w"
  by (auto simp: optionalString_def validateOptionalTimestamp_def requiredString_def optionalBool_def optionalVersion_def
      isString_def asString_def isBool_def asBool_def isNull_def valid_timestamp_def version_parse_toString_wf split: option.splits)

lemma manifestJson_fields:
  assumes "wf_manifest limits m"
  shows "readManifestFields (manifestJson m) = Inr (m\<lparr>m_files := [], m_remove := []\<rparr>)"
proof -
  have "version_parse (version_toString (m_version m)) = Inr (m_version m)"
    using assms by (simp add: wf_manifest_def version_parse_toString_wf)
  then show ?thesis
    using assms
    by (simp add: readManifestFields_def stored_fields manifestJson_get wf_manifest_def kSupportedManifestSchema_def)
qed

lemma manifestJson_read:
  assumes "wf_manifest limits m"
  shows "readManifest (settle (manifestJson m)) limits = Inr m"
proof -
  have "wf_files limits ([] @ m_files m)" using assms by (simp add: wf_manifest_def)
  then obtain p where p: "readManifestFiles limits (map (\<lambda>f. settle (manifestFileJson f)) (m_files m))
      \<lparr>fp_total = 0, fp_evidence = [], fp_targets = [], fp_files = []\<rparr> = Inr p" "progress_for p (m_files m)"
    using readManifestFiles_complete [OF progress_Nil] by fastforce
  have r: "readRemovals (map (\<lambda>p. settle (JString p)) (m_remove m)) = Inr (m_remove m)"
    using assms readRemovals_complete by (simp add: wf_manifest_def)
  have t: "validateSourceTopology msg (fp_evidence p) = Inr ()" "validateManagedTargetPaths (fp_targets p @ m_remove m) = Inr ()" for msg
    using assms p(2) validateSourceTopology_iff by (auto simp: wf_manifest_def progress_for_def)
  have "readManifestFields (settle (manifestJson m)) = readManifestFields (manifestJson m)"
    by (simp add: readManifestFields_def)
  with manifestJson_fields [OF assms] have fields: "readManifestFields (settle (manifestJson m)) = Inr (m\<lparr>m_files := [], m_remove := []\<rparr>)"
    by simp
  have arrays: "jsonArray (settle (manifestJson m)) ''files'' msg = Inr (map (\<lambda>f. settle (manifestFileJson f)) (m_files m))"
    "jsonArray (settle (manifestJson m)) ''remove'' msg = Inr (map (\<lambda>p. settle (JString p)) (m_remove m))" for msg
    by (simp_all add: jsonArray_def json_get_settle manifestJson_get isArray_def asArray_def comp_def)
  have "isObject (manifestJson m)" by (simp add: manifestJson_def Let_def isObject_def)
  moreover have "json_get (settle (manifestJson m)) ''schemaVersion'' = Some (JUInt 1)"
    using assms by (simp add: json_get_settle manifestJson_get wf_manifest_def)
  ultimately show ?thesis
    using p r t p(2)
    by (simp add: readManifest_def isNonNegativeInteger_def isUnsignedInteger_def asUInt64_def kSupportedManifestSchema_def
        manifestJson_keys fields arrays progress_for_def)
qed

lemma manifest_print_parse:
  assumes "wf_manifest limits m" "validateResourceUsage fp (manifestJson m) (limits_json limits) = Inr ()"
  shows "\<exists>t. manifest_toJson fp m = Some t
    \<and> (length t \<le> unat (maxManifestBytes limits) \<longrightarrow> manifest_parse t limits = Inr m)"
proof -
  have "storable (manifestJson m)" using assms(1) by (simp add: manifestJson_storable wf_manifest_def)
  then obtain t where "stringify fp 2 (manifestJson m) = Some t" "json_parse t (limits_json limits) = Some (Inr (settle (manifestJson m)))"
    using print_parse_settle [OF _ assms(2)] by blast
  then show ?thesis
    using manifestJson_read [OF assms(1)] by (simp add: manifest_toJson_def manifest_parse_def json_result_def)
qed

text \<open>
  C36: a well-formed manifest survives being written and read. When its JSON value is within the
  parser's limits it prints, and if the printed text is within the manifest byte limit, parsing it
  gives the same manifest: no field is lost, reordered or changed.
\<close>

theorem manifest_roundtrip:
  assumes "wf_manifest limits m" "validateResourceUsage fp (manifestJson m) (limits_json limits) = Inr ()"
  shows "\<exists>t. manifest_toJson fp m = Some t
    \<and> (length t \<le> unat (maxManifestBytes limits) \<longrightarrow> manifest_parse t limits = Inr m)"
  using assms by (rule manifest_print_parse)

text \<open>A manifest with one file and one removal.\<close>

definition zero_digest :: string where
  "zero_digest = ''0000000000000000000000000000000000000000000000000000000000000000''"

definition one_file_manifest :: Manifest where
  "one_file_manifest = \<lparr>m_schemaVersion = 1, m_appId = ''app'', m_channel = [], m_platform = [], m_arch = [],
     m_version = \<lparr>ver_major = 1, ver_minor = 2, ver_patch = 3, ver_prerelease = [], ver_build = []\<rparr>, m_releaseId = ''r1'',
     m_releaseDate = [], m_publishedAt = [], m_expiresAt = [], m_minVersion = None, m_minClientVersion = None,
     m_mandatory = True, m_allowDowngrade = False, m_notes = [], m_baseUrl = [],
     m_files = [\<lparr>mf_path = ''bin/a'', mf_localPath = [], mf_sha256 = zero_digest, mf_size = 5\<rparr>],
     m_remove = [''old'']\<rparr>"

lemma one_file_json:
  "manifestJson one_file_manifest = JObject [(''allowDowngrade'', JBool False), (''appId'', JString ''app''),
     (''files'', JArray [JObject [(''path'', JString ''bin/a''), (''sha256'', JString zero_digest), (''size'', JUInt 5)]]),
     (''mandatory'', JBool True), (''releaseId'', JString ''r1''), (''remove'', JArray [JString ''old'']),
     (''schemaVersion'', JInt 1), (''version'', JString ''1.2.3'')]"
  by (simp add: manifestJson_def one_file_manifest_def manifestFileJson_def addString_def addVersion_def version_toString_def
      decimalText_def decimal_text.simps digit_char_def char_of_def bit_0)

lemma zeros_digest: "isLowerHexSha256 zero_digest"
  by (simp add: zero_digest_def isLowerHexSha256_def less_eq_char_def)

lemma zero_digest_escape: "jsonEscape zero_digest = Some zero_digest" "length zero_digest = 64" "isValidUtf8 zero_digest"
  by (simp_all add: zero_digest_def jsonEscape_def escapeByte_def)

lemma one_file_wf: "wf_manifest default_limits one_file_manifest"
  by (simp add: wf_manifest_def one_file_manifest_def wf_files_def wf_manifest_file_def total_size_def consistent_sources_def
      separate_sources_def key_ancestor_def file_source_def install_target_def wf_version_def int_component_def valid_timestamp_def
      zeros_digest eval_simps split_loop_split_on neighbour_ancestor_def)

lemma one_file_text:
  obtains t where "manifest_toJson id one_file_manifest = Some t" "length t \<le> unat (maxManifestBytes default_limits)"
proof -
  have "\<exists>t. manifest_toJson id one_file_manifest = Some t \<and> length t \<le> 4194304"
    by (simp add: manifest_toJson_def one_file_json stringify_def zero_digest_escape)
      (simp add: jsonEscape_def escapeByte_def lineBreak_def numberText_def integerText_def decimalText_def decimal_text.simps
        zero_digest_escape)
  then show ?thesis using that by (auto simp: default_limits_def)
qed

lemma one_file_resources: "validateResourceUsage id (manifestJson one_file_manifest) (limits_json default_limits) = Inr ()"
  by (simp add: one_file_json eval_simps decimalText_def decimal_text.simps zero_digest_escape)

theorem manifest_roundtrip_witness:
  "\<exists>t. manifest_toJson id one_file_manifest = Some t \<and> manifest_parse t default_limits = Inr one_file_manifest"
proof -
  obtain t where "manifest_toJson id one_file_manifest = Some t" "length t \<le> unat (maxManifestBytes default_limits)"
    by (rule one_file_text)
  with manifest_roundtrip [OF one_file_wf one_file_resources] show ?thesis by auto
qed

theorem manifest_parse_wf_witness:
  "\<exists>t. manifest_parse t default_limits = Inr one_file_manifest \<and> wf_manifest default_limits one_file_manifest
     \<and> length t \<le> unat (maxManifestBytes default_limits)"
proof -
  obtain t where "manifest_toJson id one_file_manifest = Some t" "length t \<le> unat (maxManifestBytes default_limits)"
    by (rule one_file_text)
  then have "manifest_parse t default_limits = Inr one_file_manifest"
    using manifest_print_parse [OF one_file_wf one_file_resources] by auto
  with manifest_parse_wf [OF this] show ?thesis by blast
qed

end
