(* ===== verification/Apply_Plan_Facts.thy ===== *)
theory Apply_Plan_Facts
  imports Apply_Plans Manifest_Facts
begin

text \<open>
  What an accepted apply plan guarantees (\<open>wf_plan\<close>), and that writing such a plan and reading it
  again gives it back: the library and the external updater agree on every field.
\<close>

section \<open>Well-formed plans\<close>

definition portable_bits :: "u32 option \<Rightarrow> bool" where
  "portable_bits p \<longleftrightarrow> pred_option (\<lambda>bits. bits \<le> 0x1FF) p"

definition wf_precondition :: "ResourceLimits \<Rightarrow> ApplyOperationPrecondition \<Rightarrow> bool" where
  "wf_precondition limits c \<longleftrightarrow>
     (if pre_exists c then isLowerHexSha256 (pre_sha256 c) \<and> pre_size c \<le> maxArtifactBytes limits \<and> portable_bits (pre_permissions c)
      else c = missing_precondition)"

definition wf_operation :: "int \<Rightarrow> ResourceLimits \<Rightarrow> ApplyOperation \<Rightarrow> bool" where
  "wf_operation schemaVersion limits op \<longleftrightarrow>
     validateManagedTargetPath (op_target op) = Inr ()
     \<and> (case op_type op of
          Replace \<Rightarrow> validateManagedPath (op_source op) = Inr () \<and> isLowerHexSha256 (op_sha256 op)
            \<and> op_size op \<le> maxArtifactBytes limits \<and> portable_bits (op_permissions op)
        | Remove \<Rightarrow> op_source op = [] \<and> op_sha256 op = [] \<and> op_size op = 0 \<and> op_permissions op = None)
     \<and> pred_option (wf_precondition limits) (op_precondition op)
     \<and> (schemaVersion = 1 \<longrightarrow> op_permissions op = None \<and> op_precondition op = None)"

definition replacements :: "ApplyOperation list \<Rightarrow> ApplyOperation list" where
  "replacements ops = filter (\<lambda>op. op_type op = Replace) ops"

definition op_sources :: "ApplyOperation list \<Rightarrow> source list" where
  "op_sources ops = map (\<lambda>op. (op_source op, op_sha256 op, op_size op)) (replacements ops)"

definition ops_total :: "ApplyOperation list \<Rightarrow> nat" where
  "ops_total ops = sum_list (map (\<lambda>op. unat (op_size op)) (replacements ops))"

definition wf_operations :: "int \<Rightarrow> ResourceLimits \<Rightarrow> ApplyOperation list \<Rightarrow> bool" where
  "wf_operations schemaVersion limits ops \<longleftrightarrow>
     list_all (wf_operation schemaVersion limits) ops \<and> ops_total ops \<le> unat (maxTotalArtifactBytes limits)
     \<and> consistent_sources (op_sources ops)"

definition valid_version_text :: "string \<Rightarrow> bool" where
  "valid_version_text t \<longleftrightarrow> t = [] \<or> is_ok (version_parse t)"

definition wf_intent :: "ApplyPlan \<Rightarrow> bool" where
  "wf_intent plan \<longleftrightarrow>
     (ap_schemaVersion plan = 1 \<and> ap_intent plan = Install \<or> ap_schemaVersion plan = 2)
     \<and> (case ap_rollbackOf plan of
          None \<Rightarrow> ap_intent plan = Install
        | Some r \<Rightarrow> ap_intent plan = Rollback \<and> isLowerHexSha256 (ref_transactionId r) \<and> isLowerHexSha256 (ref_planDigest r))"

definition wf_directory :: "string \<Rightarrow> bool" where
  "wf_directory p \<longleftrightarrow> p \<noteq> [] \<and> \<not> hasEmbeddedNul p"

definition wf_restart :: "string list \<Rightarrow> bool" where
  "wf_restart args \<longleftrightarrow> list_all (\<lambda>a. \<not> hasEmbeddedNul a) args \<and> (args = [] \<or> hd args \<noteq> [])"

definition wf_plan :: "ResourceLimits \<Rightarrow> ApplyPlan \<Rightarrow> bool" where
  "wf_plan limits plan \<longleftrightarrow>
     wf_intent plan \<and> valid_version_text (ap_fromVersion plan) \<and> valid_version_text (ap_toVersion plan)
     \<and> (ap_manifestSha256 plan = [] \<or> isLowerHexSha256 (ap_manifestSha256 plan))
     \<and> wf_directory (ap_installDir plan) \<and> wf_directory (ap_stagingDir plan) \<and> wf_directory (ap_backupDir plan)
     \<and> wf_restart (ap_restartCommand plan)
     \<and> wf_operations (ap_schemaVersion plan) limits (ap_operations plan) \<and> separate_sources (op_sources (ap_operations plan))
     \<and> validateManagedTargetPaths (map op_target (ap_operations plan)) = Inr ()"

section \<open>Reading\<close>

definition op_progress_for :: "op_progress \<Rightarrow> ApplyOperation list \<Rightarrow> bool" where
  "op_progress_for p ops \<longleftrightarrow>
     opp_operations p = ops \<and> unat (opp_total p) = ops_total ops \<and> evidence_for (op_sources ops) (opp_evidence p)"

lemma op_progress_Nil: "op_progress_for \<lparr>opp_total = 0, opp_evidence = [], opp_operations = []\<rparr> []"
  by (simp add: op_progress_for_def ops_total_def op_sources_def replacements_def)

lemma snoc_simps:
  "op_sources (ops @ [op]) = op_sources ops @ (if op_type op = Replace then [(op_source op, op_sha256 op, op_size op)] else [])"
  "ops_total (ops @ [op]) = ops_total ops + (if op_type op = Replace then unat (op_size op) else 0)"
  by (simp_all add: op_sources_def ops_total_def replacements_def)

lemma permissions_sound:
  assumes "operationPermissions object s = Inr p"
  shows "portable_bits p \<and> (s < 2 \<longrightarrow> p = None)"
proof -
  have "ucast w \<le> (0x1FF :: u32)" if "w \<le> kPortablePermissionMask" for w :: u64
  proof -
    have "unat w \<le> 511" using that by (simp add: kPortablePermissionMask_def word_le_nat_alt)
    then show ?thesis by (simp add: word_le_nat_alt unsigned_ucast_eq take_bit_nat_eq_self)
  qed
  with assms show ?thesis
    by (auto simp: operationPermissions_def portable_bits_def not_less split: option.splits if_splits)
qed

lemma size_sound: "operationSize object limits required = Inr n \<Longrightarrow> n \<le> maxArtifactBytes limits"
  by (auto simp: operationSize_def split: option.splits if_splits)

lemma missing_exists [simp]: "\<not> pre_exists missing_precondition"
  by (simp add: missing_precondition_def)

lemma precondition_sound:
  assumes "operationPrecondition object s limits = Inr c"
  shows "pred_option (wf_precondition limits) c \<and> (s < 2 \<longrightarrow> c = None)"
  using assms
  by (auto simp: operationPrecondition_def wf_precondition_def dest: permissions_sound size_sound
      split: option.splits if_splits)

lemma readOperation_sound:
  assumes "readOperation s limits item = Inr op" "s = 1 \<or> s = 2" "validateManagedTargetPath (op_target op) = Inr ()"
    "op_type op = Replace \<Longrightarrow> validateManagedPath (op_source op) = Inr ()"
    "op_type op = Remove \<Longrightarrow> op_permissions op = None"
  shows "wf_operation s limits op"
proof -
  obtain ps where ps: "operationPermissions item s = Inr (op_permissions op)"
      "operationPrecondition item s limits = Inr (op_precondition op)"
      "operationSize item limits (op_type op = Replace) = Inr (op_size op)"
      "op_type op = Remove \<Longrightarrow> op_size op = 0 \<and> op_source op = [] \<and> op_sha256 op = []"
      "op_type op = Replace \<Longrightarrow> isLowerHexSha256 (op_sha256 op)"
    using assms(1) by (auto simp: readOperation_def readReplaceFields_def split: if_splits)
  show ?thesis
    using assms(2-5) ps permissions_sound [OF ps(1)] precondition_sound [OF ps(2)] size_sound [OF ps(3)]
    by (cases "op_type op") (auto simp: wf_operation_def)
qed

lemma acceptOperation_sound:
  assumes "acceptOperation limits op p = Inr p'" "op_progress_for p ops"
  shows "op_progress_for p' (ops @ [op]) \<and> validateManagedTargetPath (op_target op) = Inr ()
    \<and> (op_type op = Replace \<longrightarrow> validateManagedPath (op_source op) = Inr ())
    \<and> (op_type op = Remove \<longrightarrow> op_permissions op = None)
    \<and> (ops_total (ops @ [op]) \<le> unat (maxTotalArtifactBytes limits) \<or> op_type op = Remove)"
proof (cases "op_type op")
  case Replace
  obtain n ev where n: "checkedAdd (opp_total p) (op_size op) = Some n" "n \<le> maxTotalArtifactBytes limits"
    and ev: "recordEvidence ''Shared apply sources must use identical size and SHA-256 evidence''
      (opp_evidence p) (op_source op) (op_sha256 op) (op_size op) = Inr ev"
    and v: "validateManagedTargetPath (op_target op) = Inr ()" "validateManagedPath (op_source op) = Inr ()"
    and p': "p' = \<lparr>opp_total = n, opp_evidence = ev, opp_operations = opp_operations p @ [op]\<rparr>"
    using assms(1) Replace by (auto simp: acceptOperation_def not_less split: option.splits if_splits)
  have "evidence_for (op_sources (ops @ [op])) ev"
    using recordEvidence_sound [OF _ ev] assms(2) Replace by (simp add: op_progress_for_def snoc_simps)
  moreover have "unat n = ops_total (ops @ [op])"
    using n(1) assms(2) Replace by (simp add: checkedAdd_iff op_progress_for_def snoc_simps)
  ultimately show ?thesis using v p' assms(2) n(2) Replace by (simp add: op_progress_for_def word_le_nat_alt)
next
  case Remove
  then show ?thesis using assms by (auto simp: acceptOperation_def op_progress_for_def snoc_simps split: if_splits)
qed

lemma readOperations_sound:
  assumes "readOperations s limits items p = Inr p'" "op_progress_for p ops" "wf_operations s limits ops" "s = 1 \<or> s = 2"
  shows "\<exists>rest. op_progress_for p' (ops @ rest) \<and> wf_operations s limits (ops @ rest)"
  using assms(1-3)
proof (induction items arbitrary: p ops)
  case Nil
  then show ?case by (intro exI [of _ "[]"]) simp
next
  case (Cons item items)
  obtain op q where op: "readOperation s limits item = Inr op" and q: "acceptOperation limits op p = Inr q"
    and rest: "readOperations s limits items q = Inr p'"
    using Cons.prems(1) by auto
  note a = acceptOperation_sound [OF q Cons.prems(2)]
  have "wf_operation s limits op" using readOperation_sound [OF op assms(4)] a by blast
  moreover have "consistent_sources (op_sources (ops @ [op]))"
    using a evidence_consistent by (auto simp: op_progress_for_def)
  moreover have "ops_total (ops @ [op]) \<le> unat (maxTotalArtifactBytes limits)"
    using a Cons.prems(3) by (auto simp: wf_operations_def snoc_simps)
  ultimately have "wf_operations s limits (ops @ [op])" using Cons.prems(3) by (simp add: wf_operations_def)
  then obtain rest where "op_progress_for p' ((ops @ [op]) @ rest) \<and> wf_operations s limits ((ops @ [op]) @ rest)"
    using Cons.IH [OF rest] a by blast
  then show ?case by (intro exI [of _ "op # rest"]) simp
qed

lemma readSchema_sound: "readSchema json = Inr s \<Longrightarrow> s = 1 \<or> s = 2"
  by (auto simp: readSchema_def split: option.splits if_splits)

lemma readIntent_sound:
  assumes "readIntent json s = Inr (i, r)" "s = 1 \<or> s = 2"
  shows "wf_intent (plan\<lparr>ap_schemaVersion := s, ap_intent := i, ap_rollbackOf := r\<rparr>)"
  using assms
  by (auto simp: readIntent_def readRollbackOf_def intentFromString_def wf_intent_def split: option.splits if_splits)

lemma readRestart_sound: "readRestart items = Inr args \<Longrightarrow> list_all (\<lambda>a. \<not> hasEmbeddedNul a) args"
  by (induction items arbitrary: args) (auto split: if_splits)

lemma readRestartCommand_sound: "readRestartCommand json = Inr args \<Longrightarrow> wf_restart args"
  by (auto simp: readRestartCommand_def wf_restart_def dest: readRestart_sound split: option.splits if_splits)

lemma readPlan_cases:
  assumes "readPlan json limits = Inr plan"
  obtains s i r plan0 restart items p where "readSchema json = Inr s" "readIntent json s = Inr (i, r)"
    "readPlanFields json (empty_plan\<lparr>ap_schemaVersion := s, ap_intent := i, ap_rollbackOf := r\<rparr>) = Inr plan0"
    "readRestartCommand json = Inr restart"
    "readOperations s limits items \<lparr>opp_total = 0, opp_evidence = [], opp_operations = []\<rparr> = Inr p"
    "validateSourceTopology ''Apply source paths have an ancestor/descendant conflict'' (opp_evidence p) = Inr ()"
    "validateManagedTargetPaths (map op_target (opp_operations p)) = Inr ()"
    "plan = plan0\<lparr>ap_restartCommand := restart, ap_operations := opp_operations p\<rparr>"
  using assms by (auto simp: readPlan_def split: if_splits)

lemma readPlanFields_sound:
  assumes "readPlanFields json plan = Inr plan'"
  shows "ap_schemaVersion plan' = ap_schemaVersion plan \<and> ap_intent plan' = ap_intent plan \<and> ap_rollbackOf plan' = ap_rollbackOf plan
    \<and> valid_version_text (ap_fromVersion plan') \<and> valid_version_text (ap_toVersion plan')
    \<and> (ap_manifestSha256 plan' = [] \<or> isLowerHexSha256 (ap_manifestSha256 plan'))
    \<and> wf_directory (ap_installDir plan') \<and> wf_directory (ap_stagingDir plan') \<and> wf_directory (ap_backupDir plan')"
  using assms by (auto simp: readPlanFields_def valid_version_text_def wf_directory_def split: if_splits)

lemma readPlan_wf:
  assumes "readPlan json limits = Inr plan"
  shows "wf_plan limits plan"
  using assms
proof (cases rule: readPlan_cases)
  case (1 s i r plan0 restart items p)
  have s: "s = 1 \<or> s = 2" by (rule readSchema_sound [OF 1(1)])
  obtain ops where ops: "op_progress_for p ops" "wf_operations s limits ops"
    using readOperations_sound [OF 1(5) op_progress_Nil _ s]
    by (auto simp: wf_operations_def ops_total_def op_sources_def replacements_def consistent_sources_def)
  then have "separate_sources (op_sources ops)"
    using 1(6) validateSourceTopology_iff by (auto simp: op_progress_for_def)
  with ops 1 readPlanFields_sound [OF 1(3)] readIntent_sound [OF 1(2) s, of empty_plan] readRestartCommand_sound [OF 1(4)]
  show ?thesis by (cases r) (auto simp: wf_plan_def wf_intent_def op_progress_for_def)
qed

text \<open>
  C37: an accepted apply plan is well formed. Every operation's target is a managed target outside
  the updater's own directory and no two targets alias or nest; a replacement names a managed source,
  a SHA-256 digest, a size within the artifact limit and at most the portable permission bits, a
  removal carries none of these; replacements that share a source agree on digest and size and their
  sizes add up, without overflow, to at most the total limit; a rollback names the transaction it
  reverts and an install names none; directories and the restart command contain no NUL.
\<close>

theorem plan_parse_wf:
  assumes "plan_parse t limits = Inr plan"
  shows "wf_plan limits plan \<and> length t \<le> unat (maxApplyPlanBytes limits)"
  using assms readPlan_wf by (auto simp: plan_parse_def not_less split: if_splits)

section \<open>Writing and reading back\<close>

lemma keyed_adds [simp]:
  "keyed m \<Longrightarrow> keyed (addPermissions m p)" "keyed m \<Longrightarrow> keyed (addPrecondition m c)" "keyed m \<Longrightarrow> keyed (addIntent m plan)"
  by (simp_all add: addPermissions_def addPrecondition_def addIntent_def Let_def split: option.split)

lemma map_of_adds [simp]:
  "keyed m \<Longrightarrow> map_of (addPermissions m p) k' =
     (case p of None \<Rightarrow> map_of m k'
      | Some b \<Rightarrow> if k' = ''permissions'' then Some (case map_of m ''permissions'' of None \<Rightarrow> JUInt (ucast b) | Some u \<Rightarrow> u) else map_of m k')"
  "keyed m \<Longrightarrow> map_of (addPrecondition m c) k' =
     (case c of None \<Rightarrow> map_of m k'
      | Some b \<Rightarrow> if k' = ''precondition'' then Some (case map_of m ''precondition'' of None \<Rightarrow> preconditionJson b | Some u \<Rightarrow> u) else map_of m k')"
  by (simp_all add: addPermissions_def addPrecondition_def split: option.split)

lemma list_all_adds:
  "list_all P m \<Longrightarrow> (\<And>b. P (''permissions'', JUInt b)) \<Longrightarrow> list_all P (addPermissions m p)"
  "list_all P m \<Longrightarrow> (\<And>c. P (''precondition'', preconditionJson c)) \<Longrightarrow> list_all P (addPrecondition m pc)"
  "list_all P m \<Longrightarrow> (\<And>s. P (''intent'', JString s)) \<Longrightarrow> (\<And>r. P (''rollbackOf'', referenceJson r)) \<Longrightarrow> list_all P (addIntent m plan)"
  by (simp_all add: addPermissions_def addPrecondition_def addIntent_def Let_def list_all_emplace split: option.split)

lemma add_keys:
  "fst ` set (addPermissions m p) = (if p = None then {} else {''permissions''}) \<union> fst ` set m"
  "fst ` set (addPrecondition m c) = (if c = None then {} else {''precondition''}) \<union> fst ` set m"
  "fst ` set (addIntent m plan) \<subseteq> (if ap_schemaVersion plan \<ge> 2 then {''intent'', ''rollbackOf''} else {}) \<union> fst ` set m"
  by (auto simp: addPermissions_def addPrecondition_def addIntent_def Let_def keys_emplace split: option.splits)

lemma preconditionJson_storable: "storable (preconditionJson c)"
  by (simp add: preconditionJson_def Let_def addPermissions_def split: option.split)

lemma referenceJson_storable: "storable (referenceJson r)"
  by (simp add: referenceJson_def)

lemma operationJson_storable: "storable (operationJson s op)"
  unfolding operationJson_def Let_def
  by (intro storable_object) (auto intro!: list_all_emplace list_all_addString list_all_adds simp: preconditionJson_storable)

lemma permissions_read:
  assumes "json_get v ''permissions'' = map_option (\<lambda>b. JUInt (ucast b)) p" "portable_bits p" "s \<ge> 2 \<or> p = None"
  shows "operationPermissions v s = Inr p"
proof (cases p)
  case (Some b)
  then have b: "unat b \<le> 511" using assms(2) by (simp add: portable_bits_def word_le_nat_alt)
  have "unat b < 2 ^ 64" using b by simp
  then have "unat (ucast b :: u64) = unat b" by (simp add: unsigned_ucast_eq take_bit_nat_eq_self)
  with b have "\<not> (ucast b :: u64) > kPortablePermissionMask" by (simp add: kPortablePermissionMask_def word_less_nat_alt)
  moreover have "ucast (ucast b :: u64) = b" by (rule bit_word_eqI) (simp add: bit_simps)
  ultimately show ?thesis
    using Some assms by (simp add: operationPermissions_def isNonNegativeInteger_def isUnsignedInteger_def asUInt64_def)
qed (use assms in \<open>simp add: operationPermissions_def\<close>)

lemma readers_settle [simp]:
  "operationSize (settle v) limits required = operationSize v limits required"
  "operationPermissions (settle v) s = operationPermissions v s"
  "json_contains (settle v) k = json_contains v k"
  by (simp_all add: operationSize_def operationPermissions_def json_contains_def json_get_settle split: option.split)

lemma precondition_settle [simp]: "operationPrecondition (settle v) s limits = operationPrecondition v s limits"
  by (simp add: operationPrecondition_def json_get_settle split: option.split)

lemma readOperation_settle [simp]: "readOperation s limits (settle v) = readOperation s limits v"
  by (simp add: readOperation_def readReplaceFields_def split_def cong: if_cong)

lemma size_read: "json_get v ''size'' = Some (JUInt n) \<Longrightarrow> n \<le> maxArtifactBytes limits \<Longrightarrow> operationSize v limits required = Inr n"
  by (simp add: operationSize_def isNonNegativeInteger_def isUnsignedInteger_def asUInt64_def not_less)

lemma precondition_read:
  assumes "json_get v ''precondition'' = map_option preconditionJson c" "pred_option (wf_precondition limits) c" "s \<ge> 2 \<or> c = None"
  shows "operationPrecondition v s limits = Inr c"
proof (cases c)
  case (Some pc)
  let ?j = "preconditionJson pc"
  have obj: "isObject ?j" by (simp add: preconditionJson_def Let_def isObject_def)
  have keys: "requireOnlyKeys ?j [''exists'', ''size'', ''sha256'', ''permissions''] ctxt = Inr ()" for ctxt
    by (simp add: preconditionJson_def Let_def requireOnlyKeys_ok addPermissions_def split: option.split)
  have wf: "wf_precondition limits pc" using assms(2) Some by simp
  show ?thesis
  proof (cases "pre_exists pc")
    case True
    have get: "json_get ?j ''exists'' = Some (JBool True)" "json_get ?j ''size'' = Some (JUInt (pre_size pc))"
      "json_get ?j ''sha256'' = Some (JString (pre_sha256 pc))"
      "json_get ?j ''permissions'' = map_option (\<lambda>b. JUInt (ucast b)) (pre_permissions pc)"
      using True by (simp_all add: preconditionJson_def keyed_def split: option.split)
    have "operationSize ?j limits True = Inr (pre_size pc)" "operationPermissions ?j s = Inr (pre_permissions pc)"
      using wf True assms(3) Some get by (auto simp: wf_precondition_def intro: size_read permissions_read)
    then show ?thesis
      using Some assms obj keys get wf True
      by (simp add: operationPrecondition_def isBool_def asBool_def isString_def asString_def wf_precondition_def)
  next
    case False
    then have "pc = missing_precondition" using wf by (simp add: wf_precondition_def)
    with Some assms obj keys show ?thesis
      by (simp add: operationPrecondition_def isBool_def asBool_def json_contains_def preconditionJson_def)
  qed
qed (use assms in \<open>simp add: operationPrecondition_def\<close>)

lemma operationJson_get:
  assumes "wf_operation s limits op" "s = 1 \<or> s = 2"
  shows "json_get (operationJson s op) ''type'' = Some (JString (opToString (op_type op)))"
    "json_get (operationJson s op) ''source'' = (if op_source op = [] then None else Some (JString (op_source op)))"
    "json_get (operationJson s op) ''target'' = Some (JString (op_target op))"
    "json_get (operationJson s op) ''sha256'' = (if op_sha256 op = [] then None else Some (JString (op_sha256 op)))"
    "json_get (operationJson s op) ''size'' = Some (JUInt (op_size op))"
    "json_get (operationJson s op) ''permissions'' = map_option (\<lambda>b. JUInt (ucast b)) (op_permissions op)"
    "json_get (operationJson s op) ''precondition'' = map_option preconditionJson (op_precondition op)"
  using assms by (auto simp: operationJson_def Let_def wf_operation_def split: option.split)

lemma operationJson_keys:
  "requireOnlyKeys (operationJson s op)
     (if s = 1 then [''type'', ''source'', ''target'', ''sha256'', ''size'']
      else [''type'', ''source'', ''target'', ''sha256'', ''size'', ''permissions'', ''precondition'']) ctxt = Inr ()"
  unfolding operationJson_def Let_def requireOnlyKeys_ok by (simp add: keys_emplace addString_keys add_keys)

lemma digest_nonempty: "isLowerHexSha256 d \<Longrightarrow> d \<noteq> []"
  by (auto simp: isLowerHexSha256_def)

lemma managed_nonempty: "validateManagedPath p = Inr () \<Longrightarrow> p \<noteq> []"
  by (simp add: validateManagedPath_ok)

lemma operationJson_read:
  assumes "wf_operation s limits op" "s = 1 \<or> s = 2"
  shows "readOperation s limits (operationJson s op) = Inr op"
proof -
  let ?j = "operationJson s op"
  note get = operationJson_get [OF assms]
  have obj: "isObject ?j" by (simp add: operationJson_def Let_def isObject_def)
  have str: "requiredString ?j ''type'' = Inr (opToString (op_type op))" "requiredString ?j ''target'' = Inr (op_target op)"
    by (simp_all add: requiredString_def get isString_def asString_def)
  have type: "opFromString (opToString (op_type op)) = Inr (op_type op)"
    by (cases "op_type op") (simp_all add: opFromString_def opToString_def)
  have size: "operationSize ?j limits b = Inr (op_size op)" for b
    using assms(1) by (intro size_read [OF get(5)]) (cases "op_type op"; simp add: wf_operation_def)
  have perm: "operationPermissions ?j s = Inr (op_permissions op)"
    using assms by (intro permissions_read [OF get(6)]) (cases "op_type op"; auto simp: wf_operation_def portable_bits_def)+
  have pre: "operationPrecondition ?j s limits = Inr (op_precondition op)"
    using assms by (intro precondition_read [OF get(7)]) (auto simp: wf_operation_def)
  show ?thesis
  proof (cases "op_type op")
    case Replace
    then have wf: "validateManagedPath (op_source op) = Inr ()" "isLowerHexSha256 (op_sha256 op)"
      using assms(1) by (simp_all add: wf_operation_def)
    then have "readReplaceFields ?j = Inr (op_source op, op_sha256 op)"
      using digest_nonempty managed_nonempty by (auto simp: readReplaceFields_def requiredString_def get isString_def asString_def)
    with Replace obj str type size perm pre show ?thesis
      unfolding readOperation_def by (simp add: operationJson_keys)
  next
    case Remove
    then have wf: "op_source op = []" "op_sha256 op = []" "op_size op = 0" using assms(1) by (simp_all add: wf_operation_def)
    with Remove obj str type size perm pre get show ?thesis
      unfolding readOperation_def by (simp add: operationJson_keys json_contains_def)
  qed
qed

lemma acceptOperation_complete:
  assumes "op_progress_for p ops" "wf_operations s limits (ops @ [op])"
  shows "\<exists>p'. acceptOperation limits op p = Inr p'"
proof -
  have wf: "wf_operation s limits op" "ops_total (ops @ [op]) \<le> unat (maxTotalArtifactBytes limits)"
    "consistent_sources (op_sources (ops @ [op]))"
    using assms(2) by (auto simp: wf_operations_def)
  show ?thesis
  proof (cases "op_type op")
    case Replace
    have sum: "unat (opp_total p) + unat (op_size op) \<le> unat (maxTotalArtifactBytes limits)"
      using wf(2) assms(1) Replace by (simp add: op_progress_for_def snoc_simps)
    then have "unat (opp_total p) + unat (op_size op) < 2 ^ 64"
      using unsigned_less [of "maxTotalArtifactBytes limits", where ?'a = nat] by simp
    then obtain n where n: "checkedAdd (opp_total p) (op_size op) = Some n" by (auto simp: checkedAdd_Some)
    then have "n \<le> maxTotalArtifactBytes limits" using sum by (simp add: checkedAdd_iff word_le_nat_alt)
    moreover have "consistent_sources (op_sources ops @ [(op_source op, op_sha256 op, op_size op)])"
      using wf(3) Replace by (simp add: snoc_simps)
    then obtain ev where "recordEvidence ''Shared apply sources must use identical size and SHA-256 evidence''
        (opp_evidence p) (op_source op) (op_sha256 op) (op_size op) = Inr ev"
      using recordEvidence_complete assms(1) unfolding op_progress_for_def by blast
    ultimately show ?thesis using n wf(1) Replace by (simp add: acceptOperation_def wf_operation_def not_less)
  next
    case Remove
    then show ?thesis using wf(1) by (simp add: acceptOperation_def wf_operation_def)
  qed
qed

lemma wf_operations_prefix: "wf_operations s limits (ops @ rest) \<Longrightarrow> wf_operations s limits ops"
  by (auto simp: wf_operations_def ops_total_def op_sources_def replacements_def consistent_sources_def)

lemma readOperations_complete:
  assumes "op_progress_for p ops" "wf_operations s limits (ops @ rest)" "s = 1 \<or> s = 2"
  shows "\<exists>p'. readOperations s limits (map (\<lambda>op. settle (operationJson s op)) rest) p = Inr p' \<and> op_progress_for p' (ops @ rest)"
  using assms(1, 2)
proof (induction rest arbitrary: p ops)
  case (Cons op rest)
  have wf: "wf_operations s limits (ops @ [op])" using wf_operations_prefix [of s limits "ops @ [op]" rest] Cons.prems(2) by simp
  then have op: "wf_operation s limits op" by (simp add: wf_operations_def)
  obtain q where q: "acceptOperation limits op p = Inr q"
    using acceptOperation_complete [OF Cons.prems(1) wf] by blast
  then have "op_progress_for q (ops @ [op])" using acceptOperation_sound [OF q Cons.prems(1)] by blast
  then show ?case using Cons.IH [of q "ops @ [op]"] Cons.prems(2) operationJson_read [OF op assms(3)] q by simp
qed simp

lemma readRestart_complete:
  "list_all (\<lambda>a. \<not> hasEmbeddedNul a) args \<Longrightarrow> readRestart (map (\<lambda>a. settle (JString a)) args) = Inr args"
  by (induction args) (simp_all add: isString_def asString_def)

lemma map_of_addIntent [simp]:
  "keyed m \<Longrightarrow> k' \<noteq> ''intent'' \<Longrightarrow> k' \<noteq> ''rollbackOf'' \<Longrightarrow> map_of (addIntent m plan) k' = map_of m k'"
  "keyed m \<Longrightarrow> map_of m ''intent'' = None \<Longrightarrow>
     map_of (addIntent m plan) ''intent'' = (if ap_schemaVersion plan \<ge> 2 then Some (JString (intentToString (ap_intent plan))) else None)"
  "keyed m \<Longrightarrow> map_of m ''rollbackOf'' = None \<Longrightarrow>
     map_of (addIntent m plan) ''rollbackOf'' = (if ap_schemaVersion plan \<ge> 2 then map_option referenceJson (ap_rollbackOf plan) else None)"
  by (simp_all add: addIntent_def Let_def split: option.split)

lemma planJson_get:
  "json_get (planJson p) ''schemaVersion'' = Some (JInt (ap_schemaVersion p))"
  "json_get (planJson p) ''intent'' = (if ap_schemaVersion p \<ge> 2 then Some (JString (intentToString (ap_intent p))) else None)"
  "json_get (planJson p) ''rollbackOf'' = (if ap_schemaVersion p \<ge> 2 then map_option referenceJson (ap_rollbackOf p) else None)"
  "json_get (planJson p) ''appId'' = (if ap_appId p = [] then None else Some (JString (ap_appId p)))"
  "json_get (planJson p) ''fromVersion'' = (if ap_fromVersion p = [] then None else Some (JString (ap_fromVersion p)))"
  "json_get (planJson p) ''toVersion'' = (if ap_toVersion p = [] then None else Some (JString (ap_toVersion p)))"
  "json_get (planJson p) ''releaseId'' = (if ap_releaseId p = [] then None else Some (JString (ap_releaseId p)))"
  "json_get (planJson p) ''manifestSha256'' = (if ap_manifestSha256 p = [] then None else Some (JString (ap_manifestSha256 p)))"
  "json_get (planJson p) ''installDir'' = Some (JString (ap_installDir p))"
  "json_get (planJson p) ''stagingDir'' = Some (JString (ap_stagingDir p))"
  "json_get (planJson p) ''backupDir'' = Some (JString (ap_backupDir p))"
  "json_get (planJson p) ''restartCommand'' = Some (JArray (map JString (ap_restartCommand p)))"
  "json_get (planJson p) ''operations'' = Some (JArray (map (operationJson (ap_schemaVersion p)) (ap_operations p)))"
  by (simp_all add: planJson_def Let_def)

lemma planJson_storable: "ap_schemaVersion p = 1 \<or> ap_schemaVersion p = 2 \<Longrightarrow> storable (planJson p)"
  unfolding planJson_def Let_def
  by (intro storable_object list_all_emplace list_all_addString list_all_adds)
    (auto simp: list_all_iff operationJson_storable referenceJson_storable)

lemma planJson_keys:
  assumes "ap_schemaVersion p = 1 \<or> ap_schemaVersion p = 2"
  shows "requireOnlyKeys (planJson p) (planKeys (ap_schemaVersion p)) ctxt = Inr ()"
proof -
  have "fst ` set (asObject (planJson p)) \<subseteq> set (planKeys (ap_schemaVersion p))"
    unfolding planJson_def Let_def asObject_def Json.case
    by (intro subset_trans [OF emplace_keys_le] subset_trans [OF addString_keys_le] subset_trans [OF add_keys(3)] insert_subsetI)
      (use assms in \<open>auto simp: planKeys_def\<close>)
  then show ?thesis by (simp add: requireOnlyKeys_def checkKeys_ok)
qed

lemma planJson_fields:
  assumes "wf_plan limits p"
  shows "readPlanFields (planJson p) (empty_plan\<lparr>ap_schemaVersion := ap_schemaVersion p, ap_intent := ap_intent p, ap_rollbackOf := ap_rollbackOf p\<rparr>)
    = Inr (p\<lparr>ap_restartCommand := [], ap_operations := []\<rparr>)"
proof -
  have opt: "optionalString (planJson p) k = Inr t" if "json_get (planJson p) k = (if t = [] then None else Some (JString t))" for k t
    using that by (simp add: optionalString_def isString_def asString_def)
  have req: "requiredString (planJson p) k = Inr t" if "json_get (planJson p) k = Some (JString t)" for k t
    using that by (simp add: requiredString_def isString_def asString_def)
  show ?thesis
    using assms
    by (auto simp: readPlanFields_def opt req planJson_get wf_plan_def valid_version_text_def wf_directory_def empty_plan_def)
qed

lemma planJson_intent:
  assumes "wf_intent p"
  shows "readIntent (settle (planJson p)) (ap_schemaVersion p) = Inr (ap_intent p, ap_rollbackOf p)"
proof (cases "ap_rollbackOf p")
  case None
  then show ?thesis
    using assms
    by (auto simp: wf_intent_def readIntent_def json_contains_def json_get_settle planJson_get isString_def asString_def
        intentFromString_def intentToString_def)
next
  case (Some r)
  have "requiredString (referenceJson r) ''transactionId'' = Inr (ref_transactionId r)"
    "requiredString (referenceJson r) ''planDigest'' = Inr (ref_planDigest r)"
    "requireOnlyKeys (referenceJson r) [''transactionId'', ''planDigest''] ctxt = Inr ()"
    "isObject (referenceJson r)" for ctxt
    by (simp_all add: referenceJson_def requiredString_def isString_def asString_def requireOnlyKeys_ok isObject_def)
  then have "readRollbackOf (settle (referenceJson r)) = Inr r" "isObject (referenceJson r)"
    using assms Some by (simp_all add: readRollbackOf_def wf_intent_def)
  then show ?thesis
    using assms Some
    by (auto simp: wf_intent_def readIntent_def json_get_settle planJson_get isString_def asString_def
        intentFromString_def intentToString_def)
qed

lemma planJson_read:
  assumes "wf_plan limits p"
  shows "readPlan (settle (planJson p)) limits = Inr p"
proof -
  have s: "ap_schemaVersion p = 1 \<or> ap_schemaVersion p = 2" and wfi: "wf_intent p"
    using assms by (auto simp: wf_plan_def wf_intent_def)
  have "wf_operations (ap_schemaVersion p) limits ([] @ ap_operations p)" using assms by (simp add: wf_plan_def)
  then obtain q where q: "readOperations (ap_schemaVersion p) limits (map (\<lambda>op. settle (operationJson (ap_schemaVersion p) op)) (ap_operations p))
      \<lparr>opp_total = 0, opp_evidence = [], opp_operations = []\<rparr> = Inr q" "op_progress_for q (ap_operations p)"
    using readOperations_complete [OF op_progress_Nil _ s] by fastforce
  have t: "validateSourceTopology msg (opp_evidence q) = Inr ()" "validateManagedTargetPaths (map op_target (opp_operations q)) = Inr ()"
    "opp_operations q = ap_operations p" for msg
    using assms q(2) validateSourceTopology_iff by (auto simp: wf_plan_def op_progress_for_def)
  have schema: "readSchema (settle (planJson p)) = Inr (ap_schemaVersion p)"
    using s by (auto simp: readSchema_def json_get_settle planJson_get isNonNegativeInteger_def isUnsignedInteger_def asUInt64_def)
  have restart: "readRestartCommand (settle (planJson p)) = Inr (ap_restartCommand p)"
    using assms readRestart_complete [of "ap_restartCommand p"]
    by (auto simp: readRestartCommand_def json_get_settle planJson_get isArray_def asArray_def wf_plan_def wf_restart_def comp_def)
  have items: "readOperationItems (settle (planJson p)) = Inr (map (\<lambda>op. settle (operationJson (ap_schemaVersion p) op)) (ap_operations p))"
    by (simp add: readOperationItems_def json_get_settle planJson_get isArray_def asArray_def comp_def)
  have fields: "readPlanFields (settle (planJson p)) plan = readPlanFields (planJson p) plan" for plan
    by (simp add: readPlanFields_def cong: if_cong)
  have obj: "isObject (planJson p)" by (simp add: planJson_def Let_def isObject_def)
  show ?thesis
    using q t obj schema restart items planJson_intent [OF wfi] planJson_fields [OF assms] planJson_keys [OF s]
    by (simp add: readPlan_def fields)
qed

lemma plan_print_parse:
  assumes "wf_plan limits p" "validateResourceUsage fp (planJson p) (limits_json limits) = Inr ()"
  shows "\<exists>t. plan_toJson fp p = Some t \<and> (length t \<le> unat (maxApplyPlanBytes limits) \<longrightarrow> plan_parse t limits = Inr p)"
proof -
  have "storable (planJson p)" using assms(1) by (intro planJson_storable) (auto simp: wf_plan_def wf_intent_def)
  then obtain t where "stringify fp 2 (planJson p) = Some t" "json_parse t (limits_json limits) = Some (Inr (settle (planJson p)))"
    using print_parse_settle [OF _ assms(2)] by blast
  then show ?thesis
    using planJson_read [OF assms(1)] by (simp add: plan_toJson_def plan_parse_def json_result_def)
qed

text \<open>
  C38: the library and the external updater agree on the apply plan: a well-formed plan whose JSON
  value is within the parser's limits prints, and if the text is within the plan byte limit, reading
  it gives the same plan, for both schema versions, installs and rollbacks.
\<close>

theorem plan_roundtrip:
  assumes "wf_plan limits p" "validateResourceUsage fp (planJson p) (limits_json limits) = Inr ()"
  shows "\<exists>t. plan_toJson fp p = Some t \<and> (length t \<le> unat (maxApplyPlanBytes limits) \<longrightarrow> plan_parse t limits = Inr p)"
  using assms by (rule plan_print_parse)

text \<open>A rollback of two files.\<close>

definition rollback_plan :: ApplyPlan where
  "rollback_plan = \<lparr>ap_schemaVersion = 2, ap_intent = Rollback,
     ap_rollbackOf = Some \<lparr>ref_transactionId = zero_digest, ref_planDigest = zero_digest\<rparr>, ap_appId = ''app'', ap_fromVersion = ''1.2.3'',
     ap_toVersion = [], ap_releaseId = [], ap_manifestSha256 = [], ap_installDir = ''/a'', ap_stagingDir = ''/s'', ap_backupDir = ''/b'',
     ap_restartCommand = [''/a/x''],
     ap_operations = [
       \<lparr>op_type = Replace, op_source = ''bin/a'', op_target = ''bin/a'', op_sha256 = zero_digest, op_size = 5, op_permissions = Some 0x1ED,
        op_precondition = Some \<lparr>pre_exists = True, pre_size = 7, pre_sha256 = zero_digest, pre_permissions = None\<rparr>\<rparr>,
       \<lparr>op_type = Remove, op_source = [], op_target = ''old'', op_sha256 = [], op_size = 0, op_permissions = None,
        op_precondition = Some missing_precondition\<rparr>]\<rparr>"

lemma rollback_plan_wf: "wf_plan default_limits rollback_plan"
proof -
  have "version_parse ''1.2.3'' = Inr \<lparr>ver_major = 1, ver_minor = 2, ver_patch = 3, ver_prerelease = [], ver_build = []\<rparr>"
    by (simp add: eval_simps)
  then show ?thesis
    by (simp add: wf_plan_def rollback_plan_def wf_intent_def wf_operations_def wf_operation_def wf_precondition_def
        ops_total_def op_sources_def replacements_def consistent_sources_def separate_sources_def key_ancestor_def
        valid_version_text_def wf_directory_def wf_restart_def hasEmbeddedNul_def portable_bits_def missing_precondition_def
        zeros_digest eval_simps split_loop_split_on neighbour_ancestor_def)
qed

lemma rollback_plan_json:
  "planJson rollback_plan = JObject [(''appId'', JString ''app''), (''backupDir'', JString ''/b''), (''fromVersion'', JString ''1.2.3''),
     (''installDir'', JString ''/a''), (''intent'', JString ''rollback''),
     (''operations'', JArray [
        JObject [(''permissions'', JUInt 0x1ED),
          (''precondition'', JObject [(''exists'', JBool True), (''sha256'', JString zero_digest), (''size'', JUInt 7)]),
          (''sha256'', JString zero_digest), (''size'', JUInt 5), (''source'', JString ''bin/a''), (''target'', JString ''bin/a''),
          (''type'', JString ''replace'')],
        JObject [(''precondition'', JObject [(''exists'', JBool False)]), (''size'', JUInt 0), (''target'', JString ''old''),
          (''type'', JString ''remove'')]]),
     (''restartCommand'', JArray [JString ''/a/x'']),
     (''rollbackOf'', JObject [(''planDigest'', JString zero_digest), (''transactionId'', JString zero_digest)]),
     (''schemaVersion'', JInt 2), (''stagingDir'', JString ''/s'')]"
proof -
  have z: "zero_digest \<noteq> []" by (simp add: zero_digest_def)
  show ?thesis
    by (simp add: planJson_def rollback_plan_def operationJson_def addString_def addIntent_def addPermissions_def addPrecondition_def
        preconditionJson_def referenceJson_def intentToString_def opToString_def missing_precondition_def Let_def z)
qed

lemma rollback_plan_text:
  obtains t where "plan_toJson id rollback_plan = Some t" "length t \<le> unat (maxApplyPlanBytes default_limits)"
proof -
  have "\<exists>t. plan_toJson id rollback_plan = Some t \<and> length t \<le> 8388608"
    by (simp add: plan_toJson_def rollback_plan_json stringify_def zero_digest_escape)
      (simp add: jsonEscape_def escapeByte_def lineBreak_def numberText_def integerText_def decimalText_def decimal_text.simps
        zero_digest_escape)
  then show ?thesis using that by (auto simp: default_limits_def)
qed

lemma rollback_plan_resources: "validateResourceUsage id (planJson rollback_plan) (limits_json default_limits) = Inr ()"
  by (simp add: rollback_plan_json eval_simps decimalText_def decimal_text.simps zero_digest_escape)

theorem plan_roundtrip_witness:
  "\<exists>t. plan_toJson id rollback_plan = Some t \<and> plan_parse t default_limits = Inr rollback_plan"
proof -
  obtain t where "plan_toJson id rollback_plan = Some t" "length t \<le> unat (maxApplyPlanBytes default_limits)"
    by (rule rollback_plan_text)
  with plan_roundtrip [OF rollback_plan_wf rollback_plan_resources] show ?thesis by auto
qed

theorem plan_parse_wf_witness:
  "\<exists>t. plan_parse t default_limits = Inr rollback_plan \<and> wf_plan default_limits rollback_plan
     \<and> length t \<le> unat (maxApplyPlanBytes default_limits)"
proof -
  obtain t where "plan_toJson id rollback_plan = Some t" "length t \<le> unat (maxApplyPlanBytes default_limits)"
    by (rule rollback_plan_text)
  then have "plan_parse t default_limits = Inr rollback_plan"
    using plan_print_parse [OF rollback_plan_wf rollback_plan_resources] by auto
  with plan_parse_wf [OF this] show ?thesis by blast
qed

end
