(* ===== verification/Json_Reparse.thy ===== *)
theory Json_Reparse
  imports Json_Roundtrip
begin

text \<open>
  What a printed value can be read as. The parser's limits only ever turn a result into an error, so
  two readings of the same text under different limits agree when both succeed; a printed value is
  therefore read, under any limits at all, as itself or not at all.
\<close>

definition limits_le :: "JsonResourceLimits \<Rightarrow> JsonResourceLimits \<Rightarrow> bool" where
  "limits_le l l' \<longleftrightarrow> maxDepth l \<le> maxDepth l' \<and> maxNodes l \<le> maxNodes l' \<and> maxStringBytes l \<le> maxStringBytes l'
     \<and> maxNumberBytes l \<le> maxNumberBytes l' \<and> maxContainerEntries l \<le> maxContainerEntries l'"

section \<open>Results that are kept\<close>

definition kept :: "'a result \<Rightarrow> 'a result \<Rightarrow> bool" where
  "kept r r' \<longleftrightarrow> (\<forall>x. r = Inr x \<longrightarrow> r' = Inr x)"

definition kept_out :: "'a result option \<Rightarrow> 'a result option \<Rightarrow> bool" where
  "kept_out r r' \<longleftrightarrow> (\<forall>x. r = Some (Inr x) \<longrightarrow> r' = Some (Inr x))"

named_theorems kept_intros

lemma kept_base [kept_intros]:
  "kept r r" "kept (jfail m) r" "kept (jlimit m) r" "kept_out o' o'" "kept_out (Some (jfail m)) o'" "kept_out (Some (jlimit m)) o'"
  "kept r r' \<Longrightarrow> kept_out (Some r) (Some r')"
  by (auto simp: kept_def kept_out_def jfail_def jlimit_def)

lemma kept_cases [kept_intros]:
  "(c \<Longrightarrow> kept r r') \<Longrightarrow> (\<not> c \<Longrightarrow> kept s s') \<Longrightarrow> kept (if c then r else s) (if c then r' else s')"
  "(x = None \<Longrightarrow> kept r r') \<Longrightarrow> (\<And>y. kept (f y) (f' y)) \<Longrightarrow> kept (case x of None \<Rightarrow> r | Some y \<Rightarrow> f y) (case x of None \<Rightarrow> r' | Some y \<Rightarrow> f' y)"
  "kept u u' \<Longrightarrow> (\<And>z. kept (h z) (h' z)) \<Longrightarrow> kept (bindr u h) (bindr u' h')"
  "(\<And>a b. kept (g a b) (g' a b)) \<Longrightarrow> kept (case p of (a, b) \<Rightarrow> g a b) (case p of (a, b) \<Rightarrow> g' a b)"
  by (auto simp: kept_def split: option.split prod.split)

lemma kept_out_cases [kept_intros]:
  "(c \<Longrightarrow> kept_out r r') \<Longrightarrow> (\<not> c \<Longrightarrow> kept_out s s') \<Longrightarrow> kept_out (if c then r else s) (if c then r' else s')"
  "kept_out r r' \<Longrightarrow> (\<And>y. kept_out (f y) (f' y)) \<Longrightarrow> kept_out (case x of None \<Rightarrow> r | Some y \<Rightarrow> f y) (case x of None \<Rightarrow> r' | Some y \<Rightarrow> f' y)"
  "kept_out u u' \<Longrightarrow> (\<And>z. kept_out (h z) (h' z)) \<Longrightarrow> kept_out (bindp u h) (bindp u' h')"
  "kept_out (g (fst p) (snd p)) (g' (fst p) (snd p)) \<Longrightarrow> kept_out (case p of (a, b) \<Rightarrow> g a b) (case p of (a, b) \<Rightarrow> g' a b)"
  by (auto simp: kept_out_def bindp_def split: option.splits sum.splits prod.split)

lemma kept_out_result:
  "kept r r' \<Longrightarrow> (\<And>x. kept_out (f x) (f' x)) \<Longrightarrow>
   kept_out (case r of Inl e \<Rightarrow> Some (Inl e) | Inr x \<Rightarrow> f x) (case r' of Inl e \<Rightarrow> Some (Inl e) | Inr x \<Rightarrow> f' x)"
  by (auto simp: kept_def kept_out_def split: sum.splits)

text \<open>A guard on the limits.\<close>

lemma kept_guard:
  "(c' \<Longrightarrow> c) \<Longrightarrow> (\<not> c \<Longrightarrow> kept r r') \<Longrightarrow> kept (if c then jlimit m else r) (if c' then jlimit m else r')"
  "(c' \<Longrightarrow> c) \<Longrightarrow> (\<not> c \<Longrightarrow> kept_out u u') \<Longrightarrow> kept_out (if c then Some (jlimit m) else u) (if c' then Some (jlimit m) else u')"
  by (auto simp: kept_def kept_out_def jlimit_def)

section \<open>Larger limits keep results\<close>

lemma parseStringBody_mono:
  assumes "limits_le l l'"
  shows "parseStringBody l s out = Inr r \<Longrightarrow> parseStringBody l' s out = Inr r"
  using assms
proof (induction l s out rule: parseStringBody.induct)
  case (2 l c rest out)
  have le: "maxStringBytes l \<le> maxStringBytes l'" using "2.prems"(2) by (simp add: limits_le_def)
  from 2 le show ?case
    by (auto simp: jfail_def jlimit_def appendByte_def appendCodePoint_def Let_def
        split: if_splits option.split_asm list.split_asm sum.split_asm prod.split_asm)
qed (simp add: jfail_def)

lemma parseString_mono: "limits_le l l' \<Longrightarrow> kept (parseString l s) (parseString l' s)"
  by (auto simp: parseString_def kept_def dest: parseStringBody_mono split: option.splits)

lemma consumeNumberByte_mono: "limits_le l l' \<Longrightarrow> kept (consumeNumberByte l n) (consumeNumberByte l' n)"
  unfolding consumeNumberByte_def limits_le_def by (intro kept_guard kept_intros) simp

lemma digitRun_mono: "limits_le l l' \<Longrightarrow> kept (digitRun l n s) (digitRun l' n s)"
proof (induction s arbitrary: n)
  case (Cons c s)
  then show ?case unfolding digitRun.simps
    by (intro kept_intros consumeNumberByte_mono) simp_all
qed (simp add: kept_intros)

lemma json_parseNumber_mono: "limits_le l l' \<Longrightarrow> kept (json_parseNumber l s) (json_parseNumber l' s)"
  unfolding json_parseNumber_def numberInteger_def numberFraction_def numberExponent_def Let_def
  by (intro kept_intros consumeNumberByte_mono digitRun_mono)

lemma parse_step_limits:
  assumes l: "limits_le l l'" and self: "\<And>c. kept_out (self c) (self' c)"
  shows "kept_out (parse_step l self call) (parse_step l' self' call)"
proof (cases call)
  case (ParseValue d s n)
  show ?thesis
    unfolding ParseValue parse_step_def parse_call.case parseValue_def Let_def
    by (intro kept_guard kept_intros parseString_mono json_parseNumber_mono self l) (use l in \<open>simp_all add: limits_le_def\<close>)
next
  case (ParseObject d m k s n)
  show ?thesis
    unfolding ParseObject parse_step_def parse_call.case parseObject_def Let_def
    by (intro kept_guard kept_intros self l kept_out_result parseString_mono) (use l in \<open>simp_all add: limits_le_def\<close>)
next
  case (ParseArray d xs s n)
  show ?thesis
    unfolding ParseArray parse_step_def parse_call.case parseArray_def Let_def
    by (intro kept_guard kept_intros self l) (use l in \<open>simp_all add: limits_le_def\<close>)
qed

lemma run_parser_limits: "limits_le l l' \<Longrightarrow> kept_out (run_parser fuel l call) (run_parser fuel l' call)"
  by (induction fuel arbitrary: call) (simp_all add: parse_step_limits kept_intros)

section \<open>Limits that suffice\<close>

definition roomy :: "JsonResourceLimits \<Rightarrow> nat \<Rightarrow> nat \<Rightarrow> nat \<Rightarrow> bool" where
  "roomy l k d n \<longleftrightarrow> d + k \<le> maxDepth l \<and> n + k \<le> maxNodes l \<and> k \<le> maxStringBytes l \<and> k \<le> maxNumberBytes l
     \<and> k \<le> maxContainerEntries l"

lemma roomy_le: "roomy l k d n \<Longrightarrow> k' \<le> k \<Longrightarrow> roomy l k' d n"
  "roomy l (j + k) d n \<Longrightarrow> n' \<le> n + j \<Longrightarrow> roomy l k d n'"
  "roomy l (Suc k) d n \<Longrightarrow> roomy l k (Suc d) n" "roomy l (Suc k) d n \<Longrightarrow> roomy l k d (Suc n)"
  by (auto simp: roomy_def)

lemma printed_needs:
  "stringifyInto fp indent depth v = Some e \<Longrightarrow>
     \<exists>k. \<forall>l d n. roomy l k d n \<longrightarrow> (\<exists>n'\<le>n + k. validateValueResources fp l d v n = Inr n')"
  "stringifyItems fp indent depth xs = Some es \<Longrightarrow>
     \<exists>k. \<forall>l d n. roomy l k d n \<longrightarrow> (\<exists>n'\<le>n + k. validateItems fp l d xs n = Inr n')"
  "stringifyMembers fp indent depth m = Some es \<Longrightarrow>
     \<exists>k. \<forall>l d n. roomy l k d n \<longrightarrow> (\<exists>n'\<le>n + k. validateMembers fp l d m n = Inr n')"
proof (induction fp indent depth v and fp indent depth xs and fp indent depth m arbitrary: e and es and es
    rule: stringifyInto_stringifyItems_stringifyMembers.induct)
  case (1 fp indent depth v)
  show ?case
  proof (cases v)
    case (JString t)
    then show ?thesis
      using "1.prems" by (intro exI [of _ "Suc (length t)"]) (auto simp: roomy_def jsonEscape_def split: if_splits)
  next
    case (JArray xs)
    then obtain es where "stringifyItems fp indent (if indent > 0 then depth + indent else depth) xs = Some es"
      using "1.prems" by (auto simp: bind_eq_Some_conv simp del: stringifyItems.simps split: if_splits)
    with "1.IH"(2) JArray obtain k where k: "\<And>l d n. roomy l k d n \<Longrightarrow> \<exists>n'\<le>n + k. validateItems fp l d xs n = Inr n'" by metis
    have "\<exists>n'\<le>n + Suc (k + length xs). validateValueResources fp l d v n = Inr n'" if "roomy l (Suc (k + length xs)) d n" for l d n
      using k [of l d "Suc n"] roomy_le(1) [OF that, of "Suc k"] roomy_le(4) [of l k d n] that JArray by (force simp: roomy_def)
    then show ?thesis by blast
  next
    case (JObject m)
    then obtain es where "stringifyMembers fp indent (if indent > 0 then depth + indent else depth) m = Some es"
      using "1.prems" by (auto simp: bind_eq_Some_conv simp del: stringifyMembers.simps split: if_splits)
    with "1.IH"(1) JObject obtain k where k: "\<And>l d n. roomy l k d n \<Longrightarrow> \<exists>n'\<le>n + k. validateMembers fp l d m n = Inr n'" by metis
    have "\<exists>n'\<le>n + Suc (k + length m). validateValueResources fp l d v n = Inr n'" if "roomy l (Suc (k + length m)) d n" for l d n
      using k [of l d "Suc n"] roomy_le(1) [OF that, of "Suc k"] roomy_le(4) [of l k d n] that JObject by (force simp: roomy_def)
    then show ?thesis by blast
  qed (auto simp: roomy_def intro!: exI [of _ "Suc (length (numberText fp v))"])
next
  case (3 fp indent depth x xs)
  then obtain e es' where "stringifyInto fp indent depth x = Some e" "stringifyItems fp indent depth xs = Some es'"
    by (auto simp: bind_eq_Some_conv simp del: stringifyInto.simps)
  with 3 obtain j k where
    j: "\<And>l d n. roomy l j d n \<Longrightarrow> \<exists>n'\<le>n + j. validateValueResources fp l d x n = Inr n'" and
    k: "\<And>l d n. roomy l k d n \<Longrightarrow> \<exists>n'\<le>n + k. validateItems fp l d xs n = Inr n'" by metis
  have "\<exists>n'\<le>n + (Suc j + k). validateItems fp l d (x # xs) n = Inr n'" if r: "roomy l (Suc j + k) d n" for l d n
  proof -
    obtain n1 where n1: "n1 \<le> n + j" "validateValueResources fp l (Suc d) x n = Inr n1"
      using j [of l "Suc d" n] roomy_le(1) [OF r, of "Suc j"] roomy_le(3) by auto
    have "roomy l k d n1" by (rule roomy_le(2) [OF r]) (use n1(1) in simp)
    then obtain n' where "n' \<le> n1 + k" "validateItems fp l d xs n1 = Inr n'" using k by blast
    with n1 r show ?thesis by (auto simp: roomy_def simp del: validateValueResources.simps)
  qed
  then show ?case by blast
next
  case (5 fp indent depth key x m)
  then obtain e es' where e: "stringifyInto fp indent depth x = Some e" and es: "stringifyMembers fp indent depth m = Some es'"
    and esc: "jsonEscape key = Some (concat (map escapeByte key))"
    by (auto simp: bind_eq_Some_conv jsonEscape_def simp del: stringifyInto.simps split: if_splits)
  from esc have key: "isValidUtf8 key" by (simp add: jsonEscape_def split: if_splits)
  obtain j where j: "\<And>l d n. roomy l j d n \<Longrightarrow> \<exists>n'\<le>n + j. validateValueResources fp l d x n = Inr n'"
    using "5.IH"(1) [OF esc e] by blast
  obtain k where k: "\<And>l d n. roomy l k d n \<Longrightarrow> \<exists>n'\<le>n + k. validateMembers fp l d m n = Inr n'"
    using "5.IH"(2) [OF esc e es] by blast
  have "\<exists>n'\<le>n + (Suc (j + length key) + k). validateMembers fp l d ((key, x) # m) n = Inr n'"
    if r: "roomy l (Suc (j + length key) + k) d n" for l d n
  proof -
    obtain n1 where n1: "n1 \<le> n + j" "validateValueResources fp l (Suc d) x n = Inr n1"
      using j [of l "Suc d" n] roomy_le(1) [OF r, of "Suc j"] roomy_le(3) by auto
    have "roomy l k d n1" by (rule roomy_le(2) [OF r]) (use n1(1) in simp)
    then obtain n' where "n' \<le> n1 + k" "validateMembers fp l d m n1 = Inr n'" using k by blast
    with n1 r key show ?thesis by (auto simp: roomy_def simp del: validateValueResources.simps)
  qed
  then show ?case by blast
qed auto

text \<open>
  The value of a printed text, whatever the limits it is read under.
\<close>

lemma print_reparse:
  assumes "storable v" "stringify fp indent v = Some t" "json_parse t limits = Some (Inr v')"
  shows "v' = settle v"
proof -
  define i where "i = (if indent > 0 then nat indent else 0)"
  have t: "stringifyInto fp i 0 (settle v) = Some t"
    using assms(1, 2) by (simp add: stringify_def stringify_settle i_def del: stringifyInto.simps)
  obtain k where k: "\<And>l d n. roomy l k d n \<Longrightarrow> \<exists>n'\<le>n + k. validateValueResources fp l d (settle v) n = Inr n'"
    using printed_needs(1) [OF t] by blast
  define big where "big = \<lparr>maxDepth = maxDepth limits + Suc k, maxNodes = maxNodes limits + k, maxStringBytes = maxStringBytes limits + k,
    maxNumberBytes = maxNumberBytes limits + k, maxContainerEntries = maxContainerEntries limits + k\<rparr>"
  have le: "limits_le limits big" and "roomy big k 1 0" by (simp_all add: big_def limits_le_def roomy_def)
  then obtain n where "validateValueResources fp big 1 (settle v) 0 = Inr n" using k by blast
  then have "yields big (ParseValue 1 (t @ []) 0) (settle v, [], n)"
    by (intro print_parse(1) [OF settle_canonical [OF assms(1)] _ t]) simp_all
  then have "yields big (ParseValue 1 (skipWhitespace t) 0) (settle v, [], n)" by (simp add: yields_skip_value)
  moreover have "call_need (ParseValue 1 (skipWhitespace t) 0) \<le> json_fuel t"
    using skipWhitespace_length [of t] by (simp add: json_fuel_def)
  ultimately have "run_parser (json_fuel t) big (ParseValue 1 (skipWhitespace t) 0) = Some (Inr (settle v, [], n))"
    by (rule yields_needed)
  moreover obtain s n' where "run_parser (json_fuel t) limits (ParseValue 1 (skipWhitespace t) 0) = Some (Inr (v', s, n'))"
    using assms(3) by (auto simp: json_parse_def parser_parse_def bindp_def jfail_def split: if_splits option.splits sum.splits)
  ultimately show ?thesis using run_parser_limits [OF le] by (fastforce simp: kept_out_def)
qed

end
