(* ===== verification/Receipts.thy ===== *)
theory Receipts
  imports Apply_Plan_Facts Json_Reparse
begin

text \<open>
  \<open>src/ApplyTransactionReceipt.cpp\<close>: the receipt of a finished apply transaction, its completion
  timestamp and its JSON text. The completion timestamp is the inverse of \<open>parseRfc3339\<close>, and a
  receipt is read back as it was written.
\<close>

section \<open>Definitions\<close>

record ApplyTransactionReceipt =
  rc_transactionId :: string
  rc_planDigest :: string
  rc_completedAt :: "UtcInstant option"

definition kLegacyReceiptSchemaVersion :: nat where
  "kLegacyReceiptSchemaVersion = 2"

definition kReceiptSchemaVersion :: nat where
  "kReceiptSchemaVersion = 3"

definition kMaxReceiptBytes :: nat where
  "kMaxReceiptBytes = 256 * 1024"

definition kMinimumRfc3339UnixSeconds :: int where
  "kMinimumRfc3339UnixSeconds = - 62135596800"

definition kMaximumRfc3339UnixSeconds :: int where
  "kMaximumRfc3339UnixSeconds = 253402300799"

definition receiptError :: "string \<Rightarrow> 'a result" where
  "receiptError message = fail EC_ApplyFailed message"

definition receiptJsonLimits :: JsonResourceLimits where
  "receiptJsonLimits = \<lparr>maxDepth = 8, maxNodes = 16, maxStringBytes = kMaxReceiptBytes, maxNumberBytes = 32,
     maxContainerEntries = 8\<rparr>"

record CivilDate =
  cd_year :: int
  cd_month :: nat
  cd_day :: nat

definition civilFromDays :: "int \<Rightarrow> CivilDate" where
  "civilFromDays days0 =
     (let days = days0 + 719468;
          era = trunc_div (if days \<ge> 0 then days else days - 146096) 146097;
          dayOfEra = nat (days - era * 146097);
          yearOfEra = (dayOfEra - dayOfEra div 1460 + dayOfEra div 36524 - dayOfEra div 146096) div 365;
          year = int yearOfEra + era * 400;
          dayOfYear = dayOfEra - (365 * yearOfEra + yearOfEra div 4 - yearOfEra div 100);
          monthPrime = (5 * dayOfYear + 2) div 153;
          day = dayOfYear - (153 * monthPrime + 2) div 5 + 1;
          month = nat (int monthPrime + (if monthPrime < 10 then 3 else - 9))
      in \<lparr>cd_year = year + (if month \<le> 2 then 1 else 0), cd_month = month, cd_day = day\<rparr>)"

text \<open>\<open>std::setfill('0') << std::setw(width)\<close> before a number that is not negative.\<close>

definition zero_padded :: "nat \<Rightarrow> nat \<Rightarrow> string" where
  "zero_padded width n = replicate (width - length (decimal_text n)) (CHR ''0'') @ decimal_text n"

text \<open>The loop that drops the trailing zeros of the fraction.\<close>

definition strip_zeros :: "string \<Rightarrow> string" where
  "strip_zeros digits = rev (dropWhile (\<lambda>c. c = CHR ''0'') (rev digits))"

text \<open>The day and the second of the day, with C++ division corrected for instants before the epoch.\<close>

definition splitSeconds :: "int \<Rightarrow> int \<times> int" where
  "splitSeconds unixSecs =
     (let days = trunc_div unixSecs 86400;
          secondsOfDay = unixSecs - days * 86400
      in if secondsOfDay < 0 then (days - 1, secondsOfDay + 86400) else (days, secondsOfDay))"

definition formatApplyCompletionTimestamp :: "UtcInstant \<Rightarrow> string result" where
  "formatApplyCompletionTimestamp instant =
     (if unixSeconds instant < kMinimumRfc3339UnixSeconds \<or> unixSeconds instant > kMaximumRfc3339UnixSeconds
         \<or> nanoseconds instant \<ge> 1000000000
      then receiptError ''Apply completion timestamp is outside RFC 3339 range''
      else
        let (days, secondsOfDay) = splitSeconds (unixSeconds instant);
            date = civilFromDays days;
            hour = nat (secondsOfDay div 3600);
            minute = nat (secondsOfDay mod 3600 div 60);
            second = nat (secondsOfDay mod 60);
            stream = zero_padded 4 (nat (cd_year date)) @ ''-'' @ zero_padded 2 (cd_month date) @ ''-''
              @ zero_padded 2 (cd_day date) @ ''T'' @ zero_padded 2 hour @ '':'' @ zero_padded 2 minute @ '':''
              @ zero_padded 2 second;
            fraction = (if nanoseconds instant \<noteq> 0 then ''.'' @ strip_zeros (zero_padded 9 (nanoseconds instant)) else [])
        in Inr (stream @ fraction @ ''Z''))"

text \<open>\<open>requiredString\<close> of this file, with its own message.\<close>

definition receiptString :: "Json \<Rightarrow> string \<Rightarrow> string result" where
  "receiptString object key =
     (case json_get object key of
        Some value \<Rightarrow> if isString value then Inr (asString value)
          else receiptError (''Apply receipt string field is missing: '' @ key)
      | None \<Rightarrow> receiptError (''Apply receipt string field is missing: '' @ key))"

definition validateReceiptKeys :: "(string \<times> Json) list \<Rightarrow> nat \<Rightarrow> unit result" where
  "validateReceiptKeys object schemaVersion =
     (let expectedSize = (if schemaVersion = kReceiptSchemaVersion then 4 else 3)
      in if length object \<noteq> expectedSize \<or> map_of object ''schemaVersion'' = None
            \<or> map_of object ''transactionId'' = None \<or> map_of object ''planDigest'' = None
            \<or> (schemaVersion = kReceiptSchemaVersion \<and> map_of object ''completedAt'' = None)
         then receiptError ''Terminal apply receipt contains unknown or missing fields''
         else Inr ())"

definition receiptJson :: "ApplyTransactionReceipt \<Rightarrow> Json result" where
  "receiptJson receipt =
     (let schema = (if rc_completedAt receipt \<noteq> None then kReceiptSchemaVersion else kLegacyReceiptSchemaVersion);
          o1 = object_emplace ''schemaVersion'' (JUInt (of_nat schema)) [];
          o2 = object_emplace ''transactionId'' (JString (rc_transactionId receipt)) o1;
          o3 = object_emplace ''planDigest'' (JString (rc_planDigest receipt)) o2
      in case rc_completedAt receipt of
           None \<Rightarrow> Inr (JObject o3)
         | Some instant \<Rightarrow>
             bindr (formatApplyCompletionTimestamp instant) (\<lambda>timestamp.
               Inr (JObject (object_emplace ''completedAt'' (JString timestamp) o3))))"

text \<open>\<open>stringify\<close> throws on a value that is not valid JSON; the catch branch turns that into an error.\<close>

definition serializeApplyTransactionReceipt :: "(string \<Rightarrow> string) \<Rightarrow> ApplyTransactionReceipt \<Rightarrow> string result" where
  "serializeApplyTransactionReceipt fpText receipt =
     (if \<not> isLowerHexSha256 (rc_transactionId receipt) \<or> \<not> isLowerHexSha256 (rc_planDigest receipt)
      then receiptError ''Invalid terminal apply transaction identity''
      else
        bindr (receiptJson receipt) (\<lambda>json.
          case stringify fpText 2 json of
            Some t \<Rightarrow> Inr t
          | None \<Rightarrow> receiptError ''Failed to serialize terminal apply transaction''))"

definition readReceipt :: "Json \<Rightarrow> ApplyTransactionReceipt result" where
  "readReceipt json =
     (if \<not> isObject json then receiptError ''Terminal apply receipt must be an object''
      else
        (case json_get json ''schemaVersion'' of
           None \<Rightarrow> receiptError ''Unsupported terminal apply receipt schema version''
         | Some schema \<Rightarrow>
             if \<not> isUnsignedInteger schema
                \<or> (unat (asUInt64 schema 0) \<noteq> kLegacyReceiptSchemaVersion \<and> unat (asUInt64 schema 0) \<noteq> kReceiptSchemaVersion)
             then receiptError ''Unsupported terminal apply receipt schema version''
             else
               let schemaVersion = unat (asUInt64 schema 0)
               in bindr (validateReceiptKeys (asObject json) schemaVersion) (\<lambda>_.
                  bindr (receiptString json ''transactionId'') (\<lambda>transactionId.
                  bindr (receiptString json ''planDigest'') (\<lambda>planDigest.
                    if \<not> isLowerHexSha256 transactionId \<or> \<not> isLowerHexSha256 planDigest
                    then receiptError ''Invalid terminal apply transaction identity''
                    else if schemaVersion = kReceiptSchemaVersion
                    then
                      bindr (receiptString json ''completedAt'') (\<lambda>timestamp.
                        (case parseRfc3339 timestamp of
                           Inl _ \<Rightarrow> receiptError ''Invalid terminal apply completion timestamp''
                         | Inr instant \<Rightarrow>
                             (case formatApplyCompletionTimestamp instant of
                                Inl _ \<Rightarrow> receiptError ''Invalid terminal apply completion timestamp''
                              | Inr _ \<Rightarrow> Inr \<lparr>rc_transactionId = transactionId, rc_planDigest = planDigest,
                                  rc_completedAt = Some instant\<rparr>)))
                    else Inr \<lparr>rc_transactionId = transactionId, rc_planDigest = planDigest, rc_completedAt = None\<rparr>)))))"

definition parseApplyTransactionReceipt :: "string \<Rightarrow> ApplyTransactionReceipt result" where
  "parseApplyTransactionReceipt t =
     (if length t > kMaxReceiptBytes then fail EC_ResourceLimitExceeded ''Terminal apply receipt exceeds its byte limit''
      else bindr (json_result t receiptJsonLimits) readReceipt)"

section \<open>The civil date of a day\<close>

text \<open>A day of an era of 400 years: the century, the four-year cycle and the year in it.\<close>

lemma era_day:
  assumes "n < (146097::nat)"
  obtains c q k t where "c \<le> 3" "q \<le> 24" "k \<le> 3" "t \<le> 365" "n = 36524 * c + 1461 * q + 365 * k + t"
    "t = 365 \<longrightarrow> k = 3 \<and> (q = 24 \<longrightarrow> c = 3)"
proof -
  define c where "c = min 3 (n div 36524)"
  define r where "r = n - 36524 * c"
  have r: "n = 36524 * c + r" "c \<le> 3" "r \<le> 36524" "r = 36524 \<longrightarrow> c = 3"
    using assms div_mult_mod_eq [of n 36524] mod_less_divisor [of 36524 n] unfolding r_def c_def min_def by auto
  define q where "q = r div 1461"
  define s where "s = r mod 1461"
  have s: "r = 1461 * q + s" "s < 1461" "q \<le> 24" using r(3) by (auto simp: q_def s_def)
  define k where "k = min 3 (s div 365)"
  define t where "t = s - 365 * k"
  have t: "s = 365 * k + t" "k \<le> 3" "t \<le> 365" "t = 365 \<longrightarrow> k = 3"
    using s(2) div_mult_mod_eq [of s 365] mod_less_divisor [of 365 s] unfolding t_def k_def min_def by auto
  show thesis
  proof (rule that [OF r(2) s(3) t(2, 3)])
    show "n = 36524 * c + 1461 * q + 365 * k + t" using r(1) s(1) t(1) by simp
    show "t = 365 \<longrightarrow> k = 3 \<and> (q = 24 \<longrightarrow> c = 3)" using r(4) s(1) t(1, 4) by auto
  qed
qed

lemma year_of_era:
  assumes "c \<le> 3" "q \<le> 24" "k \<le> 3" "t \<le> (365::nat)" "n = 36524 * c + 1461 * q + 365 * k + t"
    "t = 365 \<longrightarrow> k = 3 \<and> (q = 24 \<longrightarrow> c = 3)"
  shows "(n - n div 1460 + n div 36524 - n div 146096) div 365 = 100 * c + 4 * q + k"
proof -
  define d where "d = (if 24 * c + q + 365 * k + t \<ge> 1460 then 1 else 0 :: nat)"
  have a: "n div 1460 = 25 * c + q + d"
    using assms by (intro div_nat_eqI) (auto simp: d_def)
  have b: "n div 36524 - n div 146096 = c" "n div 146096 \<le> n div 36524"
  proof -
    have last: "n \<le> 146096" "n < 36524 * c + 36524 \<or> n = 146096 \<and> c = 3"
    proof -
      show "n \<le> 146096" using assms(1-5) by linarith
      show "n < 36524 * c + 36524 \<or> n = 146096 \<and> c = 3"
      proof (cases "t = 365 \<and> q = 24")
        case True
        then show ?thesis using assms(5, 6) by simp
      next
        case False
        then have "t \<le> 364 \<or> q \<le> 23" using assms(2, 4) by linarith
        then have "n < 36524 * c + 36524" using assms(2-5) by (elim disjE) linarith+
        then show ?thesis ..
      qed
    qed
    have "n div 146096 = (if n = 146096 then 1 else 0)" using last(1) by (auto intro!: div_nat_eqI)
    moreover have "n div 36524 = (if n = 146096 then 4 else c)" using last(2) assms(5) by (auto intro!: div_nat_eqI)
    moreover have "n = 146096 \<Longrightarrow> c = 3" using last(2) assms(1) by linarith
    ultimately show "n div 36524 - n div 146096 = c" "n div 146096 \<le> n div 36524" by auto
  qed
  have "n - n div 1460 + n div 36524 - n div 146096 = n - n div 1460 + c" using b by linarith
  also have "\<dots> = 365 * (100 * c + 4 * q + k) + (t - d)"
  proof -
    have "d \<le> t" using assms(1-4) by (auto simp: d_def)
    then obtain u where u: "t = d + u" using le_Suc_ex by blast
    have "n = 25 * c + q + d + (36499 * c + 1460 * q + 365 * k + u)" using assms(5) by (simp add: u)
    then have "n - (25 * c + q + d) = 36499 * c + 1460 * q + 365 * k + u" by simp
    then show ?thesis unfolding a by (simp add: u)
  qed
  finally have *: "n - n div 1460 + n div 36524 - n div 146096 = 365 * (100 * c + 4 * q + k) + (t - d)" .
  have "t - d < 365" using assms by (auto simp: d_def)
  then show ?thesis unfolding * by (intro div_nat_eqI) simp_all
qed

lemma civil_month:
  assumes "t \<le> (365::nat)"
  obtains m d where "m = nat (int ((5 * t + 2) div 153) + (if (5 * t + 2) div 153 < 10 then 3 else - 9))"
    "d = t - (153 * ((5 * t + 2) div 153) + 2) div 5 + 1"
    "1 \<le> m" "m \<le> 12" "1 \<le> d" "month_days m + int d = int t + 1"
    "t < 306 \<longleftrightarrow> 2 < m" "t < 365 \<longrightarrow> m = 2 \<longrightarrow> d \<le> 28" "m \<noteq> 2 \<longrightarrow> d \<le> daysInMonth y m" "m = 2 \<longrightarrow> d \<le> 29"
proof -
  define p where "p = (5 * t + 2) div 153"
  have "p \<le> 11" using assms by (simp add: p_def)
  then have p: "p = 0 \<or> p = 1 \<or> p = 2 \<or> p = 3 \<or> p = 4 \<or> p = 5 \<or> p = 6 \<or> p = 7 \<or> p = 8 \<or> p = 9 \<or> p = 10 \<or> p = 11"
    by presburger
  have low: "153 * p \<le> 5 * t + 2" "5 * t + 2 < 153 * p + 153" by (simp_all add: p_def)
  define m where "m = nat (int p + (if p < 10 then 3 else - 9))"
  define d where "d = t - (153 * p + 2) div 5 + 1"
  show thesis
    using p assms low
    by (intro that [OF m_def [unfolded p_def] d_def [unfolded p_def], folded p_def])
      (elim disjE; auto simp: m_def d_def month_days_def daysInMonth_def)+
qed

lemma leap_of_cycle:
  assumes "k = 3" "q \<le> 24" "q = 24 \<longrightarrow> c = (3::nat)"
  shows "isLeapYear (400 * e + (100 * c + 4 * q + k) + 1)"
proof (cases "q = 24")
  case True
  with assms have "400 * e + (100 * c + 4 * q + k) + 1 = 400 * (e + 1)" by simp
  moreover have "isLeapYear (400 * (e + 1))" by (simp add: isLeapYear_def)
  ultimately show ?thesis by (simp only:)
next
  case False
  have four: "400 * e + (100 * c + 4 * q + k) + 1 = 4 * (100 * e + 25 * c + q + 1)" using assms by simp
  have "(400 * e + (100 * c + 4 * q + k) + 1) mod 100 = (4 * q + 4) mod 100"
    using mod_mult_self2 [of "4 * q + 4" 100 "4 * e + c"] assms by (simp add: algebra_simps)
  then have "(400 * e + (100 * c + 4 * q + k) + 1) mod 100 \<noteq> 0" using assms(2) False by simp
  then show ?thesis unfolding isLeapYear_def four by simp
qed

lemma civilFromDays_inverse:
  assumes "- 719162 \<le> days" "days \<le> 2932896"
  obtains y m d where "civilFromDays days = \<lparr>cd_year = int y, cd_month = m, cd_day = d\<rparr>" "valid_date y m d" "y \<le> 9999"
    "daysFromCivil (int y) m d = days"
proof -
  define e where "e = nat (days + 719468) div 146097"
  define n where "n = nat (days + 719468) mod 146097"
  have split: "days + 719468 = int (146097 * e + n)" "n < 146097" "e \<le> 24"
    using assms by (auto simp: e_def n_def)
  obtain c q k t where cq: "c \<le> 3" "q \<le> 24" "k \<le> 3" "t \<le> 365" and n: "n = 36524 * c + 1461 * q + 365 * k + t"
    and leap: "t = 365 \<longrightarrow> k = 3 \<and> (q = 24 \<longrightarrow> c = 3)"
    using era_day [OF split(2)] .
  define z where "z = 400 * e + (100 * c + 4 * q + k)"
  have zy: "(100 * c + 4 * q + k) div 4 = 25 * c + q" "(100 * c + 4 * q + k) div 100 = c"
    "z div 400 = e" "z mod 400 = 100 * c + 4 * q + k" using cq by (simp_all add: z_def)
  have yd: "year_days z = int (146097 * e + n) - int t"
    using era_split [of z] cq unfolding zy n by simp
  obtain m d where m: "m = nat (int ((5 * t + 2) div 153) + (if (5 * t + 2) div 153 < 10 then 3 else - 9))"
    and d: "d = t - (153 * ((5 * t + 2) div 153) + 2) div 5 + 1" and md: "1 \<le> m" "m \<le> 12" "1 \<le> d" "month_days m + int d = int t + 1"
    and feb: "t < 306 \<longleftrightarrow> 2 < m" "t < 365 \<longrightarrow> m = 2 \<longrightarrow> d \<le> 28"
      "m \<noteq> 2 \<longrightarrow> d \<le> daysInMonth (z + 1) m" "m = 2 \<longrightarrow> d \<le> 29"
    using civil_month [OF cq(4)] .
  define y where "y = (if m \<le> 2 then z + 1 else z)"
  have era: "trunc_div (if days + 719468 \<ge> 0 then days + 719468 else days + 719468 - 146096) 146097 = int e"
    unfolding split(1) using split(2) by (simp add: trunc_div_def zdiv_int [symmetric])
  have doe: "nat (days + 719468 - int e * 146097) = n" unfolding split(1) by simp
  have yoe: "(n - n div 1460 + n div 36524 - n div 146096) div 365 = 100 * c + 4 * q + k"
    using year_of_era [OF cq n leap] .
  have doy: "n - (365 * (100 * c + 4 * q + k) + (100 * c + 4 * q + k) div 4 - (100 * c + 4 * q + k) div 100) = t"
    unfolding zy n by simp
  show thesis
  proof (rule that [of y m d])
    show "civilFromDays days = \<lparr>cd_year = int y, cd_month = m, cd_day = d\<rparr>"
      unfolding civilFromDays_def Let_def era doe yoe doy m [symmetric] d [symmetric] by (simp add: y_def z_def)
    have pos: "1 \<le> y" using split(1) assms(1) feb(1) unfolding n by (cases "z = 0") (auto simp: y_def z_def)
    have top: "z = 9999 \<Longrightarrow> t < 306" using split(1) assms(2) cq split(3) unfolding n z_def by linarith
    have "isLeapYear y" if "t = 365" "m = 2"
      using leap_of_cycle [of k q c e] that leap cq by (simp add: y_def z_def)
    moreover have "daysInMonth y m = daysInMonth (z + 1) m" if "m \<noteq> 2" using that by (simp add: daysInMonth_def)
    ultimately have "d \<le> daysInMonth y m"
      using feb cq(4) by (cases "m = 2"; cases "t = 365") (auto simp: daysInMonth_def)
    with pos md show "valid_date y m d" by (simp add: valid_date_def)
    have "z \<le> 9999" using cq split(3) by (simp add: z_def)
    then show "y \<le> 9999" using top feb(1) by (cases "z = 9999") (auto simp: y_def)
    show "daysFromCivil (int y) m d = days"
      using daysFromCivil_closed [OF pos md(1, 3)] md(4) yd split(1) by (simp add: y_def)
  qed
qed

section \<open>The completion timestamp\<close>

lemma parseRfc3339_date_time:
  fixes rest
  assumes "valid_date y m d" "y \<le> 9999" "h \<le> 23" "mi \<le> 59" "s \<le> 59" "rest \<noteq> []"
    "optionalFraction rest = Some (nanos, zone)" "zoneOffset zone = Some (off, [])"
  defines "t \<equiv> pad4 y @ ''-'' @ pad2 m @ ''-'' @ pad2 d @ ''T'' @ pad2 h @ '':'' @ pad2 mi @ '':'' @ pad2 s @ rest"
  shows "parseRfc3339 t = Inr (UtcInstant (daysFromCivil (int y) m d * 86400 + int h * 3600 + int mi * 60 + int s - off) nanos)"
proof -
  have v: "1 \<le> m" "m \<le> 12" "1 \<le> y" "1 \<le> d" "d \<le> daysInMonth y m" using assms by (auto simp: valid_date_def)
  then have "d < 100" using daysInMonth_le [of m y] by linarith
  with assms v have lt: "m < 100" "d < 100" "h < 100" "mi < 100" "s < 100" "y < 10000" by auto
  have shape: "\<not> length t < 20" "t ! 4 = CHR ''-''" "t ! 7 = CHR ''-''" "t ! 10 = CHR ''T''"
    "t ! 13 = CHR '':''" "t ! 16 = CHR '':''" "drop 19 t = rest"
    using assms(6) by (simp_all add: t_def pad2_def pad4_def Suc_le_eq Suc_leI)
  have digits: "parseDigits t 0 4 = Some y" "parseDigits t 5 2 = Some m" "parseDigits t 8 2 = Some d"
    "parseDigits t 11 2 = Some h" "parseDigits t 14 2 = Some mi" "parseDigits t 17 2 = Some s"
    using lt by (simp_all add: t_def parseDigits_def pad2_def pad4_def Let_def digit_char_props digits_val_2 digits_val_4 pad_parts)
  show ?thesis using assms(1-8) v by (simp add: parseRfc3339_def shape digits Let_def)
qed

lemma ten_split: "a * 10 + b = c * 10 + d \<Longrightarrow> b < 10 \<Longrightarrow> d < 10 \<Longrightarrow> a = c \<and> b = (d::nat)"
  by presburger

lemma digits_unique:
  assumes "length s = length t" "list_all isAsciiDigit s" "list_all isAsciiDigit t" "digits_val s = digits_val t"
  shows "s = t"
  using assms
proof (induction s arbitrary: t rule: rev_induct)
  case (snoc c s)
  then obtain d t' where t: "t = t' @ [d]" by (cases t rule: rev_cases) auto
  have less: "digit_val c < 10" "digit_val d < 10" using snoc.prems t digit_val_less by auto
  have "digits_val s * 10 + digit_val c = digits_val t' * 10 + digit_val d" using snoc.prems(4) by (simp only: t digits_val_snoc)
  then have "digits_val s = digits_val t'" "digit_val c = digit_val d" using ten_split [OF _ less] by blast+
  moreover have "digit_char (digit_val c) = c" "digit_char (digit_val d) = d"
    using snoc.prems(2, 3) t by (simp_all add: digit_char_val)
  ultimately have "c = d" by metis
  moreover have "s = t'"
  proof (rule snoc.IH)
    show "length s = length t'" "list_all isAsciiDigit s" "list_all isAsciiDigit t'" using snoc.prems(1-3) t by simp_all
  qed fact
  ultimately show ?case by (simp add: t)
qed simp

lemma digits_val_zeros [simp]: "digits_val (replicate k (CHR ''0'') @ s) = digits_val s"
  by (induction k) (simp_all add: digits_val_def digit_val_def)

lemma zero_padded_props:
  assumes "n < 10 ^ w" "0 < w"
  shows "length (zero_padded w n) = w" "list_all isAsciiDigit (zero_padded w n)" "digits_val (zero_padded w n) = n"
  using decimal_text_length [OF assms] decimal_text_digits [of n]
  by (auto simp: zero_padded_def list_all_iff isAsciiDigit_def)

lemma zero_padded_pad: "n < 100 \<Longrightarrow> zero_padded 2 n = pad2 n" "n < 10000 \<Longrightarrow> zero_padded 4 n = pad4 n"
  using zero_padded_props [of n 2] zero_padded_props [of n 4] pad_parts [of n]
  by (auto intro!: digits_unique simp: pad2_def pad4_def digit_char_props digits_val_2 digits_val_4)

lemma strip_zeros_props:
  obtains j where "s = strip_zeros s @ replicate j (CHR ''0'')"
proof -
  have "rev s = takeWhile (\<lambda>c. c = CHR ''0'') (rev s) @ dropWhile (\<lambda>c. c = CHR ''0'') (rev s)" by simp
  moreover have "takeWhile (\<lambda>c. c = CHR ''0'') (rev s) = replicate (length (takeWhile (\<lambda>c. c = CHR ''0'') (rev s))) (CHR ''0'')"
    by (intro replicate_eqI) (auto dest: set_takeWhileD)
  ultimately have "rev s = replicate (length (takeWhile (\<lambda>c. c = CHR ''0'') (rev s))) (CHR ''0'') @ dropWhile (\<lambda>c. c = CHR ''0'') (rev s)"
    by simp
  then have "s = rev (replicate (length (takeWhile (\<lambda>c. c = CHR ''0'') (rev s))) (CHR ''0'') @ dropWhile (\<lambda>c. c = CHR ''0'') (rev s))"
    by (metis rev_rev_ident)
  then show thesis by (intro that) (simp add: strip_zeros_def)
qed

lemma parseFraction_digits:
  assumes "list_all isAsciiDigit ds" "k + length ds \<le> 9"
  shows "parseFraction (ds @ ''Z'') k (10 ^ (8 - k)) ns = Some (ns + digits_val ds * 10 ^ (9 - k - length ds), k + length ds, ''Z'')"
  using assms
proof (induction ds arbitrary: k ns)
  case (Cons c ds)
  have k: "k \<le> 8" using Cons.prems(2) by simp
  have val: "digits_val (c # ds) = digit_val c * 10 ^ length ds + digits_val ds"
    using digits_val_append [of "[c]" ds] by (simp add: digits_val_single)
  have pow: "(10::nat) ^ (8 - k) = 10 ^ length ds * 10 ^ (8 - k - length ds)"
    using Cons.prems(2) by (simp flip: power_add)
  show ?case
  proof (cases "ds = []")
    case True
    with Cons.prems k show ?thesis by (simp add: isAsciiDigit_def digits_val_single)
  next
    case False
    then have "8 - k = Suc (8 - (k + 1))" using Cons.prems(2) by (cases ds) auto
    then have scale: "(10::nat) ^ (8 - k) div 10 = 10 ^ (8 - (k + 1))" by simp
    show ?thesis
      using Cons.IH [of "k + 1" "ns + digit_val c * 10 ^ (8 - k)"] Cons.prems k
      by (simp add: scale) (simp add: val pow algebra_simps)
  qed
qed (simp add: isAsciiDigit_def)

lemma optionalFraction_nanos:
  assumes "n < 1000000000"
  shows "optionalFraction ((if n \<noteq> 0 then ''.'' @ strip_zeros (zero_padded 9 n) else []) @ ''Z'') = Some (n, ''Z'')"
proof (cases "n = 0")
  case False
  obtain j where j: "zero_padded 9 n = strip_zeros (zero_padded 9 n) @ replicate j (CHR ''0'')" by (rule strip_zeros_props)
  define ds where "ds = strip_zeros (zero_padded 9 n)"
  have p: "length ds + j = 9" "list_all isAsciiDigit ds" "digits_val (ds @ replicate j (CHR ''0'')) = n"
    using zero_padded_props [of n 9] assms j unfolding ds_def [symmetric] by auto
  have n: "n = digits_val ds * 10 ^ j"
    using p(3) digits_val_zeros [of j "[]"] by (simp add: digits_val_append)
  then have "ds \<noteq> []" using False by auto
  have "parseFraction (ds @ ''Z'') 0 (10 ^ (8 - 0)) 0 = Some (n, length ds, ''Z'')"
    using parseFraction_digits [of ds 0 0] p n by (metis add_0 diff_add_inverse diff_zero le_add1)
  with \<open>ds \<noteq> []\<close> show ?thesis using False by (simp add: optionalFraction_def ds_def [symmetric])
qed (simp add: optionalFraction_def)

lemma splitSeconds: "splitSeconds u = (u div 86400, u mod 86400)"
proof -
  define q r where "q = u div 86400" and "r = u mod 86400"
  have u: "u = q * 86400 + r" "0 \<le> r" "r < 86400" by (simp_all add: q_def r_def)
  have "trunc_div u 86400 = (if 0 \<le> u \<or> r = 0 then q else q + 1)"
  proof (cases "0 \<le> u")
    case False
    have "(- u) div 86400 = (if r = 0 then - q else - q - 1)"
      using u by (auto intro!: int_div_pos_eq [where r = "if r = 0 then 0 else 86400 - r"])
    with False show ?thesis by (simp add: trunc_div_def)
  qed (simp add: trunc_div_def q_def)
  with u show ?thesis unfolding splitSeconds_def Let_def q_def [symmetric] r_def [symmetric]
    by (auto simp: zero_le_mult_iff split: if_splits)
qed

lemma seconds_of_day: "s div 3600 * 3600 + s mod 3600 div 60 * 60 + s mod 60 = (s::nat)"
proof -
  have "s mod 60 = s mod 3600 mod 60" using mod_mod_cancel [of 60 3600 s] by simp
  then show ?thesis using div_mult_mod_eq [of s 3600] div_mult_mod_eq [of "s mod 3600" 60] by linarith
qed

lemma completion_timestamp:
  assumes "formatApplyCompletionTimestamp instant = Inr t"
  shows "parseRfc3339 t = Inr instant" "length t \<le> 30" "list_all (\<lambda>c. isAsciiDigit c \<or> c \<in> set ''-T:.Z'') t"
proof -
  define n where "n = nanoseconds instant"
  define days where "days = unixSeconds instant div 86400"
  define sec where "sec = nat (unixSeconds instant mod 86400)"
  have range: "kMinimumRfc3339UnixSeconds \<le> unixSeconds instant" "unixSeconds instant \<le> kMaximumRfc3339UnixSeconds" "n < 1000000000"
    using assms by (auto simp: formatApplyCompletionTimestamp_def receiptError_def n_def split: if_splits)
  have "- 719162 \<le> days" "days \<le> 2932896"
    using range by (auto simp: days_def kMinimumRfc3339UnixSeconds_def kMaximumRfc3339UnixSeconds_def)
  then obtain y m d where date: "civilFromDays days = \<lparr>cd_year = int y, cd_month = m, cd_day = d\<rparr>"
    "valid_date y m d" "y \<le> 9999" "daysFromCivil (int y) m d = days" by (rule civilFromDays_inverse)
  have sec: "sec < 86400" "unixSeconds instant = days * 86400 + int sec" by (simp_all add: sec_def days_def)
  have secs: "unixSeconds instant mod 86400 = int sec" "nat (int sec div 3600) = sec div 3600"
    "nat (int sec mod 3600 div 60) = sec mod 3600 div 60" "nat (int sec mod 60) = sec mod 60"
    by (simp_all add: sec_def nat_div_distrib nat_mod_distrib)
  have small: "m < 100" "d < 100" "y < 10000" "sec div 3600 < 100" "sec mod 3600 div 60 < 100" "sec mod 60 < 100"
    using date(2, 3) daysInMonth_le [of m y] sec(1) by (auto simp: valid_date_def less_mult_imp_div_less)
  have t: "t = pad4 y @ ''-'' @ pad2 m @ ''-'' @ pad2 d @ ''T'' @ pad2 (sec div 3600) @ '':'' @ pad2 (sec mod 3600 div 60) @ '':''
     @ pad2 (sec mod 60) @ (if n \<noteq> 0 then ''.'' @ strip_zeros (zero_padded 9 n) else []) @ ''Z''"
    using assms range small
    by (auto simp: formatApplyCompletionTimestamp_def splitSeconds days_def [symmetric] secs date(1) zero_padded_pad
        n_def [symmetric] Let_def)
  have "parseRfc3339 t = Inr (UtcInstant (days * 86400 + int (sec div 3600) * 3600 + int (sec mod 3600 div 60) * 60 + int (sec mod 60) - 0) n)"
    unfolding t date(4) [symmetric]
  proof (rule parseRfc3339_date_time [OF date(2, 3) _ _ _ _ optionalFraction_nanos [OF range(3)]])
    show "sec div 3600 \<le> 23" using sec(1) by simp
    show "sec mod 3600 div 60 \<le> 59" using mod_less_divisor [of 3600 sec] by linarith
  qed (simp_all add: zoneOffset_def)
  moreover have "int (sec div 3600) * 3600 + int (sec mod 3600 div 60) * 60 + int (sec mod 60) = int sec"
    using seconds_of_day [of sec] by linarith
  ultimately show "parseRfc3339 t = Inr instant" using sec(2) by (cases instant) (simp add: n_def add.assoc)
  obtain j where j: "zero_padded 9 n = strip_zeros (zero_padded 9 n) @ replicate j (CHR ''0'')" by (rule strip_zeros_props)
  have fraction: "length (strip_zeros (zero_padded 9 n)) \<le> 9" "list_all isAsciiDigit (strip_zeros (zero_padded 9 n))"
    using zero_padded_props [of n 9] range(3) j by (auto dest: arg_cong [where f = length] arg_cong [where f = "list_all isAsciiDigit"])
  have pads: "length (pad4 x) = 4" "length (pad2 x) = 2" for x by (simp_all add: pad4_def pad2_def)
  show "length t \<le> 30" unfolding t using fraction(1) by (simp add: pads)
  have "list_all isAsciiDigit (pad4 y)" "list_all isAsciiDigit (pad2 m)" "list_all isAsciiDigit (pad2 d)"
    "list_all isAsciiDigit (pad2 (sec div 3600))" "list_all isAsciiDigit (pad2 (sec mod 3600 div 60))" "list_all isAsciiDigit (pad2 (sec mod 60))"
    using zero_padded_props(2) [of y 4] zero_padded_props(2) [of _ 2] small by (simp_all add: zero_padded_pad)
  then show "list_all (\<lambda>c. isAsciiDigit c \<or> c \<in> set ''-T:.Z'') t"
    unfolding t using fraction(2) by (auto simp: list_all_iff)
qed

section \<open>Reading a receipt back\<close>

lemma ascii_utf8: "is_ascii s \<Longrightarrow> isValidUtf8 s"
  using utf8_ascii_append [of s "[]"] by simp

lemma lower_hex_utf8: "isLowerHexSha256 s \<Longrightarrow> isValidUtf8 s" "isLowerHexSha256 s \<Longrightarrow> length s = 64"
  by (fastforce simp: isLowerHexSha256_def is_ascii_def list_all_iff less_eq_char_def intro!: ascii_utf8)+

lemma timestamp_utf8: "formatApplyCompletionTimestamp instant = Inr t \<Longrightarrow> isValidUtf8 t"
  using completion_timestamp(3) [of instant t]
  by (intro ascii_utf8) (auto simp: is_ascii_def list_all_iff isAsciiDigit_def less_eq_char_def)

lemma receiptString_settle [simp]: "receiptString (settle v) k = receiptString v k"
  by (simp add: receiptString_def json_get_settle split: option.split)

lemma receiptJson_read:
  assumes "receiptJson r = Inr json" "isLowerHexSha256 (rc_transactionId r)" "isLowerHexSha256 (rc_planDigest r)"
  shows "readReceipt (settle json) = Inr r"
proof (cases "rc_completedAt r")
  case None
  with assms show ?thesis
    by (cases r) (auto simp: receiptJson_def readReceipt_def validateReceiptKeys_def receiptString_def kReceiptSchemaVersion_def
      kLegacyReceiptSchemaVersion_def json_get_def isObject_def asObject_def isUnsignedInteger_def asUInt64_def isString_def asString_def)
next
  case (Some instant)
  with assms obtain t where t: "formatApplyCompletionTimestamp instant = Inr t"
    by (cases "formatApplyCompletionTimestamp instant") (auto simp: receiptJson_def)
  with Some assms show ?thesis
    by (cases r) (auto simp: receiptJson_def readReceipt_def validateReceiptKeys_def receiptString_def kReceiptSchemaVersion_def
      kLegacyReceiptSchemaVersion_def json_get_def isObject_def asObject_def isUnsignedInteger_def asUInt64_def isString_def asString_def
      completion_timestamp(1))
qed

lemma receiptJson_valid:
  assumes "receiptJson r = Inr json" "isLowerHexSha256 (rc_transactionId r)" "isLowerHexSha256 (rc_planDigest r)"
  shows "storable json" "validateResourceUsage fp json receiptJsonLimits = Inr ()"
proof -
  note ids = lower_hex_utf8 [OF assms(2)] lower_hex_utf8 [OF assms(3)]
  have "storable json \<and> validateResourceUsage fp json receiptJsonLimits = Inr ()"
  proof (cases "rc_completedAt r")
    case None
    with assms(1) ids show ?thesis
      by (auto simp: receiptJson_def receiptJsonLimits_def eval_simps kMaxReceiptBytes_def kLegacyReceiptSchemaVersion_def
        decimalText_def decimal_text.simps)
  next
    case (Some instant)
    with assms(1) obtain t where t: "formatApplyCompletionTimestamp instant = Inr t"
      by (cases "formatApplyCompletionTimestamp instant") (auto simp: receiptJson_def)
    with Some assms(1) ids timestamp_utf8 [OF t] completion_timestamp(2) [OF t] show ?thesis
      by (auto simp: receiptJson_def receiptJsonLimits_def eval_simps kMaxReceiptBytes_def kReceiptSchemaVersion_def
        decimalText_def decimal_text.simps)
  qed
  then show "storable json" "validateResourceUsage fp json receiptJsonLimits = Inr ()" by simp_all
qed

lemma receipt_print_parse:
  assumes "serializeApplyTransactionReceipt fp r = Inr t" "length t \<le> kMaxReceiptBytes"
  shows "parseApplyTransactionReceipt t = Inr r"
proof -
  have ids: "isLowerHexSha256 (rc_transactionId r)" "isLowerHexSha256 (rc_planDigest r)"
    using assms(1) by (auto simp: serializeApplyTransactionReceipt_def receiptError_def split: if_splits)
  then obtain json where json: "receiptJson r = Inr json" "stringify fp 2 json = Some t"
    using assms(1) by (cases "receiptJson r") (auto simp: serializeApplyTransactionReceipt_def receiptError_def split: option.splits)
  then have "json_parse t receiptJsonLimits = Some (Inr (settle json))"
    using print_parse_settle [where fp = fp and indent = 2, OF receiptJson_valid [OF json(1) ids]] by auto
  then show ?thesis
    using assms(2) receiptJson_read [OF json(1) ids] by (simp add: parseApplyTransactionReceipt_def json_result_def)
qed

text \<open>
  C39: a receipt survives its file. A receipt that is written, with or without a completion instant
  (from the year 1 to the year 9999, to the nanosecond), is read back as the same receipt.
\<close>

theorem receipt_roundtrip:
  assumes "serializeApplyTransactionReceipt fp r = Inr t" "length t \<le> kMaxReceiptBytes"
  shows "parseApplyTransactionReceipt t = Inr r"
  using assms by (rule receipt_print_parse)

text \<open>A completed transaction.\<close>

definition sample_receipt :: ApplyTransactionReceipt where
  "sample_receipt = \<lparr>rc_transactionId = zero_digest, rc_planDigest = zero_digest, rc_completedAt = Some (UtcInstant 951827696 0)\<rparr>"

lemma sample_civil_date: "civilFromDays 11016 = \<lparr>cd_year = 2000, cd_month = 2, cd_day = 29\<rparr>"
  unfolding civilFromDays_def trunc_div_def Let_def by simp

lemma sample_split: "splitSeconds 951827696 = (11016, 45296)"
  by (simp add: splitSeconds)

lemma sample_padded: "zero_padded 4 2000 = ''2000''" "zero_padded 2 2 = ''02''" "zero_padded 2 29 = ''29''" "zero_padded 2 12 = ''12''"
    "zero_padded 2 34 = ''34''" "zero_padded 2 56 = ''56''"
  by (simp_all add: zero_padded_def decimal_text.simps digit_char_def char_of_eq_iff)

lemma sample_receipt_timestamp: "formatApplyCompletionTimestamp (UtcInstant 951827696 0) = Inr ''2000-02-29T12:34:56Z''"
  by (simp add: formatApplyCompletionTimestamp_def kMinimumRfc3339UnixSeconds_def kMaximumRfc3339UnixSeconds_def sample_civil_date sample_split sample_padded)

lemma sample_receipt_text:
  "\<exists>t. serializeApplyTransactionReceipt id sample_receipt = Inr t \<and> length t \<le> kMaxReceiptBytes"
proof -
  have json: "receiptJson sample_receipt = Inr (JObject [(''completedAt'', JString ''2000-02-29T12:34:56Z''), (''planDigest'', JString zero_digest),
     (''schemaVersion'', JUInt 3), (''transactionId'', JString zero_digest)])"
    by (simp add: receiptJson_def sample_receipt_def sample_receipt_timestamp kReceiptSchemaVersion_def)
  show ?thesis
    unfolding serializeApplyTransactionReceipt_def json
    by (simp add: sample_receipt_def zeros_digest stringify_def zero_digest_escape)
      (simp add: jsonEscape_def escapeByte_def lineBreak_def numberText_def integerText_def decimalText_def decimal_text.simps
        zero_digest_escape kMaxReceiptBytes_def)
qed

theorem receipt_roundtrip_witness:
  "\<exists>t. serializeApplyTransactionReceipt id sample_receipt = Inr t \<and> parseApplyTransactionReceipt t = Inr sample_receipt"
  using sample_receipt_text receipt_roundtrip [of id sample_receipt] by blast

end
