(* ===== verification/Journal_Records.thy ===== *)
theory Journal_Records
  imports Receipts
begin

text \<open>
  \<open>updater/ApplyJournal.h\<close> and the records of \<open>updater/ApplyJournal.cpp\<close>: the states of an apply
  transaction and of its operations, their validation, their text and the identities derived from the
  plan. \<open>std::size_t\<close> has 64 bits. The C++ enumerations have no further values, so the test for an
  \<open>"invalid"\<close> state name has no counterpart.
\<close>

unbundle bit_operations_syntax

section \<open>Records and states\<close>

record JournalError =
  je_code :: string
  je_message :: string

definition no_journal_error :: JournalError where
  "no_journal_error = \<lparr>je_code = [], je_message = []\<rparr>"

definition journalError_empty :: "JournalError \<Rightarrow> bool" where
  "journalError_empty e \<longleftrightarrow> je_code e = [] \<and> je_message e = []"

datatype JournalFileState =
    FS_Prepared | FS_Applying | FS_RollingBack | FS_RolledBack | FS_FilesApplied | FS_Complete | FS_RecoveryFailed

datatype JournalRestartState =
    RS_NotRequested | RS_NotAttempted | RS_Intent | RS_Launched | RS_Failed | RS_OutcomeUnknown

datatype JournalBackupState = BS_Pending | BS_Intent | BS_Durable | BS_NotRequired

datatype JournalApplyState = AS_Pending | AS_Intent | AS_Complete

datatype JournalRollbackState = RB_NotStarted | RB_Intent | RB_Complete | RB_Failed | RB_NotRequired

type_synonym ActiveTransaction = ApplyTransactionReceipt

record ApplyJournalSummary =
  js_schemaVersion :: nat
  js_transactionId :: string
  js_planDigest :: string
  js_fileState :: JournalFileState
  js_completedAt :: "UtcInstant option"
  js_operationCount :: u64
  js_applyError :: JournalError
  js_rollbackError :: JournalError
  js_restartState :: JournalRestartState
  js_restartError :: JournalError

definition default_summary :: ApplyJournalSummary where
  "default_summary = \<lparr>js_schemaVersion = 2, js_transactionId = [], js_planDigest = [], js_fileState = FS_Prepared,
     js_completedAt = None, js_operationCount = 0, js_applyError = no_journal_error, js_rollbackError = no_journal_error,
     js_restartState = RS_NotAttempted, js_restartError = no_journal_error\<rparr>"

record ApplyJournalOperation =
  jo_schemaVersion :: nat
  jo_transactionId :: string
  jo_index :: u64
  jo_operationId :: string
  jo_intent :: string
  jo_originalExists :: bool
  jo_originalIdentity :: string
  jo_originalSize :: u64
  jo_originalSha256 :: string
  jo_originalPermissionsKnown :: bool
  jo_originalPermissions :: u32
  jo_backupState :: JournalBackupState
  jo_applyState :: JournalApplyState
  jo_installedIdentity :: string
  jo_rollbackState :: JournalRollbackState
  jo_error :: JournalError

definition default_journal_operation :: ApplyJournalOperation where
  "default_journal_operation = \<lparr>jo_schemaVersion = 2, jo_transactionId = [], jo_index = 0, jo_operationId = [],
     jo_intent = ''none'', jo_originalExists = False, jo_originalIdentity = [], jo_originalSize = 0, jo_originalSha256 = [],
     jo_originalPermissionsKnown = False, jo_originalPermissions = 0, jo_backupState = BS_Pending,
     jo_applyState = AS_Pending, jo_installedIdentity = [], jo_rollbackState = RB_NotStarted, jo_error = no_journal_error\<rparr>"

definition kMaxJournalRecordBytes :: nat where
  "kMaxJournalRecordBytes = 256 * 1024"

definition kLegacySummarySchemaVersion :: nat where
  "kLegacySummarySchemaVersion = 2"

definition kSummarySchemaVersion :: nat where
  "kSummarySchemaVersion = 3"

definition kOperationSchemaVersion :: nat where
  "kOperationSchemaVersion = 2"

definition journalError :: "string \<Rightarrow> 'a result" where
  "journalError message = fail EC_ApplyFailed message"

section \<open>Field readers\<close>

definition validateTransaction :: "string \<Rightarrow> string \<Rightarrow> unit result" where
  "validateTransaction transactionId planDigest =
     (if \<not> isLowerHexSha256 transactionId \<or> \<not> isLowerHexSha256 planDigest
      then journalError ''Invalid apply journal transaction or plan digest''
      else Inr ())"

definition journalJsonLimits :: JsonResourceLimits where
  "journalJsonLimits = \<lparr>maxDepth = 16, maxNodes = 256, maxStringBytes = kMaxJournalRecordBytes, maxNumberBytes = 32,
     maxContainerEntries = 64\<rparr>"

text \<open>\<open>parseObject\<close>: an object with a supported schema version.\<close>

definition journalObject :: "string \<Rightarrow> string \<Rightarrow> nat list \<Rightarrow> Json result" where
  "journalObject t description supportedSchemas =
     (if length t > kMaxJournalRecordBytes
      then fail EC_ResourceLimitExceeded (description @ '' exceeds its byte limit'')
      else bindr (json_result t journalJsonLimits) (\<lambda>parsed.
        if \<not> isObject parsed then journalError (description @ '' must be a JSON object'')
        else (case json_get parsed ''schemaVersion'' of
                None \<Rightarrow> journalError (''Unsupported '' @ description @ '' schema version'')
              | Some schema \<Rightarrow>
                  if \<not> isUnsignedInteger schema \<or> unat (asUInt64 schema 0) \<notin> set supportedSchemas
                  then journalError (''Unsupported '' @ description @ '' schema version'')
                  else Inr parsed)))"

fun journalOnlyKeys :: "(string \<times> Json) list \<Rightarrow> string list \<Rightarrow> string \<Rightarrow> unit result" where
  "journalOnlyKeys [] allowedKeys description = Inr ()"
| "journalOnlyKeys ((key, v) # entries) allowedKeys description =
     (if key \<notin> set allowedKeys
      then journalError (description @ '' contains unknown field '' @ [CHR 0x27] @ key @ [CHR 0x27])
      else journalOnlyKeys entries allowedKeys description)"

definition journalString :: "Json \<Rightarrow> string \<Rightarrow> string result" where
  "journalString object key =
     (case json_get object key of
        None \<Rightarrow> journalError (''Apply journal string field is missing: '' @ key)
      | Some v \<Rightarrow>
          if \<not> isString v then journalError (''Apply journal string field is missing: '' @ key) else Inr (asString v))"

definition requiredBool :: "Json \<Rightarrow> string \<Rightarrow> bool result" where
  "requiredBool object key =
     (case json_get object key of
        None \<Rightarrow> journalError (''Apply journal boolean field is missing: '' @ key)
      | Some v \<Rightarrow>
          if \<not> isBool v then journalError (''Apply journal boolean field is missing: '' @ key) else Inr (asBool v False))"

fun decimalLoop :: "string \<Rightarrow> u64 \<Rightarrow> string \<Rightarrow> u64 result" where
  "decimalLoop key result [] = Inr result"
| "decimalLoop key result (character # rest) =
     (if \<not> isAsciiDigit character then journalError (''Apply journal integer field is invalid: '' @ key)
      else let digit = (of_nat (digit_val character) :: u64)
           in if result > (- 1 - digit) div 10 then journalError (''Apply journal integer field overflows: '' @ key)
              else decimalLoop key (result * 10 + digit) rest)"

definition parseDecimal :: "Json \<Rightarrow> string \<Rightarrow> u64 result" where
  "parseDecimal object key =
     bindr (journalString object key) (\<lambda>t.
       if t = [] then journalError (''Apply journal integer field is empty: '' @ key)
       else if length t > 1 \<and> hd t = CHR ''0'' then journalError (''Apply journal integer field is not canonical: '' @ key)
       else decimalLoop key 0 t)"

definition errorToJson :: "JournalError \<Rightarrow> Json" where
  "errorToJson e =
     JObject (object_emplace ''message'' (JString (je_message e)) (object_emplace ''code'' (JString (je_code e)) []))"

definition errorFromJson :: "Json \<Rightarrow> string \<Rightarrow> JournalError result" where
  "errorFromJson object key =
     (case json_get object key of
        None \<Rightarrow> journalError (''Apply journal error field is missing: '' @ key)
      | Some v \<Rightarrow>
          if \<not> isObject v then journalError (''Apply journal error field is missing: '' @ key)
          else
            bindr (journalOnlyKeys (asObject v) [''code'', ''message''] (''Apply journal error field '' @ key)) (\<lambda>_.
            bindr (journalString v ''code'') (\<lambda>code.
            bindr (journalString v ''message'') (\<lambda>message.
              if (code = []) \<noteq> (message = []) then journalError (''Apply journal error field is incomplete: '' @ key)
              else Inr \<lparr>je_code = code, je_message = message\<rparr>))))"

section \<open>Names of states\<close>

definition enumFailure :: "string \<Rightarrow> 'a result" where
  "enumFailure field = journalError (''Apply journal enum field is invalid: '' @ field)"

definition fileStateFromName :: "string \<Rightarrow> JournalFileState result" where
  "fileStateFromName v =
     (if v = ''prepared'' then Inr FS_Prepared
      else if v = ''applying'' then Inr FS_Applying
      else if v = ''rolling_back'' then Inr FS_RollingBack
      else if v = ''rolled_back'' then Inr FS_RolledBack
      else if v = ''files_applied'' then Inr FS_FilesApplied
      else if v = ''complete'' then Inr FS_Complete
      else if v = ''recovery_failed'' then Inr FS_RecoveryFailed
      else enumFailure ''fileState'')"

definition restartStateFromName :: "string \<Rightarrow> JournalRestartState result" where
  "restartStateFromName v =
     (if v = ''not_requested'' then Inr RS_NotRequested
      else if v = ''not_attempted'' then Inr RS_NotAttempted
      else if v = ''intent'' then Inr RS_Intent
      else if v = ''launched'' then Inr RS_Launched
      else if v = ''failed'' then Inr RS_Failed
      else if v = ''outcome_unknown'' then Inr RS_OutcomeUnknown
      else enumFailure ''restartState'')"

definition backupStateFromName :: "string \<Rightarrow> JournalBackupState result" where
  "backupStateFromName v =
     (if v = ''pending'' then Inr BS_Pending
      else if v = ''intent'' then Inr BS_Intent
      else if v = ''durable'' then Inr BS_Durable
      else if v = ''not_required'' then Inr BS_NotRequired
      else enumFailure ''backupState'')"

definition applyStateFromName :: "string \<Rightarrow> JournalApplyState result" where
  "applyStateFromName v =
     (if v = ''pending'' then Inr AS_Pending
      else if v = ''intent'' then Inr AS_Intent
      else if v = ''complete'' then Inr AS_Complete
      else enumFailure ''applyState'')"

definition rollbackStateFromName :: "string \<Rightarrow> JournalRollbackState result" where
  "rollbackStateFromName v =
     (if v = ''not_started'' then Inr RB_NotStarted
      else if v = ''intent'' then Inr RB_Intent
      else if v = ''complete'' then Inr RB_Complete
      else if v = ''failed'' then Inr RB_Failed
      else if v = ''not_required'' then Inr RB_NotRequired
      else enumFailure ''rollbackState'')"

fun journalFileStateName :: "JournalFileState \<Rightarrow> string" where
  "journalFileStateName FS_Prepared = ''prepared''"
| "journalFileStateName FS_Applying = ''applying''"
| "journalFileStateName FS_RollingBack = ''rolling_back''"
| "journalFileStateName FS_RolledBack = ''rolled_back''"
| "journalFileStateName FS_FilesApplied = ''files_applied''"
| "journalFileStateName FS_Complete = ''complete''"
| "journalFileStateName FS_RecoveryFailed = ''recovery_failed''"

fun journalRestartStateName :: "JournalRestartState \<Rightarrow> string" where
  "journalRestartStateName RS_NotRequested = ''not_requested''"
| "journalRestartStateName RS_NotAttempted = ''not_attempted''"
| "journalRestartStateName RS_Intent = ''intent''"
| "journalRestartStateName RS_Launched = ''launched''"
| "journalRestartStateName RS_Failed = ''failed''"
| "journalRestartStateName RS_OutcomeUnknown = ''outcome_unknown''"

fun journalBackupStateName :: "JournalBackupState \<Rightarrow> string" where
  "journalBackupStateName BS_Pending = ''pending''"
| "journalBackupStateName BS_Intent = ''intent''"
| "journalBackupStateName BS_Durable = ''durable''"
| "journalBackupStateName BS_NotRequired = ''not_required''"

fun journalApplyStateName :: "JournalApplyState \<Rightarrow> string" where
  "journalApplyStateName AS_Pending = ''pending''"
| "journalApplyStateName AS_Intent = ''intent''"
| "journalApplyStateName AS_Complete = ''complete''"

fun journalRollbackStateName :: "JournalRollbackState \<Rightarrow> string" where
  "journalRollbackStateName RB_NotStarted = ''not_started''"
| "journalRollbackStateName RB_Intent = ''intent''"
| "journalRollbackStateName RB_Complete = ''complete''"
| "journalRollbackStateName RB_Failed = ''failed''"
| "journalRollbackStateName RB_NotRequired = ''not_required''"

section \<open>Validation\<close>

definition errorIncomplete :: "JournalError \<Rightarrow> bool" where
  "errorIncomplete e \<longleftrightarrow> (je_code e = []) \<noteq> (je_message e = [])"

definition validateOperationRecord :: "ApplyJournalOperation \<Rightarrow> unit result" where
  "validateOperationRecord operation =
     (if \<not> isLowerHexSha256 (jo_transactionId operation) then journalError ''Invalid apply journal transaction identity''
      else if \<not> isLowerHexSha256 (jo_operationId operation) then journalError ''Invalid apply journal operation digest''
      else if jo_intent operation \<noteq> ''replace'' \<and> jo_intent operation \<noteq> ''remove''
      then journalError ''Invalid apply journal operation intent''
      else if jo_originalExists operation \<and> (jo_originalIdentity operation = [] \<or> \<not> isLowerHexSha256 (jo_originalSha256 operation))
      then journalError ''Original file evidence is incomplete in apply journal''
      else if jo_originalExists operation \<and> \<not> jo_originalPermissionsKnown operation \<and> jo_originalPermissions operation \<noteq> 0
      then journalError ''Unknown original permissions have a non-zero journal value''
      else if jo_originalExists operation \<and> jo_originalPermissions operation AND NOT 0x1FF \<noteq> 0
      then journalError ''Original permissions contain unsupported journal bits''
      else if \<not> jo_originalExists operation \<and>
        (jo_originalIdentity operation \<noteq> [] \<or> jo_originalSize operation \<noteq> 0 \<or> jo_originalSha256 operation \<noteq> []
         \<or> jo_originalPermissionsKnown operation \<or> jo_originalPermissions operation \<noteq> 0)
      then journalError ''Unexpected original file evidence in apply journal''
      else if errorIncomplete (jo_error operation) then journalError ''Apply journal operation error is incomplete''
      else Inr ())"

definition validateSummaryRecord :: "ApplyJournalSummary \<Rightarrow> bool \<Rightarrow> unit result" where
  "validateSummaryRecord summary allowLegacyCompleteWithoutTimestamp =
     bindr (validateTransaction (js_transactionId summary) (js_planDigest summary)) (\<lambda>_.
       if errorIncomplete (js_applyError summary) \<or> errorIncomplete (js_rollbackError summary)
          \<or> errorIncomplete (js_restartError summary)
       then journalError ''Apply journal summary contains an incomplete error''
       else (case js_completedAt summary of
               Some instant \<Rightarrow>
                 if js_fileState summary \<noteq> FS_Complete
                 then journalError ''Apply journal completion timestamp is present before completion''
                 else if \<not> is_ok (formatApplyCompletionTimestamp instant)
                 then journalError ''Invalid apply journal completion timestamp''
                 else Inr ()
             | None \<Rightarrow>
                 if js_fileState summary = FS_Complete \<and> \<not> allowLegacyCompleteWithoutTimestamp
                 then journalError ''Completed apply journal summary is missing completedAt''
                 else Inr ()))"

section \<open>Identities\<close>

text \<open>\<open>toJson\<close> throws on text that is not UTF-8; the catch branch reports it.\<close>

definition applyPlanDigest :: "(string \<Rightarrow> string) \<Rightarrow> ApplyPlan \<Rightarrow> string result" where
  "applyPlanDigest fpText plan =
     (case plan_toJson fpText plan of
        Some t \<Rightarrow> Inr (sha256Bytes t)
      | None \<Rightarrow> journalError ''Failed to calculate apply transaction identity'')"

text \<open>The readings of the clocks, the sequence number and the random device, which the function takes at run time.\<close>

record transaction_entropy =
  te_system :: int
  te_steady :: int
  te_sequence :: u64
  te_random :: "u32 list"

definition createApplyTransactionId :: "transaction_entropy \<Rightarrow> string \<Rightarrow> string result" where
  "createApplyTransactionId entropy planDigest =
     (if \<not> isLowerHexSha256 planDigest then journalError ''Invalid plan digest for apply transaction''
      else Inr (sha256Bytes (planDigest @ '':'' @ decimalText (te_system entropy) @ '':'' @ decimalText (te_steady entropy)
        @ '':'' @ decimal_text (unat (te_sequence entropy))
        @ concat (map (\<lambda>r. '':'' @ decimal_text (unat r)) (take 4 (te_random entropy))))))"

definition appendPart :: "string \<Rightarrow> string \<Rightarrow> string" where
  "appendPart material v = material @ [nul] @ v"

definition preconditionParts :: "ApplyOperationPrecondition option \<Rightarrow> string list" where
  "preconditionParts precondition =
     (case precondition of
        None \<Rightarrow> []
      | Some c \<Rightarrow>
          [''precondition'', if pre_exists c then ''exists'' else ''missing''] @
          (if pre_exists c
           then [decimal_text (unat (pre_size c)), pre_sha256 c,
                 case pre_permissions c of Some bits \<Rightarrow> decimal_text (unat bits) | None \<Rightarrow> ''permissions-unknown'']
           else []))"

definition operationParts :: "u64 \<Rightarrow> ApplyOperation \<Rightarrow> string list" where
  "operationParts index operation =
     [decimal_text (unat index), if op_type operation = Replace then ''replace'' else ''remove'', op_source operation,
      op_target operation, op_sha256 operation, decimal_text (unat (op_size operation))]
     @ (case op_permissions operation of None \<Rightarrow> [] | Some bits \<Rightarrow> [''permissions'', decimal_text (unat bits)])
     @ preconditionParts (op_precondition operation)"

definition applyOperationId :: "string \<Rightarrow> u64 \<Rightarrow> ApplyOperation \<Rightarrow> string result" where
  "applyOperationId transactionId index operation =
     (if \<not> isLowerHexSha256 transactionId then journalError ''Invalid transaction identity for apply operation''
      else Inr (sha256Bytes (foldl appendPart transactionId (operationParts index operation))))"

section \<open>Text of the records\<close>

definition serializeActiveTransaction :: "(string \<Rightarrow> string) \<Rightarrow> ActiveTransaction \<Rightarrow> string result" where
  "serializeActiveTransaction fpText active = serializeApplyTransactionReceipt fpText active"

definition parseActiveTransaction :: "string \<Rightarrow> ActiveTransaction result" where
  "parseActiveTransaction t = parseApplyTransactionReceipt t"

definition addCompletion :: "UtcInstant option \<Rightarrow> (string \<times> Json) list \<Rightarrow> (string \<times> Json) list result" where
  "addCompletion completedAt object =
     (case completedAt of
        None \<Rightarrow> Inr object
      | Some instant \<Rightarrow>
          bindr (formatApplyCompletionTimestamp instant) (\<lambda>timestamp.
            Inr (object_emplace ''completedAt'' (JString timestamp) object)))"

definition summaryJson :: "ApplyJournalSummary \<Rightarrow> Json result" where
  "summaryJson summary =
     (let schema = (if js_completedAt summary \<noteq> None then kSummarySchemaVersion else kLegacySummarySchemaVersion);
          o1 = object_emplace ''schemaVersion'' (JUInt (of_nat schema)) [];
          o2 = object_emplace ''transactionId'' (JString (js_transactionId summary)) o1;
          o3 = object_emplace ''planDigest'' (JString (js_planDigest summary)) o2;
          o4 = object_emplace ''fileState'' (JString (journalFileStateName (js_fileState summary))) o3
      in bindr (addCompletion (js_completedAt summary) o4) (\<lambda>o5.
         let o6 = object_emplace ''operationCount'' (JString (decimal_text (unat (js_operationCount summary)))) o5;
             o7 = object_emplace ''applyError'' (errorToJson (js_applyError summary)) o6;
             o8 = object_emplace ''rollbackError'' (errorToJson (js_rollbackError summary)) o7;
             o9 = object_emplace ''restartState'' (JString (journalRestartStateName (js_restartState summary))) o8
         in Inr (JObject (object_emplace ''restartError'' (errorToJson (js_restartError summary)) o9))))"

definition journalText :: "(string \<Rightarrow> string) \<Rightarrow> string \<Rightarrow> Json \<Rightarrow> string result" where
  "journalText fpText message json = (case stringify fpText 2 json of Some t \<Rightarrow> Inr t | None \<Rightarrow> journalError message)"

definition serializeApplyJournalSummary :: "(string \<Rightarrow> string) \<Rightarrow> ApplyJournalSummary \<Rightarrow> string result" where
  "serializeApplyJournalSummary fpText summary =
     bindr (validateSummaryRecord summary False) (\<lambda>_.
     bindr (summaryJson summary) (journalText fpText ''Failed to serialize apply journal summary''))"

definition summaryKeys :: "nat \<Rightarrow> string list" where
  "summaryKeys schemaVersion =
     (if schemaVersion = kLegacySummarySchemaVersion
      then [''schemaVersion'', ''transactionId'', ''planDigest'', ''fileState'', ''operationCount'', ''applyError'',
            ''rollbackError'', ''restartState'', ''restartError'']
      else [''schemaVersion'', ''transactionId'', ''planDigest'', ''fileState'', ''completedAt'', ''operationCount'',
            ''applyError'', ''rollbackError'', ''restartState'', ''restartError''])"

definition readCompletedAt :: "Json \<Rightarrow> nat \<Rightarrow> UtcInstant option result" where
  "readCompletedAt object schemaVersion =
     (case json_get object ''completedAt'' of
        Some timestamp \<Rightarrow>
          if \<not> isString timestamp then journalError ''Apply journal completion timestamp must be a string''
          else (case parseRfc3339 (asString timestamp) of
                  Inl _ \<Rightarrow> journalError ''Invalid apply journal completion timestamp''
                | Inr instant \<Rightarrow>
                    if \<not> is_ok (formatApplyCompletionTimestamp instant)
                    then journalError ''Invalid apply journal completion timestamp''
                    else Inr (Some instant))
      | None \<Rightarrow>
          if schemaVersion = kSummarySchemaVersion
          then journalError ''Apply journal schemaVersion 3 summary is missing completedAt''
          else Inr None)"

definition readSummaryRecord :: "Json \<Rightarrow> ApplyJournalSummary result" where
  "readSummaryRecord object =
     (let schemaVersion = unat (asUInt64 (the (json_get object ''schemaVersion'')) 0)
      in bindr (journalOnlyKeys (asObject object) (summaryKeys schemaVersion) ''Apply journal summary'') (\<lambda>_.
         bindr (journalString object ''transactionId'') (\<lambda>transactionId.
         bindr (journalString object ''planDigest'') (\<lambda>planDigest.
         bindr (journalString object ''fileState'') (\<lambda>fileStateText.
         bindr (parseDecimal object ''operationCount'') (\<lambda>operationCount.
         bindr (errorFromJson object ''applyError'') (\<lambda>applyError.
         bindr (errorFromJson object ''rollbackError'') (\<lambda>rollbackError.
         bindr (journalString object ''restartState'') (\<lambda>restartStateText.
         bindr (errorFromJson object ''restartError'') (\<lambda>restartError.
         bindr (validateTransaction transactionId planDigest) (\<lambda>_.
         bindr (fileStateFromName fileStateText) (\<lambda>fileState.
         bindr (restartStateFromName restartStateText) (\<lambda>restartState.
         bindr (readCompletedAt object schemaVersion) (\<lambda>completedAt.
           let summary = \<lparr>js_schemaVersion = schemaVersion, js_transactionId = transactionId, js_planDigest = planDigest,
             js_fileState = fileState, js_completedAt = completedAt, js_operationCount = operationCount,
             js_applyError = applyError, js_rollbackError = rollbackError, js_restartState = restartState,
             js_restartError = restartError\<rparr>
           in bindr (validateSummaryRecord summary (schemaVersion = kLegacySummarySchemaVersion)) (\<lambda>_. Inr summary)))))))))))))))"

definition parseApplyJournalSummary :: "string \<Rightarrow> ApplyJournalSummary result" where
  "parseApplyJournalSummary t =
     bindr (journalObject t ''apply journal summary'' [kLegacySummarySchemaVersion, kSummarySchemaVersion]) readSummaryRecord"

definition journalOperationJson :: "ApplyJournalOperation \<Rightarrow> Json" where
  "journalOperationJson operation =
     (let o1 = object_emplace ''schemaVersion'' (JUInt (of_nat kOperationSchemaVersion)) [];
          o2 = object_emplace ''transactionId'' (JString (jo_transactionId operation)) o1;
          o3 = object_emplace ''index'' (JString (decimal_text (unat (jo_index operation)))) o2;
          o4 = object_emplace ''operationId'' (JString (jo_operationId operation)) o3;
          o5 = object_emplace ''intent'' (JString (jo_intent operation)) o4;
          o6 = object_emplace ''originalExists'' (JBool (jo_originalExists operation)) o5;
          o7 = object_emplace ''originalIdentity'' (JString (jo_originalIdentity operation)) o6;
          o8 = object_emplace ''originalSize'' (JString (decimal_text (unat (jo_originalSize operation)))) o7;
          o9 = object_emplace ''originalSha256'' (JString (jo_originalSha256 operation)) o8;
          o10 = object_emplace ''originalPermissionsKnown'' (JBool (jo_originalPermissionsKnown operation)) o9;
          o11 = object_emplace ''originalPermissions'' (JString (decimal_text (unat (jo_originalPermissions operation)))) o10;
          o12 = object_emplace ''backupState'' (JString (journalBackupStateName (jo_backupState operation))) o11;
          o13 = object_emplace ''applyState'' (JString (journalApplyStateName (jo_applyState operation))) o12;
          o14 = object_emplace ''installedIdentity'' (JString (jo_installedIdentity operation)) o13;
          o15 = object_emplace ''rollbackState'' (JString (journalRollbackStateName (jo_rollbackState operation))) o14
      in JObject (object_emplace ''error'' (errorToJson (jo_error operation)) o15))"

definition serializeApplyJournalOperation :: "(string \<Rightarrow> string) \<Rightarrow> ApplyJournalOperation \<Rightarrow> string result" where
  "serializeApplyJournalOperation fpText operation =
     bindr (validateOperationRecord operation) (\<lambda>_.
       journalText fpText ''Failed to serialize apply journal operation'' (journalOperationJson operation))"

definition journalOperationKeys :: "string list" where
  "journalOperationKeys =
     [''schemaVersion'', ''transactionId'', ''index'', ''operationId'', ''intent'', ''originalExists'', ''originalIdentity'',
      ''originalSize'', ''originalSha256'', ''originalPermissionsKnown'', ''originalPermissions'', ''backupState'',
      ''applyState'', ''installedIdentity'', ''rollbackState'', ''error'']"

definition readOperationRecord :: "Json \<Rightarrow> ApplyJournalOperation result" where
  "readOperationRecord object =
     bindr (journalOnlyKeys (asObject object) journalOperationKeys ''Apply journal operation'') (\<lambda>_.
     bindr (journalString object ''transactionId'') (\<lambda>transactionId.
     bindr (parseDecimal object ''index'') (\<lambda>index.
     bindr (journalString object ''operationId'') (\<lambda>operationId.
     bindr (journalString object ''intent'') (\<lambda>intent.
     bindr (requiredBool object ''originalExists'') (\<lambda>originalExists.
     bindr (journalString object ''originalIdentity'') (\<lambda>originalIdentity.
     bindr (parseDecimal object ''originalSize'') (\<lambda>originalSize.
     bindr (journalString object ''originalSha256'') (\<lambda>originalSha256.
     bindr (requiredBool object ''originalPermissionsKnown'') (\<lambda>originalPermissionsKnown.
     bindr (parseDecimal object ''originalPermissions'') (\<lambda>originalPermissions.
     bindr (journalString object ''backupState'') (\<lambda>backupStateText.
     bindr (journalString object ''applyState'') (\<lambda>applyStateText.
     bindr (journalString object ''installedIdentity'') (\<lambda>installedIdentity.
     bindr (journalString object ''rollbackState'') (\<lambda>rollbackStateText.
     bindr (errorFromJson object ''error'') (\<lambda>error.
       if originalPermissions > 0xFFFFFFFF then journalError ''Apply journal permission value is too large''
       else
         bindr (backupStateFromName backupStateText) (\<lambda>backupState.
         bindr (applyStateFromName applyStateText) (\<lambda>applyState.
         bindr (rollbackStateFromName rollbackStateText) (\<lambda>rollbackState.
           let operation = default_journal_operation\<lparr>jo_transactionId := transactionId, jo_index := index,
             jo_operationId := operationId, jo_intent := intent, jo_originalExists := originalExists,
             jo_originalIdentity := originalIdentity, jo_originalSize := originalSize, jo_originalSha256 := originalSha256,
             jo_originalPermissionsKnown := originalPermissionsKnown, jo_originalPermissions := ucast originalPermissions,
             jo_backupState := backupState, jo_applyState := applyState, jo_installedIdentity := installedIdentity,
             jo_rollbackState := rollbackState, jo_error := error\<rparr>
           in bindr (validateOperationRecord operation) (\<lambda>_. Inr operation))))))))))))))))))))"

definition parseApplyJournalOperation :: "string \<Rightarrow> ApplyJournalOperation result" where
  "parseApplyJournalOperation t =
     bindr (journalObject t ''apply journal operation'' [kOperationSchemaVersion]) readOperationRecord"

section \<open>Paths of the journal\<close>

definition activePath :: string where
  "activePath = ''.autoupdater/journal/active.json''"

definition terminalPath :: string where
  "terminalPath = ''.autoupdater/journal/terminal.json''"

definition summaryPath :: "string \<Rightarrow> string" where
  "summaryPath transactionId = ''.autoupdater/journal/'' @ transactionId @ ''.json''"

definition planPath :: "string \<Rightarrow> string" where
  "planPath transactionId = ''.autoupdater/journal/'' @ transactionId @ ''.plan.json''"

definition operationPath :: "string \<Rightarrow> u64 \<Rightarrow> string" where
  "operationPath transactionId index =
     ''.autoupdater/journal/'' @ transactionId @ ''.ops/'' @ zero_padded 8 (unat index) @ ''.json''"

end
