(* ===== verification/Rooted_Io.thy ===== *)
theory Rooted_Io
  imports Journal_Records
begin

text \<open>
  The interfaces the updater works through: \<open>interfaces/IRootedFileSystem.h\<close>, \<open>IFileSystem::openRoot\<close>,
  \<open>IHashProvider::sha256Stream\<close>, \<open>IProcessLauncher::launch\<close>, the checkpoint hook of
  \<open>updater/ApplyExecutor.h\<close> and the clock. Their implementations are system calls, so an
  implementation is a record of operations over an unspecified state \<open>'w\<close> of the outside world, with
  types \<open>'d\<close>, \<open>'f\<close> and \<open>'t\<close> of handles for directories, files and temporary files. Every operation
  may fail, and may change the world when it does.

  A computation over the world is an \<open>act\<close>. It gives \<open>None\<close> when it does not return: only the copy
  loop has no bound of its own. \<open>bnd\<close> sequences two computations, \<open>attempt\<close> returns an error at once.
  The destructors of handles release them and are not modelled.
\<close>

section \<open>Data of the interface\<close>

datatype RootAccess = RA_ReadOnly | RA_ReadWrite

datatype RootedDirectoryCreationMode = DM_Private | DM_InstalledContent

datatype RootedFileOpenMode = OM_ReadOnly | OM_ReadWrite | OM_OpenOrCreate | OM_CreateOrTruncate

text \<open>\<open>std::filesystem::perms\<close>: the mode bits, or \<open>perms::unknown\<close>.\<close>

type_synonym perms = u32

definition perms_unknown :: perms where
  "perms_unknown = 0xFFFF"

record RootedFileMetadata =
  md_size :: u64
  md_permissions :: perms
  md_identity :: string

datatype RootedEntryExpectation = ExpectMissing | ExpectIdentity string

definition matching :: "RootedFileMetadata \<Rightarrow> RootedEntryExpectation" where
  "matching metadata = ExpectIdentity (md_identity metadata)"

datatype RootedPublication = NotPublished | Published | PublicationUnknown

record RootedPublishStatus =
  ps_publication :: RootedPublication
  ps_namespaceDurable :: bool
  ps_failureCanBeReconciled :: bool

record ProcessLaunchRequest =
  lr_executable :: string
  lr_arguments :: "string list"
  lr_workingDirectory :: string
  lr_detached :: bool

datatype ApplyFaultAction = FA_Continue | FA_Fail

type_synonym ('w, 'a) prim = "'w \<Rightarrow> 'a result \<times> 'w"

text \<open>The operations. A hook that throws gives \<open>None\<close>; an executor without hooks has none.\<close>

record ('w, 'd, 'f, 't) rooted_io =
  io_openRoot :: "string \<Rightarrow> RootAccess \<Rightarrow> bool \<Rightarrow> RootedDirectoryCreationMode \<Rightarrow> ('w, 'd) prim"
  io_openRegularFile :: "'d \<Rightarrow> string \<Rightarrow> RootedFileOpenMode \<Rightarrow> RootedDirectoryCreationMode \<Rightarrow> ('w, 'f option) prim"
  io_createAtomicReplacement :: "'d \<Rightarrow> string \<Rightarrow> RootedDirectoryCreationMode \<Rightarrow> ('w, 't) prim"
  io_removeRegularFile :: "'d \<Rightarrow> string \<Rightarrow> RootedEntryExpectation \<Rightarrow> ('w, unit) prim"
  io_acquireExclusiveLock :: "'d \<Rightarrow> string \<Rightarrow> ('w, unit) prim"
  io_read :: "'f \<Rightarrow> nat \<Rightarrow> ('w, string) prim"
  io_write :: "'f \<Rightarrow> string \<Rightarrow> ('w, unit) prim"
  io_seek :: "'f \<Rightarrow> nat \<Rightarrow> ('w, unit) prim"
  io_truncate :: "'f \<Rightarrow> nat \<Rightarrow> ('w, unit) prim"
  io_metadata :: "'f \<Rightarrow> ('w, RootedFileMetadata) prim"
  io_setPermissions :: "'f \<Rightarrow> perms \<Rightarrow> ('w, unit) prim"
  io_copyPermissionsFrom :: "'f \<Rightarrow> 'f \<Rightarrow> ('w, unit) prim"
  io_close :: "'f \<Rightarrow> ('w, unit) prim"
  io_file :: "'t \<Rightarrow> 'f"
  io_commit :: "'t \<Rightarrow> RootedEntryExpectation \<Rightarrow> ('w, unit) prim"
  io_discard :: "'t \<Rightarrow> ('w, unit) prim"
  io_publishStatus :: "'t \<Rightarrow> 'w \<Rightarrow> RootedPublishStatus"
  io_sha256Stream :: "'f \<Rightarrow> ('w, string) prim"
  io_launch :: "ProcessLaunchRequest \<Rightarrow> ('w, unit) prim"
  io_checkpoint :: "(string \<Rightarrow> u64 \<Rightarrow> 'w \<Rightarrow> ApplyFaultAction option \<times> 'w) option"
  io_currentUtcInstant :: "('w, UtcInstant) prim"
  io_entropy :: "'w \<Rightarrow> transaction_entropy \<times> 'w"

section \<open>Computations over the world\<close>

type_synonym ('w, 'a) act = "'w \<Rightarrow> ('a \<times> 'w) option"

definition ret :: "'a \<Rightarrow> ('w, 'a) act" where
  "ret x w = Some (x, w)"

definition prim :: "('w \<Rightarrow> 'a \<times> 'w) \<Rightarrow> ('w, 'a) act" where
  "prim p w = Some (p w)"

definition bnd :: "('w, 'a) act \<Rightarrow> ('a \<Rightarrow> ('w, 'b) act) \<Rightarrow> ('w, 'b) act" where
  "bnd m f w = (case m w of None \<Rightarrow> None | Some (x, w') \<Rightarrow> f x w')"

definition attempt :: "('w, 'a result) act \<Rightarrow> ('a \<Rightarrow> ('w, 'b result) act) \<Rightarrow> ('w, 'b result) act" where
  "attempt m f = bnd m (\<lambda>r. case r of Inl e \<Rightarrow> ret (Inl e) | Inr x \<Rightarrow> f x)"

text \<open>\<open>call\<close> hands an error to a handler and a value on.\<close>

definition call :: "('w, 'a result) act \<Rightarrow> (Error \<Rightarrow> ('w, 'b) act) \<Rightarrow> ('a \<Rightarrow> ('w, 'b) act) \<Rightarrow> ('w, 'b) act" where
  "call m handle f = bnd m (\<lambda>r. case r of Inl e \<Rightarrow> handle e | Inr x \<Rightarrow> f x)"

definition liftr :: "'a result \<Rightarrow> ('w, 'a result) act" where
  "liftr r = ret r"

text \<open>The computation returns, and this holds of the result and the world it leaves.\<close>

definition wp :: "('w, 'a) act \<Rightarrow> ('a \<Rightarrow> 'w \<Rightarrow> bool) \<Rightarrow> 'w \<Rightarrow> bool" where
  "wp m Q w \<longleftrightarrow> (\<exists>x w'. m w = Some (x, w') \<and> Q x w')"

lemma wp_ret [simp]: "wp (ret x) Q w = Q x w" "wp (liftr r) P w = P r w"
  by (simp_all add: wp_def ret_def liftr_def)

lemma wp_prim: "wp (prim p) Q w = Q (fst (p w)) (snd (p w))"
  by (cases "p w") (simp add: wp_def prim_def)

lemma wp_bnd [simp]: "wp (bnd m f) Q w = wp m (\<lambda>x. wp (f x) Q) w"
  by (auto simp: wp_def bnd_def split: option.splits)

lemma wp_if [simp]: "wp (if b then m else m') Q w = (if b then wp m Q w else wp m' Q w)"
  by simp

lemma wp_attempt [simp]: "wp (attempt m f) Q w = wp m (\<lambda>r. case r of Inl e \<Rightarrow> Q (Inl e) | Inr x \<Rightarrow> wp (f x) Q) w"
proof -
  have "wp (ret x) Q = Q x" for x by (rule ext) simp
  then show ?thesis by (simp add: attempt_def sum.case_distrib [of "\<lambda>a. wp a Q"] cong: sum.case_cong)
qed

lemma wp_call [simp]: "wp (call m h f) Q w = wp m (\<lambda>r. case r of Inl e \<Rightarrow> wp (h e) Q | Inr x \<Rightarrow> wp (f x) Q) w"
  by (simp add: call_def sum.case_distrib [of "\<lambda>a. wp a Q"] cong: sum.case_cong)

lemma wp_mono: "wp m P w \<Longrightarrow> (\<And>x w'. P x w' \<Longrightarrow> Q x w') \<Longrightarrow> wp m Q w"
  by (auto simp: wp_def)

lemma wp_conj: "wp m P w \<Longrightarrow> wp m Q w \<Longrightarrow> wp m (\<lambda>x w'. P x w' \<and> Q x w') w"
  by (auto simp: wp_def)

lemma wp_run: "wp m Q w \<Longrightarrow> m w = Some (x, w') \<Longrightarrow> Q x w'"
  by (simp add: wp_def)

section \<open>Errors with phases\<close>

definition withErrorPhase :: "Error \<Rightarrow> ErrorPhase \<Rightarrow> Error" where
  "withErrorPhase error phase = error\<lparr>err_phase := phase\<rparr>"

definition withFallbackErrorPhase :: "Error \<Rightarrow> ErrorPhase \<Rightarrow> Error" where
  "withFallbackErrorPhase error phase = (if err_phase error = EP_General then error\<lparr>err_phase := phase\<rparr> else error)"

text \<open>\<open>error.message += "; " + text\<close>, the way a second failure is added to the first.\<close>

definition note_also :: "Error \<Rightarrow> string \<Rightarrow> Error" where
  "note_also error addition = error\<lparr>err_message := err_message error @ addition\<rparr>"

text \<open>Closing a handle on an error path: a failure to close is added to the message.\<close>

definition closing :: "('w, 'd, 'f, 't) rooted_io \<Rightarrow> 'f \<Rightarrow> string \<Rightarrow> Error \<Rightarrow> ('w, Error) act" where
  "closing io f description error =
     bnd (prim (io_close io f)) (\<lambda>closed.
       ret (case closed of Inl e \<Rightarrow> note_also error (description @ err_message e) | Inr _ \<Rightarrow> error))"

end
