(* ===== verification/Journal_Store.thy ===== *)
theory Journal_Store
  imports Rooted_Io
begin

text \<open>
  \<open>ApplyJournalStore\<close> of \<open>updater/ApplyJournal.cpp\<close>: the journal's files in the install root. Records are
  replaced atomically and read back before a write counts as done. \<open>noexcept\<close> functions turn an
  exhausted allocator into an error; that branch is not modelled.
\<close>

definition kReadChunkBytes :: nat where
  "kReadChunkBytes = 64 * 1024"

section \<open>Reading and writing a journal file\<close>

text \<open>The read loop. Each turn adds a byte and stays within the limit, so it ends.\<close>

function readLoop :: "('w, 'd, 'f, 't) rooted_io \<Rightarrow> 'f \<Rightarrow> string \<Rightarrow> nat \<Rightarrow> string \<Rightarrow> 'w \<Rightarrow> string result \<times> 'w" where
  "readLoop io f path maxBytes contents w =
     (case io_read io f kReadChunkBytes w of
        (Inl e, w1) \<Rightarrow> (Inl e, w1)
      | (Inr bytes, w1) \<Rightarrow>
          if bytes = [] then (Inr contents, w1)
          else if length contents > maxBytes \<or> length bytes > maxBytes - length contents
          then (fail EC_ResourceLimitExceeded (''Apply journal file grew beyond its byte limit: '' @ path), w1)
          else readLoop io f path maxBytes (contents @ bytes) w1)"
  by pat_completeness auto
termination
  by (relation "measure (\<lambda>(io, f, path, maxBytes, contents, w). Suc maxBytes - length contents)")
    (auto simp flip: length_greater_0_conv)

declare readLoop.simps [simp del]

text \<open>The lambda \<open>failOpened\<close>: close the file and return the error.\<close>

definition failOpened :: "('w, 'd, 'f, 't) rooted_io \<Rightarrow> 'f \<Rightarrow> Error \<Rightarrow> ('w, string option result) act" where
  "failOpened io f error = bnd (closing io f ''; failed to close apply journal file: '' error) (\<lambda>e. ret (Inl e))"

definition readOptional :: "('w, 'd, 'f, 't) rooted_io \<Rightarrow> 'd \<Rightarrow> string \<Rightarrow> nat \<Rightarrow> string option \<Rightarrow> ('w, string option result) act" where
  "readOptional io root path maxBytes expectedIdentity =
     attempt (prim (io_openRegularFile io root path OM_ReadOnly DM_Private)) (\<lambda>opened.
     case opened of
       None \<Rightarrow> ret (Inr None)
     | Some f \<Rightarrow>
         call (prim (io_metadata io f)) (failOpened io f) (\<lambda>metadata.
         if expectedIdentity \<noteq> None \<and> md_identity metadata \<noteq> the expectedIdentity
         then failOpened io f (mk_error EC_SecurityPolicyViolation (''Apply journal publication identity changed: '' @ path))
         else if unat (md_size metadata) > maxBytes
         then failOpened io f (mk_error EC_ResourceLimitExceeded (''Apply journal file exceeds its byte limit: '' @ path))
         else
           call (prim (io_seek io f 0)) (failOpened io f) (\<lambda>_.
           call (prim (readLoop io f path maxBytes [])) (failOpened io f) (\<lambda>contents.
           call (prim (io_metadata io f)) (failOpened io f) (\<lambda>finalMetadata.
             if md_identity finalMetadata \<noteq> md_identity metadata \<or> md_size finalMetadata \<noteq> md_size metadata
                \<or> length contents \<noteq> unat (md_size metadata)
             then failOpened io f (mk_error EC_SecurityPolicyViolation (''Apply journal file changed while being read: '' @ path))
             else attempt (prim (io_close io f)) (\<lambda>_. ret (Inr (Some contents))))))))"

text \<open>The expectation under which the present file, if any, is replaced.\<close>

definition currentExpectation :: "('w, 'd, 'f, 't) rooted_io \<Rightarrow> 'd \<Rightarrow> string \<Rightarrow> ('w, RootedEntryExpectation result) act" where
  "currentExpectation io root path =
     attempt (prim (io_openRegularFile io root path OM_ReadOnly DM_Private)) (\<lambda>current.
     case current of
       None \<Rightarrow> ret (Inr ExpectMissing)
     | Some f \<Rightarrow>
         call (prim (io_metadata io f))
           (\<lambda>e. bnd (closing io f ''; failed to close apply journal target: '' e) (\<lambda>e'. ret (Inl e')))
           (\<lambda>metadata. attempt (prim (io_close io f)) (\<lambda>_. ret (Inr (matching metadata)))))"

definition discarding :: "('w, 'd, 'f, 't) rooted_io \<Rightarrow> 't \<Rightarrow> string \<Rightarrow> Error \<Rightarrow> ('w, 'a result) act" where
  "discarding io t description error =
     bnd (prim (io_discard io t)) (\<lambda>discarded.
       ret (Inl (case discarded of Inl e \<Rightarrow> note_also error (description @ err_message e) | Inr _ \<Rightarrow> error)))"

text \<open>After a failed commit: the error stands unless the publication can be reconciled by reading it back.\<close>

definition reconcileCommit :: "('w, 'd, 'f, 't) rooted_io \<Rightarrow> 'd \<Rightarrow> string \<Rightarrow> string \<Rightarrow> nat \<Rightarrow> string \<Rightarrow> Error \<Rightarrow> unit result
    \<Rightarrow> RootedPublishStatus \<Rightarrow> ('w, unit result) act" where
  "reconcileCommit io root path contents maxBytes identity error discarded publication =
     (case discarded of
        Inl e \<Rightarrow> ret (Inl (note_also error (''; failed to finish apply journal cleanup: '' @ err_message e)))
      | Inr _ \<Rightarrow>
          if ps_publication publication = NotPublished \<or> \<not> ps_namespaceDurable publication
             \<or> \<not> ps_failureCanBeReconciled publication
          then ret (Inl error)
          else
            call (readOptional io root path maxBytes (Some identity))
              (\<lambda>e. ret (Inl (note_also error (''; failed to reconcile apply journal publication: '' @ err_message e))))
              (\<lambda>reconciled.
                if reconciled \<noteq> Some contents
                then ret (Inl (note_also error ''; published apply journal contents do not match the prepared record''))
                else ret (Inr ())))"

definition writeAtomic :: "('w, 'd, 'f, 't) rooted_io \<Rightarrow> 'd \<Rightarrow> string \<Rightarrow> string \<Rightarrow> nat \<Rightarrow> ('w, unit result) act" where
  "writeAtomic io root path contents maxBytes =
     (if length contents > maxBytes then ret (fail EC_ResourceLimitExceeded ''Apply journal record exceeds its byte limit'')
      else
        attempt (currentExpectation io root path) (\<lambda>expectation.
        attempt (prim (io_createAtomicReplacement io root path DM_Private)) (\<lambda>temporary.
        call (prim (io_write io (io_file io temporary) contents))
          (discarding io temporary ''; failed to discard incomplete apply journal: '') (\<lambda>_.
        call (prim (io_metadata io (io_file io temporary)))
          (discarding io temporary ''; failed to discard invalid apply journal: '') (\<lambda>preparedMetadata.
        bnd (prim (io_commit io temporary expectation)) (\<lambda>commit.
        bnd (prim (io_discard io temporary)) (\<lambda>discarded.
        bnd (\<lambda>w. Some (io_publishStatus io temporary w, w)) (\<lambda>publication.
        case commit of
          Inl error \<Rightarrow> reconcileCommit io root path contents maxBytes (md_identity preparedMetadata) error discarded publication
        | Inr _ \<Rightarrow>
            attempt (liftr discarded) (\<lambda>_.
            attempt (readOptional io root path maxBytes (Some (md_identity preparedMetadata))) (\<lambda>verified.
              if verified \<noteq> Some contents then ret (journalError (''Apply journal commit verification failed: '' @ path))
              else ret (Inr ())))))))))))"

section \<open>The transaction pointers\<close>

definition loadActive :: "('w, 'd, 'f, 't) rooted_io \<Rightarrow> 'd \<Rightarrow> ('w, ActiveTransaction option result) act" where
  "loadActive io root =
     attempt (readOptional io root activePath kMaxJournalRecordBytes None) (\<lambda>contents.
     case contents of
       None \<Rightarrow> ret (Inr None)
     | Some t \<Rightarrow>
         attempt (liftr (parseActiveTransaction t)) (\<lambda>active.
           if rc_completedAt active \<noteq> None then ret (journalError ''Active apply transaction contains a completion timestamp'')
           else ret (Inr (Some active))))"

definition writeActive :: "('w, 'd, 'f, 't) rooted_io \<Rightarrow> (string \<Rightarrow> string) \<Rightarrow> 'd \<Rightarrow> ActiveTransaction \<Rightarrow> ('w, unit result) act" where
  "writeActive io fpText root active =
     (if rc_completedAt active \<noteq> None then ret (journalError ''Active apply transaction cannot contain a completion timestamp'')
      else attempt (liftr (serializeActiveTransaction fpText active)) (\<lambda>serialized.
        writeAtomic io root activePath serialized kMaxJournalRecordBytes))"

definition loadTerminal :: "('w, 'd, 'f, 't) rooted_io \<Rightarrow> 'd \<Rightarrow> ('w, ActiveTransaction option result) act" where
  "loadTerminal io root =
     attempt (readOptional io root terminalPath kMaxJournalRecordBytes None) (\<lambda>contents.
     case contents of
       None \<Rightarrow> ret (Inr None)
     | Some t \<Rightarrow> attempt (liftr (parseActiveTransaction t)) (\<lambda>terminal. ret (Inr (Some terminal))))"

definition writeTerminal :: "('w, 'd, 'f, 't) rooted_io \<Rightarrow> (string \<Rightarrow> string) \<Rightarrow> 'd \<Rightarrow> ActiveTransaction \<Rightarrow> ('w, unit result) act" where
  "writeTerminal io fpText root terminal =
     (if rc_completedAt terminal = None
      then ret (journalError ''Terminal apply transaction is missing its completion timestamp'')
      else attempt (liftr (serializeActiveTransaction fpText terminal)) (\<lambda>serialized.
        writeAtomic io root terminalPath serialized kMaxJournalRecordBytes))"

text \<open>After the removal, whatever it returned: the pointer must be gone.\<close>

definition verifyCleared :: "('w, 'd, 'f, 't) rooted_io \<Rightarrow> 'd \<Rightarrow> unit result \<Rightarrow> ('w, unit result) act" where
  "verifyCleared io root removed =
     call (loadActive io root)
       (\<lambda>e. ret (case removed of
          Inl error \<Rightarrow> Inl (note_also error (''; failed to reconcile active journal removal: '' @ err_message e))
        | Inr _ \<Rightarrow> Inl e))
       (\<lambda>verified.
         if verified \<noteq> None
         then ret (case removed of
                Inl error \<Rightarrow> Inl error
              | Inr _ \<Rightarrow> journalError ''Active apply transaction remained after journal cleanup'')
         else
           (case removed of
              Inr _ \<Rightarrow> ret (Inr ())
            | Inl error \<Rightarrow>
                bnd (prim (io_removeRegularFile io root activePath ExpectMissing)) (\<lambda>durable.
                  ret (case durable of
                         Inl e \<Rightarrow> Inl (note_also error (''; failed to persist reconciled active journal removal: '' @ err_message e))
                       | Inr _ \<Rightarrow> Inl error))))"

definition journalClearActive :: "('w, 'd, 'f, 't) rooted_io \<Rightarrow> 'd \<Rightarrow> string \<Rightarrow> ('w, unit result) act" where
  "journalClearActive io root expectedTransactionId =
     attempt (loadActive io root) (\<lambda>active.
     case active of
       None \<Rightarrow> ret (Inr ())
     | Some a \<Rightarrow>
         if rc_transactionId a \<noteq> expectedTransactionId
         then ret (journalError ''Active apply transaction changed before journal cleanup'')
         else
           attempt (prim (io_openRegularFile io root activePath OM_ReadOnly DM_Private)) (\<lambda>opened.
           case opened of
             None \<Rightarrow> ret (Inr ())
           | Some f \<Rightarrow>
               call (prim (io_metadata io f))
                 (\<lambda>e. bnd (closing io f ''; failed to close active apply journal: '' e) (\<lambda>e'. ret (Inl e')))
                 (\<lambda>metadata.
                   attempt (prim (io_close io f)) (\<lambda>_.
                   bnd (prim (io_removeRegularFile io root activePath (matching metadata))) (verifyCleared io root)))))"

section \<open>Plan snapshots, summaries and operation records\<close>

definition writePlanSnapshot :: "('w, 'd, 'f, 't) rooted_io \<Rightarrow> ResourceLimits \<Rightarrow> 'd \<Rightarrow> string \<Rightarrow> string \<Rightarrow> string \<Rightarrow> ('w, unit result) act" where
  "writePlanSnapshot io limits root transactionId planDigest json =
     (if \<not> isLowerHexSha256 transactionId \<or> \<not> isLowerHexSha256 planDigest \<or> sha256Bytes json \<noteq> planDigest
      then ret (journalError ''Apply plan snapshot does not match its recorded digest'')
      else
        attempt (readOptional io root (planPath transactionId) (unat (maxApplyPlanBytes limits)) None) (\<lambda>existing.
          if existing \<noteq> None then ret (journalError ''Refusing to reuse an existing apply transaction identity'')
          else writeAtomic io root (planPath transactionId) json (unat (maxApplyPlanBytes limits))))"

definition readPlanSnapshot :: "('w, 'd, 'f, 't) rooted_io \<Rightarrow> ResourceLimits \<Rightarrow> 'd \<Rightarrow> string \<Rightarrow> string \<Rightarrow> ('w, string result) act" where
  "readPlanSnapshot io limits root transactionId expectedPlanDigest =
     (if \<not> isLowerHexSha256 transactionId \<or> \<not> isLowerHexSha256 expectedPlanDigest
      then ret (journalError ''Invalid apply transaction or plan identity'')
      else
        attempt (readOptional io root (planPath transactionId) (unat (maxApplyPlanBytes limits)) None) (\<lambda>contents.
        case contents of
          None \<Rightarrow> ret (journalError ''Apply plan snapshot is missing'')
        | Some t \<Rightarrow>
            if sha256Bytes t \<noteq> expectedPlanDigest
            then ret (journalError ''Apply plan snapshot digest does not match the journal'')
            else ret (Inr t)))"

definition operationCountExceeded :: "ResourceLimits \<Rightarrow> ApplyJournalSummary \<Rightarrow> bool" where
  "operationCountExceeded limits summary \<longleftrightarrow> unat (js_operationCount summary) > maxContainerEntries (limits_json limits)"

definition writeSummary :: "('w, 'd, 'f, 't) rooted_io \<Rightarrow> (string \<Rightarrow> string) \<Rightarrow> ResourceLimits \<Rightarrow> 'd \<Rightarrow> ApplyJournalSummary
    \<Rightarrow> ('w, unit result) act" where
  "writeSummary io fpText limits root summary =
     (if operationCountExceeded limits summary
      then ret (fail EC_ResourceLimitExceeded ''Apply journal operation count exceeds its limit'')
      else attempt (liftr (serializeApplyJournalSummary fpText summary)) (\<lambda>serialized.
        writeAtomic io root (summaryPath (js_transactionId summary)) serialized kMaxJournalRecordBytes))"

definition readSummary :: "('w, 'd, 'f, 't) rooted_io \<Rightarrow> ResourceLimits \<Rightarrow> 'd \<Rightarrow> string \<Rightarrow> ('w, ApplyJournalSummary result) act" where
  "readSummary io limits root transactionId =
     (if \<not> isLowerHexSha256 transactionId then ret (journalError ''Invalid apply journal transaction identity'')
      else
        attempt (readOptional io root (summaryPath transactionId) kMaxJournalRecordBytes None) (\<lambda>contents.
        case contents of
          None \<Rightarrow> ret (journalError ''Apply journal summary is missing'')
        | Some t \<Rightarrow>
            attempt (liftr (parseApplyJournalSummary t)) (\<lambda>summary.
              if operationCountExceeded limits summary
              then ret (fail EC_ResourceLimitExceeded ''Apply journal operation count exceeds its limit'')
              else if js_transactionId summary \<noteq> transactionId
              then ret (journalError ''Apply journal summary transaction identity mismatch'')
              else ret (Inr summary))))"

definition writeOperation :: "('w, 'd, 'f, 't) rooted_io \<Rightarrow> (string \<Rightarrow> string) \<Rightarrow> 'd \<Rightarrow> ApplyJournalOperation \<Rightarrow> ('w, unit result) act" where
  "writeOperation io fpText root operation =
     attempt (liftr (serializeApplyJournalOperation fpText operation)) (\<lambda>serialized.
       writeAtomic io root (operationPath (jo_transactionId operation) (jo_index operation)) serialized kMaxJournalRecordBytes)"

definition readJournalOperation :: "('w, 'd, 'f, 't) rooted_io \<Rightarrow> 'd \<Rightarrow> string \<Rightarrow> u64 \<Rightarrow> ('w, ApplyJournalOperation option result) act" where
  "readJournalOperation io root transactionId index =
     (if \<not> isLowerHexSha256 transactionId then ret (journalError ''Invalid apply journal transaction identity'')
      else
        attempt (readOptional io root (operationPath transactionId index) kMaxJournalRecordBytes None) (\<lambda>contents.
        case contents of
          None \<Rightarrow> ret (Inr None)
        | Some t \<Rightarrow>
            attempt (liftr (parseApplyJournalOperation t)) (\<lambda>operation.
              if jo_transactionId operation \<noteq> transactionId \<or> jo_index operation \<noteq> index
              then ret (journalError ''Apply journal operation identity mismatch'')
              else ret (Inr (Some operation)))))"

end
