(* ===== verification/Apply_Files.thy ===== *)
theory Apply_Files
  imports Journal_Store
begin

text \<open>
  \<open>updater/ApplyExecutor.cpp\<close>, the part below the transaction: admission of a plan, evidence about
  files (size, SHA-256, permissions), copying into atomic replacements, backups, and how errors are
  attributed and stored.
\<close>

unbundle bit_operations_syntax

section \<open>Admission of a plan\<close>

definition kNoOperation :: u64 where
  "kNoOperation = - 1"

definition consumePlanTextBudget :: "string \<Rightarrow> ResourceLimits \<Rightarrow> nat \<Rightarrow> nat result" where
  "consumePlanTextBudget v limits consumedBytes =
     (if length v > maxStringBytes (limits_json limits)
      then fail EC_ResourceLimitExceeded ''Apply plan string exceeds its byte limit''
      else if consumedBytes > unat (maxApplyPlanBytes limits) \<or> length v > unat (maxApplyPlanBytes limits) - consumedBytes
      then fail EC_ResourceLimitExceeded ''Apply plan exceeds its byte limit''
      else Inr (consumedBytes + length v))"

fun consumeAll :: "string list \<Rightarrow> ResourceLimits \<Rightarrow> nat \<Rightarrow> nat result" where
  "consumeAll [] limits consumed = Inr consumed"
| "consumeAll (v # vs) limits consumed =
     bindr (consumePlanTextBudget v limits consumed) (\<lambda>consumed'. consumeAll vs limits consumed')"

definition preconditionInvalid :: "int \<Rightarrow> ResourceLimits \<Rightarrow> ApplyOperationPrecondition \<Rightarrow> bool" where
  "preconditionInvalid schemaVersion limits c \<longleftrightarrow>
     schemaVersion < 2
     \<or> (case pre_permissions c of Some bits \<Rightarrow> bits > 0x1FF | None \<Rightarrow> False)
     \<or> (pre_exists c \<and> (\<not> isLowerHexSha256 (pre_sha256 c) \<or> pre_size c > maxArtifactBytes limits))
     \<or> (\<not> pre_exists c \<and> (pre_size c \<noteq> 0 \<or> pre_sha256 c \<noteq> [] \<or> pre_permissions c \<noteq> None))"

definition preconditionBudget :: "int \<Rightarrow> ResourceLimits \<Rightarrow> ApplyOperationPrecondition option \<Rightarrow> nat \<Rightarrow> nat result" where
  "preconditionBudget schemaVersion limits precondition consumed =
     (case precondition of
        None \<Rightarrow> Inr consumed
      | Some c \<Rightarrow>
          if preconditionInvalid schemaVersion limits c
          then fail EC_ApplyFailed ''Apply operation precondition is invalid''
          else consumePlanTextBudget (pre_sha256 c) limits consumed)"

definition operationPermissionsInvalid :: "ApplyOperation \<Rightarrow> bool" where
  "operationPermissionsInvalid operation \<longleftrightarrow>
     (case op_permissions operation of
        None \<Rightarrow> False
      | Some bits \<Rightarrow> op_type operation \<noteq> Replace \<or> bits > 0x1FF)"

fun validateOperationResources :: "int \<Rightarrow> ResourceLimits \<Rightarrow> ApplyOperation list \<Rightarrow> nat \<Rightarrow> u64 \<Rightarrow> unit result" where
  "validateOperationResources schemaVersion limits [] consumed totalArtifactBytes = Inr ()"
| "validateOperationResources schemaVersion limits (operation # operations) consumed totalArtifactBytes =
     bindr (validateManagedTargetPath (op_target operation)) (\<lambda>_.
     bindr (if op_type operation = Replace then validateManagedPath (op_source operation) else Inr ()) (\<lambda>_.
     bindr (consumeAll [op_source operation, op_target operation, op_sha256 operation] limits consumed) (\<lambda>consumed1.
       if op_size operation > maxArtifactBytes limits
       then fail EC_ResourceLimitExceeded ''Apply operation exceeds the artifact byte limit''
       else if operationPermissionsInvalid operation
       then fail EC_ApplyFailed ''Apply operation permissions are invalid''
       else
         bindr (preconditionBudget schemaVersion limits (op_precondition operation) consumed1) (\<lambda>consumed2.
           if op_type operation = Replace
           then (if totalArtifactBytes > maxTotalArtifactBytes limits
                    \<or> op_size operation > maxTotalArtifactBytes limits - totalArtifactBytes
                 then fail EC_ResourceLimitExceeded ''Apply operations exceed the total artifact byte limit''
                 else validateOperationResources schemaVersion limits operations consumed2 (totalArtifactBytes + op_size operation))
           else validateOperationResources schemaVersion limits operations consumed2 totalArtifactBytes))))"

definition validatePlanShape :: "ApplyPlan \<Rightarrow> ResourceLimits \<Rightarrow> unit result" where
  "validatePlanShape plan limits =
     (if ap_schemaVersion plan \<noteq> 1 \<and> ap_schemaVersion plan \<noteq> 2
      then fail EC_UnsupportedManifestSchema ''Unsupported apply plan schemaVersion''
      else if ap_schemaVersion plan = 1 \<and> (ap_intent plan \<noteq> Install \<or> ap_rollbackOf plan \<noteq> None)
      then fail EC_ApplyFailed ''Apply plan schemaVersion 1 cannot contain transaction intent''
      else if length (ap_operations plan) > maxContainerEntries (limits_json limits)
              \<or> length (ap_restartCommand plan) > maxContainerEntries (limits_json limits)
      then fail EC_ResourceLimitExceeded ''Apply plan entry limit exceeded''
      else if ap_schemaVersion plan = 1
              \<and> list_ex (\<lambda>op. op_permissions op \<noteq> None \<or> op_precondition op \<noteq> None) (ap_operations plan)
      then fail EC_ApplyFailed ''Apply plan schemaVersion 1 contains schemaVersion 2 fields''
      else
        (case (ap_intent plan, ap_rollbackOf plan) of
           (Rollback, Some reference) \<Rightarrow>
             if ap_schemaVersion plan \<noteq> 2 \<or> \<not> isLowerHexSha256 (ref_transactionId reference)
                \<or> \<not> isLowerHexSha256 (ref_planDigest reference)
             then fail EC_ApplyFailed ''Rollback transaction reference is invalid''
             else Inr ()
         | (Rollback, None) \<Rightarrow> fail EC_ApplyFailed ''Rollback transaction reference is invalid''
         | (Install, Some _) \<Rightarrow> fail EC_ApplyFailed ''Install plans cannot contain rollbackOf''
         | (Install, None) \<Rightarrow> Inr ()))"

definition validateApplyPlanResources :: "(string \<Rightarrow> string) \<Rightarrow> ApplyPlan \<Rightarrow> ResourceLimits \<Rightarrow> unit result" where
  "validateApplyPlanResources fpText plan limits =
     bindr (validatePlanShape plan limits) (\<lambda>_.
     bindr (validateManagedTargetPaths (map op_target (ap_operations plan))) (\<lambda>_.
       if 1024 > unat (maxApplyPlanBytes limits)
       then fail EC_ResourceLimitExceeded ''Apply plan exceeds its byte limit''
       else
         bindr (consumeAll [ap_appId plan, ap_fromVersion plan, ap_toVersion plan, ap_releaseId plan, ap_manifestSha256 plan,
                  ap_installDir plan, ap_stagingDir plan, ap_backupDir plan] limits 1024) (\<lambda>consumed1.
         bindr (case ap_rollbackOf plan of
                  None \<Rightarrow> Inr consumed1
                | Some reference \<Rightarrow> consumeAll [ref_transactionId reference, ref_planDigest reference] limits consumed1) (\<lambda>consumed2.
         bindr (consumeAll (ap_restartCommand plan) limits consumed2) (\<lambda>consumed3.
         bindr (validateOperationResources (ap_schemaVersion plan) limits (ap_operations plan) consumed3 0) (\<lambda>_.
           (case plan_toJson fpText plan of
              None \<Rightarrow> fail EC_ApplyFailed ''Apply plan cannot be serialized as valid JSON''
            | Some canonicalJson \<Rightarrow> bindr (plan_parse canonicalJson limits) (\<lambda>_. Inr ()))))))))"

section \<open>Permissions\<close>

definition sanitizedFilePermissions :: "perms \<Rightarrow> perms" where
  "sanitizedFilePermissions p = p AND 0x1FF"

definition defaultInstalledFilePermissions :: perms where
  "defaultInstalledFilePermissions = 0x1A4"

definition permissionsKnown :: "perms \<Rightarrow> bool" where
  "permissionsKnown p \<longleftrightarrow> p \<noteq> perms_unknown"

definition permissionBits :: "perms \<Rightarrow> u32" where
  "permissionBits p = sanitizedFilePermissions p"

section \<open>Copying\<close>

partial_function (option) copyLoop :: "('w, 'd, 'f, 't) rooted_io \<Rightarrow> 'f \<Rightarrow> 'f \<Rightarrow> 'w \<Rightarrow> (unit result \<times> 'w) option" where
  "copyLoop io source destination w =
     (case io_read io source (64 * 1024) w of
        (Inl e, w1) \<Rightarrow> Some (Inl e, w1)
      | (Inr bytes, w1) \<Rightarrow>
          if bytes = [] then Some (Inr (), w1)
          else (case io_write io destination bytes w1 of
                  (Inl e, w2) \<Rightarrow> Some (Inl e, w2)
                | (Inr _, w2) \<Rightarrow> copyLoop io source destination w2))"

definition copyRootedFile :: "('w, 'd, 'f, 't) rooted_io \<Rightarrow> 'f \<Rightarrow> 'f \<Rightarrow> ('w, unit result) act" where
  "copyRootedFile io source destination =
     attempt (prim (io_seek io source 0)) (\<lambda>_.
     attempt (prim (io_truncate io destination 0)) (\<lambda>_.
     attempt (prim (io_seek io destination 0)) (\<lambda>_.
       copyLoop io source destination)))"

definition copyPermissions :: "('w, 'd, 'f, 't) rooted_io \<Rightarrow> 'f \<Rightarrow> 'f \<Rightarrow> ('w, unit result) act" where
  "copyPermissions io source destination = prim (io_copyPermissionsFrom io destination source)"

section \<open>Evidence\<close>

record ObservedFile =
  ob_exists :: bool
  ob_metadata :: RootedFileMetadata
  ob_sha256 :: string

definition absent_file :: ObservedFile where
  "absent_file = \<lparr>ob_exists = False, ob_metadata = \<lparr>md_size = 0, md_permissions = perms_unknown, md_identity = []\<rparr>, ob_sha256 = []\<rparr>"

definition observeFile :: "('w, 'd, 'f, 't) rooted_io \<Rightarrow> 'd \<Rightarrow> string \<Rightarrow> ('w, ObservedFile result) act" where
  "observeFile io root path =
     attempt (prim (io_openRegularFile io root path OM_ReadOnly DM_Private)) (\<lambda>opened.
     case opened of
       None \<Rightarrow> ret (Inr absent_file)
     | Some f \<Rightarrow>
         let failing = (\<lambda>e. bnd (closing io f ''; failed to close observed file: '' e) (\<lambda>e'. ret (Inl e')))
         in call (prim (io_metadata io f)) failing (\<lambda>metadata.
            call (prim (io_sha256Stream io f)) failing (\<lambda>hash.
            attempt (prim (io_close io f)) (\<lambda>_.
              ret (Inr \<lparr>ob_exists = True, ob_metadata = metadata, ob_sha256 = hash\<rparr>)))))"

definition verifyEvidence :: "('w, 'd, 'f, 't) rooted_io \<Rightarrow> 'f \<Rightarrow> u64 \<Rightarrow> string \<Rightarrow> string \<Rightarrow> ('w, unit result) act" where
  "verifyEvidence io f expectedSize expectedHash description =
     attempt (prim (io_metadata io f)) (\<lambda>metadata.
       if md_size metadata \<noteq> expectedSize then ret (fail EC_HashMismatch (description @ '' size mismatch''))
       else
         attempt (prim (io_sha256Stream io f)) (\<lambda>hash.
           if hash \<noteq> expectedHash then ret (fail EC_HashMismatch (description @ '' SHA-256 mismatch''))
           else ret (Inr ())))"

definition matchesEvidence :: "ObservedFile \<Rightarrow> u64 \<Rightarrow> string \<Rightarrow> bool" where
  "matchesEvidence f bytes hash \<longleftrightarrow> ob_exists f \<and> md_size (ob_metadata f) = bytes \<and> ob_sha256 f = hash"

definition permissionsMatch :: "ObservedFile \<Rightarrow> u32 option \<Rightarrow> bool" where
  "permissionsMatch f expected \<longleftrightarrow>
     (case expected of
        None \<Rightarrow> True
      | Some bits \<Rightarrow> permissionsKnown (md_permissions (ob_metadata f)) \<and> permissionBits (md_permissions (ob_metadata f)) = bits)"

definition matchesInstalled :: "ObservedFile \<Rightarrow> ApplyOperation \<Rightarrow> bool" where
  "matchesInstalled f operation \<longleftrightarrow>
     (if op_type operation = Remove then \<not> ob_exists f
      else matchesEvidence f (op_size operation) (op_sha256 operation) \<and> permissionsMatch f (op_permissions operation))"

definition matchesPrecondition :: "ObservedFile \<Rightarrow> ApplyOperationPrecondition \<Rightarrow> bool" where
  "matchesPrecondition f c \<longleftrightarrow>
     ob_exists f = pre_exists c
     \<and> (pre_exists c \<longrightarrow> matchesEvidence f (pre_size c) (pre_sha256 c) \<and> permissionsMatch f (pre_permissions c))"

definition matchesOriginal :: "ObservedFile \<Rightarrow> ApplyJournalOperation \<Rightarrow> bool" where
  "matchesOriginal f r \<longleftrightarrow>
     (if \<not> jo_originalExists r then \<not> ob_exists f
      else matchesEvidence f (jo_originalSize r) (jo_originalSha256 r)
        \<and> (\<not> jo_originalPermissionsKnown r \<or> permissionBits (md_permissions (ob_metadata f)) = jo_originalPermissions r))"

definition verifyOriginalEvidence :: "('w, 'd, 'f, 't) rooted_io \<Rightarrow> 'f \<Rightarrow> ApplyJournalOperation \<Rightarrow> string \<Rightarrow> ('w, unit result) act" where
  "verifyOriginalEvidence io f r description =
     attempt (verifyEvidence io f (jo_originalSize r) (jo_originalSha256 r) description) (\<lambda>_.
       if jo_originalPermissionsKnown r
       then
         attempt (prim (io_metadata io f)) (\<lambda>metadata.
           if \<not> permissionsKnown (md_permissions metadata) \<or> permissionBits (md_permissions metadata) \<noteq> jo_originalPermissions r
           then ret (fail EC_SecurityPolicyViolation (description @ '' permissions mismatch''))
           else ret (Inr ()))
       else ret (Inr ()))"

section \<open>Stored and combined errors\<close>

definition toJournalError :: "Error \<Rightarrow> JournalError" where
  "toJournalError error = \<lparr>je_code = toString_ErrorCode (err_code error), je_message = formatDiagnostic error\<rparr>"

definition knownCodes :: "ErrorCode list" where
  "knownCodes = [EC_InvalidConfig, EC_NetworkError, EC_ManifestDownloadFailed, EC_UnsupportedManifestSchema, EC_ManifestParseFailed,
     EC_ManifestSignatureInvalid, EC_VersionParseFailed, EC_ReinstallRequired, EC_FileSystemError, EC_PathTraversalRejected,
     EC_HashMismatch, EC_DownloadFailed, EC_Cancelled, EC_ApplyLaunchFailed, EC_ApplyFailed, EC_StateStoreError,
     EC_SecurityPolicyViolation, EC_UnsupportedInstallLayout, EC_InternalError, EC_ResourceLimitExceeded]"

definition safeJournalErrorCode :: "string \<Rightarrow> ErrorCode \<Rightarrow> ErrorCode" where
  "safeJournalErrorCode v fallback =
     (case find (\<lambda>code. v = toString_ErrorCode code) knownCodes of Some code \<Rightarrow> code | None \<Rightarrow> fallback)"

definition normalizeJournalError :: "JournalError \<Rightarrow> ErrorCode \<Rightarrow> ErrorPhase \<Rightarrow> JournalError" where
  "normalizeJournalError stored fallback phase =
     (if journalError_empty stored then no_journal_error
      else toJournalError \<lparr>err_code = safeJournalErrorCode (je_code stored) fallback, err_message = [], err_phase = phase\<rparr>)"

definition normalizeSummaryErrors :: "ErrorPhase \<Rightarrow> ApplyJournalSummary \<Rightarrow> ApplyJournalSummary" where
  "normalizeSummaryErrors phase s =
     s\<lparr>js_applyError := normalizeJournalError (js_applyError s) EC_ApplyFailed phase,
       js_rollbackError := normalizeJournalError (js_rollbackError s) EC_ApplyFailed EP_Rollback,
       js_restartError := normalizeJournalError (js_restartError s) EC_ApplyLaunchFailed EP_Restart\<rparr>"

fun phasePriority :: "ErrorPhase \<Rightarrow> nat" where
  "phasePriority EP_General = 0"
| "phasePriority EP_Apply = 1"
| "phasePriority EP_Recovery = 2"
| "phasePriority EP_Rollback = 3"
| "phasePriority EP_Restart = 3"
| "phasePriority EP_StatePersistence = 4"

definition combinedError :: "Error \<Rightarrow> string \<Rightarrow> Error \<Rightarrow> Error" where
  "combinedError primary description secondary =
     withErrorPhase (mk_error EC_ApplyFailed (err_message primary @ ''; '' @ description @ '': '' @ err_message secondary))
       (if phasePriority (err_phase secondary) > phasePriority (err_phase primary) then err_phase secondary else err_phase primary)"

definition withFallbackPhase :: "'a result \<Rightarrow> ErrorPhase \<Rightarrow> 'a result" where
  "withFallbackPhase r phase = (case r of Inl e \<Rightarrow> Inl (withFallbackErrorPhase e phase) | Inr x \<Rightarrow> Inr x)"

definition withPhase :: "'a result \<Rightarrow> ErrorPhase \<Rightarrow> 'a result" where
  "withPhase r phase = (case r of Inl e \<Rightarrow> Inl (withErrorPhase e phase) | Inr x \<Rightarrow> Inr x)"

definition preservePublicationFailure :: "Error option \<Rightarrow> string \<Rightarrow> Error \<Rightarrow> Error" where
  "preservePublicationFailure publicationFailure description secondary =
     (case publicationFailure of
        None \<Rightarrow> secondary
      | Some primary \<Rightarrow> note_also primary (''; '' @ description @ '': '' @ err_message secondary))"

section \<open>Atomic replacements\<close>

text \<open>\<open>reconciling\<close>: the caller passes \<open>reconciledFailure\<close>; its value afterwards is the second component.\<close>

definition finishTemporary :: "('w, 'd, 'f, 't) rooted_io \<Rightarrow> 't \<Rightarrow> unit result \<Rightarrow> string \<Rightarrow> bool \<Rightarrow> ('w, unit result \<times> Error option) act" where
  "finishTemporary io temporary operation description reconciling =
     bnd (prim (io_discard io temporary)) (\<lambda>discarded.
     bnd (\<lambda>w. Some (io_publishStatus io temporary w, w)) (\<lambda>publication.
       ret (case operation of
              Inr _ \<Rightarrow> (discarded, None)
            | Inl error \<Rightarrow>
                (case discarded of
                   Inl e \<Rightarrow> (Inl (note_also error (''; '' @ description @ '': '' @ err_message e)), None)
                 | Inr _ \<Rightarrow>
                     if reconciling \<and> ps_publication publication \<noteq> NotPublished \<and> ps_namespaceDurable publication
                        \<and> ps_failureCanBeReconciled publication
                     then (Inr (), Some error)
                     else (Inl error, None)))))"

definition abandon :: "('w, 'd, 'f, 't) rooted_io \<Rightarrow> 't \<Rightarrow> string \<Rightarrow> Error \<Rightarrow> ('w, unit result) act" where
  "abandon io temporary description error =
     bnd (finishTemporary io temporary (Inl error) description False) (\<lambda>(finished, _). ret finished)"

definition copyToReplacement :: "('w, 'd, 'f, 't) rooted_io \<Rightarrow> 'd \<Rightarrow> string \<Rightarrow> RootedDirectoryCreationMode \<Rightarrow> 'f \<Rightarrow> RootedEntryExpectation
    \<Rightarrow> u64 \<Rightarrow> string \<Rightarrow> ('w, unit result) act" where
  "copyToReplacement io targetRoot target directoryMode source expectation expectedSize expectedHash =
     attempt (prim (io_createAtomicReplacement io targetRoot target directoryMode)) (\<lambda>temporary.
     call (copyRootedFile io source (io_file io temporary)) (abandon io temporary ''failed to discard incomplete replacement'') (\<lambda>_.
     call (copyPermissions io source (io_file io temporary))
       (abandon io temporary ''failed to discard replacement after permission error'') (\<lambda>_.
     call (verifyEvidence io (io_file io temporary) expectedSize expectedHash ''Prepared rooted replacement'')
       (abandon io temporary ''failed to discard unverified replacement'') (\<lambda>_.
     call (prim (io_metadata io (io_file io temporary)))
       (abandon io temporary ''failed to discard replacement after metadata error'') (\<lambda>preparedMetadata.
     bnd (prim (io_commit io temporary expectation)) (\<lambda>committed.
     bnd (finishTemporary io temporary committed ''failed to finish replacement cleanup'' True) (\<lambda>(finished, publicationFailure).
     attempt (liftr finished) (\<lambda>_.
     call (observeFile io targetRoot target)
       (\<lambda>e. ret (Inl (preservePublicationFailure publicationFailure ''failed to reconcile rooted replacement publication'' e)))
       (\<lambda>installed.
         if \<not> matchesEvidence installed expectedSize expectedHash
            \<or> md_identity (ob_metadata installed) \<noteq> md_identity preparedMetadata
         then ret (Inl (preservePublicationFailure publicationFailure ''failed to reconcile rooted replacement publication''
                (mk_error EC_SecurityPolicyViolation ''Published rooted replacement identity or contents changed'')))
         else ret (Inr ()))))))))))"

text \<open>An existing backup is used only when it is the journaled original.\<close>

definition reuseBackup :: "('w, 'd, 'f, 't) rooted_io \<Rightarrow> 'f \<Rightarrow> ApplyJournalOperation \<Rightarrow> ('w, unit result) act" where
  "reuseBackup io f r =
     call (verifyOriginalEvidence io f r ''Existing rollback backup'')
       (\<lambda>e. bnd (closing io f ''; failed to close existing rollback backup: ''
                   (e\<lparr>err_message := ''Existing rollback backup is not trustworthy: '' @ err_message e\<rparr>)) (\<lambda>e'. ret (Inl e')))
       (\<lambda>_. prim (io_close io f))"

text \<open>The published backup is opened again and verified, object and contents.\<close>

definition confirmBackup :: "('w, 'd, 'f, 't) rooted_io \<Rightarrow> 'd \<Rightarrow> string \<Rightarrow> ApplyJournalOperation \<Rightarrow> string \<Rightarrow> Error option
    \<Rightarrow> ('w, unit result) act" where
  "confirmBackup io backupRoot target r preparedIdentity publicationFailure =
     (let preserve = preservePublicationFailure publicationFailure ''failed to reconcile rollback backup publication'';
          closed_with = (\<lambda>f e. bnd (closing io f ''; failed to close committed rollback backup: '' e) (\<lambda>e'. ret (Inl (preserve e'))))
      in call (prim (io_openRegularFile io backupRoot target OM_ReadOnly DM_Private)) (\<lambda>e. ret (Inl (preserve e))) (\<lambda>durable.
         case durable of
           None \<Rightarrow> ret (Inl (preserve (mk_error EC_ApplyFailed ''Rollback backup disappeared after commit'')))
         | Some f \<Rightarrow>
             call (prim (io_metadata io f)) (closed_with f) (\<lambda>durableMetadata.
               if md_identity durableMetadata \<noteq> preparedIdentity
               then closed_with f (mk_error EC_SecurityPolicyViolation ''Committed rollback backup identity changed'')
               else
                 call (verifyOriginalEvidence io f r ''Committed rollback backup'') (closed_with f) (\<lambda>_.
                 call (prim (io_close io f)) (\<lambda>e. ret (Inl (preserve e))) (\<lambda>_. ret (Inr ()))))))"

definition ensureBackup :: "('w, 'd, 'f, 't) rooted_io \<Rightarrow> 'd \<Rightarrow> string \<Rightarrow> 'f \<Rightarrow> ApplyJournalOperation \<Rightarrow> ('w, unit result) act" where
  "ensureBackup io backupRoot target source r =
     attempt (prim (io_openRegularFile io backupRoot target OM_ReadOnly DM_Private)) (\<lambda>existing.
     case existing of
       Some f \<Rightarrow> reuseBackup io f r
     | None \<Rightarrow>
         attempt (prim (io_createAtomicReplacement io backupRoot target DM_Private)) (\<lambda>temporary.
         call (copyRootedFile io source (io_file io temporary)) (abandon io temporary ''failed to discard incomplete backup'') (\<lambda>_.
         call (copyPermissions io source (io_file io temporary))
           (abandon io temporary ''failed to discard backup after permission error'') (\<lambda>_.
         call (verifyOriginalEvidence io (io_file io temporary) r ''Prepared rollback backup'')
           (abandon io temporary ''failed to discard unverified backup'') (\<lambda>_.
         call (prim (io_metadata io (io_file io temporary)))
           (abandon io temporary ''failed to discard backup after metadata error'') (\<lambda>preparedMetadata.
         bnd (prim (io_commit io temporary ExpectMissing)) (\<lambda>committed.
         bnd (finishTemporary io temporary committed ''failed to finish backup cleanup'' True) (\<lambda>(finished, publicationFailure).
         attempt (liftr finished) (\<lambda>_.
           confirmBackup io backupRoot target r (md_identity preparedMetadata) publicationFailure)))))))))"

section \<open>Restart\<close>

definition hasReplaceOperation :: "ApplyPlan \<Rightarrow> bool" where
  "hasReplaceOperation plan \<longleftrightarrow> list_ex (\<lambda>operation. op_type operation = Replace) (ap_operations plan)"

definition launchRestart :: "('w, 'd, 'f, 't) rooted_io \<Rightarrow> ApplyPlan \<Rightarrow> ('w, unit result) act" where
  "launchRestart io plan =
     (case ap_restartCommand plan of
        [] \<Rightarrow> ret (Inr ())
      | executable # arguments \<Rightarrow>
          prim (io_launch io \<lparr>lr_executable = executable, lr_arguments = arguments, lr_workingDirectory = ap_installDir plan,
            lr_detached = True\<rparr>))"

end
