(* ===== verification/Journal_Facts.thy ===== *)
theory Journal_Facts
  imports Journal_Records Network_Limits
begin

unbundle bit_operations_syntax

text \<open>
  The journal's records survive their files: what is written and read back is the record that was
  written. Everything the journal store accepts passes the same validation as what it writes.
\<close>

section \<open>Printed values are long enough for their strings\<close>

lemma jsonEscape_length: "jsonEscape s = Some e \<Longrightarrow> length s \<le> length e \<and> isValidUtf8 s"
proof -
  have "length s \<le> length (concat (map escapeByte s))"
    by (induction s) (auto simp: escapeByte_def)
  then show "jsonEscape s = Some e \<Longrightarrow> ?thesis" by (auto simp: jsonEscape_def split: if_splits)
qed

lemma stringify_string: "stringifyInto fp i d (JString s) = Some t \<Longrightarrow> length s \<le> length t \<and> isValidUtf8 s"
  using jsonEscape_length by fastforce

lemma stringifyMembers_member:
  "stringifyMembers fp i d m = Some t \<Longrightarrow> (k, v) \<in> set m \<Longrightarrow> \<exists>e. stringifyInto fp i d v = Some e \<and> length e \<le> length t"
proof (induction m arbitrary: t)
  case (Cons kv m)
  obtain k' v' where kv: "kv = (k', v')" by (cases kv)
  from Cons.prems(1) obtain key e es where e: "jsonEscape k' = Some key" "stringifyInto fp i d v' = Some e"
    "stringifyMembers fp i d m = Some es" "length e \<le> length t" "length es \<le> length t"
    unfolding kv by (auto simp: bind_eq_Some_conv simp del: stringifyInto.simps)
  show ?case
  proof (cases "(k, v) = kv")
    case True
    then show ?thesis using e kv by simp
  next
    case False
    then obtain e' where "stringifyInto fp i d v = Some e'" "length e' \<le> length es"
      using Cons.IH [OF e(3)] Cons.prems(2) by auto
    then show ?thesis using e(5) le_trans by blast
  qed
qed simp

lemma stringify_member:
  assumes "stringifyInto fp i d (JObject m) = Some t" "(k, v) \<in> set m"
  shows "\<exists>d' e. stringifyInto fp i d' v = Some e \<and> length e \<le> length t"
proof -
  obtain es where "stringifyMembers fp i (if i > 0 then d + i else d) m = Some es" "length es \<le> length t"
    using assms(1) by auto
  then show ?thesis using stringifyMembers_member [OF _ assms(2)] le_trans by meson
qed

lemma stringify_string_member:
  "stringifyInto fp i d (JObject m) = Some t \<Longrightarrow> (k, JString s) \<in> set m \<Longrightarrow> length s \<le> length t \<and> isValidUtf8 s"
  using stringify_member [of fp i d m t k "JString s"] stringify_string le_trans by meson

definition printed_string :: "nat \<Rightarrow> Json \<Rightarrow> bool" where
  "printed_string n v \<longleftrightarrow> (case v of JString s \<Rightarrow> length s \<le> n \<and> isValidUtf8 s | _ \<Rightarrow> True)"

lemma stringify_strings:
  assumes "stringifyInto fp i d (JObject m) = Some t" "length t \<le> n"
  shows "list_all (\<lambda>kv. printed_string n (snd kv)) m"
  unfolding list_all_iff
proof
  fix kv assume kv: "kv \<in> set m"
  show "printed_string n (snd kv)"
  proof (cases "snd kv")
    case (JString s)
    with kv have "(fst kv, JString s) \<in> set m" by (metis prod.collapse)
    with assms(2) stringify_string_member [OF assms(1)] JString show ?thesis by (fastforce simp: printed_string_def)
  qed (simp_all add: printed_string_def)
qed

definition printed_error :: "nat \<Rightarrow> JournalError \<Rightarrow> bool" where
  "printed_error n e \<longleftrightarrow> length (je_code e) \<le> n \<and> isValidUtf8 (je_code e) \<and> length (je_message e) \<le> n \<and> isValidUtf8 (je_message e)"

lemma stringify_error_member:
  assumes "stringifyInto fp i d (JObject m) = Some t" "(k, errorToJson e) \<in> set m"
  shows "printed_error (length t) e"
proof -
  obtain d' t' where t': "stringifyInto fp i d' (errorToJson e) = Some t'" "length t' \<le> length t"
    using stringify_member [OF assms] by blast
  have "length s \<le> length t \<and> isValidUtf8 s" if "s \<in> {je_code e, je_message e}" for s
    using stringify_string_member [OF t'(1) [unfolded errorToJson_def], of _ s] t'(2) that
    by (force simp del: stringifyInto.simps)
  then show ?thesis by (simp add: printed_error_def)
qed

section \<open>Fields\<close>

lemma journalError_not_ok [simp]: "journalError m \<noteq> Inr x" "bindr (journalError m) f = journalError m"
  by (simp_all add: journalError_def fail_def bindr_def)

lemma decimalLoop_contentLength: "decimalLoop key v s = Inr n \<longleftrightarrow> contentLengthLoop EC_None v s = Inr n"
  by (induction s arbitrary: v) (auto simp: Let_def fail_def)

lemma decimalLoop_iff:
  "decimalLoop key 0 s = Inr n \<longleftrightarrow> list_all isAsciiDigit s \<and> digits_val s < 2 ^ 64 \<and> unat n = digits_val s"
  by (simp add: decimalLoop_contentLength contentLengthLoop_iff)

lemma decimalLoop_text: "decimalLoop key 0 (decimal_text (unat (n :: u64))) = Inr n"
  using unsigned_less [of n, where ?'a = nat] by (simp add: decimalLoop_iff decimal_text_digits)

lemma decimal_text_one: "length (decimal_text n) > 1 \<Longrightarrow> hd (decimal_text n) \<noteq> CHR ''0''"
  using decimal_text_hd [of n] by (cases "n = 0") (simp_all add: decimal_text.simps)

lemma parseDecimal_text:
  "journalString v k = Inr (decimal_text (unat (n :: u64))) \<Longrightarrow> parseDecimal v k = Inr n"
  using decimal_text_one [of "unat n"] by (auto simp: parseDecimal_def decimalLoop_text)

text \<open>A 32-bit value written in decimal and read as a 64-bit value.\<close>

lemma widen32: "unat (ucast (n :: u32) :: u64) = unat n" "ucast (ucast (n :: u32) :: u64) = n"
proof -
  have "take_bit 64 (unat n) = unat n"
    using unsigned_less [of n, where ?'a = nat] by (simp add: take_bit_nat_eq_self_iff)
  then show "unat (ucast n :: u64) = unat n" by (simp add: unsigned_ucast_eq)
  show "ucast (ucast n :: u64) = n" by transfer simp
qed

lemma widen32_bound: "\<not> (ucast (n :: u32) :: u64) > 0xFFFFFFFF"
  using unsigned_less [of n, where ?'a = nat] by (simp add: word_less_nat_alt widen32)

text \<open>A decimal field that is read back in 64 bits.\<close>

lemma parseDecimal_text32:
  "journalString v k = Inr (decimal_text (unat (n :: u32))) \<Longrightarrow> parseDecimal v k = Inr (ucast n)"
  using parseDecimal_text [of v k "ucast n"] by (simp add: widen32)

lemma journalString_settle [simp]: "journalString (settle v) k = journalString v k"
  by (simp add: journalString_def json_get_settle split: option.split)

lemma parseDecimal_settle [simp]: "parseDecimal (settle v) k = parseDecimal v k"
  by (simp add: parseDecimal_def)

lemma requiredBool_settle [simp]: "requiredBool (settle v) k = requiredBool v k"
  by (simp add: requiredBool_def json_get_settle split: option.split)

lemma journalOnlyKeys_ok: "journalOnlyKeys m allowed description = Inr () \<longleftrightarrow> fst ` set m \<subseteq> set allowed"
  by (induction m) (auto split: if_splits)

lemma asObject_settle: "asObject (settle v) = map (\<lambda>kv. (fst kv, settle (snd kv))) (asObject v)"
  by (cases v) (simp_all add: asObject_def split_def)

lemma journalOnlyKeys_settle [simp]:
  "journalOnlyKeys (asObject (settle v)) allowed description = journalOnlyKeys (asObject v) allowed description"
proof -
  have "journalOnlyKeys (map (\<lambda>kv. (fst kv, settle (snd kv))) m) allowed description = journalOnlyKeys m allowed description" for m
    by (induction m) auto
  then show ?thesis by (simp add: asObject_settle)
qed

lemma errorFromJson_settle [simp]: "errorFromJson (settle v) k = errorFromJson v k"
  by (simp add: errorFromJson_def json_get_settle split: option.split)

lemma readCompletedAt_settle [simp]: "readCompletedAt (settle v) k = readCompletedAt v k"
  by (simp add: readCompletedAt_def json_get_settle split: option.split)

lemma errorFromJson_text:
  assumes "json_get v k = Some (errorToJson e)" "\<not> errorIncomplete e"
  shows "errorFromJson v k = Inr e"
  using assms by (cases e) (simp add: errorFromJson_def errorToJson_def isObject_def asObject_def journalString_def
      isString_def asString_def errorIncomplete_def)

lemma state_names [simp]:
  "fileStateFromName (journalFileStateName fs) = Inr fs" "restartStateFromName (journalRestartStateName rs) = Inr rs"
  "backupStateFromName (journalBackupStateName bs) = Inr bs" "applyStateFromName (journalApplyStateName as) = Inr as"
  "rollbackStateFromName (journalRollbackStateName rb) = Inr rb"
  by ((cases fs; simp add: fileStateFromName_def), (cases rs; simp add: restartStateFromName_def),
    (cases bs; simp add: backupStateFromName_def), (cases as; simp add: applyStateFromName_def),
    (cases rb; simp add: rollbackStateFromName_def))

section \<open>Operation records\<close>

text \<open>A record as it is stored: the schema version it was created with is not written.\<close>

definition stored_operation :: "ApplyJournalOperation \<Rightarrow> ApplyJournalOperation" where
  "stored_operation r = r\<lparr>jo_schemaVersion := kOperationSchemaVersion\<rparr>"

lemmas field_simps = journalString_def requiredBool_def isString_def asString_def isBool_def asBool_def

lemma journalOperationJson_members:
  "journalOperationJson r = JObject
     [(''applyState'', JString (journalApplyStateName (jo_applyState r))),
      (''backupState'', JString (journalBackupStateName (jo_backupState r))),
      (''error'', errorToJson (jo_error r)),
      (''index'', JString (decimal_text (unat (jo_index r)))),
      (''installedIdentity'', JString (jo_installedIdentity r)),
      (''intent'', JString (jo_intent r)),
      (''operationId'', JString (jo_operationId r)),
      (''originalExists'', JBool (jo_originalExists r)),
      (''originalIdentity'', JString (jo_originalIdentity r)),
      (''originalPermissions'', JString (decimal_text (unat (jo_originalPermissions r)))),
      (''originalPermissionsKnown'', JBool (jo_originalPermissionsKnown r)),
      (''originalSha256'', JString (jo_originalSha256 r)),
      (''originalSize'', JString (decimal_text (unat (jo_originalSize r)))),
      (''rollbackState'', JString (journalRollbackStateName (jo_rollbackState r))),
      (''schemaVersion'', JUInt (of_nat kOperationSchemaVersion)),
      (''transactionId'', JString (jo_transactionId r))]"
  by (simp add: journalOperationJson_def)

lemma validateOperationRecord_iff:
  "validateOperationRecord r = Inr () \<longleftrightarrow>
     isLowerHexSha256 (jo_transactionId r) \<and> isLowerHexSha256 (jo_operationId r) \<and> jo_intent r \<in> {''replace'', ''remove''}
     \<and> (jo_originalExists r \<longrightarrow> jo_originalIdentity r \<noteq> [] \<and> isLowerHexSha256 (jo_originalSha256 r)
          \<and> (jo_originalPermissionsKnown r \<or> jo_originalPermissions r = 0) \<and> jo_originalPermissions r AND NOT 0x1FF = 0)
     \<and> (\<not> jo_originalExists r \<longrightarrow> jo_originalIdentity r = [] \<and> jo_originalSize r = 0 \<and> jo_originalSha256 r = []
          \<and> \<not> jo_originalPermissionsKnown r \<and> jo_originalPermissions r = 0)
     \<and> \<not> errorIncomplete (jo_error r)"
  unfolding validateOperationRecord_def by (cases "jo_originalExists r") (auto split: if_splits)

lemma validateOperationRecord_stored: "validateOperationRecord r = Inr () \<Longrightarrow> validateOperationRecord (stored_operation r) = Inr ()"
  by (simp add: stored_operation_def validateOperationRecord_iff)

lemma journalOperationJson_read:
  assumes "validateOperationRecord r = Inr ()"
  shows "readOperationRecord (settle (journalOperationJson r)) = Inr (stored_operation r)"
proof -
  let ?j = "journalOperationJson r"
  have "journalOnlyKeys (asObject ?j) journalOperationKeys description = Inr ()" for description
    by (simp add: journalOperationJson_members asObject_def journalOperationKeys_def)
  moreover have "parseDecimal ?j ''index'' = Inr (jo_index r)" "parseDecimal ?j ''originalSize'' = Inr (jo_originalSize r)"
    "parseDecimal ?j ''originalPermissions'' = Inr (ucast (jo_originalPermissions r))"
    by (rule parseDecimal_text parseDecimal_text32, simp add: journalOperationJson_members field_simps)+
  moreover have "errorFromJson ?j ''error'' = Inr (jo_error r)"
    using assms by (intro errorFromJson_text) (simp_all add: journalOperationJson_members validateOperationRecord_iff)
  moreover have "journalString ?j ''transactionId'' = Inr (jo_transactionId r)" "journalString ?j ''operationId'' = Inr (jo_operationId r)"
    "journalString ?j ''intent'' = Inr (jo_intent r)" "requiredBool ?j ''originalExists'' = Inr (jo_originalExists r)"
    "journalString ?j ''originalIdentity'' = Inr (jo_originalIdentity r)" "journalString ?j ''originalSha256'' = Inr (jo_originalSha256 r)"
    "requiredBool ?j ''originalPermissionsKnown'' = Inr (jo_originalPermissionsKnown r)"
    "journalString ?j ''backupState'' = Inr (journalBackupStateName (jo_backupState r))"
    "journalString ?j ''applyState'' = Inr (journalApplyStateName (jo_applyState r))"
    "journalString ?j ''installedIdentity'' = Inr (jo_installedIdentity r)"
    "journalString ?j ''rollbackState'' = Inr (journalRollbackStateName (jo_rollbackState r))"
    by (simp_all add: journalOperationJson_members field_simps)
  moreover have "stored_operation r = default_journal_operation\<lparr>jo_transactionId := jo_transactionId r, jo_index := jo_index r,
     jo_operationId := jo_operationId r, jo_intent := jo_intent r, jo_originalExists := jo_originalExists r,
     jo_originalIdentity := jo_originalIdentity r, jo_originalSize := jo_originalSize r, jo_originalSha256 := jo_originalSha256 r,
     jo_originalPermissionsKnown := jo_originalPermissionsKnown r,
     jo_originalPermissions := ucast (ucast (jo_originalPermissions r) :: u64),
     jo_backupState := jo_backupState r, jo_applyState := jo_applyState r, jo_installedIdentity := jo_installedIdentity r,
     jo_rollbackState := jo_rollbackState r, jo_error := jo_error r\<rparr>"
    by (cases r) (simp add: stored_operation_def default_journal_operation_def kOperationSchemaVersion_def widen32)
  ultimately show ?thesis using validateOperationRecord_stored [OF assms] widen32_bound [of "jo_originalPermissions r"]
    by (simp only: readOperationRecord_def journalString_settle parseDecimal_settle requiredBool_settle journalOnlyKeys_settle
      errorFromJson_settle bindr_simps state_names Let_def if_False)
qed

lemma journal_validate:
  assumes "stringify fp 2 json = Some t" "storable json" "validateResourceUsage fp json journalJsonLimits = Inr ()"
    "length t \<le> kMaxJournalRecordBytes" "isObject json" "json_get json ''schemaVersion'' = Some (JUInt (of_nat n))"
    "n \<in> set supported" "n \<in> {2, 3}"
  shows "journalObject t description supported = Inr (settle json)"
proof -
  have "json_parse t journalJsonLimits = Some (Inr (settle json))"
    using print_parse_settle [where fp = fp and indent = 2, OF assms(2, 3)] assms(1) by auto
  then show ?thesis
    using assms(4-) by (auto simp: journalObject_def json_result_def json_get_settle isUnsignedInteger_def asUInt64_def)
qed

lemma journalOperationJson_valid:
  assumes "stringifyInto fp i d (journalOperationJson r) = Some t" "length t \<le> kMaxJournalRecordBytes"
  shows "storable (journalOperationJson r)" "validateResourceUsage fp (journalOperationJson r) journalJsonLimits = Inr ()"
proof -
  note strings = stringify_strings [OF assms(1) [unfolded journalOperationJson_members] assms(2)]
  have "printed_error kMaxJournalRecordBytes (jo_error r)"
    using stringify_error_member [OF assms(1) [unfolded journalOperationJson_members], of "''error''" "jo_error r"] assms(2)
    by (auto simp: printed_error_def)
  with strings show "validateResourceUsage fp (journalOperationJson r) journalJsonLimits = Inr ()"
    by (simp add: journalOperationJson_members errorToJson_def printed_error_def printed_string_def validateResourceUsage_def journalJsonLimits_def
      limitsExceedSafetyCeiling_def numberText_def integerText_def decimalText_def decimal_text.simps kOperationSchemaVersion_def
      kMaxJournalRecordBytes_def absolute_json_limits_def)
  show "storable (journalOperationJson r)"
    by (simp add: journalOperationJson_members errorToJson_def)
qed

lemma operation_print_parse:
  assumes "serializeApplyJournalOperation fp r = Inr t" "length t \<le> kMaxJournalRecordBytes"
  shows "parseApplyJournalOperation t = Inr (stored_operation r)"
proof -
  have valid: "validateOperationRecord r = Inr ()" and t: "stringify fp 2 (journalOperationJson r) = Some t"
    using assms(1) by (auto simp: serializeApplyJournalOperation_def journalText_def split: option.splits)
  have "journalObject t ''apply journal operation'' [kOperationSchemaVersion] = Inr (settle (journalOperationJson r))"
    by (rule journal_validate [where n = kOperationSchemaVersion, OF t _ _ assms(2)])
      (use journalOperationJson_valid [OF t [unfolded stringify_def] assms(2)] in
        \<open>simp_all add: journalOperationJson_members isObject_def kOperationSchemaVersion_def\<close>)
  then show ?thesis by (simp add: parseApplyJournalOperation_def journalOperationJson_read [OF valid])
qed

section \<open>Summaries\<close>

text \<open>The schema version of a summary follows from its completion instant.\<close>

definition stored_summary :: "ApplyJournalSummary \<Rightarrow> ApplyJournalSummary" where
  "stored_summary s = s\<lparr>js_schemaVersion := if js_completedAt s = None then kLegacySummarySchemaVersion else kSummarySchemaVersion\<rparr>"

lemma validateSummaryRecord_iff:
  "validateSummaryRecord s legacy = Inr () \<longleftrightarrow>
     isLowerHexSha256 (js_transactionId s) \<and> isLowerHexSha256 (js_planDigest s)
     \<and> \<not> errorIncomplete (js_applyError s) \<and> \<not> errorIncomplete (js_rollbackError s) \<and> \<not> errorIncomplete (js_restartError s)
     \<and> (case js_completedAt s of
           Some instant \<Rightarrow> js_fileState s = FS_Complete \<and> is_ok (formatApplyCompletionTimestamp instant)
         | None \<Rightarrow> js_fileState s \<noteq> FS_Complete \<or> legacy)"
  by (auto simp: validateSummaryRecord_def validateTransaction_def split: if_splits option.splits)

definition summary_members :: "ApplyJournalSummary \<Rightarrow> (string \<times> Json) list \<Rightarrow> nat \<Rightarrow> (string \<times> Json) list" where
  "summary_members s completion schema =
     (''applyError'', errorToJson (js_applyError s)) # completion @
     [(''fileState'', JString (journalFileStateName (js_fileState s))),
      (''operationCount'', JString (decimal_text (unat (js_operationCount s)))),
      (''planDigest'', JString (js_planDigest s)),
      (''restartError'', errorToJson (js_restartError s)),
      (''restartState'', JString (journalRestartStateName (js_restartState s))),
      (''rollbackError'', errorToJson (js_rollbackError s)),
      (''schemaVersion'', JUInt (of_nat schema)),
      (''transactionId'', JString (js_transactionId s))]"

lemma summaryJson_members:
  assumes "summaryJson s = Inr json"
  obtains (without) "js_completedAt s = None" "json = JObject (summary_members s [] kLegacySummarySchemaVersion)"
  | (with_completion) instant c where "js_completedAt s = Some instant" "formatApplyCompletionTimestamp instant = Inr c"
      "json = JObject (summary_members s [(''completedAt'', JString c)] kSummarySchemaVersion)"
proof (cases "js_completedAt s")
  case None
  with assms that(1) show thesis by (simp add: summaryJson_def addCompletion_def summary_members_def)
next
  case (Some instant)
  then obtain c where "formatApplyCompletionTimestamp instant = Inr c"
    using assms by (auto simp: summaryJson_def addCompletion_def)
  with Some assms that(2) show thesis by (simp add: summaryJson_def addCompletion_def summary_members_def)
qed

lemma schema_text: "n \<in> {2, 3} \<Longrightarrow> length (numberText fp (JUInt (of_nat n))) = 1"
  by (elim insertE emptyE; hypsubst; simp add: numberText_def integerText_def decimalText_def decimal_text.simps)

definition completion_member :: "(string \<times> Json) list \<Rightarrow> bool" where
  "completion_member cm \<longleftrightarrow> cm = [] \<or> (\<exists>c. cm = [(''completedAt'', JString c)])"

lemma summary_members_valid:
  assumes "stringifyInto fp i d (JObject (summary_members s cm n)) = Some t" "length t \<le> kMaxJournalRecordBytes"
    "completion_member cm" "n \<in> {2, 3}"
  shows "storable (JObject (summary_members s cm n))"
    "validateResourceUsage fp (JObject (summary_members s cm n)) journalJsonLimits = Inr ()"
proof -
  note strings = stringify_strings [OF assms(1, 2)]
  have "printed_error kMaxJournalRecordBytes (js_applyError s)" "printed_error kMaxJournalRecordBytes (js_rollbackError s)"
    "printed_error kMaxJournalRecordBytes (js_restartError s)"
    using stringify_error_member [OF assms(1), of "''applyError''" "js_applyError s"]
      stringify_error_member [OF assms(1), of "''rollbackError''" "js_rollbackError s"]
      stringify_error_member [OF assms(1), of "''restartError''" "js_restartError s"] assms(2)
    by (auto simp: printed_error_def summary_members_def)
  with strings assms(3, 4) show "validateResourceUsage fp (JObject (summary_members s cm n)) journalJsonLimits = Inr ()"
    unfolding completion_member_def
    by (elim disjE exE; simp add: summary_members_def errorToJson_def printed_error_def printed_string_def
      validateResourceUsage_def journalJsonLimits_def limitsExceedSafetyCeiling_def schema_text
      kMaxJournalRecordBytes_def absolute_json_limits_def del: of_nat_numeral)
  show "storable (JObject (summary_members s cm n))"
    using assms(3) by (auto simp: completion_member_def summary_members_def errorToJson_def)
qed

lemma summary_members_read:
  assumes "validateSummaryRecord s False = Inr ()" "completion_member cm" "n = (if cm = [] then 2 else 3)"
    "readCompletedAt (JObject (summary_members s cm n)) n = Inr (js_completedAt s)"
  shows "readSummaryRecord (settle (JObject (summary_members s cm n))) = Inr (s\<lparr>js_schemaVersion := n\<rparr>)"
proof -
  let ?j = "JObject (summary_members s cm n)"
  note cm = assms(2) [unfolded completion_member_def]
  have schema: "unat (asUInt64 (the (json_get (settle ?j) ''schemaVersion'')) 0) = n"
    using cm assms(3) by (auto simp: json_get_settle summary_members_def asUInt64_def)
  have "journalOnlyKeys (asObject ?j) (summaryKeys n) description = Inr ()" for description
    using cm assms(3) by (auto simp: summary_members_def asObject_def summaryKeys_def kLegacySummarySchemaVersion_def)
  moreover have "parseDecimal ?j ''operationCount'' = Inr (js_operationCount s)"
    by (rule parseDecimal_text) (use cm in \<open>auto simp: summary_members_def field_simps\<close>)
  moreover have "errorFromJson ?j ''applyError'' = Inr (js_applyError s)" "errorFromJson ?j ''rollbackError'' = Inr (js_rollbackError s)"
    "errorFromJson ?j ''restartError'' = Inr (js_restartError s)"
    by (rule errorFromJson_text, use cm assms(1) in \<open>auto simp: summary_members_def validateSummaryRecord_iff\<close>)+
  moreover have "journalString ?j ''transactionId'' = Inr (js_transactionId s)" "journalString ?j ''planDigest'' = Inr (js_planDigest s)"
    "journalString ?j ''fileState'' = Inr (journalFileStateName (js_fileState s))"
    "journalString ?j ''restartState'' = Inr (journalRestartStateName (js_restartState s))"
    using cm by (auto simp: summary_members_def field_simps)
  moreover have "validateTransaction (js_transactionId s) (js_planDigest s) = Inr ()"
    using assms(1) by (simp add: validateSummaryRecord_def)
  moreover have "validateSummaryRecord (s\<lparr>js_schemaVersion := n\<rparr>) legacy = Inr ()" for legacy
    using assms(1) by (auto simp: validateSummaryRecord_iff split: option.splits)
  moreover have "s\<lparr>js_schemaVersion := n\<rparr> = \<lparr>js_schemaVersion = n, js_transactionId = js_transactionId s, js_planDigest = js_planDigest s,
     js_fileState = js_fileState s, js_completedAt = js_completedAt s, js_operationCount = js_operationCount s,
     js_applyError = js_applyError s, js_rollbackError = js_rollbackError s, js_restartState = js_restartState s,
     js_restartError = js_restartError s\<rparr>" by simp
  ultimately show ?thesis
    using assms(4) by (simp only: readSummaryRecord_def schema journalString_settle parseDecimal_settle journalOnlyKeys_settle
      errorFromJson_settle readCompletedAt_settle bindr_simps state_names Let_def)
qed

lemma summary_print_parse:
  assumes "serializeApplyJournalSummary fp s = Inr t" "length t \<le> kMaxJournalRecordBytes"
  shows "parseApplyJournalSummary t = Inr (stored_summary s)"
proof -
  obtain json where valid: "validateSummaryRecord s False = Inr ()" and json: "summaryJson s = Inr json"
    and t: "stringify fp 2 json = Some t"
    using assms(1) by (auto simp: serializeApplyJournalSummary_def journalText_def split: option.splits)
  obtain cm n where cm: "json = JObject (summary_members s cm n)" "completion_member cm" "n = (if cm = [] then 2 else 3)"
    "readCompletedAt (JObject (summary_members s cm n)) n = Inr (js_completedAt s)" "stored_summary s = s\<lparr>js_schemaVersion := n\<rparr>"
    using json
  proof (cases rule: summaryJson_members)
    case without
    with that [of "[]" 2] show thesis
      by (simp add: completion_member_def stored_summary_def readCompletedAt_def summary_members_def
        kLegacySummarySchemaVersion_def kSummarySchemaVersion_def)
  next
    case (with_completion instant c)
    with that [of "[(''completedAt'', JString c)]" 3] show thesis
      by (simp add: completion_member_def stored_summary_def readCompletedAt_def summary_members_def completion_timestamp(1)
        is_ok_def isString_def asString_def kSummarySchemaVersion_def)
  qed
  have "journalObject t ''apply journal summary'' [kLegacySummarySchemaVersion, kSummarySchemaVersion] = Inr (settle json)"
  proof (rule journal_validate [where n = n, OF t _ _ assms(2)])
    show "storable json" "validateResourceUsage fp json journalJsonLimits = Inr ()"
      using summary_members_valid [of fp _ _ s cm n] t assms(2) cm(1-3) by (simp_all add: stringify_def del: storable.simps stringifyInto.simps)
    show "isObject json" "json_get json ''schemaVersion'' = Some (JUInt (of_nat n))"
      using cm(1, 2) by (auto simp: isObject_def summary_members_def completion_member_def)
  qed (use cm(3) in \<open>auto simp: kLegacySummarySchemaVersion_def kSummarySchemaVersion_def\<close>)
  then show ?thesis
    using summary_members_read [OF valid cm(2-4)] cm(1, 5) by (simp add: parseApplyJournalSummary_def)
qed

text \<open>
  C40: the journal survives its files. An operation record or a summary that the journal writes, within
  the record byte limit, is read back with every field as it was, whatever the error messages and file
  identities in it contain; only the schema version is the one the text was written with.
\<close>

theorem journal_records_roundtrip:
  assumes "serializeApplyJournalOperation fp operation = Inr t" "length t \<le> kMaxJournalRecordBytes"
    and "serializeApplyJournalSummary fp summary = Inr u" "length u \<le> kMaxJournalRecordBytes"
  shows "parseApplyJournalOperation t = Inr (stored_operation operation) \<and> parseApplyJournalSummary u = Inr (stored_summary summary)"
  using operation_print_parse [OF assms(1, 2)] summary_print_parse [OF assms(3, 4)] by simp

text \<open>A removal that found no file, in a transaction that is being applied.\<close>

definition sample_operation :: ApplyJournalOperation where
  "sample_operation = default_journal_operation\<lparr>jo_transactionId := zero_digest, jo_operationId := zero_digest, jo_intent := ''remove''\<rparr>"

definition sample_summary :: ApplyJournalSummary where
  "sample_summary = default_summary\<lparr>js_transactionId := zero_digest, js_planDigest := zero_digest, js_fileState := FS_Applying\<rparr>"

lemma sample_operation_text: "\<exists>t. serializeApplyJournalOperation id sample_operation = Inr t \<and> length t \<le> kMaxJournalRecordBytes"
proof -
  have "validateOperationRecord sample_operation = Inr ()"
    by (simp add: validateOperationRecord_iff sample_operation_def default_journal_operation_def zeros_digest errorIncomplete_def no_journal_error_def)
  then show ?thesis
    unfolding serializeApplyJournalOperation_def journalText_def journalOperationJson_members
    by (simp add: sample_operation_def stringify_def zero_digest_escape default_journal_operation_def no_journal_error_def errorToJson_def)
      (simp add: jsonEscape_def escapeByte_def lineBreak_def numberText_def integerText_def decimalText_def decimal_text.simps digit_char_def
        zero_digest_escape kMaxJournalRecordBytes_def kOperationSchemaVersion_def)
qed

lemma sample_summary_text: "\<exists>t. serializeApplyJournalSummary id sample_summary = Inr t \<and> length t \<le> kMaxJournalRecordBytes"
proof -
  have "validateSummaryRecord sample_summary False = Inr ()"
    by (simp add: validateSummaryRecord_iff sample_summary_def default_summary_def zeros_digest errorIncomplete_def no_journal_error_def)
  moreover have "summaryJson sample_summary = Inr (JObject (summary_members sample_summary [] 2))"
    by (simp add: summaryJson_def addCompletion_def sample_summary_def default_summary_def kLegacySummarySchemaVersion_def summary_members_def)
  ultimately show ?thesis
    unfolding serializeApplyJournalSummary_def journalText_def
    by (simp add: sample_summary_def stringify_def zero_digest_escape default_summary_def no_journal_error_def errorToJson_def summary_members_def)
      (simp add: jsonEscape_def escapeByte_def lineBreak_def numberText_def integerText_def decimalText_def decimal_text.simps digit_char_def
        zero_digest_escape kMaxJournalRecordBytes_def)
qed

theorem journal_records_roundtrip_witness:
  "\<exists>t u. serializeApplyJournalOperation id sample_operation = Inr t \<and> parseApplyJournalOperation t = Inr (stored_operation sample_operation)
     \<and> serializeApplyJournalSummary id sample_summary = Inr u \<and> parseApplyJournalSummary u = Inr (stored_summary sample_summary)"
  using sample_operation_text sample_summary_text journal_records_roundtrip [of id sample_operation _ sample_summary] by blast

end
