(* ===== verification/Rooted_Contract.thy ===== *)
theory Rooted_Contract
  imports Apply_Files Journal_Facts
begin

text \<open>
  What \<open>interfaces/IRootedFileSystem.h\<close> documents of a rooted file system, as hypotheses on the operations:
  a namespace of regular files that changes only when a temporary file is committed or an entry is
  removed, each time only if the entry meets the expectation; handles that stay bound to the object
  that was opened; temporary files that hold what was written to them until they are committed; a
  commit or a removal that fails may have happened or not. Operations may fail at any time: nothing
  here says that one succeeds. A crash is the case in which every operation after some point fails
  and changes nothing.

  The view of the world that the laws speak of is a record of functions of the world: the entry at a
  location, the location of a path below a directory handle, the object behind a handle and the offset
  it is read at, the object a temporary file will publish and where, and how often a process has been launched.
\<close>

section \<open>The view\<close>

record file_object =
  fo_identity :: string
  fo_permissions :: perms
  fo_bytes :: string

record ('w, 'd, 'f, 't, 'l) rooted_view =
  rv_entries :: "'w \<Rightarrow> 'l \<Rightarrow> file_object option"
  rv_loc :: "'d \<Rightarrow> string \<Rightarrow> 'l"
  rv_bound :: "'w \<Rightarrow> 'f \<Rightarrow> file_object option"
  rv_offset :: "'w \<Rightarrow> 'f \<Rightarrow> nat"
  rv_temp :: "'w \<Rightarrow> 't \<Rightarrow> file_object option"
  rv_target :: "'t \<Rightarrow> 'l"
  rv_launches :: "'w \<Rightarrow> nat"

definition metadata_of :: "file_object \<Rightarrow> RootedFileMetadata" where
  "metadata_of x = \<lparr>md_size = of_nat (length (fo_bytes x)), md_permissions = fo_permissions x, md_identity = fo_identity x\<rparr>"

fun expects :: "RootedEntryExpectation \<Rightarrow> file_object option \<Rightarrow> bool" where
  "expects ExpectMissing e = (e = None)"
| "expects (ExpectIdentity i) e = (\<exists>x. e = Some x \<and> fo_identity x = i)"

text \<open>The namespace is as before, and no process was launched.\<close>

definition still :: "('w, 'd, 'f, 't, 'l) rooted_view \<Rightarrow> 'w \<Rightarrow> 'w \<Rightarrow> bool" where
  "still V w w' \<longleftrightarrow> rv_entries V w' = rv_entries V w \<and> rv_launches V w' = rv_launches V w"

definition keeps_handles :: "('w, 'd, 'f, 't, 'l) rooted_view \<Rightarrow> 'w \<Rightarrow> 'w \<Rightarrow> bool" where
  "keeps_handles V w w' \<longleftrightarrow> (\<forall>f x. rv_bound V w f = Some x \<longrightarrow> rv_bound V w' f = Some x)"

text \<open>Besides, open handles and temporary files are as before.\<close>

definition quiet :: "('w, 'd, 'f, 't, 'l) rooted_view \<Rightarrow> 'w \<Rightarrow> 'w \<Rightarrow> bool" where
  "quiet V w w' \<longleftrightarrow> still V w w' \<and> keeps_handles V w w' \<and> (\<forall>t x. rv_temp V w t = Some x \<longrightarrow> rv_temp V w' t = Some x)"

text \<open>The temporary file that is written to has changed.\<close>

definition quiet_but :: "('w, 'd, 'f, 't, 'l) rooted_view \<Rightarrow> 't \<Rightarrow> 'w \<Rightarrow> 'w \<Rightarrow> bool" where
  "quiet_but V t w w' \<longleftrightarrow> still V w w' \<and> keeps_handles V w w' \<and> rv_temp V w' t \<noteq> None"

text \<open>Only the handle that was used may have moved.\<close>

definition same_offsets :: "('w, 'd, 'f, 't, 'l) rooted_view \<Rightarrow> 'f \<Rightarrow> 'w \<Rightarrow> 'w \<Rightarrow> bool" where
  "same_offsets V f w w' \<longleftrightarrow> (\<forall>g. g \<noteq> f \<longrightarrow> rv_offset V w' g = rv_offset V w g)"

section \<open>The laws\<close>

text \<open>Operations that neither change the namespace nor any handle.\<close>

definition quiet_laws :: "('w, 'd, 'f, 't) rooted_io \<Rightarrow> ('w, 'd, 'f, 't, 'l) rooted_view \<Rightarrow> bool" where
  "quiet_laws io V \<longleftrightarrow>
     (\<forall>w path access create mode. quiet V w (snd (io_openRoot io path access create mode w)))
     \<and> (\<forall>w d path mode. quiet V w (snd (io_openRegularFile io d path OM_ReadOnly mode w)))
     \<and> (\<forall>w d path mode. quiet V w (snd (io_createAtomicReplacement io d path mode w)))
     \<and> (\<forall>w f n. quiet V w (snd (io_read io f n w)))
     \<and> (\<forall>w f n. quiet V w (snd (io_seek io f n w)))
     \<and> (\<forall>w f. quiet V w (snd (io_metadata io f w)))
     \<and> (\<forall>w f. quiet V w (snd (io_sha256Stream io f w)))
     \<and> (\<forall>w f. still V w (snd (io_close io f w)))
     \<and> (\<forall>w t. still V w (snd (io_discard io t w)))
     \<and> (\<forall>w. quiet V w (snd (io_currentUtcInstant io w)))
     \<and> (\<forall>w. quiet V w (snd (io_entropy io w)))
     \<and> (\<forall>w hook name i. io_checkpoint io = Some hook \<longrightarrow> quiet V w (snd (hook name i w)))
     \<and> (\<forall>w request. rv_entries V (snd (io_launch io request w)) = rv_entries V w
          \<and> rv_launches V (snd (io_launch io request w)) \<in> {rv_launches V w, Suc (rv_launches V w)})"

text \<open>A file that is opened read-only, and what is read through its handle.\<close>

definition handle_laws :: "('w, 'd, 'f, 't) rooted_io \<Rightarrow> ('w, 'd, 'f, 't, 'l) rooted_view \<Rightarrow> bool" where
  "handle_laws io V \<longleftrightarrow>
     (\<forall>w w' d path mode. io_openRegularFile io d path OM_ReadOnly mode w = (Inr None, w') \<longrightarrow> rv_entries V w (rv_loc V d path) = None)
     \<and> (\<forall>w w' d path mode f. io_openRegularFile io d path OM_ReadOnly mode w = (Inr (Some f), w')
          \<longrightarrow> (\<exists>x. rv_entries V w (rv_loc V d path) = Some x \<and> rv_bound V w' f = Some x))
     \<and> (\<forall>w w' f x m. rv_bound V w f = Some x \<longrightarrow> io_metadata io f w = (Inr m, w') \<longrightarrow> m = metadata_of x)
     \<and> (\<forall>w w' f x h. rv_bound V w f = Some x \<longrightarrow> io_sha256Stream io f w = (Inr h, w') \<longrightarrow> h = sha256Bytes (fo_bytes x))
     \<and> (\<forall>w w' f x n. rv_bound V w f = Some x \<longrightarrow> io_seek io f n w = (Inr (), w') \<longrightarrow> rv_offset V w' f = n)
     \<and> (\<forall>w w' f x n b. rv_bound V w f = Some x \<longrightarrow> io_read io f n w = (Inr b, w') \<longrightarrow>
          prefix b (drop (rv_offset V w f) (fo_bytes x)) \<and> rv_offset V w' f = rv_offset V w f + length b
          \<and> (b = [] \<longrightarrow> 0 < n \<longrightarrow> length (fo_bytes x) \<le> rv_offset V w f))"

text \<open>A temporary file, from its creation to its commit.\<close>

definition temp_laws :: "('w, 'd, 'f, 't) rooted_io \<Rightarrow> ('w, 'd, 'f, 't, 'l) rooted_view \<Rightarrow> bool" where
  "temp_laws io V \<longleftrightarrow>
     (\<forall>w w' d path mode t. io_createAtomicReplacement io d path mode w = (Inr t, w') \<longrightarrow>
        rv_target V t = rv_loc V d path \<and> rv_bound V w (io_file io t) = None
        \<and> (\<exists>x. rv_temp V w' t = Some x \<and> fo_bytes x = [] \<and> rv_offset V w' (io_file io t) = 0))
     \<and> (\<forall>w t b. rv_temp V w t \<noteq> None \<longrightarrow> quiet_but V t w (snd (io_write io (io_file io t) b w)))
     \<and> (\<forall>w t n. rv_temp V w t \<noteq> None \<longrightarrow> quiet_but V t w (snd (io_truncate io (io_file io t) n w)))
     \<and> (\<forall>w t p. rv_temp V w t \<noteq> None \<longrightarrow> quiet_but V t w (snd (io_setPermissions io (io_file io t) p w)))
     \<and> (\<forall>w t f. rv_temp V w t \<noteq> None \<longrightarrow> quiet_but V t w (snd (io_copyPermissionsFrom io (io_file io t) f w)))
     \<and> (\<forall>w t b. same_offsets V (io_file io t) w (snd (io_write io (io_file io t) b w)))
     \<and> (\<forall>w t n. same_offsets V (io_file io t) w (snd (io_truncate io (io_file io t) n w)))
     \<and> (\<forall>w t n. same_offsets V (io_file io t) w (snd (io_seek io (io_file io t) n w)))
     \<and> (\<forall>w t f. f \<noteq> io_file io t \<longrightarrow> rv_temp V w t \<noteq> None \<longrightarrow> rv_temp V (snd (io_close io f w)) t \<noteq> None)
     \<and> (\<forall>w w' t x b. rv_temp V w t = Some x \<longrightarrow> fo_bytes x = [] \<longrightarrow> rv_offset V w (io_file io t) = 0 \<longrightarrow>
          io_write io (io_file io t) b w = (Inr (), w') \<longrightarrow> (\<exists>y. rv_temp V w' t = Some y \<and> fo_bytes y = b))"

text \<open>The two changes of the namespace.\<close>

definition namespace_laws :: "('w, 'd, 'f, 't) rooted_io \<Rightarrow> ('w, 'd, 'f, 't, 'l) rooted_view \<Rightarrow> bool" where
  "namespace_laws io V \<longleftrightarrow>
     (\<forall>w t expectation. let w' = snd (io_commit io t expectation w); l = rv_target V t in
        rv_launches V w' = rv_launches V w \<and>
        (rv_entries V w' = rv_entries V w
         \<or> expects expectation (rv_entries V w l)
           \<and> (\<exists>x. rv_entries V w' = (rv_entries V w)(l := Some x) \<and> (\<forall>y. rv_temp V w t = Some y \<longrightarrow> x = y))))
     \<and> (\<forall>w d path expectation. let w' = snd (io_removeRegularFile io d path expectation w); l = rv_loc V d path in
        rv_launches V w' = rv_launches V w \<and>
        (rv_entries V w' = rv_entries V w
         \<or> expects expectation (rv_entries V w l) \<and> rv_entries V w' = (rv_entries V w)(l := None)))"

definition rooted_contract :: "('w, 'd, 'f, 't) rooted_io \<Rightarrow> ('w, 'd, 'f, 't, 'l) rooted_view \<Rightarrow> bool" where
  "rooted_contract io V \<longleftrightarrow> quiet_laws io V \<and> handle_laws io V \<and> temp_laws io V \<and> namespace_laws io V"

section \<open>Using the laws\<close>

lemma still_refl [simp]: "still V w w"
  by (simp add: still_def)

lemma still_trans [trans]: "still V w w' \<Longrightarrow> still V w' w'' \<Longrightarrow> still V w w''"
  by (simp add: still_def)

lemma quiet_refl [simp]: "quiet V w w"
  by (simp add: quiet_def keeps_handles_def)

lemma quiet_trans [trans]: "quiet V w w' \<Longrightarrow> quiet V w' w'' \<Longrightarrow> quiet V w w''"
  unfolding quiet_def keeps_handles_def by (meson still_trans)

lemma quiet_still: "quiet V w w' \<Longrightarrow> still V w w'"
  by (simp add: quiet_def)

lemma quiet_bound: "quiet V w w' \<Longrightarrow> rv_bound V w f = Some x \<Longrightarrow> rv_bound V w' f = Some x"
  by (simp add: quiet_def keeps_handles_def)

lemma quiet_temp: "quiet V w w' \<Longrightarrow> rv_temp V w t = Some x \<Longrightarrow> rv_temp V w' t = Some x"
  by (simp add: quiet_def)

lemma quiet_but_still: "quiet_but V t w w' \<Longrightarrow> still V w w'"
  by (simp add: quiet_but_def)

lemma quiet_but_trans: "quiet_but V t w w' \<Longrightarrow> quiet_but V t w' w'' \<Longrightarrow> quiet_but V t w w''"
  unfolding quiet_but_def keeps_handles_def by (meson still_trans)

lemma quiet_quiet_but: "rv_temp V w t \<noteq> None \<Longrightarrow> quiet V w w' \<Longrightarrow> quiet_but V t w w'"
  by (auto simp: quiet_def quiet_but_def)

lemma quiet_but_temp: "quiet_but V t w w' \<Longrightarrow> rv_temp V w' t \<noteq> None"
  by (simp add: quiet_but_def)

lemma contract_quiet:
  assumes "rooted_contract io V"
  shows "quiet V w (snd (io_openRoot io path access create mode w))"
    "quiet V w (snd (io_openRegularFile io d path OM_ReadOnly mode w))"
    "quiet V w (snd (io_createAtomicReplacement io d path mode w))"
    "quiet V w (snd (io_read io f n w))" "quiet V w (snd (io_seek io f n w))" "quiet V w (snd (io_metadata io f w))"
    "quiet V w (snd (io_sha256Stream io f w))" "still V w (snd (io_close io f w))" "still V w (snd (io_discard io t w))"
    "quiet V w (snd (io_currentUtcInstant io w))" "quiet V w (snd (io_entropy io w))"
    "io_checkpoint io = Some hook \<Longrightarrow> quiet V w (snd (hook name i w))"
  using assms unfolding rooted_contract_def quiet_laws_def by simp_all

lemma contract_launch:
  assumes "rooted_contract io V"
  shows "rv_entries V (snd (io_launch io request w)) = rv_entries V w"
    "rv_launches V (snd (io_launch io request w)) \<in> {rv_launches V w, Suc (rv_launches V w)}"
  using assms unfolding rooted_contract_def quiet_laws_def by simp_all

lemma contract_open:
  assumes "rooted_contract io V" "fst (io_openRegularFile io d path OM_ReadOnly mode w) = Inr r"
  shows "case r of None \<Rightarrow> rv_entries V w (rv_loc V d path) = None
    | Some f \<Rightarrow> \<exists>x. rv_entries V w (rv_loc V d path) = Some x \<and> rv_bound V (snd (io_openRegularFile io d path OM_ReadOnly mode w)) f = Some x"
proof -
  obtain w' where "io_openRegularFile io d path OM_ReadOnly mode w = (Inr r, w')"
    using assms(2) by (cases "io_openRegularFile io d path OM_ReadOnly mode w") auto
  moreover have laws: "handle_laws io V" using assms(1) by (simp add: rooted_contract_def)
  ultimately show ?thesis
    using laws [unfolded handle_laws_def, THEN conjunct1, rule_format, of d path mode w w']
      laws [unfolded handle_laws_def, THEN conjunct2, THEN conjunct1, rule_format, of d path mode w _ w']
    by (cases r) simp_all
qed

lemma contract_handle:
  assumes "rooted_contract io V" "rv_bound V w f = Some x"
  shows "fst (io_metadata io f w) = Inr m \<Longrightarrow> m = metadata_of x"
    "fst (io_sha256Stream io f w) = Inr h \<Longrightarrow> h = sha256Bytes (fo_bytes x)"
    "fst (io_seek io f n w) = Inr u \<Longrightarrow> rv_offset V (snd (io_seek io f n w)) f = n"
    "fst (io_read io f n w) = Inr b \<Longrightarrow> prefix b (drop (rv_offset V w f) (fo_bytes x))
       \<and> rv_offset V (snd (io_read io f n w)) f = rv_offset V w f + length b
       \<and> (b = [] \<longrightarrow> 0 < n \<longrightarrow> length (fo_bytes x) \<le> rv_offset V w f)"
  using assms unfolding rooted_contract_def handle_laws_def by (metis prod.collapse old.unit.exhaust)+

lemma contract_create:
  assumes "rooted_contract io V" "fst (io_createAtomicReplacement io d path mode w) = Inr t"
  defines "w' \<equiv> snd (io_createAtomicReplacement io d path mode w)"
  shows "rv_target V t = rv_loc V d path" "rv_bound V w (io_file io t) = None"
    "\<exists>x. rv_temp V w' t = Some x \<and> fo_bytes x = [] \<and> rv_offset V w' (io_file io t) = 0"
  using assms unfolding rooted_contract_def temp_laws_def by (metis prod.collapse)+

lemma contract_temp:
  assumes "rooted_contract io V" "rv_temp V w t \<noteq> None"
  shows "quiet_but V t w (snd (io_write io (io_file io t) b w))" "quiet_but V t w (snd (io_truncate io (io_file io t) n w))"
    "quiet_but V t w (snd (io_setPermissions io (io_file io t) p w))"
    "quiet_but V t w (snd (io_copyPermissionsFrom io (io_file io t) f w))"
  using assms unfolding rooted_contract_def temp_laws_def by simp_all

lemma contract_offsets:
  assumes "rooted_contract io V" "g \<noteq> io_file io t"
  shows "rv_offset V (snd (io_write io (io_file io t) b w)) g = rv_offset V w g"
    "rv_offset V (snd (io_truncate io (io_file io t) n w)) g = rv_offset V w g"
    "rv_offset V (snd (io_seek io (io_file io t) n w)) g = rv_offset V w g"
  using assms unfolding rooted_contract_def temp_laws_def same_offsets_def by simp_all

lemma contract_close_temp:
  assumes "rooted_contract io V" "f \<noteq> io_file io t" "rv_temp V w t \<noteq> None"
  shows "rv_temp V (snd (io_close io f w)) t \<noteq> None"
  using assms unfolding rooted_contract_def temp_laws_def by simp

lemma contract_write:
  assumes "rooted_contract io V" "rv_temp V w t = Some x" "fo_bytes x = []" "rv_offset V w (io_file io t) = 0"
    "fst (io_write io (io_file io t) b w) = Inr ()"
  shows "\<exists>y. rv_temp V (snd (io_write io (io_file io t) b w)) t = Some y \<and> fo_bytes y = b"
  using assms unfolding rooted_contract_def temp_laws_def by (metis prod.collapse)

lemma contract_commit:
  assumes "rooted_contract io V"
  defines "w' \<equiv> \<lambda>t expectation w. snd (io_commit io t expectation w)"
  shows "rv_launches V (w' t expectation w) = rv_launches V w \<and>
    (rv_entries V (w' t expectation w) = rv_entries V w
     \<or> expects expectation (rv_entries V w (rv_target V t))
       \<and> (\<exists>x. rv_entries V (w' t expectation w) = (rv_entries V w)(rv_target V t := Some x) \<and> (\<forall>y. rv_temp V w t = Some y \<longrightarrow> x = y)))"
  using assms unfolding rooted_contract_def namespace_laws_def Let_def by metis

lemma contract_remove:
  assumes "rooted_contract io V"
  defines "w' \<equiv> \<lambda>d path expectation w. snd (io_removeRegularFile io d path expectation w)"
  shows "rv_launches V (w' d path expectation w) = rv_launches V w \<and>
    (rv_entries V (w' d path expectation w) = rv_entries V w
     \<or> expects expectation (rv_entries V w (rv_loc V d path))
       \<and> rv_entries V (w' d path expectation w) = (rv_entries V w)(rv_loc V d path := None))"
  using assms unfolding rooted_contract_def namespace_laws_def Let_def by metis

text \<open>One location may have changed, to what is expected.\<close>

definition only_at :: "('w, 'd, 'f, 't, 'l) rooted_view \<Rightarrow> 'l \<Rightarrow> (file_object option \<Rightarrow> bool) \<Rightarrow> 'w \<Rightarrow> 'w \<Rightarrow> bool" where
  "only_at V l P w w' \<longleftrightarrow>
     rv_launches V w' = rv_launches V w
     \<and> (\<forall>l'. l' \<noteq> l \<longrightarrow> rv_entries V w' l' = rv_entries V w l')
     \<and> (rv_entries V w' l = rv_entries V w l \<or> P (rv_entries V w' l))"

end
