(* ===== verification/Rooted_Files.thy ===== *)
theory Rooted_Files
  imports Rooted_Contract
begin

text \<open>
  What the file operations of the updater do to a rooted file system: observing and verifying leave the
  namespace alone and report the truth; a journal write leaves the old or the new text, and the new
  text when it reports success; a backup is written only where there was none.
\<close>

named_theorems wps "what a computation establishes"

section \<open>Evidence\<close>

definition evidence :: "file_object \<Rightarrow> u64 \<Rightarrow> string \<Rightarrow> bool" where
  "evidence x bytes hash \<longleftrightarrow> of_nat (length (fo_bytes x)) = bytes \<and> sha256Bytes (fo_bytes x) = hash"

definition original_evidence :: "file_object \<Rightarrow> ApplyJournalOperation \<Rightarrow> bool" where
  "original_evidence x r \<longleftrightarrow>
     evidence x (jo_originalSize r) (jo_originalSha256 r)
     \<and> (jo_originalPermissionsKnown r \<longrightarrow> permissionBits (fo_permissions x) = jo_originalPermissions r)"

definition observation :: "file_object option \<Rightarrow> ObservedFile" where
  "observation e =
     (case e of
        None \<Rightarrow> absent_file
      | Some x \<Rightarrow> \<lparr>ob_exists = True, ob_metadata = metadata_of x, ob_sha256 = sha256Bytes (fo_bytes x)\<rparr>)"

lemma observation_exists [simp]: "ob_exists (observation e) \<longleftrightarrow> e \<noteq> None"
  by (auto simp: observation_def absent_file_def split: option.split)

lemma observation_metadata [simp]: "ob_metadata (observation (Some x)) = metadata_of x"
  by (simp add: observation_def)

lemma metadata_of_simps [simp]: "md_identity (metadata_of x) = fo_identity x" "md_permissions (metadata_of x) = fo_permissions x"
  by (simp_all add: metadata_of_def)

lemma matchesEvidence_observation [simp]: "matchesEvidence (observation e) n h \<longleftrightarrow> (\<exists>x. e = Some x \<and> evidence x n h)"
  by (auto simp: matchesEvidence_def observation_def absent_file_def evidence_def metadata_of_def split: option.split)

lemma matchesOriginal_observation:
  "matchesOriginal (observation e) r \<longleftrightarrow> (if jo_originalExists r then \<exists>x. e = Some x \<and> original_evidence x r else e = None)"
  by (cases e) (auto simp: matchesOriginal_def original_evidence_def)

section \<open>Primitive steps\<close>

lemma wp_prim_quiet: "quiet V w (snd (p w)) \<Longrightarrow> (\<And>r w'. p w = (r, w') \<Longrightarrow> quiet V w w' \<Longrightarrow> Q r w') \<Longrightarrow> wp (prim p) Q w"
  by (cases "p w") (simp add: wp_prim)

lemma wp_open:
  assumes "rooted_contract io V"
    "\<And>e w'. quiet V w w' \<Longrightarrow> Q (Inl e) w'"
    "\<And>w'. quiet V w w' \<Longrightarrow> rv_entries V w (rv_loc V d path) = None \<Longrightarrow> Q (Inr None) w'"
    "\<And>f x w'. quiet V w w' \<Longrightarrow> rv_entries V w (rv_loc V d path) = Some x \<Longrightarrow> rv_bound V w' f = Some x \<Longrightarrow> Q (Inr (Some f)) w'"
  shows "wp (prim (io_openRegularFile io d path OM_ReadOnly mode)) Q w"
proof -
  let ?p = "io_openRegularFile io d path OM_ReadOnly mode w"
  have q: "quiet V w (snd ?p)" by (rule contract_quiet(2) [OF assms(1)])
  show ?thesis
  proof (cases "fst ?p")
    case (Inl e)
    with assms(2) [OF q] show ?thesis by (simp add: wp_prim)
  next
    case (Inr r)
    with contract_open [OF assms(1) Inr] assms(3) [OF q] assms(4) [OF q] show ?thesis by (cases r) (auto simp: wp_prim)
  qed
qed

lemma wp_metadata:
  assumes "rooted_contract io V" "rv_bound V w f = Some x"
    "\<And>e w'. quiet V w w' \<Longrightarrow> rv_bound V w' f = Some x \<Longrightarrow> Q (Inl e) w'"
    "\<And>w'. quiet V w w' \<Longrightarrow> rv_bound V w' f = Some x \<Longrightarrow> Q (Inr (metadata_of x)) w'"
  shows "wp (prim (io_metadata io f)) Q w"
  using assms contract_quiet(6) [OF assms(1), of w f] contract_handle(1) [OF assms(1, 2)] quiet_bound
  by (cases "fst (io_metadata io f w)") (fastforce simp: wp_prim)+

lemma wp_hash:
  assumes "rooted_contract io V" "rv_bound V w f = Some x"
    "\<And>e w'. quiet V w w' \<Longrightarrow> rv_bound V w' f = Some x \<Longrightarrow> Q (Inl e) w'"
    "\<And>w'. quiet V w w' \<Longrightarrow> rv_bound V w' f = Some x \<Longrightarrow> Q (Inr (sha256Bytes (fo_bytes x))) w'"
  shows "wp (prim (io_sha256Stream io f)) Q w"
  using assms contract_quiet(7) [OF assms(1), of w f] contract_handle(2) [OF assms(1, 2)] quiet_bound
  by (cases "fst (io_sha256Stream io f w)") (fastforce simp: wp_prim)+

lemma wp_close: "rooted_contract io V \<Longrightarrow> (\<And>r w'. still V w w' \<Longrightarrow> Q r w') \<Longrightarrow> wp (prim (io_close io f)) Q w"
  using contract_quiet(8) [of io V w f] by (simp add: wp_prim)

lemma wp_discard: "rooted_contract io V \<Longrightarrow> (\<And>r w'. still V w w' \<Longrightarrow> Q r w') \<Longrightarrow> wp (prim (io_discard io t)) Q w"
  using contract_quiet(9) [of io V w t] by (simp add: wp_prim)

lemma wp_closing: "rooted_contract io V \<Longrightarrow> (\<And>e w'. still V w w' \<Longrightarrow> Q e w') \<Longrightarrow> wp (closing io f description error) Q w"
  unfolding closing_def by simp (rule wp_close, auto)

lemma wp_fail_closing:
  assumes "rooted_contract io V" "still V wa w" "\<And>e w'. still V wa w' \<Longrightarrow> Q (Inl e) w'"
  shows "wp (bnd (closing io f description error) (\<lambda>e'. ret (Inl e'))) Q w"
  unfolding wp_bnd wp_ret by (rule wp_closing [OF assms(1)]) (rule assms(3), rule still_trans [OF assms(2)])

lemma wp_discarding: "rooted_contract io V \<Longrightarrow> (\<And>e w'. still V w w' \<Longrightarrow> Q (Inl e) w') \<Longrightarrow> wp (discarding io t description error) Q w"
  unfolding discarding_def by simp (rule wp_discard, auto)

section \<open>Observing and verifying\<close>

lemma wp_observe:
  assumes "rooted_contract io V"
    "\<And>e w'. still V w w' \<Longrightarrow> Q (Inl e) w'"
    "\<And>w'. still V w w' \<Longrightarrow> Q (Inr (observation (rv_entries V w (rv_loc V d path)))) w'"
  shows "wp (observeFile io d path) Q w"
  unfolding observeFile_def Let_def wp_attempt
proof (rule wp_open [OF assms(1)], goal_cases)
  case (1 e w')
  then show ?case using assms(2) [OF quiet_still [OF 1]] by simp
next
  case (2 w')
  then show ?case using assms(3) [OF quiet_still [OF 2(1)]] 2(2) by (simp add: observation_def)
next
  case (3 f x w1)
  note failing = wp_fail_closing [where Q = Q and V = V and wa = w, OF assms(1) _ assms(2)]
  show ?case
    unfolding sum.case option.case wp_call
  proof (rule wp_metadata [OF assms(1) 3(3)], goal_cases)
    case (1 e w2)
    show ?case unfolding sum.case by (rule failing [OF quiet_still [OF quiet_trans [OF 3(1) 1(1)]]])
  next
    case (2 w2)
    note q2 = quiet_trans [OF 3(1) 2(1)]
    show ?case
      unfolding sum.case wp_call
    proof (rule wp_hash [OF assms(1) 2(2)], goal_cases)
      case (1 e w3)
      show ?case unfolding sum.case by (rule failing [OF quiet_still [OF quiet_trans [OF q2 1(1)]]])
    next
      case (2 w3)
      note s = quiet_still [OF quiet_trans [OF q2 2(1)]]
      show ?case
        unfolding sum.case wp_attempt
        by (rule wp_close [OF assms(1)])
          (use still_trans [OF s] 3(2) assms(2, 3) in \<open>auto simp: observation_def split: sum.split\<close>)
    qed
  qed
qed

lemma wp_verifyEvidence:
  assumes "rooted_contract io V" "\<And>e w'. quiet V w w' \<Longrightarrow> Q (Inl e) w'"
    "\<And>w'. quiet V w w' \<Longrightarrow> (\<And>x. rv_bound V w f = Some x \<Longrightarrow> evidence x n h) \<Longrightarrow> Q (Inr ()) w'"
  shows "wp (verifyEvidence io f n h description) Q w"
proof -
  obtain r1 w1 where 1: "io_metadata io f w = (r1, w1)" by fastforce
  obtain r2 w2 where 2: "io_sha256Stream io f w1 = (r2, w2)" by fastforce
  have q1: "quiet V w w1" using contract_quiet(6) [OF assms(1), of w f] 1 by simp
  then have q2: "quiet V w w2" using contract_quiet(7) [OF assms(1), of w1 f] 2 quiet_trans by fastforce
  have ok: "evidence x n h" if "rv_bound V w f = Some x" "r1 = Inr m" "md_size m = n" "r2 = Inr h" for x m
    using contract_handle(1) [OF assms(1) that(1)] contract_handle(2) [OF assms(1) quiet_bound [OF q1 that(1)]] 1 2 that
    by (fastforce simp: evidence_def metadata_of_def)
  show ?thesis
    using assms(2) [OF q1] assms(2) [OF q2] assms(3) [OF q2] ok
    by (auto simp: verifyEvidence_def wp_prim 1 2 fail_def split: sum.split)
qed

lemma wp_verifyOriginal:
  assumes "rooted_contract io V" "\<And>e w'. quiet V w w' \<Longrightarrow> Q (Inl e) w'"
    "\<And>w'. quiet V w w' \<Longrightarrow> (\<And>x. rv_bound V w f = Some x \<Longrightarrow> original_evidence x r) \<Longrightarrow> Q (Inr ()) w'"
  shows "wp (verifyOriginalEvidence io f r description) Q w"
  unfolding verifyOriginalEvidence_def wp_attempt
proof (rule wp_verifyEvidence [OF assms(1)], goal_cases)
  case (1 e w1)
  then show ?case using assms(2) by simp
next
  case (2 w1)
  obtain r2 w2 where m: "io_metadata io f w1 = (r2, w2)" by fastforce
  have q2: "quiet V w w2" using contract_quiet(6) [OF assms(1), of w1 f] m quiet_trans [OF 2(1)] by fastforce
  have ok: "permissionBits (fo_permissions x) = jo_originalPermissions r"
    if "rv_bound V w f = Some x" "r2 = Inr md" "permissionBits (md_permissions md) = jo_originalPermissions r" for x md
    using contract_handle(1) [OF assms(1) quiet_bound [OF 2(1) that(1)], of md] m that by simp
  show ?case
    using assms(2) [OF q2] assms(3) [OF q2] assms(3) [OF 2(1)] 2(2) ok
    by (auto simp: wp_prim m fail_def original_evidence_def split: sum.split)
qed

section \<open>Steps by their effect on the namespace\<close>

text \<open>The same facts with the namespace as an equation, for automatic use.\<close>

lemma step_still: "still V w w' \<longleftrightarrow> rv_entries V w' = rv_entries V w \<and> rv_launches V w' = rv_launches V w"
  by (simp add: still_def)

lemma step_close [wps]:
  "rooted_contract io V \<Longrightarrow> (\<And>r w'. rv_entries V w' = rv_entries V w \<Longrightarrow> rv_launches V w' = rv_launches V w \<Longrightarrow> Q r w')
    \<Longrightarrow> wp (prim (io_close io f)) Q w"
  by (rule wp_close) (auto simp: still_def)

lemma step_discard:
  "rooted_contract io V \<Longrightarrow> (\<And>r w'. rv_entries V w' = rv_entries V w \<Longrightarrow> rv_launches V w' = rv_launches V w \<Longrightarrow> Q r w')
    \<Longrightarrow> wp (prim (io_discard io t)) Q w"
  by (rule wp_discard) (auto simp: still_def)

lemma step_closing [wps]:
  "rooted_contract io V \<Longrightarrow> (\<And>e w'. rv_entries V w' = rv_entries V w \<Longrightarrow> rv_launches V w' = rv_launches V w \<Longrightarrow> Q e w')
    \<Longrightarrow> wp (closing io f description error) Q w"
  by (rule wp_closing) (auto simp: still_def)

lemma step_finish [wps]:
  assumes "rooted_contract io V"
    "\<And>r p w'. rv_entries V w' = rv_entries V w \<Longrightarrow> rv_launches V w' = rv_launches V w \<Longrightarrow> Q (r, p) w'"
  shows "wp (finishTemporary io t operation description reconciling) Q w"
proof -
  have "wp (\<lambda>w. Some (io_publishStatus io t w, w)) P w' = P (io_publishStatus io t w') w'" for P :: "_ \<Rightarrow> 'a \<Rightarrow> bool" and w'
    by (simp add: wp_def)
  then show ?thesis
    unfolding finishTemporary_def wp_bnd
    by (intro step_discard [OF assms(1)]) (use assms(2) in \<open>auto split: sum.split\<close>)
qed

lemma step_abandon [wps]:
  assumes "rooted_contract io V" "\<And>e w'. rv_entries V w' = rv_entries V w \<Longrightarrow> rv_launches V w' = rv_launches V w \<Longrightarrow> Q (Inl e) w'"
  shows "wp (abandon io t description error) Q w"
proof -
  have "wp (\<lambda>w. Some (io_publishStatus io t w, w)) P w' = P (io_publishStatus io t w') w'" for P :: "_ \<Rightarrow> 'a \<Rightarrow> bool" and w'
    by (simp add: wp_def)
  then show ?thesis
    unfolding abandon_def finishTemporary_def wp_bnd
    by (intro step_discard [OF assms(1)]) (use assms(2) in \<open>auto split: sum.split\<close>)
qed

lemma step_create [wps]:
  assumes "rooted_contract io V"
    "\<And>e w'. rv_entries V w' = rv_entries V w \<Longrightarrow> rv_launches V w' = rv_launches V w \<Longrightarrow> Q (Inl e) w'"
    "\<And>t w'. rv_entries V w' = rv_entries V w \<Longrightarrow> rv_launches V w' = rv_launches V w \<Longrightarrow> rv_target V t = rv_loc V d path
       \<Longrightarrow> rv_temp V w' t \<noteq> None \<Longrightarrow> keeps_handles V w w' \<Longrightarrow> rv_bound V w (io_file io t) = None \<Longrightarrow> Q (Inr t) w'"
  shows "wp (prim (io_createAtomicReplacement io d path mode)) Q w"
proof -
  let ?p = "io_createAtomicReplacement io d path mode w"
  have q: "rv_entries V (snd ?p) = rv_entries V w" "rv_launches V (snd ?p) = rv_launches V w" and k: "keeps_handles V w (snd ?p)"
    using contract_quiet(3) [OF assms(1), of w d path mode] by (simp_all add: quiet_def still_def)
  show ?thesis
    using assms(2) [OF q] assms(3) [OF q _ _ k] contract_create [OF assms(1), of d path mode w]
    by (cases "fst ?p") (auto simp: wp_prim)
qed

lemma step_temp [wps]:
  assumes "rooted_contract io V" "rv_temp V w t \<noteq> None"
    "\<And>r w'. rv_entries V w' = rv_entries V w \<Longrightarrow> rv_launches V w' = rv_launches V w \<Longrightarrow> rv_temp V w' t \<noteq> None \<Longrightarrow> Q r w'"
  shows "wp (prim (io_setPermissions io (io_file io t) p)) Q w" "wp (prim (io_copyPermissionsFrom io (io_file io t) f)) Q w"
  using assms(3) contract_temp [OF assms(1, 2)] unfolding quiet_but_def still_def by (simp_all add: wp_prim)

lemma step_temp_metadata [wps]:
  assumes "rooted_contract io V" "rv_temp V w t \<noteq> None"
    "\<And>r w'. rv_entries V w' = rv_entries V w \<Longrightarrow> rv_launches V w' = rv_launches V w \<Longrightarrow> rv_temp V w' t \<noteq> None \<Longrightarrow> Q r w'"
  shows "wp (prim (io_metadata io (io_file io t))) Q w"
  using assms(2, 3) contract_quiet(6) [OF assms(1), of w "io_file io t"] unfolding quiet_def still_def by (auto simp: wp_prim)

lemma step_temp_evidence [wps]:
  assumes "rooted_contract io V" "rv_temp V w t \<noteq> None"
    "\<And>r w'. rv_entries V w' = rv_entries V w \<Longrightarrow> rv_launches V w' = rv_launches V w \<Longrightarrow> rv_temp V w' t \<noteq> None \<Longrightarrow> Q r w'"
  shows "wp (verifyEvidence io (io_file io t) n h description) Q w" "wp (verifyOriginalEvidence io (io_file io t) r description) Q w"
proof -
  have "Q r w'" if "quiet V w w'" for r w'
    using assms(2, 3) that unfolding quiet_def still_def by auto
  then show "wp (verifyEvidence io (io_file io t) n h description) Q w" "wp (verifyOriginalEvidence io (io_file io t) r description) Q w"
    by (intro wp_verifyEvidence [OF assms(1)] wp_verifyOriginal [OF assms(1)]; simp)+
qed

lemma copyLoop_returns:
  assumes "rooted_contract io V" "rv_bound V w source = Some x" "source \<noteq> io_file io t" "rv_temp V w t \<noteq> None"
  shows "\<exists>r w'. copyLoop io source (io_file io t) w = Some (r, w') \<and> quiet_but V t w w'"
  using assms(2, 4)
proof (induction "length (fo_bytes x) - rv_offset V w source" arbitrary: w rule: less_induct)
  case less
  note c = assms(1)
  obtain r1 w1 where rd: "io_read io source (64 * 1024) w = (r1, w1)" by fastforce
  have q: "quiet V w w1" using contract_quiet(4) [OF c, of w source "64 * 1024"] rd by simp
  then have q1: "quiet_but V t w w1" by (rule quiet_quiet_but [OF less(3)])
  show ?case
  proof (cases "\<exists>b. r1 = Inr b \<and> b \<noteq> []")
    case False
    with rd q1 show ?thesis by (auto simp: copyLoop.simps [of io source] split: sum.split)
  next
    case True
    then obtain b where b: "r1 = Inr b" "b \<noteq> []" by blast
    have moved: "prefix b (drop (rv_offset V w source) (fo_bytes x))" "rv_offset V w1 source = rv_offset V w source + length b"
      using contract_handle(4) [OF c less(2), of "64 * 1024" b] rd b by simp_all
    obtain r2 w2 where wr: "io_write io (io_file io t) b w1 = (r2, w2)" by fastforce
    have q2: "quiet_but V t w1 w2" using contract_temp(1) [OF c quiet_but_temp [OF q1], of b] wr by simp
    note q02 = quiet_but_trans [OF q1 q2]
    show ?thesis
    proof (cases r2)
      case (Inl e)
      with rd b wr q02 show ?thesis by (auto simp: copyLoop.simps [of io source])
    next
      case (Inr u)
      have "rv_offset V w2 source = rv_offset V w source + length b"
        using contract_offsets(1) [OF c assms(3), of b w1] wr moved(2) by simp
      moreover have "0 < length b" "rv_offset V w source < length (fo_bytes x)"
        using b(2) moved(1) by (auto simp: prefix_def not_le [symmetric])
      ultimately have "length (fo_bytes x) - rv_offset V w2 source < length (fo_bytes x) - rv_offset V w source" by linarith
      moreover have "rv_bound V w2 source = Some x" using q02 less(2) by (simp add: quiet_but_def keeps_handles_def)
      ultimately obtain r w' where "copyLoop io source (io_file io t) w2 = Some (r, w')" "quiet_but V t w2 w'"
        using less(1) [of w2] quiet_but_temp [OF q02] by blast
      with rd b wr Inr quiet_but_trans [OF q02] show ?thesis by (auto simp: copyLoop.simps [of io source _ w])
    qed
  qed
qed

lemma step_copy [wps]:
  assumes "rooted_contract io V" "rv_temp V w t \<noteq> None" "rv_bound V w source \<noteq> None" "source \<noteq> io_file io t"
    "\<And>r w'. rv_entries V w' = rv_entries V w \<Longrightarrow> rv_launches V w' = rv_launches V w \<Longrightarrow> rv_temp V w' t \<noteq> None \<Longrightarrow> Q r w'"
  shows "wp (copyRootedFile io source (io_file io t)) Q w"
proof -
  have Q: "Q r w'" if "quiet_but V t w w'" for r w'
    using assms(5) that unfolding quiet_but_def still_def by blast
  have step: "quiet_but V t w w' \<Longrightarrow> quiet V w' w'' \<Longrightarrow> quiet_but V t w w''" for w' w''
    by (meson quiet_but_temp quiet_but_trans quiet_quiet_but)
  have base: "quiet V w w'' \<Longrightarrow> quiet_but V t w w''" for w''
    by (rule quiet_quiet_but [OF assms(2)])
  have loop: "wp (copyLoop io source (io_file io t)) Q w'" if q: "quiet_but V t w w'" for w'
  proof -
    obtain x where "rv_bound V w' source = Some x" using assms(3) q by (auto simp: quiet_but_def keeps_handles_def)
    from copyLoop_returns [OF assms(1) this assms(4) quiet_but_temp [OF q]] show ?thesis
      using quiet_but_trans [OF q] Q by (fastforce simp: wp_def)
  qed
  obtain r1 w1 where 1: "io_seek io source 0 w = (r1, w1)" by fastforce
  have q1: "quiet_but V t w w1" using contract_quiet(5) [OF assms(1), of w source 0] 1 base by simp
  obtain r2 w2 where 2: "io_truncate io (io_file io t) 0 w1 = (r2, w2)" by fastforce
  have q2: "quiet_but V t w w2"
    using contract_temp(2) [OF assms(1) quiet_but_temp [OF q1], of 0] 2 quiet_but_trans [OF q1] by simp
  obtain r3 w3 where 3: "io_seek io (io_file io t) 0 w2 = (r3, w3)" by fastforce
  have q3: "quiet_but V t w w3" using contract_quiet(5) [OF assms(1), of w2 "io_file io t" 0] 3 step [OF q2] by simp
  show ?thesis
    unfolding copyRootedFile_def using Q [OF q1] Q [OF q2] Q [OF q3] loop [OF q3]
    by (auto simp: wp_prim 1 2 3 split: sum.split)
qed

lemma step_copyPermissions [wps]:
  assumes "rooted_contract io V" "rv_temp V w t \<noteq> None"
    "\<And>r w'. rv_entries V w' = rv_entries V w \<Longrightarrow> rv_launches V w' = rv_launches V w \<Longrightarrow> rv_temp V w' t \<noteq> None \<Longrightarrow> Q r w'"
  shows "wp (copyPermissions io source (io_file io t)) Q w"
  unfolding copyPermissions_def by (rule step_temp(2) [OF assms])

lemma step_commit [wps]:
  assumes "rooted_contract io V"
    "\<And>r w'. rv_launches V w' = rv_launches V w \<Longrightarrow> rv_entries V w' = rv_entries V w \<Longrightarrow> Q r w'"
    "\<And>r w' x. rv_launches V w' = rv_launches V w \<Longrightarrow> rv_entries V w' = (rv_entries V w)(rv_target V t \<mapsto> x)
       \<Longrightarrow> expects expectation (rv_entries V w (rv_target V t)) \<Longrightarrow> Q r w'"
  shows "wp (prim (io_commit io t expectation)) Q w"
  using contract_commit [OF assms(1), of t expectation w] assms(2, 3) by (auto simp: wp_prim)

lemma step_remove [wps]:
  assumes "rooted_contract io V"
    "\<And>r w'. rv_launches V w' = rv_launches V w \<Longrightarrow> rv_entries V w' = rv_entries V w \<Longrightarrow> Q r w'"
    "\<And>r w'. rv_launches V w' = rv_launches V w \<Longrightarrow> rv_entries V w' = (rv_entries V w)(rv_loc V d path := None)
       \<Longrightarrow> expects expectation (rv_entries V w (rv_loc V d path)) \<Longrightarrow> Q r w'"
  shows "wp (prim (io_removeRegularFile io d path expectation)) Q w"
  using contract_remove [OF assms(1), of d path expectation w] assms(2, 3) by (auto simp: wp_prim)

lemma step_observe [wps]:
  assumes "rooted_contract io V"
    "\<And>e w'. rv_entries V w' = rv_entries V w \<Longrightarrow> rv_launches V w' = rv_launches V w \<Longrightarrow> Q (Inl e) w'"
    "\<And>w'. rv_entries V w' = rv_entries V w \<Longrightarrow> rv_launches V w' = rv_launches V w \<Longrightarrow> Q (Inr (observation (rv_entries V w (rv_loc V d path)))) w'"
  shows "wp (observeFile io d path) Q w"
  by (rule wp_observe [OF assms(1)]) (simp_all add: still_def assms)

section \<open>Replacements and backups\<close>

lemma wp_copyToReplacement:
  assumes "rooted_contract io V" "rv_bound V w source \<noteq> None"
  shows "wp (copyToReplacement io d target mode source expectation n h)
    (\<lambda>r w'. only_at V (rv_loc V d target) (\<lambda>_. expects expectation (rv_entries V w (rv_loc V d target))) w w'
      \<and> (r = Inr () \<longrightarrow> (\<exists>x. rv_entries V w' (rv_loc V d target) = Some x \<and> evidence x n h))) w"
  unfolding copyToReplacement_def
  using assms(2)
  by (auto intro!: wps [OF assms(1)] simp: only_at_def keeps_handles_def split: sum.split prod.split)

text \<open>Steps on a handle that is bound to a known object.\<close>

lemma bound_open:
  assumes "rooted_contract io V"
    "\<And>e w'. rv_entries V w' = rv_entries V w \<Longrightarrow> rv_launches V w' = rv_launches V w \<Longrightarrow> Q (Inl e) w'"
    "\<And>w'. rv_entries V w' = rv_entries V w \<Longrightarrow> rv_launches V w' = rv_launches V w \<Longrightarrow> rv_entries V w (rv_loc V d path) = None
       \<Longrightarrow> keeps_handles V w w' \<Longrightarrow> Q (Inr None) w'"
    "\<And>f x w'. rv_entries V w' = rv_entries V w \<Longrightarrow> rv_launches V w' = rv_launches V w \<Longrightarrow> rv_entries V w (rv_loc V d path) = Some x
       \<Longrightarrow> rv_bound V w' f = Some x \<Longrightarrow> Q (Inr (Some f)) w'"
  shows "wp (prim (io_openRegularFile io d path OM_ReadOnly mode)) Q w"
  by (rule wp_open [OF assms(1)]) (simp_all add: quiet_def still_def assms)

lemma bound_metadata:
  assumes "rooted_contract io V" "rv_bound V w f \<noteq> None"
    "\<And>e w'. rv_entries V w' = rv_entries V w \<Longrightarrow> rv_launches V w' = rv_launches V w \<Longrightarrow> rv_bound V w' f = rv_bound V w f \<Longrightarrow> Q (Inl e) w'"
    "\<And>w'. rv_entries V w' = rv_entries V w \<Longrightarrow> rv_launches V w' = rv_launches V w \<Longrightarrow> rv_bound V w' f = rv_bound V w f
       \<Longrightarrow> Q (Inr (metadata_of (the (rv_bound V w f)))) w'"
  shows "wp (prim (io_metadata io f)) Q w"
proof -
  obtain x where x: "rv_bound V w f = Some x" using assms(2) by blast
  show ?thesis by (rule wp_metadata [OF assms(1) x]) (use assms(3, 4) x in \<open>auto simp: quiet_def still_def\<close>)
qed

lemma bound_verifyOriginal:
  assumes "rooted_contract io V" "rv_bound V w f \<noteq> None"
    "\<And>e w'. rv_entries V w' = rv_entries V w \<Longrightarrow> rv_launches V w' = rv_launches V w \<Longrightarrow> Q (Inl e) w'"
    "\<And>w'. rv_entries V w' = rv_entries V w \<Longrightarrow> rv_launches V w' = rv_launches V w \<Longrightarrow> original_evidence (the (rv_bound V w f)) r
       \<Longrightarrow> rv_bound V w' f \<noteq> None \<Longrightarrow> Q (Inr ()) w'"
  shows "wp (verifyOriginalEvidence io f r description) Q w"
proof -
  obtain x where "rv_bound V w f = Some x" using assms(2) by blast
  then show ?thesis by (intro wp_verifyOriginal [OF assms(1)]) (use assms(3, 4) in \<open>auto simp: quiet_def still_def keeps_handles_def\<close>)
qed

lemma bound_verifyEvidence:
  assumes "rooted_contract io V" "rv_bound V w f \<noteq> None"
    "\<And>r w'. rv_entries V w' = rv_entries V w \<Longrightarrow> rv_launches V w' = rv_launches V w \<Longrightarrow> rv_bound V w' f \<noteq> None \<Longrightarrow> Q r w'"
  shows "wp (verifyEvidence io f n h description) Q w"
  by (rule wp_verifyEvidence [OF assms(1)]) (use assms(2, 3) in \<open>auto simp: quiet_def still_def keeps_handles_def\<close>)

lemma step_close_temp:
  assumes "rooted_contract io V"
    "\<And>r w'. rv_entries V w' = rv_entries V w \<Longrightarrow> rv_launches V w' = rv_launches V w
       \<Longrightarrow> \<forall>t. f \<noteq> io_file io t \<longrightarrow> rv_temp V w t \<noteq> None \<longrightarrow> rv_temp V w' t \<noteq> None \<Longrightarrow> Q r w'"
  shows "wp (prim (io_close io f)) Q w"
  using contract_quiet(8) [OF assms(1), of w f] contract_close_temp [OF assms(1), of f] assms(2) by (simp add: wp_prim still_def)

lemmas bound_wps = bound_open bound_metadata bound_verifyOriginal step_close step_closing

lemma wp_confirmBackup:
  assumes "rooted_contract io V"
    "\<And>e w'. rv_entries V w' = rv_entries V w \<Longrightarrow> rv_launches V w' = rv_launches V w \<Longrightarrow> Q (Inl e) w'"
    "\<And>x w'. rv_entries V w' = rv_entries V w \<Longrightarrow> rv_launches V w' = rv_launches V w
       \<Longrightarrow> rv_entries V w (rv_loc V d target) = Some x \<Longrightarrow> original_evidence x r \<Longrightarrow> Q (Inr ()) w'"
  shows "wp (confirmBackup io d target r identity publicationFailure) Q w"
  unfolding confirmBackup_def Let_def
  by (auto intro!: bound_wps [OF assms(1)] split: sum.split simp: assms(2, 3))

lemma wp_reuseBackup:
  assumes "rooted_contract io V" "rv_bound V w f \<noteq> None"
    "\<And>e w'. rv_entries V w' = rv_entries V w \<Longrightarrow> rv_launches V w' = rv_launches V w \<Longrightarrow> Q (Inl e) w'"
    "\<And>w'. rv_entries V w' = rv_entries V w \<Longrightarrow> rv_launches V w' = rv_launches V w \<Longrightarrow> original_evidence (the (rv_bound V w f)) r \<Longrightarrow> Q (Inr ()) w'"
  shows "wp (reuseBackup io f r) Q w"
proof -
  have "Q z w'" if "rv_entries V w' = rv_entries V w" "rv_launches V w' = rv_launches V w" "original_evidence (the (rv_bound V w f)) r" for z w'
    using assms(3) [OF that(1, 2)] assms(4) [OF that] by (cases z) auto
  with assms(2) show ?thesis
    unfolding reuseBackup_def
    by (auto intro!: bound_wps [OF assms(1)] split: sum.split simp: assms(3))
qed

lemma wp_ensureBackup:
  assumes "rooted_contract io V" "rv_bound V w source \<noteq> None"
  shows "wp (ensureBackup io d target source r)
    (\<lambda>z w'. only_at V (rv_loc V d target) (\<lambda>_. rv_entries V w (rv_loc V d target) = None) w w'
      \<and> (z = Inr () \<longrightarrow> (\<exists>x. rv_entries V w' (rv_loc V d target) = Some x \<and> original_evidence x r))) w"
  unfolding ensureBackup_def
  using assms(2)
  by (auto intro!: wps [OF assms(1)] bound_open [OF assms(1)] wp_confirmBackup [OF assms(1)] wp_reuseBackup [OF assms(1)]
      simp: only_at_def keeps_handles_def split: sum.split prod.split)

section \<open>Journal files\<close>

lemma readLoop_contents:
  assumes "rooted_contract io V" "rv_bound V w f = Some x" "contents = take (rv_offset V w f) (fo_bytes x)"
    "readLoop io f path n contents w = (r, w')"
  shows "quiet V w w' \<and> (\<forall>t. r = Inr t \<longrightarrow> t = fo_bytes x)"
  using assms
proof (induction io f path n contents w arbitrary: r w' rule: readLoop.induct)
  case (1 io f path n contents w)
  note c = 1(2) and bound = 1(3) and contents = 1(4) and run = 1(5)
  obtain r1 w1 where rd: "io_read io f kReadChunkBytes w = (r1, w1)" by fastforce
  have q: "quiet V w w1" using contract_quiet(4) [OF c, of w f kReadChunkBytes] rd by simp
  show ?case
  proof (cases r1)
    case (Inl e)
    with run rd q show ?thesis by (auto simp: readLoop.simps)
  next
    case (Inr b)
    have b: "prefix b (drop (rv_offset V w f) (fo_bytes x))" "rv_offset V w1 f = rv_offset V w f + length b"
      "b = [] \<Longrightarrow> length (fo_bytes x) \<le> rv_offset V w f"
      using contract_handle(4) [OF c bound, of kReadChunkBytes b] rd Inr by (simp_all add: kReadChunkBytes_def)
    show ?thesis
    proof (cases "b = [] \<or> length contents > n \<or> length b > n - length contents")
      case True
      with run rd Inr q b(3) contents show ?thesis by (auto simp: readLoop.simps fail_def split: if_splits)
    next
      case False
      have "contents @ b = take (rv_offset V w1 f) (fo_bytes x)"
        using b(1, 2) contents by (auto simp: prefix_def take_add)
      moreover have "readLoop io f path n (contents @ b) w1 = (r, w')"
        using run rd Inr False by (simp add: readLoop.simps [of io f path n contents w])
      ultimately show ?thesis
        using 1(1) [OF rd [symmetric] Inr] False c quiet_bound [OF q bound] quiet_trans [OF q] by blast
    qed
  qed
qed

lemma wp_readOptional:
  assumes "rooted_contract io V"
    "\<And>e w'. rv_entries V w' = rv_entries V w \<Longrightarrow> rv_launches V w' = rv_launches V w \<Longrightarrow> Q (Inl e) w'"
    "\<And>w'. rv_entries V w' = rv_entries V w \<Longrightarrow> rv_launches V w' = rv_launches V w \<Longrightarrow>
       Q (Inr (map_option fo_bytes (rv_entries V w (rv_loc V d path)))) w'"
  shows "wp (readOptional io d path n expected) Q w"
proof -
  have seek: "wp (prim (io_seek io f 0)) P w1" if b: "rv_bound V w1 f \<noteq> None"
    "\<And>e w'. rv_entries V w' = rv_entries V w1 \<Longrightarrow> rv_launches V w' = rv_launches V w1 \<Longrightarrow> P (Inl e) w'"
    "\<And>w'. rv_entries V w' = rv_entries V w1 \<Longrightarrow> rv_launches V w' = rv_launches V w1 \<Longrightarrow> rv_bound V w' f = rv_bound V w1 f
       \<Longrightarrow> rv_offset V w' f = 0 \<Longrightarrow> P (Inr ()) w'" for f P w1
  proof -
    obtain x where x: "rv_bound V w1 f = Some x" using b by blast
    have "quiet V w1 (snd (io_seek io f 0 w1))" by (rule contract_quiet(5) [OF assms(1)])
    then show ?thesis
      using that(2, 3) contract_handle(3) [OF assms(1) x, of 0] x
      by (cases "fst (io_seek io f 0 w1)") (auto simp: wp_prim quiet_def still_def keeps_handles_def)
  qed
  have read: "wp (prim (readLoop io f path n [])) P w1" if b: "rv_bound V w1 f \<noteq> None" "rv_offset V w1 f = 0"
    "\<And>e w'. rv_entries V w' = rv_entries V w1 \<Longrightarrow> rv_launches V w' = rv_launches V w1 \<Longrightarrow> P (Inl e) w'"
    "\<And>w'. rv_entries V w' = rv_entries V w1 \<Longrightarrow> rv_launches V w' = rv_launches V w1 \<Longrightarrow> rv_bound V w' f = rv_bound V w1 f
       \<Longrightarrow> P (Inr (fo_bytes (the (rv_bound V w1 f)))) w'" for f P w1
  proof -
    obtain x where x: "rv_bound V w1 f = Some x" using b by blast
    obtain r w2 where run: "readLoop io f path n [] w1 = (r, w2)" by fastforce
    have "quiet V w1 w2 \<and> (\<forall>t. r = Inr t \<longrightarrow> t = fo_bytes x)"
      by (rule readLoop_contents [OF assms(1) x _ run]) (simp add: that(2))
    then show ?thesis
      using that(3, 4) x run by (cases r) (auto simp: wp_prim quiet_def still_def keeps_handles_def)
  qed
  have ok: "Q (Inr r) w'" if "rv_entries V w' = rv_entries V w" "rv_launches V w' = rv_launches V w"
    "map_option fo_bytes (rv_entries V w (rv_loc V d path)) = r" for r w'
    using assms(3) that by blast
  show ?thesis
    unfolding readOptional_def failOpened_def
    by (auto intro!: bound_wps [OF assms(1)] seek read split: sum.split simp: assms(2) ok)
qed

text \<open>A journal write leaves the old text or the new one, and the new one when it succeeds.\<close>

definition written :: "string \<Rightarrow> file_object option \<Rightarrow> bool" where
  "written contents e \<longleftrightarrow> (\<exists>x. e = Some x \<and> fo_bytes x = contents)"

lemma step_write:
  assumes "rooted_contract io V" "rv_temp V w t \<noteq> None" "fo_bytes (the (rv_temp V w t)) = []" "rv_offset V w (io_file io t) = 0"
    "\<And>e w'. rv_entries V w' = rv_entries V w \<Longrightarrow> rv_launches V w' = rv_launches V w \<Longrightarrow> Q (Inl e) w'"
    "\<And>w'. rv_entries V w' = rv_entries V w \<Longrightarrow> rv_launches V w' = rv_launches V w \<Longrightarrow> written b (rv_temp V w' t) \<Longrightarrow> Q (Inr ()) w'"
  shows "wp (prim (io_write io (io_file io t) b)) Q w"
proof -
  obtain x where x: "rv_temp V w t = Some x" "fo_bytes x = []" using assms(2, 3) by auto
  have "quiet_but V t w (snd (io_write io (io_file io t) b w))" by (rule contract_temp(1) [OF assms(1, 2)])
  then show ?thesis
    using assms(5, 6) contract_write [OF assms(1) x assms(4), of b]
    by (cases "fst (io_write io (io_file io t) b w)") (auto simp: wp_prim quiet_but_def still_def written_def)
qed

lemma step_write_metadata:
  assumes "rooted_contract io V" "written b (rv_temp V w t)"
    "\<And>r w'. rv_entries V w' = rv_entries V w \<Longrightarrow> rv_launches V w' = rv_launches V w \<Longrightarrow> written b (rv_temp V w' t) \<Longrightarrow> Q r w'"
  shows "wp (prim (io_metadata io (io_file io t))) Q w"
  using assms(2, 3) contract_quiet(6) [OF assms(1), of w "io_file io t"] unfolding quiet_def still_def written_def
  by (fastforce simp: wp_prim)

lemma step_write_commit:
  assumes "rooted_contract io V" "written b (rv_temp V w t)"
    "\<And>r w'. rv_launches V w' = rv_launches V w \<Longrightarrow> rv_entries V w' = rv_entries V w \<Longrightarrow> Q r w'"
    "\<And>r w' x. rv_launches V w' = rv_launches V w \<Longrightarrow> rv_entries V w' = (rv_entries V w)(rv_target V t \<mapsto> x) \<Longrightarrow> fo_bytes x = b \<Longrightarrow> Q r w'"
  shows "wp (prim (io_commit io t expectation)) Q w"
  using contract_commit [OF assms(1), of t expectation w] assms(2-) unfolding written_def by (auto simp: wp_prim)

lemma step_write_create:
  assumes "rooted_contract io V"
    "\<And>e w'. rv_entries V w' = rv_entries V w \<Longrightarrow> rv_launches V w' = rv_launches V w \<Longrightarrow> Q (Inl e) w'"
    "\<And>t w'. rv_entries V w' = rv_entries V w \<Longrightarrow> rv_launches V w' = rv_launches V w \<Longrightarrow> rv_target V t = rv_loc V d path
       \<Longrightarrow> rv_temp V w' t \<noteq> None \<Longrightarrow> fo_bytes (the (rv_temp V w' t)) = [] \<Longrightarrow> rv_offset V w' (io_file io t) = 0 \<Longrightarrow> Q (Inr t) w'"
  shows "wp (prim (io_createAtomicReplacement io d path mode)) Q w"
proof -
  let ?p = "io_createAtomicReplacement io d path mode w"
  have q: "rv_entries V (snd ?p) = rv_entries V w" "rv_launches V (snd ?p) = rv_launches V w"
    using contract_quiet(3) [OF assms(1), of w d path mode] by (simp_all add: quiet_def still_def)
  show ?thesis
    using assms(2) [OF q] assms(3) [OF q] contract_create [OF assms(1), of d path mode w]
    by (cases "fst ?p") (auto simp: wp_prim)
qed

lemma step_discarding:
  "rooted_contract io V \<Longrightarrow> (\<And>e w'. rv_entries V w' = rv_entries V w \<Longrightarrow> rv_launches V w' = rv_launches V w \<Longrightarrow> Q (Inl e) w')
    \<Longrightarrow> wp (discarding io t description error) Q w"
  by (rule wp_discarding) (auto simp: still_def)

lemma wp_publishStatus: "wp (\<lambda>w. Some (io_publishStatus io t w, w)) Q w = Q (io_publishStatus io t w) w"
  by (simp add: wp_def)

lemma wp_currentExpectation:
  assumes "rooted_contract io V" "\<And>r w'. rv_entries V w' = rv_entries V w \<Longrightarrow> rv_launches V w' = rv_launches V w \<Longrightarrow> Q r w'"
  shows "wp (currentExpectation io d path) Q w"
  unfolding currentExpectation_def by (auto intro!: bound_wps [OF assms(1)] split: sum.split simp: assms(2))

lemma written_simps [simp]:
  "written contents (Some x) \<longleftrightarrow> fo_bytes x = contents" "\<not> written contents None"
  "map_option fo_bytes e = Some contents \<longleftrightarrow> written contents e"
  by (auto simp: written_def)

lemma wp_writeAtomic:
  assumes "rooted_contract io V"
  shows "wp (writeAtomic io d path contents n)
    (\<lambda>r w'. only_at V (rv_loc V d path) (\<lambda>e. length contents \<le> n \<and> written contents e) w w'
      \<and> (r = Inr () \<longrightarrow> length contents \<le> n \<and> written contents (rv_entries V w' (rv_loc V d path)))) w"
  unfolding writeAtomic_def reconcileCommit_def
  by (auto intro!: wp_currentExpectation [OF assms] step_write_create [OF assms] step_write [OF assms]
      step_write_metadata [where b = contents, OF assms] step_write_commit [where b = contents, OF assms]
      step_discarding [OF assms] step_discard [OF assms] wp_readOptional [OF assms]
      simp: wp_publishStatus only_at_def fail_def split: sum.split)

end
