(* ===== verification/Apply_Executor.thy ===== *)
theory Apply_Executor
  imports Apply_Files
begin

text \<open>
  \<open>updater/ApplyExecutor.cpp\<close>: the class \<open>ApplyTransaction\<close> and the functions that start, recover, replay
  and roll back transactions. The constant members of the class are the record \<open>txc\<close>, the members a
  method may change are in \<open>txs\<close> beside the world. A method that takes a record by reference and changes
  it does so just before it returns, so records are passed by value.
\<close>

section \<open>The transaction object\<close>

record ('w, 'd, 'f, 't) txc =
  tc_io :: "('w, 'd, 'f, 't) rooted_io"
  tc_fpText :: "string \<Rightarrow> string"
  tc_plan :: ApplyPlan
  tc_installRoot :: 'd
  tc_backupRoot :: 'd
  tc_stagingRoot :: "'d option"
  tc_limits :: ResourceLimits
  tc_transactionId :: string
  tc_planDigest :: string

record 'w txs =
  ts_world :: 'w
  ts_summary :: ApplyJournalSummary
  ts_preparedBackupBytes :: u64
  ts_active :: bool

definition onw :: "('w, 'a) act \<Rightarrow> ('w txs, 'a) act" where
  "onw m s = (case m (ts_world s) of None \<Rightarrow> None | Some (x, w) \<Rightarrow> Some (x, s\<lparr>ts_world := w\<rparr>))"

definition upd :: "('w txs \<Rightarrow> 'w txs) \<Rightarrow> ('w txs, unit) act" where
  "upd f s = Some ((), f s)"

definition with_summary :: "(ApplyJournalSummary \<Rightarrow> ('w txs, 'a) act) \<Rightarrow> ('w txs, 'a) act" where
  "with_summary f s = f (ts_summary s) s"

lemma wp_onw [simp]: "wp (onw m) Q s = wp m (\<lambda>x w. Q x (s\<lparr>ts_world := w\<rparr>)) (ts_world s)"
  by (auto simp: wp_def onw_def split: option.splits)

lemma wp_upd [simp]: "wp (upd f) Q s = Q () (f s)"
  by (simp add: wp_def upd_def)

lemma wp_with_summary [simp]: "wp (with_summary f) Q s = wp (f (ts_summary s)) Q s"
  by (simp add: wp_def with_summary_def)

definition set_summary :: "(ApplyJournalSummary \<Rightarrow> ApplyJournalSummary) \<Rightarrow> ('w txs, unit) act" where
  "set_summary f = upd (\<lambda>s. s\<lparr>ts_summary := f (ts_summary s)\<rparr>)"

definition intentPhase :: "ApplyPlan \<Rightarrow> ErrorPhase" where
  "intentPhase plan = (if ap_intent plan = Rollback then EP_Rollback else EP_Apply)"

text \<open>The constructor: stored errors are normalised.\<close>

definition new_transaction :: "('w, 'd, 'f, 't) txc \<Rightarrow> ApplyJournalSummary \<Rightarrow> 'w \<Rightarrow> 'w txs" where
  "new_transaction c summary w =
     \<lparr>ts_world = w, ts_summary = normalizeSummaryErrors (intentPhase (tc_plan c)) summary, ts_preparedBackupBytes = 0, ts_active = False\<rparr>"

definition transactionPhase :: "('w, 'd, 'f, 't) txc \<Rightarrow> ErrorPhase" where
  "transactionPhase c = intentPhase (tc_plan c)"

definition restartMayHaveStarted :: "ApplyJournalSummary \<Rightarrow> bool" where
  "restartMayHaveStarted s \<longleftrightarrow> js_restartState s \<in> {RS_Intent, RS_Launched, RS_OutcomeUnknown}"

definition checkpoint :: "('w, 'd, 'f, 't) txc \<Rightarrow> string \<Rightarrow> u64 \<Rightarrow> ('w, unit result) act" where
  "checkpoint c name operationIndex =
     (case io_checkpoint (tc_io c) of
        None \<Rightarrow> ret (Inr ())
      | Some hook \<Rightarrow>
          bnd (\<lambda>w. Some (hook name operationIndex w)) (\<lambda>action.
            ret (case action of
                   None \<Rightarrow> fail EC_ApplyFailed (''Apply transaction checkpoint threw an exception: '' @ name)
                 | Some FA_Fail \<Rightarrow> fail EC_ApplyFailed (''Injected apply failure at transaction boundary: '' @ name)
                 | Some FA_Continue \<Rightarrow> Inr ())))"

section \<open>Persisting the journal\<close>

definition persistSummary :: "('w, 'd, 'f, 't) txc \<Rightarrow> string \<Rightarrow> ('w txs, unit result) act" where
  "persistSummary c boundaryName =
     with_summary (\<lambda>summary. onw (
       call (writeSummary (tc_io c) (tc_fpText c) (tc_limits c) (tc_installRoot c) summary)
         (\<lambda>e. ret (Inl (withErrorPhase e EP_StatePersistence)))
         (\<lambda>_. checkpoint c boundaryName kNoOperation)))"

definition persistCompletion :: "('w, 'd, 'f, 't) txc \<Rightarrow> string \<Rightarrow> ('w txs, unit result) act" where
  "persistCompletion c boundaryName =
     with_summary (\<lambda>summary.
       attempt (if js_completedAt summary \<noteq> None then ret (Inr ())
                else attempt (onw (prim (io_currentUtcInstant (tc_io c)))) (\<lambda>completedAt.
                  bnd (set_summary (\<lambda>s. s\<lparr>js_completedAt := Some completedAt\<rparr>)) (\<lambda>_. ret (Inr ())))) (\<lambda>_.
       bnd (set_summary (\<lambda>s. s\<lparr>js_fileState := FS_Complete\<rparr>)) (\<lambda>_. persistSummary c boundaryName)))"

definition persistOperation :: "('w, 'd, 'f, 't) txc \<Rightarrow> ApplyJournalOperation \<Rightarrow> string \<Rightarrow> ('w, unit result) act" where
  "persistOperation c r boundaryName =
     call (writeOperation (tc_io c) (tc_fpText c) (tc_installRoot c) r)
       (\<lambda>e. ret (Inl (withErrorPhase e EP_StatePersistence)))
       (\<lambda>_. checkpoint c boundaryName (jo_index r))"

definition failOperation :: "('w, 'd, 'f, 't) txc \<Rightarrow> ApplyJournalOperation \<Rightarrow> Error \<Rightarrow> ('w, unit result) act" where
  "failOperation c r error =
     (let operationError = withFallbackErrorPhase error (transactionPhase c)
      in call (writeOperation (tc_io c) (tc_fpText c) (tc_installRoot c) (r\<lparr>jo_error := toJournalError operationError\<rparr>))
           (\<lambda>e. ret (Inl (combinedError operationError ''failed to record operation error'' (withErrorPhase e EP_StatePersistence))))
           (\<lambda>_. call (checkpoint c ''journal.operation_error.after'' (jo_index r))
             (\<lambda>e. ret (Inl (combinedError operationError ''operation error checkpoint failed'' e)))
             (\<lambda>_. ret (Inl operationError))))"

section \<open>Preparing an operation\<close>

text \<open>The record of an operation about to be prepared, from the file that is there.\<close>

definition initialRecord :: "('w, 'd, 'f, 't) txc \<Rightarrow> u64 \<Rightarrow> ApplyOperation \<Rightarrow> string \<Rightarrow> ObservedFile \<Rightarrow> ApplyJournalOperation" where
  "initialRecord c index operation operationId original =
     (let alreadyApplied = matchesInstalled original operation;
          r0 = default_journal_operation\<lparr>jo_transactionId := tc_transactionId c, jo_index := index, jo_operationId := operationId,
            jo_intent := (if op_type operation = Replace then ''replace'' else ''remove''), jo_originalExists := ob_exists original\<rparr>;
          known = permissionsKnown (md_permissions (ob_metadata original));
          r1 = (if ob_exists original
                then r0\<lparr>jo_originalIdentity := md_identity (ob_metadata original), jo_originalSize := md_size (ob_metadata original),
                  jo_originalSha256 := ob_sha256 original, jo_originalPermissionsKnown := known,
                  jo_originalPermissions := (if known then permissionBits (md_permissions (ob_metadata original)) else 0),
                  jo_backupState := (if alreadyApplied then BS_NotRequired else BS_Intent)\<rparr>
                else r0\<lparr>jo_backupState := BS_NotRequired\<rparr>)
      in if alreadyApplied
         then r1\<lparr>jo_applyState := AS_Complete,
                jo_installedIdentity := (if ob_exists original then md_identity (ob_metadata original) else []),
                jo_rollbackState := RB_NotRequired\<rparr>
         else r1)"

text \<open>Closing the backup source on an error path, then recording the error.\<close>

definition failClosing :: "('w, 'd, 'f, 't) txc \<Rightarrow> ApplyJournalOperation \<Rightarrow> 'f \<Rightarrow> string \<Rightarrow> Error \<Rightarrow> ('w, unit result) act" where
  "failClosing c r f description error = bnd (closing (tc_io c) f description error) (failOperation c r)"

definition backupOriginal :: "('w, 'd, 'f, 't) txc \<Rightarrow> u64 \<Rightarrow> ApplyOperation \<Rightarrow> ApplyJournalOperation \<Rightarrow> ('w, unit result) act" where
  "backupOriginal c index operation r =
     (let io = tc_io c;
          closing_fail = (\<lambda>f. failClosing c r f ''; failed to close backup source: '')
      in call (checkpoint c ''backup.before'' index) (failOperation c r) (\<lambda>_.
         call (prim (io_openRegularFile io (tc_installRoot c) (op_target operation) OM_ReadOnly DM_Private)) (failOperation c r) (\<lambda>source.
         case source of
           None \<Rightarrow> failOperation c r (mk_error EC_SecurityPolicyViolation ''Managed target disappeared before backup'')
         | Some f \<Rightarrow>
             call (prim (io_metadata io f)) (closing_fail f) (\<lambda>metadata.
               if md_identity metadata \<noteq> jo_originalIdentity r
               then closing_fail f (mk_error EC_SecurityPolicyViolation ''Managed target identity changed before backup'')
               else
                 call (ensureBackup io (tc_backupRoot c) (op_target operation) f r) (closing_fail f) (\<lambda>_.
                 call (prim (io_close io f)) (failOperation c r) (\<lambda>_.
                 call (checkpoint c ''backup.after'' index) (failOperation c r) (\<lambda>_.
                   let durable = r\<lparr>jo_backupState := BS_Durable\<rparr>
                   in call (persistOperation c durable ''journal.backup_durable.after'') (failOperation c durable) (\<lambda>_.
                        ret (Inr ()))))))))) "

definition backupBudgetExceeded :: "ResourceLimits \<Rightarrow> u64 \<Rightarrow> u64 \<Rightarrow> bool" where
  "backupBudgetExceeded limits prepared bytes \<longleftrightarrow>
     bytes > maxArtifactBytes limits \<or> prepared > maxTotalArtifactBytes limits \<or> bytes > maxTotalArtifactBytes limits - prepared"

definition prepareOne :: "('w, 'd, 'f, 't) txc \<Rightarrow> u64 \<Rightarrow> ApplyOperation \<Rightarrow> ('w txs, unit result) act" where
  "prepareOne c index operation =
     attempt (liftr (applyOperationId (tc_transactionId c) index operation)) (\<lambda>operationId.
     attempt (onw (observeFile (tc_io c) (tc_installRoot c) (op_target operation))) (\<lambda>original.
       if (case op_precondition operation of None \<Rightarrow> False | Some p \<Rightarrow> \<not> matchesPrecondition original p)
       then ret (fail EC_SecurityPolicyViolation ''Managed target no longer matches the transaction precondition'')
       else
         let r = initialRecord c index operation operationId original
         in call (onw (persistOperation c r ''journal.operation_initial.after'')) (\<lambda>e. onw (failOperation c r e)) (\<lambda>_.
            if matchesInstalled original operation then ret (Inr ())
            else if \<not> jo_originalExists r then ret (Inr ())
            else (\<lambda>s.
              if backupBudgetExceeded (tc_limits c) (ts_preparedBackupBytes s) (jo_originalSize r)
              then onw (failOperation c r (mk_error EC_ResourceLimitExceeded ''Rollback backup exceeds its byte budget'')) s
              else bnd (upd (\<lambda>s. s\<lparr>ts_preparedBackupBytes := ts_preparedBackupBytes s + jo_originalSize r\<rparr>))
                     (\<lambda>_. onw (backupOriginal c index operation r)) s))))"

section \<open>Applying an operation\<close>

definition installedPermissions :: "ApplyOperation \<Rightarrow> ObservedFile \<Rightarrow> perms" where
  "installedPermissions operation original =
     (case op_permissions operation of
        Some bits \<Rightarrow> bits
      | None \<Rightarrow> if ob_exists original then sanitizedFilePermissions (md_permissions (ob_metadata original))
               else defaultInstalledFilePermissions)"

text \<open>The lambda \<open>abandonTemporary\<close>.\<close>

definition abandonTemporary :: "('w, 'd, 'f, 't) txc \<Rightarrow> ApplyJournalOperation \<Rightarrow> 't \<Rightarrow> string \<Rightarrow> Error \<Rightarrow> ('w, unit result) act" where
  "abandonTemporary c r temporary description error =
     call (abandon (tc_io c) temporary description error) (failOperation c r) (\<lambda>_. failOperation c r error)"

text \<open>Publication of the prepared file, from the recorded intent to the recorded completion.\<close>

definition publishReplacement :: "('w, 'd, 'f, 't) txc \<Rightarrow> ApplyJournalOperation \<Rightarrow> ApplyOperation \<Rightarrow> RootedEntryExpectation \<Rightarrow> 't
    \<Rightarrow> string \<Rightarrow> ('w, unit result) act" where
  "publishReplacement c r0 operation expectation temporary preparedIdentity =
     (let io = tc_io c; r = r0\<lparr>jo_applyState := AS_Intent\<rparr>
      in call (persistOperation c r ''journal.apply_intent.after'')
           (abandonTemporary c r temporary ''failed to discard installed file after journal error'') (\<lambda>_.
         call (checkpoint c ''replace.before'' (jo_index r))
           (abandonTemporary c r temporary ''failed to discard installed file after checkpoint error'') (\<lambda>_.
         bnd (prim (io_commit io temporary expectation)) (\<lambda>committed.
         bnd (finishTemporary io temporary committed ''failed to finish installed-file cleanup'' True) (\<lambda>(finished, publicationFailure).
         call (liftr finished) (failOperation c r) (\<lambda>_.
         call (checkpoint c ''replace.after'' (jo_index r))
           (\<lambda>e. failOperation c r (preservePublicationFailure publicationFailure ''post-publication checkpoint failed'' e)) (\<lambda>_.
         call (observeFile io (tc_installRoot c) (op_target operation))
           (\<lambda>e. failOperation c r (preservePublicationFailure publicationFailure ''failed to reconcile installed-file publication'' e)) (\<lambda>installed.
           if \<not> matchesInstalled installed operation \<or> md_identity (ob_metadata installed) \<noteq> preparedIdentity
           then failOperation c r (preservePublicationFailure publicationFailure ''failed to reconcile installed-file publication''
             (mk_error EC_HashMismatch ''Installed file does not match the signed apply plan''))
           else
             let complete = r\<lparr>jo_installedIdentity := md_identity (ob_metadata installed), jo_applyState := AS_Complete,
                   jo_error := no_journal_error\<rparr>
             in call (persistOperation c complete ''journal.apply_complete.after'') (failOperation c complete) (\<lambda>_.
                  ret (Inr ()))))))))))"

definition applyReplacement :: "('w, 'd, 'f, 't) txc \<Rightarrow> ApplyJournalOperation \<Rightarrow> ApplyOperation \<Rightarrow> RootedEntryExpectation \<Rightarrow> ObservedFile
    \<Rightarrow> ('w, unit result) act" where
  "applyReplacement c r operation expectation original =
     (let io = tc_io c;
          closing_fail = (\<lambda>f. failClosing c r f ''; failed to close staged update file: '')
      in case tc_stagingRoot c of
           None \<Rightarrow> failOperation c r (mk_error EC_FileSystemError ''Staging root is unavailable'')
         | Some stagingRoot \<Rightarrow>
             call (prim (io_openRegularFile io stagingRoot (op_source operation) OM_ReadOnly DM_Private)) (failOperation c r) (\<lambda>source.
             case source of
               None \<Rightarrow> failOperation c r (mk_error EC_FileSystemError ''Staged update file is missing'')
             | Some f \<Rightarrow>
                 call (verifyEvidence io f (op_size operation) (op_sha256 operation) ''Staged update file'') (closing_fail f) (\<lambda>_.
                 call (prim (io_createAtomicReplacement io (tc_installRoot c) (op_target operation) DM_InstalledContent)) (closing_fail f) (\<lambda>temporary.
                 call (copyRootedFile io f (io_file io temporary))
                   (\<lambda>e. bnd (closing io f ''; failed to close staged update file: '' e)
                     (abandonTemporary c r temporary ''failed to discard incomplete installed file'')) (\<lambda>_.
                 call (prim (io_close io f))
                   (abandonTemporary c r temporary ''failed to discard installed file after source close error'') (\<lambda>_.
                 call (prim (io_setPermissions io (io_file io temporary) (installedPermissions operation original)))
                   (abandonTemporary c r temporary ''failed to discard installed file after permission error'') (\<lambda>_.
                 call (verifyEvidence io (io_file io temporary) (op_size operation) (op_sha256 operation) ''Prepared installed file'')
                   (abandonTemporary c r temporary ''failed to discard unverified installed file'') (\<lambda>_.
                 call (prim (io_metadata io (io_file io temporary)))
                   (abandonTemporary c r temporary ''failed to discard installed file after metadata error'') (\<lambda>preparedMetadata.
                   publishReplacement c r operation expectation temporary (md_identity preparedMetadata))))))))))"

text \<open>A failed removal is reconciled with what is there, and reported in any case.\<close>

definition reconcileRemoval :: "('w, 'd, 'f, 't) txc \<Rightarrow> string \<Rightarrow> string \<Rightarrow> Error \<Rightarrow> ('w, Error) act" where
  "reconcileRemoval c target what error =
     call (observeFile (tc_io c) (tc_installRoot c) target)
       (\<lambda>e. ret (note_also error (''; failed to reconcile '' @ what @ '' removal: '' @ err_message e)))
       (\<lambda>observed.
         if ob_exists observed then ret error
         else bnd (prim (io_removeRegularFile (tc_io c) (tc_installRoot c) target ExpectMissing)) (\<lambda>durable.
           ret (case durable of
                  Inl e \<Rightarrow> note_also error (''; failed to persist reconciled '' @ what @ '' removal: '' @ err_message e)
                | Inr _ \<Rightarrow> error)))"

text \<open>The end of a removal: the target must be gone, and the completion is recorded.\<close>

definition finishRemoval :: "('w, 'd, 'f, 't) txc \<Rightarrow> ApplyJournalOperation \<Rightarrow> ApplyOperation \<Rightarrow> ('w, unit result) act" where
  "finishRemoval c r operation =
     call (observeFile (tc_io c) (tc_installRoot c) (op_target operation)) (failOperation c r) (\<lambda>installed.
       if ob_exists installed then failOperation c r (mk_error EC_ApplyFailed ''Removed managed target is still present'')
       else
         let complete = r\<lparr>jo_installedIdentity := [], jo_applyState := AS_Complete, jo_error := no_journal_error\<rparr>
         in call (persistOperation c complete ''journal.apply_complete.after'') (failOperation c complete) (\<lambda>_. ret (Inr ())))"

definition applyRemoval :: "('w, 'd, 'f, 't) txc \<Rightarrow> ApplyJournalOperation \<Rightarrow> ApplyOperation \<Rightarrow> RootedEntryExpectation \<Rightarrow> ('w, unit result) act" where
  "applyRemoval c r0 operation expectation =
     (let r = r0\<lparr>jo_applyState := AS_Intent\<rparr>
      in call (persistOperation c r ''journal.apply_intent.after'') (failOperation c r) (\<lambda>_.
         if jo_originalExists r
         then
           call (checkpoint c ''remove.before'' (jo_index r)) (failOperation c r) (\<lambda>_.
           call (prim (io_removeRegularFile (tc_io c) (tc_installRoot c) (op_target operation) expectation))
             (\<lambda>e. bnd (reconcileRemoval c (op_target operation) ''managed'' e) (failOperation c r)) (\<lambda>_.
           call (checkpoint c ''remove.after'' (jo_index r)) (failOperation c r) (\<lambda>_.
             finishRemoval c r operation)))
         else finishRemoval c r operation))"

text \<open>Whether a prepared record may be acted on.\<close>

definition preparedInconsistent :: "ApplyJournalOperation \<Rightarrow> bool" where
  "preparedInconsistent r \<longleftrightarrow>
     jo_applyState r \<noteq> AS_Pending \<or> jo_rollbackState r \<noteq> RB_NotStarted
     \<or> (jo_originalExists r \<and> jo_backupState r \<noteq> BS_Durable)"

definition applyOne :: "('w, 'd, 'f, 't) txc \<Rightarrow> u64 \<Rightarrow> ApplyOperation \<Rightarrow> ('w, unit result) act" where
  "applyOne c index operation =
     call (readJournalOperation (tc_io c) (tc_installRoot c) (tc_transactionId c) index)
       (\<lambda>e. ret (Inl (withErrorPhase e EP_StatePersistence))) (\<lambda>loaded.
     case loaded of
       None \<Rightarrow> ret (fail EC_ApplyFailed ''Prepared apply operation record is missing'')
     | Some l \<Rightarrow>
         let r = l\<lparr>jo_error := normalizeJournalError (jo_error l) EC_ApplyFailed (transactionPhase c)\<rparr>
         in attempt (liftr (applyOperationId (tc_transactionId c) index operation)) (\<lambda>operationId.
              if jo_operationId r \<noteq> operationId then ret (fail EC_ApplyFailed ''Prepared apply operation identity mismatch'')
              else
                call (observeFile (tc_io c) (tc_installRoot c) (op_target operation)) (failOperation c r) (\<lambda>original.
                  if \<not> matchesOriginal original r
                     \<or> (jo_originalExists r \<and> md_identity (ob_metadata original) \<noteq> jo_originalIdentity r)
                  then failOperation c r (mk_error EC_SecurityPolicyViolation ''Managed target changed after transaction preparation'')
                  else if jo_applyState r = AS_Complete \<and> jo_rollbackState r = RB_NotRequired
                  then (if \<not> matchesInstalled original operation
                        then failOperation c r (mk_error EC_HashMismatch ''Idempotent apply target changed'')
                        else ret (Inr ()))
                  else if preparedInconsistent r
                  then failOperation c r (mk_error EC_ApplyFailed ''Prepared apply operation state is inconsistent'')
                  else
                    let expectation = (if jo_originalExists r then matching (ob_metadata original) else ExpectMissing)
                    in if op_type operation = Replace then applyReplacement c r operation expectation original
                       else applyRemoval c r operation expectation)))"

section \<open>Reading the records back\<close>

definition expectedIntent :: "ApplyOperation \<Rightarrow> string" where
  "expectedIntent operation = (if op_type operation = Replace then ''replace'' else ''remove'')"

fun loadRecords :: "('w, 'd, 'f, 't) txc \<Rightarrow> nat \<Rightarrow> ApplyOperation list \<Rightarrow> ('w, ApplyJournalOperation list result) act" where
  "loadRecords c index [] = ret (Inr [])"
| "loadRecords c index (operation # operations) =
     call (readJournalOperation (tc_io c) (tc_installRoot c) (tc_transactionId c) (of_nat index))
       (\<lambda>e. ret (Inl (withErrorPhase e EP_StatePersistence))) (\<lambda>loaded.
     case loaded of
       None \<Rightarrow> ret (fail EC_ApplyFailed ''Active apply transaction is missing a prepared operation record'')
     | Some r \<Rightarrow>
         attempt (liftr (applyOperationId (tc_transactionId c) (of_nat index) operation)) (\<lambda>expectedId.
           if jo_operationId r \<noteq> expectedId \<or> jo_intent r \<noteq> expectedIntent operation
           then ret (fail EC_ApplyFailed ''Apply journal operation does not match its plan snapshot'')
           else
             let phase = (if jo_rollbackState r = RB_Failed then EP_Rollback else transactionPhase c)
             in attempt (loadRecords c (Suc index) operations) (\<lambda>rs.
                  ret (Inr (r\<lparr>jo_error := normalizeJournalError (jo_error r) EC_ApplyFailed phase\<rparr> # rs)))))"

definition loadOperationRecords :: "('w, 'd, 'f, 't) txc \<Rightarrow> ApplyJournalSummary \<Rightarrow> ('w, ApplyJournalOperation list result) act" where
  "loadOperationRecords c summary =
     (if unat (js_operationCount summary) \<noteq> length (ap_operations (tc_plan c))
      then ret (fail EC_ApplyFailed ''Apply journal operation count does not match its plan snapshot'')
      else loadRecords c 0 (ap_operations (tc_plan c)))"

text \<open>The operation of a record, \<open>plan_.operations[record.index]\<close>: the reader has checked the index.\<close>

definition operationOf :: "('w, 'd, 'f, 't) txc \<Rightarrow> ApplyJournalOperation \<Rightarrow> ApplyOperation" where
  "operationOf c r = ap_operations (tc_plan c) ! unat (jo_index r)"

definition verifyBackup :: "('w, 'd, 'f, 't) txc \<Rightarrow> ApplyJournalOperation \<Rightarrow> string \<Rightarrow> ('w, unit result) act" where
  "verifyBackup c r target =
     attempt (prim (io_openRegularFile (tc_io c) (tc_backupRoot c) target OM_ReadOnly DM_Private)) (\<lambda>backup.
     case backup of
       None \<Rightarrow> ret (fail EC_ApplyFailed ''Applied transaction backup is missing'')
     | Some f \<Rightarrow>
         call (verifyOriginalEvidence (tc_io c) f r ''Applied transaction backup'')
           (\<lambda>e. bnd (closing (tc_io c) f ''; failed to close applied transaction backup: '' e) (\<lambda>e'. ret (Inl e')))
           (\<lambda>_. prim (io_close (tc_io c) f)))"

definition verifyAppliedOne :: "('w, 'd, 'f, 't) txc \<Rightarrow> ApplyJournalOperation \<Rightarrow> ('w, unit result) act" where
  "verifyAppliedOne c r =
     (if jo_applyState r \<noteq> AS_Complete \<or> \<not> journalError_empty (jo_error r)
      then ret (fail EC_ApplyFailed ''Applied transaction contains an incomplete operation'')
      else
        attempt (observeFile (tc_io c) (tc_installRoot c) (op_target (operationOf c r))) (\<lambda>target.
          if \<not> matchesInstalled target (operationOf c r)
          then ret (fail EC_HashMismatch ''Installed target no longer matches the apply journal'')
          else if jo_originalExists r
          then (if jo_backupState r = BS_NotRequired \<and> jo_rollbackState r = RB_NotRequired \<and> matchesOriginal target r
                then ret (Inr ())
                else if jo_backupState r \<noteq> BS_Durable
                then ret (fail EC_ApplyFailed ''Applied transaction has no durable backup record'')
                else verifyBackup c r (op_target (operationOf c r)))
          else if jo_backupState r \<noteq> BS_NotRequired
          then ret (fail EC_ApplyFailed ''Applied transaction has an inconsistent backup state'')
          else ret (Inr ())))"

fun verifyAppliedAll :: "('w, 'd, 'f, 't) txc \<Rightarrow> ApplyJournalOperation list \<Rightarrow> ('w, unit result) act" where
  "verifyAppliedAll c [] = ret (Inr ())"
| "verifyAppliedAll c (r # rs) = attempt (verifyAppliedOne c r) (\<lambda>_. verifyAppliedAll c rs)"

definition verifyAppliedState :: "('w, 'd, 'f, 't) txc \<Rightarrow> ApplyJournalSummary \<Rightarrow> ('w, unit result) act" where
  "verifyAppliedState c summary =
     attempt (loadOperationRecords c summary) (\<lambda>records.
       if length records \<noteq> length (ap_operations (tc_plan c))
       then ret (fail EC_ApplyFailed ''Applied transaction is missing operation records'')
       else verifyAppliedAll c records)"

section \<open>Rolling back\<close>

definition markRollbackOperationFailed :: "('w, 'd, 'f, 't) txc \<Rightarrow> ApplyJournalOperation \<Rightarrow> Error \<Rightarrow> ('w, unit result) act" where
  "markRollbackOperationFailed c r error =
     (let rollbackError = withErrorPhase error EP_Rollback
      in call (writeOperation (tc_io c) (tc_fpText c) (tc_installRoot c)
                 (r\<lparr>jo_rollbackState := RB_Failed, jo_error := toJournalError rollbackError\<rparr>))
           (\<lambda>e. ret (Inl (combinedError rollbackError ''failed to record rollback error'' (withErrorPhase e EP_StatePersistence))))
           (\<lambda>_. call (checkpoint c ''journal.rollback_failed.after'' (jo_index r))
             (\<lambda>e. ret (Inl (combinedError rollbackError ''rollback error checkpoint failed'' e)))
             (\<lambda>_. ret (Inl rollbackError))))"

definition markClosing :: "('w, 'd, 'f, 't) txc \<Rightarrow> ApplyJournalOperation \<Rightarrow> 'f \<Rightarrow> Error \<Rightarrow> ('w, unit result) act" where
  "markClosing c r f error =
     bnd (closing (tc_io c) f ''; failed to close rollback backup: '' error) (markRollbackOperationFailed c r)"

text \<open>The end of a rollback: the target must be the journaled original again.\<close>

definition finishRollback :: "('w, 'd, 'f, 't) txc \<Rightarrow> ApplyJournalOperation \<Rightarrow> ApplyOperation \<Rightarrow> ('w, unit result) act" where
  "finishRollback c r operation =
     call (observeFile (tc_io c) (tc_installRoot c) (op_target operation)) (markRollbackOperationFailed c r) (\<lambda>restored.
       if \<not> matchesOriginal restored r
       then markRollbackOperationFailed c r (mk_error EC_HashMismatch ''Rollback result does not match the journal'')
       else persistOperation c (r\<lparr>jo_rollbackState := RB_Complete, jo_error := no_journal_error\<rparr>) ''journal.rollback_complete.after'')"

definition restoreOriginal :: "('w, 'd, 'f, 't) txc \<Rightarrow> ApplyJournalOperation \<Rightarrow> ApplyOperation \<Rightarrow> ObservedFile \<Rightarrow> ('w, unit result) act" where
  "restoreOriginal c r operation target =
     (let io = tc_io c; failed = markRollbackOperationFailed c r
      in if jo_backupState r \<noteq> BS_Durable then failed (mk_error EC_ApplyFailed ''A durable rollback backup was not recorded'')
         else
           call (prim (io_openRegularFile io (tc_backupRoot c) (op_target operation) OM_ReadOnly DM_Private)) failed (\<lambda>backup.
           case backup of
             None \<Rightarrow> failed (mk_error EC_ApplyFailed ''Required rollback backup is missing'')
           | Some f \<Rightarrow>
               call (verifyOriginalEvidence io f r ''Rollback backup'') (markClosing c r f) (\<lambda>_.
               call (checkpoint c ''rollback.replace.before'' (jo_index r)) (markClosing c r f) (\<lambda>_.
               call (copyToReplacement io (tc_installRoot c) (op_target operation) DM_InstalledContent f
                       (if ob_exists target then matching (ob_metadata target) else ExpectMissing)
                       (jo_originalSize r) (jo_originalSha256 r)) (markClosing c r f) (\<lambda>_.
               call (prim (io_close io f)) failed (\<lambda>_.
               call (checkpoint c ''rollback.replace.after'' (jo_index r)) failed (\<lambda>_.
                 finishRollback c r operation)))))))"

definition removeInstalled :: "('w, 'd, 'f, 't) txc \<Rightarrow> ApplyJournalOperation \<Rightarrow> ApplyOperation \<Rightarrow> ObservedFile \<Rightarrow> ('w, unit result) act" where
  "removeInstalled c r operation target =
     (let failed = markRollbackOperationFailed c r
      in call (checkpoint c ''rollback.remove.before'' (jo_index r)) failed (\<lambda>_.
         call (prim (io_removeRegularFile (tc_io c) (tc_installRoot c) (op_target operation) (matching (ob_metadata target))))
           (\<lambda>e. bnd (reconcileRemoval c (op_target operation) ''rollback'' e) failed) (\<lambda>_.
         call (checkpoint c ''rollback.remove.after'' (jo_index r)) failed (\<lambda>_.
           finishRollback c r operation))))"

definition rollbackOne :: "('w, 'd, 'f, 't) txc \<Rightarrow> ApplyJournalOperation \<Rightarrow> ApplyOperation \<Rightarrow> ('w, unit result) act" where
  "rollbackOne c r operation =
     call (observeFile (tc_io c) (tc_installRoot c) (op_target operation)) (markRollbackOperationFailed c r) (\<lambda>target.
       if matchesOriginal target r
       then persistOperation c
              (r\<lparr>jo_rollbackState := (if jo_applyState r = AS_Pending then RB_NotRequired else RB_Complete), jo_error := no_journal_error\<rparr>)
              ''journal.rollback_complete.after''
       else
         let mutationMayHaveRun = (jo_applyState r \<noteq> AS_Pending);
             interruptedReplacementGap = (mutationMayHaveRun \<and> jo_originalExists r \<and> \<not> ob_exists target
               \<and> op_type operation = Replace \<and> jo_backupState r = BS_Durable)
         in if \<not> mutationMayHaveRun \<or> (\<not> matchesInstalled target operation \<and> \<not> interruptedReplacementGap)
            then markRollbackOperationFailed c r (mk_error EC_SecurityPolicyViolation
              ''Managed target no longer matches either the journaled original or installed content'')
            else
              let r' = r\<lparr>jo_rollbackState := RB_Intent, jo_error := no_journal_error\<rparr>
              in attempt (persistOperation c r' ''journal.rollback_intent.after'') (\<lambda>_.
                   if jo_originalExists r' then restoreOriginal c r' operation target
                   else removeInstalled c r' operation target))"

fun rollbackRecords :: "('w, 'd, 'f, 't) txc \<Rightarrow> ApplyJournalOperation list \<Rightarrow> ('w, unit result) act" where
  "rollbackRecords c [] = ret (Inr ())"
| "rollbackRecords c (r # rs) = attempt (rollbackOne c r (operationOf c r)) (\<lambda>_. rollbackRecords c rs)"

definition rollbackAll :: "('w, 'd, 'f, 't) txc \<Rightarrow> ApplyJournalSummary \<Rightarrow> ('w, unit result) act" where
  "rollbackAll c summary = attempt (loadOperationRecords c summary) (\<lambda>records. rollbackRecords c (rev records))"

end
