(* ===== verification/Apply_Transactions.thy ===== *)
theory Apply_Transactions
  imports Apply_Executor
begin

text \<open>
  \<open>updater/ApplyExecutor.cpp\<close>: the life of a transaction (\<open>start\<close>, \<open>recover\<close>, \<open>replayTerminal\<close>), explicit
  rollback requests, and \<open>executeApplyPlanWithDependencies\<close>. \<open>lexically_normal\<close> is the POSIX form of
  \<open>std::filesystem::path::lexically_normal\<close>. The dependencies are all present, so the check for a missing one
  and the handlers for an exhausted allocator have no counterpart.
\<close>

section \<open>Ending a transaction\<close>

definition clearActive :: "('w, 'd, 'f, 't) txc \<Rightarrow> ('w txs, unit result) act" where
  "clearActive c =
     call (onw (journalClearActive (tc_io c) (tc_installRoot c) (tc_transactionId c)))
       (\<lambda>e. ret (Inl (withErrorPhase e EP_StatePersistence)))
       (\<lambda>_. bnd (upd (\<lambda>s. s\<lparr>ts_active := False\<rparr>)) (\<lambda>_. onw (checkpoint c ''journal.active_clear.after'' kNoOperation)))"

definition publishTerminalAndClear :: "('w, 'd, 'f, 't) txc \<Rightarrow> ('w txs, unit result) act" where
  "publishTerminalAndClear c =
     with_summary (\<lambda>summary.
       if js_completedAt summary = None
       then ret (fail EC_ApplyFailed ''Completed apply journal is missing its completion timestamp'')
       else
         call (onw (writeTerminal (tc_io c) (tc_fpText c) (tc_installRoot c)
                      \<lparr>rc_transactionId = tc_transactionId c, rc_planDigest = tc_planDigest c, rc_completedAt = js_completedAt summary\<rparr>))
           (\<lambda>e. ret (Inl (withErrorPhase e EP_StatePersistence)))
           (\<lambda>_. attempt (onw (checkpoint c ''journal.terminal.after'' kNoOperation)) (\<lambda>_. clearActive c)))"

definition completedRestartFailure :: "ApplyJournalSummary \<Rightarrow> Error option" where
  "completedRestartFailure s =
     (if js_restartState s = RS_Failed
      then Some (withErrorPhase (mk_error EC_ApplyLaunchFailed
        (if je_message (js_restartError s) = [] then ''Files were installed but restart failed'' else je_message (js_restartError s))) EP_Restart)
      else if js_restartState s = RS_OutcomeUnknown \<or> js_restartState s = RS_Intent
      then Some (withErrorPhase (mk_error EC_ApplyLaunchFailed
        ''Files were installed but the restart outcome is unknown; restart was not repeated'') EP_Restart)
      else None)"

text \<open>The three lines that end every completed transaction.\<close>

definition complete :: "('w, 'd, 'f, 't) txc \<Rightarrow> ('w txs, unit result) act" where
  "complete c = attempt (persistCompletion c ''journal.complete.after'') (\<lambda>_. publishTerminalAndClear c)"

definition restartFailed :: "('w, 'd, 'f, 't) txc \<Rightarrow> Error \<Rightarrow> ('w txs, unit result) act" where
  "restartFailed c launchError =
     (let restartError = withErrorPhase launchError EP_Restart
      in bnd (set_summary (\<lambda>s. s\<lparr>js_restartState := RS_Failed, js_restartError := toJournalError restartError\<rparr>)) (\<lambda>_.
         call (persistCompletion c ''journal.restart_failed.after'')
           (\<lambda>e. ret (Inl (combinedError restartError ''failed to record restart failure'' e))) (\<lambda>_.
         call (publishTerminalAndClear c)
           (\<lambda>e. ret (Inl (combinedError restartError ''failed to clear completed transaction'' e))) (\<lambda>_.
           ret (Inl (withErrorPhase (mk_error EC_ApplyLaunchFailed
             (''Files were installed but restart failed: '' @ err_message launchError)) EP_Restart))))))"

definition launchAndFinish :: "('w, 'd, 'f, 't) txc \<Rightarrow> ('w txs, unit result) act" where
  "launchAndFinish c =
     bnd (set_summary (\<lambda>s. s\<lparr>js_restartState := RS_Intent, js_restartError := no_journal_error\<rparr>)) (\<lambda>_.
     attempt (persistSummary c ''journal.restart_intent.after'') (\<lambda>_.
     call (onw (launchRestart (tc_io c) (tc_plan c))) (restartFailed c) (\<lambda>_.
     call (onw (checkpoint c ''restart.after'' kNoOperation)) (\<lambda>e. ret (Inl (withErrorPhase e EP_Restart))) (\<lambda>_.
     bnd (set_summary (\<lambda>s. s\<lparr>js_restartState := RS_Launched\<rparr>)) (\<lambda>_. complete c)))))"

definition finishRestart :: "('w, 'd, 'f, 't) txc \<Rightarrow> ('w txs, unit result) act" where
  "finishRestart c =
     (if ap_restartCommand (tc_plan c) = []
      then bnd (set_summary (\<lambda>s. s\<lparr>js_restartState := RS_NotRequested\<rparr>)) (\<lambda>_. complete c)
      else with_summary (\<lambda>summary.
        case js_restartState summary of
          RS_Intent \<Rightarrow>
            let restartError = withErrorPhase (mk_error EC_ApplyLaunchFailed
                  ''Restart intent was interrupted; the process was not launched again'') EP_Restart
            in bnd (set_summary (\<lambda>s. s\<lparr>js_restartState := RS_OutcomeUnknown, js_restartError := toJournalError restartError\<rparr>)) (\<lambda>_.
               attempt (complete c) (\<lambda>_. ret (Inl restartError)))
        | RS_Launched \<Rightarrow> complete c
        | RS_Failed \<Rightarrow> attempt (complete c) (\<lambda>_. ret (Inl (the (completedRestartFailure summary))))
        | RS_OutcomeUnknown \<Rightarrow> attempt (complete c) (\<lambda>_. ret (Inl (the (completedRestartFailure summary))))
        | RS_NotRequested \<Rightarrow> ret (Inl (withErrorPhase (mk_error EC_ApplyFailed ''Apply journal restart state is inconsistent'') EP_Restart))
        | RS_NotAttempted \<Rightarrow> launchAndFinish c))"

section \<open>Failing and rolling back\<close>

definition recordRollbackFailure :: "('w, 'd, 'f, 't) txc \<Rightarrow> Error \<Rightarrow> Error \<Rightarrow> ('w txs, unit result) act" where
  "recordRollbackFailure c original rollbackError =
     (let classified = withErrorPhase rollbackError EP_Rollback;
          both = combinedError original ''rollback failed'' classified
      in bnd (set_summary (\<lambda>s. s\<lparr>js_fileState := FS_RecoveryFailed, js_rollbackError := toJournalError classified\<rparr>)) (\<lambda>_.
         with_summary (\<lambda>summary.
         call (onw (writeSummary (tc_io c) (tc_fpText c) (tc_limits c) (tc_installRoot c) summary))
           (\<lambda>e. ret (Inl (combinedError both ''failed to record rollback failure'' (withErrorPhase e EP_StatePersistence)))) (\<lambda>_.
         call (onw (checkpoint c ''journal.recovery_failed.after'' kNoOperation))
           (\<lambda>e. ret (Inl (combinedError both ''recovery failure checkpoint failed'' e))) (\<lambda>_.
           ret (Inl both))))))"

definition recordTerminalReconciliationFailure :: "('w, 'd, 'f, 't) txc \<Rightarrow> Error \<Rightarrow> ('w txs, unit result) act" where
  "recordTerminalReconciliationFailure c error =
     (let recoveryError = withFallbackErrorPhase error EP_Recovery
      in bnd (set_summary (\<lambda>s. s\<lparr>js_applyError := toJournalError recoveryError\<rparr>)) (\<lambda>_.
         bnd (set_summary (\<lambda>s. if js_restartState s = RS_Intent
                then s\<lparr>js_restartState := RS_OutcomeUnknown, js_restartError := toJournalError (withErrorPhase
                  (mk_error EC_ApplyLaunchFailed ''Restart intent was interrupted before terminal file reconciliation'') EP_Restart)\<rparr>
                else s)) (\<lambda>_.
         call (persistSummary c ''journal.terminal_reconciliation_failed.after'')
           (\<lambda>e. ret (Inl (combinedError recoveryError ''failed to persist terminal reconciliation failure'' e)))
           (\<lambda>_. ret (Inl recoveryError)))))"

text \<open>The common part of \<open>recoverByRollback\<close> and \<open>failAndRollback\<close>, which differ in three messages.\<close>

definition rollbackTransaction :: "('w, 'd, 'f, 't) txc \<Rightarrow> Error \<Rightarrow> string \<Rightarrow> string \<Rightarrow> string \<Rightarrow> ('w txs, unit result) act" where
  "rollbackTransaction c error markFailed completionFailed clearFailed =
     call (persistSummary c ''journal.rollback_summary.after'') (\<lambda>e. ret (Inl (combinedError error markFailed e))) (\<lambda>_.
     call (with_summary (\<lambda>summary. onw (rollbackAll c summary))) (recordRollbackFailure c error) (\<lambda>_.
     bnd (set_summary (\<lambda>s. s\<lparr>js_fileState := FS_RolledBack, js_rollbackError := no_journal_error\<rparr>)) (\<lambda>_.
     call (persistSummary c ''journal.rolled_back.after'') (\<lambda>e. ret (Inl (combinedError error completionFailed e))) (\<lambda>_.
     call (clearActive c) (\<lambda>e. ret (Inl (combinedError error clearFailed e))) (\<lambda>_.
       ret (Inl error))))))"

definition recoverByRollback :: "('w, 'd, 'f, 't) txc \<Rightarrow> Error \<Rightarrow> ('w txs, unit result) act" where
  "recoverByRollback c interrupted =
     (let recoveryError = withFallbackErrorPhase interrupted EP_Recovery
      in bnd (set_summary (\<lambda>s. s\<lparr>js_fileState := FS_RollingBack, js_rollbackError := no_journal_error,
                js_applyError := (if journalError_empty (js_applyError s) then toJournalError recoveryError else js_applyError s)\<rparr>)) (\<lambda>_.
         rollbackTransaction c recoveryError ''failed to persist recovery intent'' ''failed to persist recovered rollback''
           ''failed to clear recovered transaction''))"

definition failAndRollback :: "('w, 'd, 'f, 't) txc \<Rightarrow> Error \<Rightarrow> ('w txs, unit result) act" where
  "failAndRollback c original =
     (let transactionError = withFallbackErrorPhase original (transactionPhase c)
      in (\<lambda>s. if \<not> ts_active s then Some (Inl transactionError, s)
         else bnd (set_summary (\<lambda>m. m\<lparr>js_applyError := toJournalError transactionError, js_fileState := FS_RollingBack,
                js_rollbackError := no_journal_error\<rparr>)) (\<lambda>_.
              rollbackTransaction c transactionError ''failed to persist rollback intent'' ''failed to persist rollback completion''
                ''failed to clear rolled-back transaction'') s))"

section \<open>Starting\<close>

fun prepareAll :: "('w, 'd, 'f, 't) txc \<Rightarrow> nat \<Rightarrow> ApplyOperation list \<Rightarrow> ('w txs, unit result) act" where
  "prepareAll c index [] = ret (Inr ())"
| "prepareAll c index (operation # operations) =
     attempt (prepareOne c (of_nat index) operation) (\<lambda>_. prepareAll c (Suc index) operations)"

fun applyAll :: "('w, 'd, 'f, 't) txc \<Rightarrow> nat \<Rightarrow> ApplyOperation list \<Rightarrow> ('w, unit result) act" where
  "applyAll c index [] = ret (Inr ())"
| "applyAll c index (operation # operations) =
     attempt (applyOne c (of_nat index) operation) (\<lambda>_. applyAll c (Suc index) operations)"

text \<open>From the published active pointer on: failures roll back.\<close>

definition applyPrepared :: "('w, 'd, 'f, 't) txc \<Rightarrow> ('w txs, unit result) act" where
  "applyPrepared c =
     call (onw (checkpoint c ''journal.active.after'' kNoOperation)) (failAndRollback c) (\<lambda>_.
     bnd (set_summary (\<lambda>s. s\<lparr>js_fileState := FS_Applying\<rparr>)) (\<lambda>_.
     call (persistSummary c ''journal.applying.after'') (failAndRollback c) (\<lambda>_.
     call (onw (applyAll c 0 (ap_operations (tc_plan c)))) (failAndRollback c) (\<lambda>_.
     bnd (set_summary (\<lambda>s. s\<lparr>js_fileState := FS_FilesApplied\<rparr>)) (\<lambda>_.
     call (persistSummary c ''journal.files_applied.after'') (failAndRollback c) (\<lambda>_.
       finishRestart c))))))"

text \<open>\<open>toJson\<close> throws on a plan that cannot be printed; the handler around the executor reports it.\<close>

definition unexpectedFailure :: "ApplyPlan \<Rightarrow> 'a result" where
  "unexpectedFailure plan = Inl (withErrorPhase (mk_error EC_ApplyFailed ''Unexpected apply failure'') (intentPhase plan))"

definition preparedSummary :: "('w, 'd, 'f, 't) txc \<Rightarrow> ApplyJournalSummary \<Rightarrow> ApplyJournalSummary" where
  "preparedSummary c s =
     s\<lparr>js_transactionId := tc_transactionId c, js_planDigest := tc_planDigest c, js_fileState := FS_Prepared,
       js_operationCount := of_nat (length (ap_operations (tc_plan c))),
       js_restartState := (if ap_restartCommand (tc_plan c) = [] then RS_NotRequested else RS_NotAttempted)\<rparr>"

definition tx_start :: "('w, 'd, 'f, 't) txc \<Rightarrow> ('w txs, unit result) act" where
  "tx_start c =
     (case plan_toJson (tc_fpText c) (tc_plan c) of
        None \<Rightarrow> ret (unexpectedFailure (tc_plan c))
      | Some json \<Rightarrow>
          call (onw (writePlanSnapshot (tc_io c) (tc_limits c) (tc_installRoot c) (tc_transactionId c) (tc_planDigest c) json))
            (\<lambda>e. ret (Inl (withErrorPhase e EP_StatePersistence))) (\<lambda>_.
          attempt (onw (checkpoint c ''journal.plan.after'' kNoOperation)) (\<lambda>_.
          bnd (set_summary (preparedSummary c)) (\<lambda>_.
          attempt (persistSummary c ''journal.prepared.after'') (\<lambda>_.
          attempt (prepareAll c 0 (ap_operations (tc_plan c))) (\<lambda>_.
          attempt (onw (checkpoint c ''journal.preparation_complete.after'' kNoOperation)) (\<lambda>_.
          call (onw (writeActive (tc_io c) (tc_fpText c) (tc_installRoot c)
                       \<lparr>rc_transactionId = tc_transactionId c, rc_planDigest = tc_planDigest c, rc_completedAt = None\<rparr>))
            (\<lambda>e. ret (Inl (withErrorPhase e EP_StatePersistence))) (\<lambda>_.
          bnd (upd (\<lambda>s. s\<lparr>ts_active := True\<rparr>)) (\<lambda>_. applyPrepared c)))))))))"

section \<open>Recovering and replaying\<close>

definition recoverComplete :: "('w, 'd, 'f, 't) txc \<Rightarrow> ('w txs, unit result) act" where
  "recoverComplete c =
     call (with_summary (\<lambda>summary. onw (verifyAppliedState c summary)))
       (\<lambda>e. recordTerminalReconciliationFailure c (mk_error EC_ApplyFailed
          (''Completed file installation did not survive durable reconciliation: '' @ err_message e))) (\<lambda>_.
     attempt (with_summary (\<lambda>summary.
        if js_completedAt summary = None then persistCompletion c ''journal.complete.after'' else ret (Inr ()))) (\<lambda>_.
     with_summary (\<lambda>summary.
        attempt (publishTerminalAndClear c) (\<lambda>_.
          ret (case completedRestartFailure summary of Some e \<Rightarrow> Inl e | None \<Rightarrow> Inr ())))))"

definition recoverRolledBack :: "('w, 'd, 'f, 't) txc \<Rightarrow> ('w txs, unit result) act" where
  "recoverRolledBack c =
     call (with_summary (\<lambda>summary. onw (rollbackAll c summary)))
       (recordRollbackFailure c (mk_error EC_ApplyFailed ''Failed to reconcile a completed rollback'')) (\<lambda>_.
     attempt (clearActive c) (\<lambda>_.
       ret (fail EC_ApplyFailed ''The previous incomplete apply transaction was rolled back'')))"

definition recoverFilesApplied :: "('w, 'd, 'f, 't) txc \<Rightarrow> ('w txs, unit result) act" where
  "recoverFilesApplied c =
     call (with_summary (\<lambda>summary. onw (verifyAppliedState c summary)))
       (\<lambda>e. let reconciliationError = mk_error EC_ApplyFailed
                  (''Recovered file installation did not match its durable journal: '' @ err_message e)
            in with_summary (\<lambda>summary.
                 if restartMayHaveStarted summary then recordTerminalReconciliationFailure c reconciliationError
                 else recoverByRollback c reconciliationError))
       (\<lambda>_. finishRestart c)"

definition tx_recover :: "('w, 'd, 'f, 't) txc \<Rightarrow> ('w txs, unit result) act" where
  "tx_recover c =
     bnd (upd (\<lambda>s. s\<lparr>ts_active := True\<rparr>)) (\<lambda>_.
     with_summary (\<lambda>summary.
       case js_fileState summary of
         FS_Complete \<Rightarrow> recoverComplete c
       | FS_RolledBack \<Rightarrow> recoverRolledBack c
       | FS_FilesApplied \<Rightarrow> recoverFilesApplied c
       | _ \<Rightarrow>
           if restartMayHaveStarted summary
           then recordTerminalReconciliationFailure c
             (mk_error EC_ApplyFailed ''Apply journal cannot safely roll back after the restart may have started'')
           else recoverByRollback c
             (mk_error EC_ApplyFailed ''Recovered an incomplete apply transaction and restored its prior file state'')))"

definition tx_replayTerminal :: "('w, 'd, 'f, 't) txc \<Rightarrow> ('w txs, unit result) act" where
  "tx_replayTerminal c =
     with_summary (\<lambda>summary.
       if js_fileState summary \<noteq> FS_Complete
       then ret (fail EC_ApplyFailed ''Terminal receipt points to an incomplete transaction'')
       else
         call (onw (verifyAppliedState c summary))
           (\<lambda>e. ret (fail EC_ApplyFailed (''Terminal transaction no longer matches installed files: '' @ err_message e)))
           (\<lambda>_. ret (case completedRestartFailure summary of Some e \<Rightarrow> Inl e | None \<Rightarrow> Inr ())))"

definition rollbackSourceRecords :: "('w, 'd, 'f, 't) txc \<Rightarrow> ('w txs, ApplyJournalOperation list result) act" where
  "rollbackSourceRecords c =
     with_summary (\<lambda>summary.
       if js_fileState summary \<noteq> FS_Complete then ret (fail EC_ApplyFailed ''Rollback source transaction is not complete'')
       else attempt (onw (verifyAppliedState c summary)) (\<lambda>_. onw (loadOperationRecords c summary)))"

text \<open>Running a method on a new object; the object is gone afterwards.\<close>

definition run_transaction :: "('w, 'd, 'f, 't) txc \<Rightarrow> ApplyJournalSummary \<Rightarrow> ('w txs, 'a) act \<Rightarrow> ('w, 'a) act" where
  "run_transaction c summary method w =
     (case method (new_transaction c summary w) of None \<Rightarrow> None | Some (x, s) \<Rightarrow> Some (x, ts_world s))"

lemma wp_run_transaction [simp]:
  "wp (run_transaction c summary m) Q w = wp m (\<lambda>x s. Q x (ts_world s)) (new_transaction c summary w)"
  by (auto simp: wp_def run_transaction_def split: option.splits)

section \<open>Checks on stored transactions\<close>

fun stateCombinationAllowed :: "JournalFileState \<Rightarrow> JournalRestartState \<Rightarrow> bool" where
  "stateCombinationAllowed FS_FilesApplied rs = (rs \<in> {RS_NotRequested, RS_NotAttempted, RS_Intent, RS_OutcomeUnknown})"
| "stateCombinationAllowed FS_Complete rs = (rs \<in> {RS_NotRequested, RS_Launched, RS_Failed, RS_OutcomeUnknown})"
| "stateCombinationAllowed _ rs = (rs \<in> {RS_NotRequested, RS_NotAttempted})"

definition validateRecoveredSummary :: "ApplyPlan \<Rightarrow> ActiveTransaction \<Rightarrow> ApplyJournalSummary \<Rightarrow> unit result" where
  "validateRecoveredSummary plan transaction summary =
     (if js_transactionId summary \<noteq> rc_transactionId transaction \<or> js_planDigest summary \<noteq> rc_planDigest transaction
      then fail EC_ApplyFailed ''Apply transaction and journal summary disagree''
      else if unat (js_operationCount summary) \<noteq> length (ap_operations plan)
      then fail EC_ApplyFailed ''Apply journal operation count does not match its plan snapshot''
      else if errorIncomplete (js_applyError summary) \<or> errorIncomplete (js_rollbackError summary) \<or> errorIncomplete (js_restartError summary)
      then fail EC_ApplyFailed ''Apply journal contains an incomplete error record''
      else if (js_restartState summary = RS_NotRequested) = (ap_restartCommand plan \<noteq> [])
      then fail EC_ApplyFailed ''Apply journal restart state does not match its plan snapshot''
      else if journalError_empty (js_restartError summary) = (js_restartState summary = RS_Failed \<or> js_restartState summary = RS_OutcomeUnknown)
      then fail EC_ApplyFailed ''Apply journal restart error state is inconsistent''
      else if journalError_empty (js_rollbackError summary) = (js_fileState summary = FS_RecoveryFailed)
      then fail EC_ApplyFailed ''Apply journal rollback error state is inconsistent''
      else if \<not> stateCombinationAllowed (js_fileState summary) (js_restartState summary)
      then fail EC_ApplyFailed ''Apply journal file and restart states are inconsistent''
      else Inr ())"

definition validateTerminalCompletionTimestamp :: "ActiveTransaction \<Rightarrow> ApplyJournalSummary \<Rightarrow> unit result" where
  "validateTerminalCompletionTimestamp terminal summary =
     (if rc_completedAt terminal \<noteq> js_completedAt summary
      then fail EC_ApplyFailed ''Terminal apply receipt and journal summary completion timestamps disagree''
      else Inr ())"

section \<open>Paths\<close>

text \<open>\<open>path::lexically_normal\<close>: dot segments are removed and \<open>..\<close> cancels the segment before it.\<close>

fun normal_parts :: "bool \<Rightarrow> string list \<Rightarrow> string list \<Rightarrow> string list" where
  "normal_parts absolute stack [] = rev stack"
| "normal_parts absolute stack (p # ps) =
     (if p = [] \<or> p = ''.'' then normal_parts absolute stack ps
      else if p = ''..''
      then (case stack of
              [] \<Rightarrow> if absolute then normal_parts absolute [] ps else normal_parts absolute [p] ps
            | k # ks \<Rightarrow> if k = ''..'' then normal_parts absolute (p # stack) ps else normal_parts absolute ks ps)
      else normal_parts absolute (p # stack) ps)"

definition lexically_normal :: "fs_path \<Rightarrow> fs_path" where
  "lexically_normal path =
     (if path = [] then []
      else
        let parts = split_on slash path;
            absolute = (hd path = slash);
            stack = normal_parts absolute [] parts;
            directory = (last parts \<in> {[], ''.'', ''..''} \<and> stack \<noteq> [] \<and> last stack \<noteq> ''..'')
        in if \<not> absolute \<and> stack = [] then ''.''
           else (if absolute then [slash] else []) @ join_on slash stack @ (if directory then [slash] else []))"

definition samePath :: "fs_path \<Rightarrow> fs_path \<Rightarrow> bool" where
  "samePath left right \<longleftrightarrow> lexically_normal left = lexically_normal right"

definition sameReference :: "ApplyTransactionReference \<Rightarrow> ApplyTransactionReference \<Rightarrow> bool" where
  "sameReference left right \<longleftrightarrow>
     ref_transactionId left = ref_transactionId right \<and> ref_planDigest left = ref_planDigest right"

definition rollbackUndoRoot :: "ApplyPlan \<Rightarrow> ApplyTransactionReference \<Rightarrow> fs_path" where
  "rollbackUndoRoot request reference =
     path_append (path_append (path_append (defaultStagingRoot (ap_installDir request)) ''backup'') ''rollback'') (ref_transactionId reference)"

section \<open>Rollback requests\<close>

definition validateRollbackRequest :: "ApplyPlan \<Rightarrow> ApplyPlan \<Rightarrow> unit result" where
  "validateRollbackRequest request sourcePlan =
     (case ap_rollbackOf request of
        None \<Rightarrow> fail EC_SecurityPolicyViolation ''Rollback request shape is invalid''
      | Some reference \<Rightarrow>
          if ap_schemaVersion request \<noteq> 2 \<or> ap_intent request \<noteq> Rollback \<or> ap_operations request \<noteq> []
             \<or> ap_restartCommand request \<noteq> [] \<or> ap_toVersion request \<noteq> [] \<or> ap_manifestSha256 request \<noteq> []
          then fail EC_SecurityPolicyViolation ''Rollback request shape is invalid''
          else if ap_intent sourcePlan \<noteq> Install \<or> ap_rollbackOf sourcePlan \<noteq> None
          then fail EC_SecurityPolicyViolation ''Rollback source is not a completed install transaction''
          else if \<not> samePath (ap_installDir request) (ap_installDir sourcePlan)
             \<or> \<not> samePath (ap_stagingDir request) (ap_backupDir sourcePlan)
             \<or> \<not> samePath (ap_backupDir request) (rollbackUndoRoot request reference)
          then fail EC_SecurityPolicyViolation ''Rollback request roots are invalid''
          else if (ap_appId request \<noteq> [] \<and> ap_appId request \<noteq> ap_appId sourcePlan)
             \<or> ap_fromVersion request \<noteq> ap_toVersion sourcePlan \<or> ap_releaseId request \<noteq> ap_releaseId sourcePlan
          then fail EC_SecurityPolicyViolation ''Rollback request metadata is invalid''
          else Inr ())"

definition validateCompletedRollbackPlan :: "ApplyPlan \<Rightarrow> ApplyPlan \<Rightarrow> unit result" where
  "validateCompletedRollbackPlan request completedPlan =
     (case (ap_rollbackOf completedPlan, ap_rollbackOf request) of
        (Some completedRef, Some reference) \<Rightarrow>
          if ap_intent completedPlan \<noteq> Rollback \<or> \<not> sameReference completedRef reference
             \<or> \<not> samePath (ap_installDir completedPlan) (ap_installDir request)
             \<or> \<not> samePath (ap_stagingDir completedPlan) (ap_stagingDir request)
             \<or> \<not> samePath (ap_backupDir completedPlan) (ap_backupDir request)
             \<or> \<not> samePath (ap_backupDir request) (rollbackUndoRoot request reference)
             \<or> (ap_appId request \<noteq> [] \<and> ap_appId request \<noteq> ap_appId completedPlan)
             \<or> ap_fromVersion request \<noteq> ap_fromVersion completedPlan \<or> ap_releaseId request \<noteq> ap_releaseId completedPlan
             \<or> ap_toVersion request \<noteq> [] \<or> ap_manifestSha256 request \<noteq> []
          then fail EC_SecurityPolicyViolation ''Latest terminal transaction is not the requested rollback''
          else Inr ()
      | _ \<Rightarrow> fail EC_SecurityPolicyViolation ''Latest terminal transaction is not the requested rollback'')"

text \<open>The inverse of one applied operation: what restores the original, guarded by what was installed.\<close>

definition installedPrecondition :: "ApplyOperation \<Rightarrow> ApplyOperationPrecondition" where
  "installedPrecondition operation =
     (if op_type operation = Replace
      then \<lparr>pre_exists = True, pre_size = op_size operation, pre_sha256 = op_sha256 operation, pre_permissions = op_permissions operation\<rparr>
      else missing_precondition)"

definition inverseOperation :: "ApplyJournalOperation \<Rightarrow> ApplyOperation \<Rightarrow> ApplyOperation" where
  "inverseOperation r sourceOperation =
     (if jo_originalExists r
      then \<lparr>op_type = Replace, op_source = op_target sourceOperation, op_target = op_target sourceOperation,
            op_sha256 = jo_originalSha256 r, op_size = jo_originalSize r,
            op_permissions = (if jo_originalPermissionsKnown r then Some (jo_originalPermissions r) else None),
            op_precondition = Some (installedPrecondition sourceOperation)\<rparr>
      else default_operation\<lparr>op_type := Remove, op_target := op_target sourceOperation,
            op_precondition := Some (installedPrecondition sourceOperation)\<rparr>)"

fun inverseOperations :: "ApplyOperation list \<Rightarrow> ApplyJournalOperation list \<Rightarrow> ApplyOperation list result" where
  "inverseOperations sourceOperations [] = Inr []"
| "inverseOperations sourceOperations (r # rs) =
     (if unat (jo_index r) \<ge> length sourceOperations
      then fail EC_ApplyFailed ''Rollback source operation index is invalid''
      else if jo_rollbackState r = RB_NotRequired then inverseOperations sourceOperations rs
      else if jo_originalExists r \<and> jo_backupState r \<noteq> BS_Durable
      then fail EC_ApplyFailed ''Rollback source has no durable original backup''
      else bindr (inverseOperations sourceOperations rs) (\<lambda>ops.
        Inr (inverseOperation r (sourceOperations ! unat (jo_index r)) # ops)))"

definition deriveRollbackPlan :: "ApplyPlan \<Rightarrow> ApplyPlan \<Rightarrow> ApplyJournalOperation list \<Rightarrow> ApplyPlan result" where
  "deriveRollbackPlan request sourcePlan records =
     (if length records \<noteq> length (ap_operations sourcePlan)
      then fail EC_ApplyFailed ''Rollback source operation records are incomplete''
      else
        bindr (validateManagedTargetPaths (map op_target (ap_operations sourcePlan))) (\<lambda>_.
        bindr (inverseOperations (ap_operations sourcePlan) (rev records)) (\<lambda>operations.
          Inr \<lparr>ap_schemaVersion = 2, ap_intent = Rollback, ap_rollbackOf = ap_rollbackOf request, ap_appId = ap_appId sourcePlan,
               ap_fromVersion = ap_toVersion sourcePlan, ap_toVersion = ap_fromVersion sourcePlan,
               ap_releaseId = ap_releaseId sourcePlan, ap_manifestSha256 = ap_manifestSha256 sourcePlan,
               ap_installDir = ap_installDir sourcePlan, ap_stagingDir = ap_backupDir sourcePlan,
               ap_backupDir = ap_backupDir request, ap_restartCommand = ap_restartCommand sourcePlan, ap_operations = operations\<rparr>)))"

section \<open>Execution\<close>

text \<open>\<open>ApplyExecutorDependencies\<close>: the operations and the limits, with the text of floating-point numbers.\<close>

record ('w, 'd, 'f, 't) ApplyExecutorDependencies =
  dep_io :: "('w, 'd, 'f, 't) rooted_io"
  dep_fpText :: "string \<Rightarrow> string"
  dep_limits :: ResourceLimits

definition dep_context :: "('w, 'd, 'f, 't) ApplyExecutorDependencies \<Rightarrow> ApplyPlan \<Rightarrow> 'd \<Rightarrow> 'd \<Rightarrow> 'd option \<Rightarrow> string \<Rightarrow> string
    \<Rightarrow> ('w, 'd, 'f, 't) txc" where
  "dep_context deps plan installRoot backupRoot stagingRoot transactionId planDigest =
     \<lparr>tc_io = dep_io deps, tc_fpText = dep_fpText deps, tc_plan = plan, tc_installRoot = installRoot, tc_backupRoot = backupRoot,
      tc_stagingRoot = stagingRoot, tc_limits = dep_limits deps, tc_transactionId = transactionId, tc_planDigest = planDigest\<rparr>"

text \<open>The stored plan and summary of a transaction, as recovery and replay read them first.\<close>

definition loadStoredPlan :: "('w, 'd, 'f, 't) ApplyExecutorDependencies \<Rightarrow> 'd \<Rightarrow> ActiveTransaction \<Rightarrow> ('w, ApplyPlan result) act" where
  "loadStoredPlan deps installRoot transaction =
     call (readPlanSnapshot (dep_io deps) (dep_limits deps) installRoot (rc_transactionId transaction) (rc_planDigest transaction))
       (\<lambda>e. ret (Inl (withErrorPhase e EP_StatePersistence)))
       (\<lambda>json. liftr (plan_parse json (dep_limits deps)))"

definition loadStoredSummary :: "('w, 'd, 'f, 't) ApplyExecutorDependencies \<Rightarrow> 'd \<Rightarrow> ActiveTransaction \<Rightarrow> ('w, ApplyJournalSummary result) act" where
  "loadStoredSummary deps installRoot transaction =
     call (readSummary (dep_io deps) (dep_limits deps) installRoot (rc_transactionId transaction))
       (\<lambda>e. ret (Inl (withErrorPhase e EP_StatePersistence))) (\<lambda>summary. ret (Inr summary))"

definition recoverActiveTransaction :: "('w, 'd, 'f, 't) ApplyExecutorDependencies \<Rightarrow> ApplyPlan \<Rightarrow> 'd \<Rightarrow> ActiveTransaction
    \<Rightarrow> ('w, unit result) act" where
  "recoverActiveTransaction deps requestedPlan installRoot active =
     attempt (loadStoredPlan deps installRoot active) (\<lambda>recoveryPlan.
       if \<not> samePath (ap_installDir recoveryPlan) (ap_installDir requestedPlan)
       then ret (fail EC_SecurityPolicyViolation ''Active apply journal belongs to a different install directory'')
       else
         attempt (loadStoredSummary deps installRoot active) (\<lambda>summary.
         attempt (liftr (validateRecoveredSummary recoveryPlan active summary)) (\<lambda>_.
         attempt (prim (io_openRoot (dep_io deps) (ap_backupDir recoveryPlan) RA_ReadWrite True DM_Private)) (\<lambda>backupRoot.
           let c = dep_context deps recoveryPlan installRoot backupRoot None (rc_transactionId active) (rc_planDigest active)
           in bnd (run_transaction c summary (tx_recover c)) (\<lambda>r. ret (withFallbackPhase r EP_Recovery))))))"

definition replayTerminalTransaction :: "('w, 'd, 'f, 't) ApplyExecutorDependencies \<Rightarrow> ApplyPlan \<Rightarrow> 'd \<Rightarrow> ActiveTransaction
    \<Rightarrow> ('w, unit result) act" where
  "replayTerminalTransaction deps requestedPlan installRoot terminal =
     attempt (loadStoredPlan deps installRoot terminal) (\<lambda>terminalPlan.
       if \<not> samePath (ap_installDir terminalPlan) (ap_installDir requestedPlan)
       then ret (fail EC_SecurityPolicyViolation ''Terminal apply receipt belongs to a different install directory'')
       else
         attempt (loadStoredSummary deps installRoot terminal) (\<lambda>summary.
         attempt (liftr (validateRecoveredSummary terminalPlan terminal summary)) (\<lambda>_.
         attempt (liftr (validateTerminalCompletionTimestamp terminal summary)) (\<lambda>_.
         attempt (prim (io_openRoot (dep_io deps) (ap_backupDir terminalPlan) RA_ReadOnly False DM_Private)) (\<lambda>backupRoot.
           let c = dep_context deps terminalPlan installRoot backupRoot None (rc_transactionId terminal) (rc_planDigest terminal)
           in bnd (run_transaction c summary (tx_replayTerminal c)) (\<lambda>r.
                ret (withFallbackPhase r (if ap_intent requestedPlan = Rollback then EP_Rollback else EP_Recovery))))))))"

definition startNewTransaction :: "('w, 'd, 'f, 't) ApplyExecutorDependencies \<Rightarrow> ApplyPlan \<Rightarrow> 'd \<Rightarrow> ('w, unit result) act" where
  "startNewTransaction deps plan installRoot =
     attempt (liftr (validateApplyPlanResources (dep_fpText deps) plan (dep_limits deps))) (\<lambda>_.
     attempt (prim (io_openRoot (dep_io deps) (ap_backupDir plan) RA_ReadWrite True DM_Private)) (\<lambda>backupRoot.
     attempt (if hasReplaceOperation plan
              then attempt (prim (io_openRoot (dep_io deps) (ap_stagingDir plan) RA_ReadOnly False DM_Private)) (\<lambda>d. ret (Inr (Some d)))
              else ret (Inr None)) (\<lambda>stagingRoot.
     attempt (liftr (applyPlanDigest (dep_fpText deps) plan)) (\<lambda>planDigest.
     bnd (\<lambda>w. Some (io_entropy (dep_io deps) w)) (\<lambda>entropy.
     attempt (liftr (createApplyTransactionId entropy planDigest)) (\<lambda>transactionId.
       let c = dep_context deps plan installRoot backupRoot stagingRoot transactionId planDigest
       in bnd (run_transaction c default_summary (tx_start c)) (\<lambda>r. ret (withFallbackPhase r (intentPhase plan)))))))))"

definition rollbackTerminal :: "('w, 'd, 'f, 't) ApplyExecutorDependencies \<Rightarrow> ApplyPlan \<Rightarrow> 'd \<Rightarrow> ActiveTransaction \<Rightarrow> ApplyPlan
    \<Rightarrow> ApplyJournalSummary \<Rightarrow> ('w, unit result) act" where
  "rollbackTerminal deps request installRoot terminal terminalPlan summary =
     attempt (liftr (validateRollbackRequest request terminalPlan)) (\<lambda>_.
     attempt (prim (io_openRoot (dep_io deps) (ap_backupDir terminalPlan) RA_ReadOnly False DM_Private)) (\<lambda>sourceBackup.
       let c = dep_context deps terminalPlan installRoot sourceBackup None (rc_transactionId terminal) (rc_planDigest terminal)
       in attempt (run_transaction c summary (rollbackSourceRecords c)) (\<lambda>records.
          attempt (liftr (deriveRollbackPlan request terminalPlan records)) (\<lambda>rollback.
            startNewTransaction deps rollback installRoot))))"

definition executeRollbackRequest :: "('w, 'd, 'f, 't) ApplyExecutorDependencies \<Rightarrow> ApplyPlan \<Rightarrow> 'd \<Rightarrow> ActiveTransaction option
    \<Rightarrow> ('w, unit result) act" where
  "executeRollbackRequest deps request installRoot terminal =
     (case ap_rollbackOf request of
        None \<Rightarrow> ret (fail EC_SecurityPolicyViolation ''Only an operation-free rollback request may be submitted'')
      | Some reference \<Rightarrow>
          if ap_schemaVersion request \<noteq> 2 \<or> ap_intent request \<noteq> Rollback \<or> ap_operations request \<noteq> [] \<or> ap_restartCommand request \<noteq> []
          then ret (fail EC_SecurityPolicyViolation ''Only an operation-free rollback request may be submitted'')
          else
            (case terminal of
               None \<Rightarrow> ret (fail EC_ApplyFailed ''No completed transaction is available to roll back'')
             | Some t \<Rightarrow>
                 attempt (loadStoredPlan deps installRoot t) (\<lambda>terminalPlan.
                 attempt (loadStoredSummary deps installRoot t) (\<lambda>summary.
                 attempt (liftr (validateRecoveredSummary terminalPlan t summary)) (\<lambda>_.
                 attempt (liftr (validateTerminalCompletionTimestamp t summary)) (\<lambda>_.
                   if rc_transactionId t \<noteq> ref_transactionId reference \<or> rc_planDigest t \<noteq> ref_planDigest reference
                   then attempt (liftr (validateCompletedRollbackPlan request terminalPlan)) (\<lambda>_.
                     replayTerminalTransaction deps request installRoot t)
                   else rollbackTerminal deps request installRoot t terminalPlan summary))))))"

text \<open>What happens when a transaction was left active: recovery, then, for a rollback request, the request.\<close>

definition afterRecovery :: "('w, 'd, 'f, 't) ApplyExecutorDependencies \<Rightarrow> ApplyPlan \<Rightarrow> 'd \<Rightarrow> unit result \<Rightarrow> ('w, unit result) act" where
  "afterRecovery deps plan installRoot recovered =
     (if ap_intent plan \<noteq> Rollback then ret recovered
      else
        call (loadActive (dep_io deps) installRoot) (\<lambda>e. ret (Inl (withErrorPhase e EP_StatePersistence))) (\<lambda>remainingActive.
          if remainingActive \<noteq> None
          then ret (case recovered of
                 Inr _ \<Rightarrow> Inl (withErrorPhase (mk_error EC_ApplyFailed ''Recovered transaction remains active'') EP_Recovery)
               | Inl e \<Rightarrow> Inl e)
          else
            call (loadTerminal (dep_io deps) installRoot) (\<lambda>e. ret (Inl (withErrorPhase e EP_StatePersistence)))
              (executeRollbackRequest deps plan installRoot)))"

definition executeLocked :: "('w, 'd, 'f, 't) ApplyExecutorDependencies \<Rightarrow> ApplyPlan \<Rightarrow> 'd \<Rightarrow> ('w, unit result) act" where
  "executeLocked deps plan installRoot =
     call (loadActive (dep_io deps) installRoot) (\<lambda>e. ret (Inl (withErrorPhase e EP_StatePersistence))) (\<lambda>active.
     case active of
       Some a \<Rightarrow> bnd (recoverActiveTransaction deps plan installRoot a) (afterRecovery deps plan installRoot)
     | None \<Rightarrow>
         call (loadTerminal (dep_io deps) installRoot) (\<lambda>e. ret (Inl (withErrorPhase e EP_StatePersistence))) (\<lambda>terminal.
           if ap_intent plan = Rollback then executeRollbackRequest deps plan installRoot terminal
           else
             attempt (liftr (applyPlanDigest (dep_fpText deps) plan)) (\<lambda>planDigest.
             case terminal of
               Some t \<Rightarrow> if rc_planDigest t = planDigest then replayTerminalTransaction deps plan installRoot t
                         else startNewTransaction deps plan installRoot
             | None \<Rightarrow> startNewTransaction deps plan installRoot)))"

definition executeApplyPlanWithDependencies :: "('w, 'd, 'f, 't) ApplyExecutorDependencies \<Rightarrow> ApplyPlan \<Rightarrow> ('w, unit result) act" where
  "executeApplyPlanWithDependencies deps plan =
     bnd (attempt (liftr (validateApplyPlanResources (dep_fpText deps) plan (dep_limits deps))) (\<lambda>_.
          attempt (prim (io_openRoot (dep_io deps) (ap_installDir plan) RA_ReadWrite True DM_InstalledContent)) (\<lambda>installRoot.
          attempt (prim (io_acquireExclusiveLock (dep_io deps) installRoot ''.autoupdater/update.lock'')) (\<lambda>_.
            executeLocked deps plan installRoot))))
       (\<lambda>r. ret (withFallbackPhase r (intentPhase plan)))"

end
