(* ===== verification/Executor_Facts.thy ===== *)
theory Executor_Facts
  imports Rooted_Files Apply_Transactions
begin

text \<open>
  What the executor keeps while it runs, whichever operations of the file system fail: the original of
  every managed target is in place or backed up, and every operation record that can be read back
  tells the truth about the original it stands for.
\<close>

section \<open>Originals, backups and records\<close>

text \<open>A file that can stand for another: same size, same hash and, when they are known, same permissions.\<close>

definition stands_for :: "file_object \<Rightarrow> file_object \<Rightarrow> bool" where
  "stands_for y x \<longleftrightarrow>
     evidence y (of_nat (length (fo_bytes x))) (sha256Bytes (fo_bytes x))
     \<and> (permissionsKnown (fo_permissions x) \<longrightarrow> permissionBits (fo_permissions y) = permissionBits (fo_permissions x))"

definition backed :: "file_object option \<Rightarrow> file_object option \<Rightarrow> bool" where
  "backed original backup = (case original of None \<Rightarrow> True | Some x \<Rightarrow> \<exists>y. backup = Some y \<and> stands_for y x)"

definition restored :: "file_object option \<Rightarrow> file_object option \<Rightarrow> bool" where
  "restored original e = (case original of None \<Rightarrow> e = None | Some x \<Rightarrow> \<exists>y. e = Some y \<and> stands_for y x)"

text \<open>The record describes the original, and a durable backup is there.\<close>

definition faithful :: "file_object option \<Rightarrow> ApplyJournalOperation \<Rightarrow> bool" where
  "faithful original r =
     (case original of
        None \<Rightarrow> \<not> jo_originalExists r
      | Some x \<Rightarrow>
          jo_originalExists r \<and> jo_originalSize r = of_nat (length (fo_bytes x)) \<and> jo_originalSha256 r = sha256Bytes (fo_bytes x)
          \<and> jo_originalPermissionsKnown r = permissionsKnown (fo_permissions x)
          \<and> (permissionsKnown (fo_permissions x) \<longrightarrow> jo_originalPermissions r = permissionBits (fo_permissions x)))"

definition truthful :: "file_object option \<Rightarrow> file_object option \<Rightarrow> ApplyJournalOperation \<Rightarrow> bool" where
  "truthful original backup r \<longleftrightarrow> faithful original r \<and> (jo_backupState r = BS_Durable \<longrightarrow> backed original backup)"

lemma original_evidence_faithful: "faithful (Some x) r \<Longrightarrow> original_evidence y r \<longleftrightarrow> stands_for y x"
  by (auto simp: faithful_def original_evidence_def stands_for_def)

lemma matchesOriginal_restored: "faithful original r \<Longrightarrow> matchesOriginal (observation e) r \<longleftrightarrow> restored original e"
  by (cases original) (auto simp: matchesOriginal_observation restored_def original_evidence_faithful, auto simp: faithful_def)

lemma backed_by_evidence: "faithful original r \<Longrightarrow> original_evidence y r \<Longrightarrow> backed original (Some y)"
  by (cases original) (auto simp: backed_def original_evidence_faithful)

lemma truthful_updates [simp]:
  "truthful original backup (r\<lparr>jo_error := e\<rparr>) = truthful original backup r"
  "truthful original backup (r\<lparr>jo_applyState := a\<rparr>) = truthful original backup r"
  "truthful original backup (r\<lparr>jo_rollbackState := b\<rparr>) = truthful original backup r"
  "truthful original backup (r\<lparr>jo_installedIdentity := s\<rparr>) = truthful original backup r"
  "truthful original backup (stored_operation r) = truthful original backup r"
  by (simp_all add: truthful_def faithful_def stored_operation_def split: option.split)

section \<open>The locations of a transaction\<close>

abbreviation operation_count :: "('w, 'd, 'f, 't) txc \<Rightarrow> nat" where
  "operation_count c \<equiv> length (ap_operations (tc_plan c))"

definition target_loc :: "('w, 'd, 'f, 't) txc \<Rightarrow> ('w, 'd, 'f, 't, 'l) rooted_view \<Rightarrow> nat \<Rightarrow> 'l" where
  "target_loc c V i = rv_loc V (tc_installRoot c) (op_target (ap_operations (tc_plan c) ! i))"

definition backup_loc :: "('w, 'd, 'f, 't) txc \<Rightarrow> ('w, 'd, 'f, 't, 'l) rooted_view \<Rightarrow> nat \<Rightarrow> 'l" where
  "backup_loc c V i = rv_loc V (tc_backupRoot c) (op_target (ap_operations (tc_plan c) ! i))"

definition record_loc :: "('w, 'd, 'f, 't) txc \<Rightarrow> ('w, 'd, 'f, 't, 'l) rooted_view \<Rightarrow> nat \<Rightarrow> 'l" where
  "record_loc c V i = rv_loc V (tc_installRoot c) (operationPath (tc_transactionId c) (of_nat i))"

definition active_loc :: "('w, 'd, 'f, 't) txc \<Rightarrow> ('w, 'd, 'f, 't, 'l) rooted_view \<Rightarrow> 'l" where
  "active_loc c V = rv_loc V (tc_installRoot c) activePath"

definition journal_locs :: "('w, 'd, 'f, 't) txc \<Rightarrow> ('w, 'd, 'f, 't, 'l) rooted_view \<Rightarrow> 'l list" where
  "journal_locs c V = map (rv_loc V (tc_installRoot c))
     [activePath, terminalPath, summaryPath (tc_transactionId c), planPath (tc_transactionId c)]"

definition managed_locs :: "('w, 'd, 'f, 't) txc \<Rightarrow> ('w, 'd, 'f, 't, 'l) rooted_view \<Rightarrow> 'l list" where
  "managed_locs c V =
     journal_locs c V @ map (target_loc c V) [0..<operation_count c] @ map (backup_loc c V) [0..<operation_count c]
     @ map (record_loc c V) [0..<operation_count c]"

text \<open>No two of the files a transaction manages are the same file.\<close>

definition separated :: "('w, 'd, 'f, 't) txc \<Rightarrow> ('w, 'd, 'f, 't, 'l) rooted_view \<Rightarrow> bool" where
  "separated c V \<longleftrightarrow> distinct (managed_locs c V)"

lemma separated_locs:
  assumes "separated c V" "i < operation_count c" "j < operation_count c"
  shows "target_loc c V i = target_loc c V j \<longleftrightarrow> i = j" "backup_loc c V i = backup_loc c V j \<longleftrightarrow> i = j"
    "record_loc c V i = record_loc c V j \<longleftrightarrow> i = j"
    "target_loc c V i \<noteq> backup_loc c V j" "target_loc c V i \<noteq> record_loc c V j" "backup_loc c V i \<noteq> record_loc c V j"
    "target_loc c V i \<notin> set (journal_locs c V)" "backup_loc c V i \<notin> set (journal_locs c V)" "record_loc c V i \<notin> set (journal_locs c V)"
proof -
  have d: "distinct (map (target_loc c V) [0..<operation_count c])" "distinct (map (backup_loc c V) [0..<operation_count c])"
    "distinct (map (record_loc c V) [0..<operation_count c])"
    using assms(1) by (simp_all add: separated_def managed_locs_def)
  have inj: "f i = f j \<longleftrightarrow> i = j" if "distinct (map f [0..<operation_count c])" for f :: "nat \<Rightarrow> 'e"
    using that assms(2, 3) by (auto simp: distinct_map dest: inj_onD)
  show "target_loc c V i = target_loc c V j \<longleftrightarrow> i = j" "backup_loc c V i = backup_loc c V j \<longleftrightarrow> i = j"
    "record_loc c V i = record_loc c V j \<longleftrightarrow> i = j"
    by (rule inj [OF d(1)], rule inj [OF d(2)], rule inj [OF d(3)])
  show "target_loc c V i \<noteq> backup_loc c V j" "target_loc c V i \<noteq> record_loc c V j" "backup_loc c V i \<noteq> record_loc c V j"
    "target_loc c V i \<notin> set (journal_locs c V)" "backup_loc c V i \<notin> set (journal_locs c V)" "record_loc c V i \<notin> set (journal_locs c V)"
    using assms by (force simp: separated_def managed_locs_def disjoint_iff_not_equal)+
qed

section \<open>What is kept\<close>

text \<open>A readable record of the transaction at its place is truthful.\<close>

definition record_kept :: "('w, 'd, 'f, 't) txc \<Rightarrow> nat \<Rightarrow> file_object option \<Rightarrow> file_object option \<Rightarrow> file_object option \<Rightarrow> bool" where
  "record_kept c i original backup e =
     (case e of
        None \<Rightarrow> True
      | Some x \<Rightarrow>
          (case parseApplyJournalOperation (fo_bytes x) of
             Inl _ \<Rightarrow> True
           | Inr r \<Rightarrow> jo_transactionId r = tc_transactionId c \<and> jo_index r = of_nat i \<longrightarrow> truthful original backup r))"

text \<open>
  The state of the files relative to the originals: each original is in place or backed up, and the
  records are truthful. The original of operation \<open>i\<close> is \<open>originals i\<close>, a file or its absence.
\<close>

definition covered :: "('w, 'd, 'f, 't) txc \<Rightarrow> ('w, 'd, 'f, 't, 'l) rooted_view \<Rightarrow> (nat \<Rightarrow> file_object option)
    \<Rightarrow> ('l \<Rightarrow> file_object option) \<Rightarrow> bool" where
  "covered c V originals E \<longleftrightarrow>
     (\<forall>i < operation_count c.
        (E (target_loc c V i) = originals i \<or> backed (originals i) (E (backup_loc c V i)))
        \<and> record_kept c i (originals i) (E (backup_loc c V i)) (E (record_loc c V i)))"

text \<open>Nothing else has changed since, and no backup has.\<close>

definition confined :: "('w, 'd, 'f, 't) txc \<Rightarrow> ('w, 'd, 'f, 't, 'l) rooted_view \<Rightarrow> ('l \<Rightarrow> file_object option) \<Rightarrow> ('l \<Rightarrow> file_object option)
    \<Rightarrow> bool" where
  "confined c V E E' \<longleftrightarrow>
     (\<forall>l. l \<notin> set (managed_locs c V) \<longrightarrow> E' l = E l) \<and> (\<forall>i < operation_count c. E' (backup_loc c V i) = E (backup_loc c V i))"

lemma confined_refl [simp]: "confined c V E E"
  by (simp add: confined_def)

lemma confined_trans: "confined c V E E' \<Longrightarrow> confined c V E' E'' \<Longrightarrow> confined c V E E''"
  by (simp add: confined_def)

definition summary_loc :: "('w, 'd, 'f, 't) txc \<Rightarrow> ('w, 'd, 'f, 't, 'l) rooted_view \<Rightarrow> 'l" where
  "summary_loc c V = rv_loc V (tc_installRoot c) (summaryPath (tc_transactionId c))"

text \<open>The stored summary forbids another launch.\<close>

definition spent :: "('w, 'd, 'f, 't) txc \<Rightarrow> ('w, 'd, 'f, 't, 'l) rooted_view \<Rightarrow> ('l \<Rightarrow> file_object option) \<Rightarrow> bool" where
  "spent c V E \<longleftrightarrow> (\<exists>x s. E (summary_loc c V) = Some x \<and> parseApplyJournalSummary (fo_bytes x) = Inr s \<and> js_restartState s \<noteq> RS_NotAttempted)"

text \<open>
  Both, since the world \<open>w0\<close>, as a property of the files \<open>E\<close> and the number \<open>L\<close> of launches; and a launch that
  the journal forbade stays forbidden.
\<close>

definition keeping :: "('w, 'd, 'f, 't) txc \<Rightarrow> ('w, 'd, 'f, 't, 'l) rooted_view \<Rightarrow> (nat \<Rightarrow> file_object option) \<Rightarrow> 'w
    \<Rightarrow> ('l \<Rightarrow> file_object option) \<Rightarrow> nat \<Rightarrow> bool" where
  "keeping c V originals w0 E L \<longleftrightarrow> covered c V originals E \<and> confined c V (rv_entries V w0) E \<and> L = rv_launches V w0
     \<and> (spent c V (rv_entries V w0) \<longrightarrow> spent c V E)"

definition targets :: "('w, 'd, 'f, 't) txc \<Rightarrow> ('w, 'd, 'f, 't, 'l) rooted_view \<Rightarrow> ('l \<Rightarrow> file_object option) \<Rightarrow> file_object option list" where
  "targets c V E = map (\<lambda>i. E (target_loc c V i)) [0..<operation_count c]"

lemma targets_eq: "targets c V E' = targets c V E \<longleftrightarrow> (\<forall>i < operation_count c. E' (target_loc c V i) = E (target_loc c V i))"
  by (auto simp: targets_def)

lemma targets_nth: "i < operation_count c \<Longrightarrow> targets c V E ! i = E (target_loc c V i)"
  by (simp add: targets_def)

lemma managed_locsI:
  "i < operation_count c \<Longrightarrow> target_loc c V i \<in> set (managed_locs c V)" "i < operation_count c \<Longrightarrow> record_loc c V i \<in> set (managed_locs c V)"
  "i < operation_count c \<Longrightarrow> backup_loc c V i \<in> set (managed_locs c V)" "l \<in> set (journal_locs c V) \<Longrightarrow> l \<in> set (managed_locs c V)"
  by (auto simp: managed_locs_def)

lemma summary_journal: "summary_loc c V \<in> set (journal_locs c V)"
  by (simp add: summary_loc_def journal_locs_def)

lemma spent_only_at: "only_at V l P w w' \<Longrightarrow> l \<notin> set (journal_locs c V) \<Longrightarrow> spent c V (rv_entries V w') = spent c V (rv_entries V w)"
  using summary_journal [of c V] by (auto simp: only_at_def spent_def)

text \<open>The record \<open>r\<close> is one of the transaction for operation \<open>i\<close>, and truthful.\<close>

definition owned :: "('w, 'd, 'f, 't) txc \<Rightarrow> nat \<Rightarrow> file_object option \<Rightarrow> file_object option \<Rightarrow> ApplyJournalOperation \<Rightarrow> bool" where
  "owned c i original backup r \<longleftrightarrow>
     jo_transactionId r = tc_transactionId c \<and> jo_index r = of_nat i \<and> truthful original backup r"

lemma owned_updates [simp]:
  "owned c i original backup (r\<lparr>jo_error := e\<rparr>) = owned c i original backup r"
  "owned c i original backup (r\<lparr>jo_applyState := a\<rparr>) = owned c i original backup r"
  "owned c i original backup (r\<lparr>jo_rollbackState := b\<rparr>) = owned c i original backup r"
  "owned c i original backup (r\<lparr>jo_installedIdentity := s\<rparr>) = owned c i original backup r"
  "owned c i original backup (stored_operation r) = owned c i original backup r"
  by (simp_all add: owned_def) (simp add: stored_operation_def)

lemma record_kept_owned: "record_kept c i original backup (Some x) \<Longrightarrow> parseApplyJournalOperation (fo_bytes x) = Inr r
    \<Longrightarrow> jo_transactionId r = tc_transactionId c \<Longrightarrow> jo_index r = of_nat i \<Longrightarrow> owned c i original backup r"
  by (simp add: record_kept_def owned_def)

text \<open>The file holds the record.\<close>

definition holds :: "ApplyJournalOperation \<Rightarrow> file_object option \<Rightarrow> bool" where
  "holds r e \<longleftrightarrow> (\<exists>x. e = Some x \<and> parseApplyJournalOperation (fo_bytes x) = Inr (stored_operation r))"

lemma record_kept_holds: "owned c i original backup r \<Longrightarrow> holds r e \<Longrightarrow> record_kept c i original backup e"
  by (auto simp: holds_def record_kept_def owned_def)

text \<open>The same relative to the world \<open>w0\<close> the transaction was prepared in; and that operation \<open>i\<close> may change its target.\<close>

definition ours :: "('w, 'd, 'f, 't) txc \<Rightarrow> ('w, 'd, 'f, 't, 'l) rooted_view \<Rightarrow> (nat \<Rightarrow> file_object option) \<Rightarrow> 'w \<Rightarrow> nat
    \<Rightarrow> ApplyJournalOperation \<Rightarrow> bool" where
  "ours c V originals w0 i r \<longleftrightarrow> owned c i (originals i) (rv_entries V w0 (backup_loc c V i)) r"

definition guarded :: "('w, 'd, 'f, 't) txc \<Rightarrow> ('w, 'd, 'f, 't, 'l) rooted_view \<Rightarrow> (nat \<Rightarrow> file_object option) \<Rightarrow> 'w \<Rightarrow> nat \<Rightarrow> bool" where
  "guarded c V originals w0 i \<longleftrightarrow> backed (originals i) (rv_entries V w0 (backup_loc c V i))"

lemma ours_updates [simp]:
  "ours c V originals w0 i (r\<lparr>jo_error := e\<rparr>) = ours c V originals w0 i r"
  "ours c V originals w0 i (r\<lparr>jo_applyState := a\<rparr>) = ours c V originals w0 i r"
  "ours c V originals w0 i (r\<lparr>jo_rollbackState := b\<rparr>) = ours c V originals w0 i r"
  "ours c V originals w0 i (r\<lparr>jo_installedIdentity := s\<rparr>) = ours c V originals w0 i r"
  by (simp_all add: ours_def)

lemma ours_guarded: "ours c V originals w0 i r \<Longrightarrow> (jo_originalExists r \<Longrightarrow> jo_backupState r = BS_Durable) \<Longrightarrow> guarded c V originals w0 i"
  by (auto simp: ours_def guarded_def owned_def truthful_def faithful_def backed_def split: option.splits)

lemma ours_restored: "ours c V originals w0 i r \<Longrightarrow> matchesOriginal (observation e) r \<longleftrightarrow> restored (originals i) e"
  by (simp add: ours_def owned_def truthful_def matchesOriginal_restored)

lemma ours_ids: "ours c V originals w0 i r \<Longrightarrow> jo_index r = of_nat i" "ours c V originals w0 i r \<Longrightarrow> jo_transactionId r = tc_transactionId c"
  by (simp_all add: ours_def owned_def)

section \<open>Steps that keep it\<close>

lemma only_at_outside: "only_at V l P w w' \<Longrightarrow> l \<in> S \<Longrightarrow> l' \<notin> S \<Longrightarrow> rv_entries V w' l' = rv_entries V w l'"
  by (auto simp: only_at_def)

lemma only_at_launches: "only_at V l P w w' \<Longrightarrow> rv_launches V w' = rv_launches V w"
  by (simp add: only_at_def)

lemma keeping_record:
  assumes "separated c V" "i < operation_count c" "keeping c V originals w0 (rv_entries V w) (rv_launches V w)"
    "ours c V originals w0 i r" "only_at V (record_loc c V i) (holds r) w w'"
  shows "keeping c V originals w0 (rv_entries V w') (rv_launches V w')" "targets c V (rv_entries V w') = targets c V (rv_entries V w)"
proof -
  have same: "rv_entries V w' (target_loc c V j) = rv_entries V w (target_loc c V j)"
    "rv_entries V w' (backup_loc c V j) = rv_entries V w (backup_loc c V j)" if "j < operation_count c" for j
    using assms(5) separated_locs [OF assms(1) that assms(2)] by (simp_all add: only_at_def)
  show "targets c V (rv_entries V w') = targets c V (rv_entries V w)" using same by (simp add: targets_eq)
  have "record_kept c j (originals j) (rv_entries V w (backup_loc c V j)) (rv_entries V w' (record_loc c V j))"
    if j: "j < operation_count c" for j
  proof (cases "j = i \<and> holds r (rv_entries V w' (record_loc c V i))")
    case True
    with assms(2-4) show ?thesis by (auto simp: keeping_def confined_def ours_def intro: record_kept_holds)
  next
    case False
    then have "rv_entries V w' (record_loc c V j) = rv_entries V w (record_loc c V j)"
      using assms(5) separated_locs(3) [OF assms(1) j assms(2)] by (auto simp: only_at_def)
    with assms(3) j show ?thesis by (simp add: keeping_def covered_def)
  qed
  then show "keeping c V originals w0 (rv_entries V w') (rv_launches V w')"
    using assms(3) same only_at_outside [OF assms(5) managed_locsI(2) [OF assms(2)]] only_at_launches [OF assms(5)]
      spent_only_at [OF assms(5) separated_locs(9) [OF assms(1, 2, 2)]]
    by (auto simp: keeping_def covered_def confined_def)
qed

lemma keeping_target:
  assumes "separated c V" "i < operation_count c" "keeping c V originals w0 (rv_entries V w) (rv_launches V w)"
    "guarded c V originals w0 i" "only_at V (target_loc c V i) P w w'"
  shows "keeping c V originals w0 (rv_entries V w') (rv_launches V w')"
proof -
  have same: "rv_entries V w' (record_loc c V j) = rv_entries V w (record_loc c V j)"
    "rv_entries V w' (backup_loc c V j) = rv_entries V w (backup_loc c V j)"
    "j \<noteq> i \<Longrightarrow> rv_entries V w' (target_loc c V j) = rv_entries V w (target_loc c V j)" if "j < operation_count c" for j
    using assms(5) separated_locs [OF assms(1, 2) that] by (auto simp: only_at_def)
  have "rv_entries V w' (target_loc c V j) = originals j \<or> backed (originals j) (rv_entries V w (backup_loc c V j))"
    if j: "j < operation_count c" for j
    using assms(2-4) same(3) [OF j] j by (cases "j = i") (auto simp: keeping_def covered_def confined_def guarded_def)
  then show ?thesis
    using assms(3) same only_at_outside [OF assms(5) managed_locsI(1) [OF assms(2)]] only_at_launches [OF assms(5)]
      spent_only_at [OF assms(5) separated_locs(7) [OF assms(1, 2, 2)]]
    by (auto simp: keeping_def covered_def confined_def)
qed

text \<open>A transaction on a rooted file system, with its files apart.\<close>

definition setting :: "('w, 'd, 'f, 't) txc \<Rightarrow> ('w, 'd, 'f, 't, 'l) rooted_view \<Rightarrow> bool" where
  "setting c V \<longleftrightarrow> rooted_contract (tc_io c) V \<and> separated c V"

lemma wp_writeOperation:
  assumes "rooted_contract io V"
  shows "wp (writeOperation io fp root r)
    (\<lambda>z w'. only_at V (rv_loc V root (operationPath (jo_transactionId r) (jo_index r))) (holds r) w w'
      \<and> (z = Inr () \<longrightarrow> holds r (rv_entries V w' (rv_loc V root (operationPath (jo_transactionId r) (jo_index r)))))) w"
proof (cases "serializeApplyJournalOperation fp r")
  case (Inl e)
  then show ?thesis by (simp add: writeOperation_def only_at_def)
next
  case (Inr t)
  have "holds r e" if "length t \<le> kMaxJournalRecordBytes" "written t e" for e
    using operation_print_parse [OF Inr that(1)] that(2) by (auto simp: holds_def written_def)
  then show ?thesis
    unfolding writeOperation_def
    by (simp add: Inr) (rule wp_mono [OF wp_writeAtomic [OF assms(1)]], auto simp: only_at_def)
qed

lemma keep_writeOperation:
  assumes "setting c V" "i < operation_count c" "keeping c V originals w0 (rv_entries V w) (rv_launches V w)"
    "ours c V originals w0 i r"
    "\<And>z w'. keeping c V originals w0 (rv_entries V w') (rv_launches V w') \<Longrightarrow> targets c V (rv_entries V w') = targets c V (rv_entries V w)
       \<Longrightarrow> Q z w'"
  shows "wp (writeOperation (tc_io c) fp (tc_installRoot c) r) Q w"
proof -
  have contract: "rooted_contract (tc_io c) V" and sep: "separated c V" using assms(1) by (auto simp: setting_def)
  have l: "rv_loc V (tc_installRoot c) (operationPath (jo_transactionId r) (jo_index r)) = record_loc c V i"
    using assms(4) by (simp add: ours_ids record_loc_def)
  show ?thesis
    by (rule wp_mono [OF wp_writeOperation [OF contract, of fp "tc_installRoot c" r w, unfolded l]])
      (use keeping_record [OF sep assms(2-4)] assms(5) in blast)
qed

lemma step_checkpoint:
  assumes "rooted_contract (tc_io c) V" "\<And>z w'. rv_entries V w' = rv_entries V w \<Longrightarrow> rv_launches V w' = rv_launches V w \<Longrightarrow> keeps_handles V w w' \<Longrightarrow> Q z w'"
  shows "wp (checkpoint c name i) Q w"
proof (cases "io_checkpoint (tc_io c)")
  case None
  then show ?thesis using assms(2) by (simp add: checkpoint_def keeps_handles_def)
next
  case (Some hook)
  have "quiet V w (snd (hook name i w))" using contract_quiet(12) [OF assms(1) Some] .
  then show ?thesis
    using assms(2) wp_prim [of "hook name i", unfolded prim_def [abs_def]]
    by (simp add: checkpoint_def Some quiet_def still_def)
qed

text \<open>
  The rules for the journal's writes in a running transaction. Premises: the setting, the operation,
  the invariant before, the record; then what holds afterwards.
\<close>

lemma keep_persistOperation:
  assumes "setting c V" "i < operation_count c" "keeping c V originals w0 (rv_entries V w) (rv_launches V w)"
    "ours c V originals w0 i r"
    "\<And>z w'. keeping c V originals w0 (rv_entries V w') (rv_launches V w') \<Longrightarrow> targets c V (rv_entries V w') = targets c V (rv_entries V w)
       \<Longrightarrow> Q z w'"
  shows "wp (persistOperation c r boundary) Q w"
proof -
  have contract: "rooted_contract (tc_io c) V" using assms(1) by (simp add: setting_def)
  show ?thesis
    unfolding persistOperation_def
    by (auto intro!: keep_writeOperation [OF assms(1-4)] step_checkpoint [OF contract] split: sum.split simp: assms(5))
qed

lemma keep_failOperation:
  assumes "setting c V" "i < operation_count c" "keeping c V originals w0 (rv_entries V w) (rv_launches V w)"
    "ours c V originals w0 i r"
    "\<And>e w'. keeping c V originals w0 (rv_entries V w') (rv_launches V w') \<Longrightarrow> targets c V (rv_entries V w') = targets c V (rv_entries V w)
       \<Longrightarrow> Q (Inl e) w'"
  shows "wp (failOperation c r e) Q w" "wp (markRollbackOperationFailed c r e) Q w"
proof -
  have contract: "rooted_contract (tc_io c) V" using assms(1) by (simp add: setting_def)
  show "wp (failOperation c r e) Q w" "wp (markRollbackOperationFailed c r e) Q w"
    unfolding failOperation_def markRollbackOperationFailed_def Let_def
    by (auto intro!: keep_writeOperation [OF assms(1-3)] step_checkpoint [OF contract] split: sum.split simp: assms(4, 5))
qed

lemma keep_failClosing:
  assumes "setting c V" "i < operation_count c" "keeping c V originals w0 (rv_entries V w) (rv_launches V w)"
    "ours c V originals w0 i r"
    "\<And>e w'. keeping c V originals w0 (rv_entries V w') (rv_launches V w') \<Longrightarrow> targets c V (rv_entries V w') = targets c V (rv_entries V w)
       \<Longrightarrow> Q (Inl e) w'"
  shows "wp (failClosing c r f description e) Q w" "wp (markClosing c r f e) Q w" "wp (abandonTemporary c r t description e) Q w"
proof -
  have contract: "rooted_contract (tc_io c) V" using assms(1) by (simp add: setting_def)
  show "wp (failClosing c r f description e) Q w" "wp (markClosing c r f e) Q w" "wp (abandonTemporary c r t description e) Q w"
    unfolding failClosing_def markClosing_def abandonTemporary_def wp_bnd wp_call
    using assms(3)
    by (auto intro!: step_closing [OF contract] step_abandon [OF contract] keep_failOperation [OF assms(1, 2)] simp: assms(4, 5))
qed

end
