(* ===== verification/Executor_Steps.thy ===== *)
theory Executor_Steps
  imports Executor_Facts
begin

text \<open>
  Applying and rolling back single operations. A target is only touched when its original is backed up
  or when there was none; every other target stays as it is; success is reported only for a target that
  was seen installed, or restored.
\<close>

section \<open>Changes of a target\<close>

lemma entry_targets: "i < operation_count c \<Longrightarrow> rv_entries V w (target_loc c V i) = targets c V (rv_entries V w) ! i"
  by (simp add: targets_nth)

lemma only_at_targets:
  assumes "separated c V" "i < operation_count c" "only_at V (target_loc c V i) P w w'"
  shows "(targets c V (rv_entries V w'))[i := None] = (targets c V (rv_entries V w))[i := None]"
  using assms(2, 3) separated_locs(1) [OF assms(1) _ assms(2)]
  by (auto intro!: nth_equalityI simp: targets_def nth_list_update only_at_def)

lemma keep_target:
  assumes "setting c V" "i < operation_count c" "keeping c V originals w0 (rv_entries V w) (rv_launches V w)"
    "guarded c V originals w0 i" "only_at V (target_loc c V i) P w w'"
  shows "keeping c V originals w0 (rv_entries V w') (rv_launches V w')"
    "(targets c V (rv_entries V w'))[i := None] = (targets c V (rv_entries V w))[i := None]"
proof -
  have sep: "separated c V" using assms(1) by (simp add: setting_def)
  show "keeping c V originals w0 (rv_entries V w') (rv_launches V w')" by (rule keeping_target [OF sep assms(2-5)])
  show "(targets c V (rv_entries V w'))[i := None] = (targets c V (rv_entries V w))[i := None]"
    by (rule only_at_targets [OF sep assms(2, 5)])
qed

lemma keep_commit:
  assumes "setting c V" "i < operation_count c" "keeping c V originals w0 (rv_entries V w) (rv_launches V w)"
    "guarded c V originals w0 i" "rv_target V t = target_loc c V i"
    "\<And>r w'. keeping c V originals w0 (rv_entries V w') (rv_launches V w')
       \<Longrightarrow> (targets c V (rv_entries V w'))[i := None] = (targets c V (rv_entries V w))[i := None] \<Longrightarrow> Q r w'"
  shows "wp (prim (io_commit (tc_io c) t expectation)) Q w"
proof -
  have contract: "rooted_contract (tc_io c) V" using assms(1) by (simp add: setting_def)
  show ?thesis
    by (rule step_commit [OF contract]; rule assms(6) [OF keep_target [OF assms(1-4)]]) (auto simp: only_at_def assms(5))
qed

lemma keep_remove:
  assumes "setting c V" "i < operation_count c" "keeping c V originals w0 (rv_entries V w) (rv_launches V w)"
    "guarded c V originals w0 i" "rv_loc V (tc_installRoot c) path = target_loc c V i"
    "\<And>r w'. keeping c V originals w0 (rv_entries V w') (rv_launches V w')
       \<Longrightarrow> (targets c V (rv_entries V w'))[i := None] = (targets c V (rv_entries V w))[i := None] \<Longrightarrow> Q r w'"
  shows "wp (prim (io_removeRegularFile (tc_io c) (tc_installRoot c) path expectation)) Q w"
proof -
  have contract: "rooted_contract (tc_io c) V" using assms(1) by (simp add: setting_def)
  show ?thesis
    by (rule step_remove [OF contract]; rule assms(6) [OF keep_target [OF assms(1-4)]]) (auto simp: only_at_def assms(5))
qed

lemma keep_copyToReplacement:
  assumes "setting c V" "i < operation_count c" "keeping c V originals w0 (rv_entries V w) (rv_launches V w)"
    "guarded c V originals w0 i" "rv_loc V (tc_installRoot c) path = target_loc c V i"
    "rv_bound V w source \<noteq> None"
    "\<And>r w'. keeping c V originals w0 (rv_entries V w') (rv_launches V w')
       \<Longrightarrow> (targets c V (rv_entries V w'))[i := None] = (targets c V (rv_entries V w))[i := None] \<Longrightarrow> Q r w'"
  shows "wp (copyToReplacement (tc_io c) (tc_installRoot c) path mode source expectation n h) Q w"
proof -
  have contract: "rooted_contract (tc_io c) V" using assms(1) by (simp add: setting_def)
  show ?thesis
    by (rule wp_mono [OF wp_copyToReplacement [OF contract assms(6)]]) (use keep_target [OF assms(1-4)] assms(5, 7) in metis)
qed

lemma keep_reconcileRemoval:
  assumes "setting c V" "i < operation_count c" "keeping c V originals w0 (rv_entries V w) (rv_launches V w)"
    "guarded c V originals w0 i" "rv_loc V (tc_installRoot c) path = target_loc c V i"
    "\<And>r w'. keeping c V originals w0 (rv_entries V w') (rv_launches V w')
       \<Longrightarrow> (targets c V (rv_entries V w'))[i := None] = (targets c V (rv_entries V w))[i := None] \<Longrightarrow> Q r w'"
  shows "wp (reconcileRemoval c path what e) Q w"
proof -
  have contract: "rooted_contract (tc_io c) V" using assms(1) by (simp add: setting_def)
  have removal: "wp (prim (io_removeRegularFile (tc_io c) (tc_installRoot c) path ExpectMissing)) P w'"
    if "keeping c V originals w0 (rv_entries V w') (rv_launches V w')"
      "\<And>r w''. keeping c V originals w0 (rv_entries V w'') (rv_launches V w'')
        \<Longrightarrow> (targets c V (rv_entries V w''))[i := None] = (targets c V (rv_entries V w'))[i := None] \<Longrightarrow> P r w''" for P w'
    by (rule keep_remove [OF assms(1, 2) that(1) assms(4, 5) that(2)])
  show ?thesis
    unfolding reconcileRemoval_def using assms(3)
    by (auto intro!: step_observe [OF contract] removal split: sum.split simp: assms(6))
qed

section \<open>Applying\<close>

text \<open>The target holds what the operation installs: the file, or nothing.\<close>

definition installed :: "ApplyOperation \<Rightarrow> file_object option \<Rightarrow> bool" where
  "installed operation e = matchesInstalled (observation e) operation"

lemma keep_publishReplacement:
  assumes "setting c V" "i < operation_count c" "keeping c V originals w0 (rv_entries V w) (rv_launches V w)"
    "ours c V originals w0 i r" "guarded c V originals w0 i"
    "rv_target V t = target_loc c V i" "rv_loc V (tc_installRoot c) (op_target operation) = target_loc c V i"
    "\<And>e w'. keeping c V originals w0 (rv_entries V w') (rv_launches V w')
       \<Longrightarrow> (targets c V (rv_entries V w'))[i := None] = (targets c V (rv_entries V w))[i := None] \<Longrightarrow> Q (Inl e) w'"
    "\<And>w'. keeping c V originals w0 (rv_entries V w') (rv_launches V w')
       \<Longrightarrow> (targets c V (rv_entries V w'))[i := None] = (targets c V (rv_entries V w))[i := None]
       \<Longrightarrow> installed operation (targets c V (rv_entries V w') ! i) \<Longrightarrow> Q (Inr ()) w'"
  shows "wp (publishReplacement c r operation expectation t identity) Q w"
proof -
  have contract: "rooted_contract (tc_io c) V" using assms(1) by (simp add: setting_def)
  note commit = keep_commit [OF assms(1, 2) _ assms(5, 6)]
  show ?thesis
    unfolding publishReplacement_def Let_def using assms(3, 4)
    by (auto intro!: keep_persistOperation [OF assms(1, 2)] keep_failOperation [OF assms(1, 2)] keep_failClosing [OF assms(1, 2)]
      step_checkpoint [OF contract] step_finish [OF contract] step_observe [OF contract] commit assms(8, 9)
      simp: assms(7) entry_targets [OF assms(2)] installed_def split: sum.split)
qed

lemma keep_applyReplacement:
  assumes "setting c V" "i < operation_count c" "keeping c V originals w0 (rv_entries V w) (rv_launches V w)"
    "ours c V originals w0 i r" "guarded c V originals w0 i" "rv_loc V (tc_installRoot c) (op_target operation) = target_loc c V i"
    "\<And>e w'. keeping c V originals w0 (rv_entries V w') (rv_launches V w')
       \<Longrightarrow> (targets c V (rv_entries V w'))[i := None] = (targets c V (rv_entries V w))[i := None] \<Longrightarrow> Q (Inl e) w'"
    "\<And>w'. keeping c V originals w0 (rv_entries V w') (rv_launches V w')
       \<Longrightarrow> (targets c V (rv_entries V w'))[i := None] = (targets c V (rv_entries V w))[i := None]
       \<Longrightarrow> installed operation (targets c V (rv_entries V w') ! i) \<Longrightarrow> Q (Inr ()) w'"
  shows "wp (applyReplacement c r operation expectation original) Q w"
proof -
  have contract: "rooted_contract (tc_io c) V" using assms(1) by (simp add: setting_def)
  note publish = keep_publishReplacement [OF assms(1, 2) _ _ assms(5) _ assms(6)]
  show ?thesis
    unfolding applyReplacement_def Let_def using assms(3, 4)
    by (auto intro!: bound_open [OF contract] bound_verifyEvidence [OF contract] keep_failOperation [OF assms(1, 2)] keep_failClosing [OF assms(1, 2)]
      step_create [OF contract] step_copy [OF contract] step_closing [OF contract] step_close_temp [OF contract] step_temp(1) [OF contract]
      step_temp_evidence(1) [OF contract] step_temp_metadata [OF contract] publish assms(7, 8)
      simp: assms(6) keeps_handles_def split: sum.split option.split) (force+)
qed

lemma keep_applyRemoval:
  assumes "setting c V" "i < operation_count c" "keeping c V originals w0 (rv_entries V w) (rv_launches V w)"
    "ours c V originals w0 i r" "guarded c V originals w0 i" "rv_loc V (tc_installRoot c) (op_target operation) = target_loc c V i"
    "op_type operation = Remove"
    "\<And>e w'. keeping c V originals w0 (rv_entries V w') (rv_launches V w')
       \<Longrightarrow> (targets c V (rv_entries V w'))[i := None] = (targets c V (rv_entries V w))[i := None] \<Longrightarrow> Q (Inl e) w'"
    "\<And>w'. keeping c V originals w0 (rv_entries V w') (rv_launches V w')
       \<Longrightarrow> (targets c V (rv_entries V w'))[i := None] = (targets c V (rv_entries V w))[i := None]
       \<Longrightarrow> installed operation (targets c V (rv_entries V w') ! i) \<Longrightarrow> Q (Inr ()) w'"
  shows "wp (applyRemoval c r operation expectation) Q w"
proof -
  have contract: "rooted_contract (tc_io c) V" using assms(1) by (simp add: setting_def)
  note remove = keep_remove [OF assms(1, 2) _ assms(5, 6)] keep_reconcileRemoval [OF assms(1, 2) _ assms(5, 6)]
  have gone: "installed operation None" using assms(7) by (simp add: installed_def matchesInstalled_def)
  show ?thesis
    unfolding applyRemoval_def finishRemoval_def Let_def using assms(3, 4)
    by (auto intro!: keep_persistOperation [OF assms(1, 2)] keep_failOperation [OF assms(1, 2)] step_checkpoint [OF contract]
      step_observe [OF contract] remove assms(8, 9) simp: assms(6) entry_targets [OF assms(2)] gone split: sum.split)
qed

lemma keep_readJournalOperation:
  assumes "setting c V" "i < operation_count c" "keeping c V originals w0 (rv_entries V w) (rv_launches V w)"
    "\<And>e w'. rv_entries V w' = rv_entries V w \<Longrightarrow> rv_launches V w' = rv_launches V w \<Longrightarrow> Q (Inl e) w'"
    "\<And>w'. rv_entries V w' = rv_entries V w \<Longrightarrow> rv_launches V w' = rv_launches V w \<Longrightarrow> Q (Inr None) w'"
    "\<And>r w'. rv_entries V w' = rv_entries V w \<Longrightarrow> rv_launches V w' = rv_launches V w \<Longrightarrow> ours c V originals w0 i r \<Longrightarrow> Q (Inr (Some r)) w'"
  shows "wp (readJournalOperation (tc_io c) (tc_installRoot c) (tc_transactionId c) (of_nat i)) Q w"
proof -
  have contract: "rooted_contract (tc_io c) V" using assms(1) by (simp add: setting_def)
  have loc: "rv_loc V (tc_installRoot c) (operationPath (tc_transactionId c) (of_nat i)) = record_loc c V i" by (simp add: record_loc_def)
  have stored: "ours c V originals w0 i r"
    if "rv_entries V w (record_loc c V i) = Some x" "parseApplyJournalOperation (fo_bytes x) = Inr r"
      "jo_transactionId r = tc_transactionId c" "jo_index r = of_nat i" for x r
    using that assms(2, 3) unfolding ours_def keeping_def covered_def confined_def by (metis record_kept_owned)
  show ?thesis
    unfolding readJournalOperation_def
    by (auto intro!: wp_readOptional [OF contract] assms(4-6) stored simp: loc fail_def journalError_def split: sum.split option.split)
qed

lemma keep_applyOne:
  assumes "setting c V" "i < operation_count c" "keeping c V originals w0 (rv_entries V w) (rv_launches V w)"
    "operation = ap_operations (tc_plan c) ! i"
    "\<And>e w'. keeping c V originals w0 (rv_entries V w') (rv_launches V w')
       \<Longrightarrow> (targets c V (rv_entries V w'))[i := None] = (targets c V (rv_entries V w))[i := None] \<Longrightarrow> Q (Inl e) w'"
    "\<And>w'. keeping c V originals w0 (rv_entries V w') (rv_launches V w')
       \<Longrightarrow> (targets c V (rv_entries V w'))[i := None] = (targets c V (rv_entries V w))[i := None]
       \<Longrightarrow> installed operation (targets c V (rv_entries V w') ! i) \<Longrightarrow> Q (Inr ()) w'"
  shows "wp (applyOne c (of_nat i) operation) Q w"
proof -
  have contract: "rooted_contract (tc_io c) V" using assms(1) by (simp add: setting_def)
  have l: "rv_loc V (tc_installRoot c) (op_target operation) = target_loc c V i" by (simp add: target_loc_def assms(4))
  have act: "op_type operation = Replace \<Longrightarrow> wp (applyReplacement c r operation expectation original) Q w'"
    "op_type operation \<noteq> Replace \<Longrightarrow> wp (applyRemoval c r operation expectation) Q w'"
    if "ours c V originals w0 i r" "\<not> preparedInconsistent r" "rv_entries V w' = rv_entries V w" "rv_launches V w' = rv_launches V w"
    for r expectation original w'
  proof -
    have g: "guarded c V originals w0 i"
      by (rule ours_guarded [OF that(1)]) (use that(2) in \<open>simp add: preparedInconsistent_def\<close>)
    have k: "keeping c V originals w0 (rv_entries V w') (rv_launches V w')" using assms(3) that(3, 4) by simp
    show "wp (applyReplacement c r operation expectation original) Q w'"
      using keep_applyReplacement [OF assms(1, 2) k that(1) g l] assms(5, 6) that(3) by simp
    show "wp (applyRemoval c r operation expectation) Q w'" if "op_type operation \<noteq> Replace"
      using keep_applyRemoval [OF assms(1, 2) k \<open>ours c V originals w0 i r\<close> g l] assms(5, 6) \<open>rv_entries V w' = rv_entries V w\<close> that
      by (cases "op_type operation") simp_all
  qed
  show ?thesis
    unfolding applyOne_def wp_call
  proof (rule keep_readJournalOperation [OF assms(1-3)], goal_cases)
    case (3 r w1)
    define r' where "r' = r\<lparr>jo_error := normalizeJournalError (jo_error r) EC_ApplyFailed (transactionPhase c)\<rparr>"
    have r': "ours c V originals w0 i r'" using 3(3) by (simp add: r'_def)
    have k: "keeping c V originals w0 (rv_entries V w1) (rv_launches V w1)" using assms(3) 3(1, 2) by simp
    note failed = keep_failOperation(1) [OF assms(1, 2) _ r']
    show ?case
      unfolding sum.case option.case Let_def r'_def [symmetric] wp_attempt wp_ret
      using k assms(5, 6) 3(1)
      by (cases "applyOperationId (tc_transactionId c) (of_nat i) operation")
        (auto intro!: step_observe [OF contract] failed act [OF r'] simp: 3(2) fail_def l entry_targets [OF assms(2)] installed_def)
  qed (use assms(3, 5) in \<open>simp_all add: fail_def\<close>)
qed

section \<open>Rolling back\<close>

lemma keep_finishRollback:
  assumes "setting c V" "i < operation_count c" "keeping c V originals w0 (rv_entries V w) (rv_launches V w)"
    "ours c V originals w0 i r" "rv_loc V (tc_installRoot c) (op_target operation) = target_loc c V i"
    "\<And>e w'. keeping c V originals w0 (rv_entries V w') (rv_launches V w')
       \<Longrightarrow> (targets c V (rv_entries V w'))[i := None] = (targets c V (rv_entries V w))[i := None] \<Longrightarrow> Q (Inl e) w'"
    "\<And>w'. keeping c V originals w0 (rv_entries V w') (rv_launches V w')
       \<Longrightarrow> (targets c V (rv_entries V w'))[i := None] = (targets c V (rv_entries V w))[i := None]
       \<Longrightarrow> restored (originals i) (targets c V (rv_entries V w') ! i) \<Longrightarrow> Q (Inr ()) w'"
  shows "wp (finishRollback c r operation) Q w"
proof -
  have contract: "rooted_contract (tc_io c) V" using assms(1) by (simp add: setting_def)
  have fine: "Q z w'" if "keeping c V originals w0 (rv_entries V w') (rv_launches V w')" "targets c V (rv_entries V w') = targets c V (rv_entries V w)"
    "restored (originals i) (targets c V (rv_entries V w) ! i)" for z w'
    using assms(6, 7) that by (cases z) auto
  show ?thesis
    unfolding finishRollback_def using assms(3, 4)
    by (auto intro!: step_observe [OF contract] keep_failOperation [OF assms(1, 2)] keep_persistOperation [OF assms(1, 2)] assms(6) fine
      simp: assms(5) ours_restored [OF assms(4)] entry_targets [OF assms(2)])
qed

lemma keep_restoreOriginal:
  assumes "setting c V" "i < operation_count c" "keeping c V originals w0 (rv_entries V w) (rv_launches V w)"
    "ours c V originals w0 i r" "rv_loc V (tc_installRoot c) (op_target operation) = target_loc c V i"
    "\<And>e w'. keeping c V originals w0 (rv_entries V w') (rv_launches V w')
       \<Longrightarrow> (targets c V (rv_entries V w'))[i := None] = (targets c V (rv_entries V w))[i := None] \<Longrightarrow> Q (Inl e) w'"
    "\<And>w'. keeping c V originals w0 (rv_entries V w') (rv_launches V w')
       \<Longrightarrow> (targets c V (rv_entries V w'))[i := None] = (targets c V (rv_entries V w))[i := None]
       \<Longrightarrow> restored (originals i) (targets c V (rv_entries V w') ! i) \<Longrightarrow> Q (Inr ()) w'"
  shows "jo_originalExists r \<Longrightarrow> wp (restoreOriginal c r operation target) Q w" "\<not> jo_originalExists r \<Longrightarrow> wp (removeInstalled c r operation target) Q w"
proof -
  have contract: "rooted_contract (tc_io c) V" using assms(1) by (simp add: setting_def)
  have finish: "wp (finishRollback c r operation) Q w'"
    if "keeping c V originals w0 (rv_entries V w') (rv_launches V w')"
      "(targets c V (rv_entries V w'))[i := None] = (targets c V (rv_entries V w))[i := None]" for w'
    by (rule keep_finishRollback [OF assms(1, 2) that(1) assms(4, 5)]) (use assms(6, 7) that in simp_all)
  show "wp (restoreOriginal c r operation target) Q w" if "jo_originalExists r"
  proof (cases "jo_backupState r = BS_Durable")
    case True
    then have g: "guarded c V originals w0 i" using ours_guarded [OF assms(4)] by blast
    show ?thesis
      unfolding restoreOriginal_def Let_def using assms(3, 4) True
      by (auto intro!: bound_open [OF contract] bound_verifyOriginal [OF contract] step_checkpoint [OF contract] step_close [OF contract]
        keep_failOperation [OF assms(1, 2)] keep_failClosing [OF assms(1, 2)] keep_copyToReplacement [OF assms(1, 2) _ g assms(5)] finish assms(6)
        simp: keeps_handles_def split: sum.split)
  next
    case False
    with assms(3, 4) show ?thesis
      unfolding restoreOriginal_def Let_def by (auto intro!: keep_failOperation [OF assms(1, 2)] assms(6))
  qed
  show "wp (removeInstalled c r operation target) Q w" if "\<not> jo_originalExists r"
  proof -
    have g: "guarded c V originals w0 i" using ours_guarded [OF assms(4)] that by blast
    show ?thesis
      unfolding removeInstalled_def Let_def using assms(3, 4)
      by (auto intro!: step_checkpoint [OF contract] keep_failOperation [OF assms(1, 2)] keep_remove [OF assms(1, 2) _ g assms(5)]
        keep_reconcileRemoval [OF assms(1, 2) _ g assms(5)] finish assms(6) split: sum.split)
  qed
qed

lemma keep_rollbackOne:
  assumes "setting c V" "i < operation_count c" "keeping c V originals w0 (rv_entries V w) (rv_launches V w)"
    "ours c V originals w0 i r" "rv_loc V (tc_installRoot c) (op_target operation) = target_loc c V i"
    "\<And>e w'. keeping c V originals w0 (rv_entries V w') (rv_launches V w')
       \<Longrightarrow> (targets c V (rv_entries V w'))[i := None] = (targets c V (rv_entries V w))[i := None] \<Longrightarrow> Q (Inl e) w'"
    "\<And>w'. keeping c V originals w0 (rv_entries V w') (rv_launches V w')
       \<Longrightarrow> (targets c V (rv_entries V w'))[i := None] = (targets c V (rv_entries V w))[i := None]
       \<Longrightarrow> restored (originals i) (targets c V (rv_entries V w') ! i) \<Longrightarrow> Q (Inr ()) w'"
  shows "wp (rollbackOne c r operation) Q w"
proof -
  have contract: "rooted_contract (tc_io c) V" using assms(1) by (simp add: setting_def)
  have fine: "Q z w'" if "keeping c V originals w0 (rv_entries V w') (rv_launches V w')" "targets c V (rv_entries V w') = targets c V (rv_entries V w)"
    "restored (originals i) (targets c V (rv_entries V w) ! i)" for z w'
    using assms(6, 7) that by (cases z) auto
  have act: "jo_originalExists r' \<Longrightarrow> wp (restoreOriginal c r' operation target) Q w'"
    "\<not> jo_originalExists r' \<Longrightarrow> wp (removeInstalled c r' operation target) Q w'"
    if "keeping c V originals w0 (rv_entries V w') (rv_launches V w')" "ours c V originals w0 i r'"
      "targets c V (rv_entries V w') = targets c V (rv_entries V w)" for r' target w'
    using keep_restoreOriginal [OF assms(1, 2) that(1, 2) assms(5)] assms(6, 7) that(3) by simp_all
  show ?thesis
    unfolding rollbackOne_def Let_def using assms(3, 4)
    by (auto intro!: step_observe [OF contract] keep_failOperation [OF assms(1, 2)] keep_persistOperation [OF assms(1, 2)] assms(6) fine act
      simp: assms(5) ours_restored [OF assms(4)] entry_targets [OF assms(2)] split: sum.split)
qed

end
