(* ===== verification/Executor_Rollback.thy ===== *)
theory Executor_Rollback
  imports Executor_Steps
begin

text \<open>
  All operations of a transaction: applying them in order, reading their records back, and rolling them
  back in reverse order.
\<close>

section \<open>Applying all operations\<close>

lemma update_same_nth: "xs[i := a] = ys[i := a] \<Longrightarrow> j \<noteq> i \<Longrightarrow> xs ! j = ys ! j"
  by (metis nth_list_update_neq)

lemma targets_length [simp]: "length (targets c V E) = operation_count c"
  by (simp add: targets_def)

lemma keep_applyAll:
  assumes "setting c V" "keeping c V originals w0 (rv_entries V w) (rv_launches V w)" "k \<le> operation_count c"
  shows "wp (applyAll c k (drop k (ap_operations (tc_plan c))))
    (\<lambda>z w'. keeping c V originals w0 (rv_entries V w') (rv_launches V w')
      \<and> (\<forall>j < k. targets c V (rv_entries V w') ! j = targets c V (rv_entries V w) ! j)
      \<and> (z = Inr () \<longrightarrow> (\<forall>j. k \<le> j \<longrightarrow> j < operation_count c \<longrightarrow>
            installed (ap_operations (tc_plan c) ! j) (targets c V (rv_entries V w') ! j)))) w"
  using assms(2, 3)
proof (induction "operation_count c - k" arbitrary: k w)
  case 0
  then show ?case by simp
next
  case (Suc n)
  then have k: "k < operation_count c" by simp
  then have split: "drop k (ap_operations (tc_plan c)) = ap_operations (tc_plan c) ! k # drop (Suc k) (ap_operations (tc_plan c))"
    by (simp add: Cons_nth_drop_Suc)
  show ?case
    unfolding split applyAll.simps wp_attempt
  proof (rule keep_applyOne [OF assms(1) k Suc(3) refl], goal_cases)
    case (1 e w1)
    then show ?case using update_same_nth [OF 1(2)] by simp
  next
    case (2 w1)
    have "wp (applyAll c (Suc k) (drop (Suc k) (ap_operations (tc_plan c))))
      (\<lambda>z w'. keeping c V originals w0 (rv_entries V w') (rv_launches V w')
        \<and> (\<forall>j < Suc k. targets c V (rv_entries V w') ! j = targets c V (rv_entries V w1) ! j)
        \<and> (z = Inr () \<longrightarrow> (\<forall>j. Suc k \<le> j \<longrightarrow> j < operation_count c \<longrightarrow>
              installed (ap_operations (tc_plan c) ! j) (targets c V (rv_entries V w') ! j)))) w1"
      using Suc(1) [of "Suc k" w1] Suc(2) 2(1) k by simp
    then show ?case
      unfolding sum.case
    proof (rule wp_mono, goal_cases)
      case (1 z w2)
      have "targets c V (rv_entries V w2) ! j = targets c V (rv_entries V w) ! j" if "j < k" for j
        using 1 update_same_nth [OF 2(2), of j] that by simp
      moreover have "installed (ap_operations (tc_plan c) ! j) (targets c V (rv_entries V w2) ! j)"
        if "z = Inr ()" "k \<le> j" "j < operation_count c" for j
        using 1 2(3) that by (cases "j = k") auto
      ultimately show ?case using 1 by blast
    qed
  qed
qed

section \<open>Reading the records\<close>

lemma keep_loadRecords:
  assumes "setting c V" "keeping c V originals w0 (rv_entries V w) (rv_launches V w)" "k \<le> operation_count c"
  shows "wp (loadRecords c k (drop k (ap_operations (tc_plan c))))
    (\<lambda>z w'. rv_entries V w' = rv_entries V w \<and> rv_launches V w' = rv_launches V w
      \<and> (\<forall>rs. z = Inr rs \<longrightarrow> list_all2 (ours c V originals w0) [k..<operation_count c] rs)) w"
  using assms(2, 3)
proof (induction "operation_count c - k" arbitrary: k w)
  case 0
  then show ?case by simp
next
  case (Suc n)
  then have k: "k < operation_count c" by simp
  then have split: "drop k (ap_operations (tc_plan c)) = ap_operations (tc_plan c) ! k # drop (Suc k) (ap_operations (tc_plan c))"
    "[k..<operation_count c] = k # [Suc k..<operation_count c]"
    by (simp_all add: Cons_nth_drop_Suc upt_conv_Cons)
  show ?case
    unfolding split loadRecords.simps wp_call
  proof (rule keep_readJournalOperation [OF assms(1) k Suc(3)], goal_cases)
    case (3 r w1)
    have "wp (loadRecords c (Suc k) (drop (Suc k) (ap_operations (tc_plan c))))
      (\<lambda>z w'. rv_entries V w' = rv_entries V w1 \<and> rv_launches V w' = rv_launches V w1
        \<and> (\<forall>rs. z = Inr rs \<longrightarrow> list_all2 (ours c V originals w0) [Suc k..<operation_count c] rs)) w1"
      using Suc(1) [of "Suc k" w1] Suc(2, 3) 3(1, 2) k by simp
    then have "wp (loadRecords c (Suc k) (drop (Suc k) (ap_operations (tc_plan c)))) P w1"
      if "\<And>z w'. rv_entries V w' = rv_entries V w \<Longrightarrow> rv_launches V w' = rv_launches V w
        \<Longrightarrow> (\<And>rs. z = Inr rs \<Longrightarrow> list_all2 (ours c V originals w0) [Suc k..<operation_count c] rs) \<Longrightarrow> P z w'" for P
      by (rule wp_mono) (use 3(1, 2) that in auto)
    then show ?case
      using 3 by (auto simp: Let_def fail_def split: sum.split)
  qed (simp_all add: fail_def)
qed

lemma keep_loadOperationRecords:
  assumes "setting c V" "keeping c V originals w0 (rv_entries V w) (rv_launches V w)"
    "\<And>e w'. rv_entries V w' = rv_entries V w \<Longrightarrow> rv_launches V w' = rv_launches V w \<Longrightarrow> Q (Inl e) w'"
    "\<And>rs w'. rv_entries V w' = rv_entries V w \<Longrightarrow> rv_launches V w' = rv_launches V w \<Longrightarrow> operation_count c < 2 ^ 64
       \<Longrightarrow> list_all2 (ours c V originals w0) [0..<operation_count c] rs \<Longrightarrow> Q (Inr rs) w'"
  shows "wp (loadOperationRecords c summary) Q w"
proof (cases "unat (js_operationCount summary) = operation_count c")
  case False
  then show ?thesis using assms(3) by (simp add: loadOperationRecords_def fail_def)
next
  case True
  then have small: "operation_count c < 2 ^ 64" using unsigned_less [of "js_operationCount summary", where ?'a = nat] by simp
  have "wp (loadRecords c 0 (ap_operations (tc_plan c))) Q w"
  proof (rule wp_mono [OF keep_loadRecords [OF assms(1, 2), of 0, simplified]])
    fix z :: "ApplyJournalOperation list result" and w'
    assume "rv_entries V w' = rv_entries V w \<and> rv_launches V w' = rv_launches V w
      \<and> (\<forall>rs. z = Inr rs \<longrightarrow> list_all2 (ours c V originals w0) [0..<operation_count c] rs)"
    then show "Q z w'" using assms(3, 4) small by (cases z) auto
  qed
  with True show ?thesis by (simp add: loadOperationRecords_def)
qed

section \<open>Rolling back all operations\<close>

lemma keep_rollbackRecords:
  assumes "setting c V" "keeping c V originals w0 (rv_entries V w) (rv_launches V w)" "operation_count c < 2 ^ 64"
    "list_all2 (ours c V originals w0) ks rs" "distinct ks" "set ks \<subseteq> {..<operation_count c}"
  shows "wp (rollbackRecords c rs)
    (\<lambda>z w'. keeping c V originals w0 (rv_entries V w') (rv_launches V w')
      \<and> (\<forall>j. j \<notin> set ks \<longrightarrow> targets c V (rv_entries V w') ! j = targets c V (rv_entries V w) ! j)
      \<and> (z = Inr () \<longrightarrow> (\<forall>i \<in> set ks. restored (originals i) (targets c V (rv_entries V w') ! i)))) w"
  using assms(4, 2, 5, 6)
proof (induction arbitrary: w rule: list_all2_induct)
  case Nil
  then show ?case by simp
next
  case (Cons i ks r rs)
  then have i: "i < operation_count c" "i \<notin> set ks" by auto
  have index: "operationOf c r = ap_operations (tc_plan c) ! i"
    using ours_ids(1) [OF Cons(1)] i(1) assms(3) by (simp add: operationOf_def unsigned_of_nat take_bit_nat_eq_self)
  show ?case
    unfolding rollbackRecords.simps wp_attempt index
  proof (rule keep_rollbackOne [OF assms(1) i(1) Cons(4, 1)], goal_cases)
    case 1
    show ?case by (simp add: target_loc_def)
  next
    case (2 e w1)
    then show ?case using update_same_nth [OF 2(2)] by simp
  next
    case (3 w1)
    have "wp (rollbackRecords c rs) (\<lambda>z w'. keeping c V originals w0 (rv_entries V w') (rv_launches V w')
      \<and> (\<forall>j. j \<notin> set ks \<longrightarrow> targets c V (rv_entries V w') ! j = targets c V (rv_entries V w1) ! j)
      \<and> (z = Inr () \<longrightarrow> (\<forall>i \<in> set ks. restored (originals i) (targets c V (rv_entries V w') ! i)))) w1"
      using Cons(3) [OF 3(1)] Cons(5, 6) by simp
    then show ?case
      unfolding sum.case by (rule wp_mono) (use 3(3) update_same_nth [OF 3(2)] i(2) in auto)
  qed
qed

lemma keep_rollbackAll:
  assumes "setting c V" "keeping c V originals w0 (rv_entries V w) (rv_launches V w)"
    "\<And>e w'. keeping c V originals w0 (rv_entries V w') (rv_launches V w') \<Longrightarrow> Q (Inl e) w'"
    "\<And>w'. keeping c V originals w0 (rv_entries V w') (rv_launches V w')
       \<Longrightarrow> \<forall>i < operation_count c. restored (originals i) (targets c V (rv_entries V w') ! i) \<Longrightarrow> Q (Inr ()) w'"
  shows "wp (rollbackAll c summary) Q w"
  unfolding rollbackAll_def wp_attempt
proof (rule keep_loadOperationRecords [OF assms(1, 2)], goal_cases)
  case (1 e w1)
  then show ?case using assms(2, 3) by simp
next
  case (2 rs w1)
  have "list_all2 (ours c V originals w0) (rev [0..<operation_count c]) (rev rs)" using 2(4) by (simp add: list_all2_rev)
  then have "wp (rollbackRecords c (rev rs)) (\<lambda>z w'. keeping c V originals w0 (rv_entries V w') (rv_launches V w')
      \<and> (z = Inr () \<longrightarrow> (\<forall>i \<in> set (rev [0..<operation_count c]). restored (originals i) (targets c V (rv_entries V w') ! i)))) w1"
    using keep_rollbackRecords [OF assms(1) _ 2(3), where w = w1] assms(2) 2(1, 2) by (fastforce elim!: wp_mono)
  then show ?case
    unfolding sum.case by (rule wp_mono) (metis (full_types) assms(3, 4) atLeast0LessThan lessThan_iff old.unit.exhaust set_rev set_upt sum.exhaust)
qed

end
