(* ===== verification/Executor_Prepare.thy ===== *)
theory Executor_Prepare
  imports Executor_Rollback
begin

text \<open>
  Preparation: before any target is touched, every operation has a record that describes its original,
  and the originals that will be replaced or removed have a verified backup. A backup that was there
  before is never overwritten.
\<close>

section \<open>The invariant of the preparation\<close>

text \<open>The first \<open>k\<close> operations are prepared; \<open>w0\<close> is the world before the preparation.\<close>

definition preparing :: "('w, 'd, 'f, 't) txc \<Rightarrow> ('w, 'd, 'f, 't, 'l) rooted_view \<Rightarrow> 'w \<Rightarrow> nat \<Rightarrow> ('l \<Rightarrow> file_object option) \<Rightarrow> nat \<Rightarrow> bool" where
  "preparing c V w0 k E L \<longleftrightarrow>
     (\<forall>l. l \<notin> set (managed_locs c V) \<longrightarrow> E l = rv_entries V w0 l)
     \<and> (\<forall>i < operation_count c. E (target_loc c V i) = rv_entries V w0 (target_loc c V i)
          \<and> (rv_entries V w0 (backup_loc c V i) \<noteq> None \<longrightarrow> E (backup_loc c V i) = rv_entries V w0 (backup_loc c V i)))
     \<and> (\<forall>i < k. record_kept c i (rv_entries V w0 (target_loc c V i)) (E (backup_loc c V i)) (E (record_loc c V i)))
     \<and> (\<forall>l \<in> set (journal_locs c V). E l = rv_entries V w0 l) \<and> L = rv_launches V w0"

lemma active_apart:
  assumes "separated c V" "i < operation_count c"
  shows "active_loc c V \<noteq> record_loc c V i" "active_loc c V \<noteq> backup_loc c V i" "active_loc c V \<noteq> target_loc c V i"
  using separated_locs(7-9) [OF assms(1, 2, 2)] by (auto simp: active_loc_def journal_locs_def)

lemma preparing_mono: "preparing c V w0 k E L \<Longrightarrow> j \<le> k \<Longrightarrow> preparing c V w0 j E L"
  by (auto simp: preparing_def)

lemma preparing_start: "preparing c V w 0 (rv_entries V w) (rv_launches V w)"
  by (simp add: preparing_def)

lemma preparing_record:
  assumes "separated c V" "i < operation_count c" "preparing c V w0 i (rv_entries V w) (rv_launches V w)" "only_at V (record_loc c V i) P w w'"
  shows "preparing c V w0 i (rv_entries V w') (rv_launches V w')" "rv_entries V w' (backup_loc c V i) = rv_entries V w (backup_loc c V i)"
proof -
  have same: "rv_entries V w' (target_loc c V j) = rv_entries V w (target_loc c V j)"
    "rv_entries V w' (backup_loc c V j) = rv_entries V w (backup_loc c V j)"
    "j \<noteq> i \<Longrightarrow> rv_entries V w' (record_loc c V j) = rv_entries V w (record_loc c V j)" if "j < operation_count c" for j
    using assms(4) separated_locs [OF assms(1) that assms(2)] by (auto simp: only_at_def)
  have journal: "rv_entries V w' l = rv_entries V w l" if "l \<in> set (journal_locs c V)" for l
    using only_at_outside [OF assms(4), of "- set (journal_locs c V)" l] that separated_locs(8, 9) [OF assms(1, 2, 2)] by simp
  show "rv_entries V w' (backup_loc c V i) = rv_entries V w (backup_loc c V i)" by (rule same(2) [OF assms(2)])
  show "preparing c V w0 i (rv_entries V w') (rv_launches V w')"
    using assms(2, 3) same journal only_at_outside [OF assms(4) managed_locsI(2) [OF assms(2)]] only_at_launches [OF assms(4)]
    by (auto simp: preparing_def)
qed

lemma preparing_backup:
  assumes "separated c V" "i < operation_count c" "preparing c V w0 i (rv_entries V w) (rv_launches V w)"
    "only_at V (backup_loc c V i) (\<lambda>_. rv_entries V w (backup_loc c V i) = None) w w'"
  shows "preparing c V w0 i (rv_entries V w') (rv_launches V w')"
proof -
  have same: "rv_entries V w' (target_loc c V j) = rv_entries V w (target_loc c V j)"
    "rv_entries V w' (record_loc c V j) = rv_entries V w (record_loc c V j)"
    "j \<noteq> i \<Longrightarrow> rv_entries V w' (backup_loc c V j) = rv_entries V w (backup_loc c V j)" if "j < operation_count c" for j
    using assms(4) separated_locs [OF assms(1) that assms(2)] separated_locs(6) [OF assms(1, 2) that] by (auto simp: only_at_def)
  have journal: "rv_entries V w' l = rv_entries V w l" if "l \<in> set (journal_locs c V)" for l
    using only_at_outside [OF assms(4), of "- set (journal_locs c V)" l] that separated_locs(8, 9) [OF assms(1, 2, 2)] by simp
  have "rv_entries V w' (backup_loc c V j) = rv_entries V w0 (backup_loc c V j)"
    if "j < operation_count c" "rv_entries V w0 (backup_loc c V j) \<noteq> None" for j
    using that same(3) [OF that(1)] assms(2-4) by (cases "j = i") (auto simp: preparing_def only_at_def)
  then show ?thesis
    using assms(2, 3) same journal only_at_outside [OF assms(4) managed_locsI(3) [OF assms(2)]] only_at_launches [OF assms(4)]
    by (auto simp: preparing_def)
qed

section \<open>Steps of the preparation\<close>

definition numbered :: "('w, 'd, 'f, 't) txc \<Rightarrow> nat \<Rightarrow> ApplyJournalOperation \<Rightarrow> bool" where
  "numbered c i r \<longleftrightarrow> jo_transactionId r = tc_transactionId c \<and> jo_index r = of_nat i"

lemma numbered_updates [simp]:
  "numbered c i (r\<lparr>jo_error := e\<rparr>) = numbered c i r" "numbered c i (r\<lparr>jo_backupState := b\<rparr>) = numbered c i r"
  by (simp_all add: numbered_def)

lemma prep_writeOperation:
  assumes "setting c V" "i < operation_count c" "preparing c V w0 i (rv_entries V w) (rv_launches V w)" "numbered c i r"
    "\<And>z w'. preparing c V w0 i (rv_entries V w') (rv_launches V w') \<Longrightarrow> rv_entries V w' (backup_loc c V i) = rv_entries V w (backup_loc c V i)
       \<Longrightarrow> z = Inr () \<longrightarrow> holds r (rv_entries V w' (record_loc c V i)) \<Longrightarrow> Q z w'"
  shows "wp (writeOperation (tc_io c) fp (tc_installRoot c) r) Q w"
proof -
  have contract: "rooted_contract (tc_io c) V" and sep: "separated c V" using assms(1) by (auto simp: setting_def)
  have l: "rv_loc V (tc_installRoot c) (operationPath (jo_transactionId r) (jo_index r)) = record_loc c V i"
    using assms(4) by (simp add: numbered_def record_loc_def)
  show ?thesis
    by (rule wp_mono [OF wp_writeOperation [OF contract, of fp "tc_installRoot c" r w, unfolded l]])
      (use preparing_record [OF sep assms(2, 3)] assms(5) in blast)
qed

lemma prep_failOperation:
  assumes "setting c V" "i < operation_count c" "preparing c V w0 i (rv_entries V w) (rv_launches V w)" "numbered c i r"
    "\<And>e w'. preparing c V w0 i (rv_entries V w') (rv_launches V w') \<Longrightarrow> Q (Inl e) w'"
  shows "wp (failOperation c r e) Q w" "wp (failClosing c r f description e) Q w"
proof -
  have contract: "rooted_contract (tc_io c) V" using assms(1) by (simp add: setting_def)
  show "wp (failOperation c r e) Q w" "wp (failClosing c r f description e) Q w"
    unfolding failOperation_def failClosing_def Let_def using assms(3, 4)
    by (auto intro!: prep_writeOperation [OF assms(1, 2)] step_checkpoint [OF contract] step_closing [OF contract] assms(5) split: sum.split)
qed

lemma prep_persistOperation:
  assumes "setting c V" "i < operation_count c" "preparing c V w0 i (rv_entries V w) (rv_launches V w)" "numbered c i r"
    "\<And>e w'. preparing c V w0 i (rv_entries V w') (rv_launches V w') \<Longrightarrow> Q (Inl e) w'"
    "\<And>w'. preparing c V w0 i (rv_entries V w') (rv_launches V w') \<Longrightarrow> rv_entries V w' (backup_loc c V i) = rv_entries V w (backup_loc c V i)
       \<Longrightarrow> holds r (rv_entries V w' (record_loc c V i)) \<Longrightarrow> Q (Inr ()) w'"
  shows "wp (persistOperation c r boundary) Q w"
proof -
  have contract: "rooted_contract (tc_io c) V" using assms(1) by (simp add: setting_def)
  have fine: "Q z w'" if "preparing c V w0 i (rv_entries V w') (rv_launches V w')" "rv_entries V w' (backup_loc c V i) = rv_entries V w (backup_loc c V i)"
    "holds r (rv_entries V w' (record_loc c V i))" for z w'
    using assms(5, 6) that by (cases z) auto
  show ?thesis
    unfolding persistOperation_def using assms(3, 4)
    by (auto intro!: prep_writeOperation [OF assms(1, 2)] step_checkpoint [OF contract] assms(5) fine split: sum.split)
qed

lemma prep_ensureBackup:
  assumes "setting c V" "i < operation_count c" "preparing c V w0 i (rv_entries V w) (rv_launches V w)"
    "rv_loc V (tc_backupRoot c) path = backup_loc c V i" "rv_bound V w source \<noteq> None"
    "\<And>e w'. preparing c V w0 i (rv_entries V w') (rv_launches V w') \<Longrightarrow> Q (Inl e) w'"
    "\<And>y w'. preparing c V w0 i (rv_entries V w') (rv_launches V w') \<Longrightarrow> rv_entries V w' (backup_loc c V i) = Some y
       \<Longrightarrow> original_evidence y r \<Longrightarrow> Q (Inr ()) w'"
  shows "wp (ensureBackup (tc_io c) (tc_backupRoot c) path source r) Q w"
proof -
  have contract: "rooted_contract (tc_io c) V" and sep: "separated c V" using assms(1) by (auto simp: setting_def)
  show ?thesis
  proof (rule wp_mono [OF wp_ensureBackup [OF contract assms(5), of "tc_backupRoot c" path r, unfolded assms(4)]], goal_cases)
    case (1 z w')
    then show ?case using preparing_backup [OF sep assms(2, 3)] assms(6, 7) by (cases z) auto
  qed
qed

section \<open>Preparing one operation\<close>

lemma initialRecord_facts:
  "numbered c i (initialRecord c (of_nat i) operation identity original)"
  "jo_originalExists (initialRecord c (of_nat i) operation identity original) = ob_exists original"
  "jo_backupState (initialRecord c (of_nat i) operation identity original) \<noteq> BS_Durable"
  by (auto simp: initialRecord_def numbered_def Let_def)

lemma initialRecord_faithful: "faithful e (initialRecord c index operation identity (observation e))"
  by (cases e) (auto simp: initialRecord_def faithful_def Let_def observation_def absent_file_def default_journal_operation_def metadata_of_def)

lemma record_kept_prepared:
  assumes "holds r e" "numbered c i r" "faithful original r" "jo_backupState r = BS_Durable \<longrightarrow> backed original backup"
  shows "record_kept c i original backup e"
  by (rule record_kept_holds [OF _ assms(1)]) (use assms(2-4) in \<open>simp add: owned_def numbered_def truthful_def\<close>)

lemma preparing_Suc:
  "preparing c V w0 i E L \<Longrightarrow> record_kept c i (rv_entries V w0 (target_loc c V i)) (E (backup_loc c V i)) (E (record_loc c V i))
    \<Longrightarrow> preparing c V w0 (Suc i) E L"
  by (auto simp: preparing_def less_Suc_eq)

lemma prep_backupOriginal:
  assumes "setting c V" "i < operation_count c" "preparing c V w0 i (rv_entries V w) (rv_launches V w)"
    "operation = ap_operations (tc_plan c) ! i" "numbered c i r" "faithful (rv_entries V w0 (target_loc c V i)) r"
    "\<And>e w'. preparing c V w0 i (rv_entries V w') (rv_launches V w') \<Longrightarrow> Q (Inl e) w'"
    "\<And>w'. preparing c V w0 (Suc i) (rv_entries V w') (rv_launches V w') \<Longrightarrow> Q (Inr ()) w'"
  shows "wp (backupOriginal c (of_nat i) operation r) Q w"
proof -
  have contract: "rooted_contract (tc_io c) V" using assms(1) by (simp add: setting_def)
  have l: "rv_loc V (tc_backupRoot c) (op_target operation) = backup_loc c V i" by (simp add: backup_loc_def assms(4))
  have fine: "Q (Inr ()) w'"
    if p: "preparing c V w0 i (rv_entries V w') (rv_launches V w')" "holds (r\<lparr>jo_backupState := BS_Durable\<rparr>) (rv_entries V w' (record_loc c V i))"
      "\<exists>y. rv_entries V w' (backup_loc c V i) = Some y \<and> original_evidence y r" for w'
  proof -
    obtain y where y: "rv_entries V w' (backup_loc c V i) = Some y" "original_evidence y r" using p(3) by blast
    have "backed (rv_entries V w0 (target_loc c V i)) (rv_entries V w' (backup_loc c V i))"
      using backed_by_evidence [OF assms(6) y(2)] y(1) by simp
    moreover have "faithful (rv_entries V w0 (target_loc c V i)) (r\<lparr>jo_backupState := BS_Durable\<rparr>)"
      using assms(6) by (simp add: faithful_def split: option.splits)
    ultimately show ?thesis
      using assms(8) preparing_Suc [OF p(1) record_kept_prepared [OF p(2)]] assms(5) by simp
  qed
  show ?thesis
    unfolding backupOriginal_def Let_def using assms(3, 5)
    by (auto intro!: bound_open [OF contract] bound_metadata [OF contract] step_checkpoint [OF contract] step_close [OF contract]
      prep_failOperation [OF assms(1, 2)] prep_persistOperation [OF assms(1, 2)] prep_ensureBackup [OF assms(1, 2) _ l] assms(7) fine
      split: sum.split)
qed

lemma prep_prepareOne:
  assumes "setting c V" "i < operation_count c" "preparing c V w0 i (rv_entries V (ts_world s)) (rv_launches V (ts_world s))"
    "operation = ap_operations (tc_plan c) ! i"
    "\<And>e s'. preparing c V w0 i (rv_entries V (ts_world s')) (rv_launches V (ts_world s')) \<Longrightarrow> ts_summary s' = ts_summary s
       \<Longrightarrow> ts_active s' = ts_active s \<Longrightarrow> Q (Inl e) s'"
    "\<And>s'. preparing c V w0 (Suc i) (rv_entries V (ts_world s')) (rv_launches V (ts_world s')) \<Longrightarrow> ts_summary s' = ts_summary s
       \<Longrightarrow> ts_active s' = ts_active s \<Longrightarrow> Q (Inr ()) s'"
  shows "wp (prepareOne c (of_nat i) operation) Q s"
proof (cases "applyOperationId (tc_transactionId c) (of_nat i) operation")
  case (Inl e)
  then show ?thesis using assms(3, 5) by (simp add: prepareOne_def)
next
  case (Inr identity)
  have contract: "rooted_contract (tc_io c) V" using assms(1) by (simp add: setting_def)
  let ?e = "rv_entries V w0 (target_loc c V i)"
  have e: "rv_entries V (ts_world s) (rv_loc V (tc_installRoot c) (op_target operation)) = ?e"
    using assms(2, 3) by (simp add: preparing_def target_loc_def assms(4))
  define r where "r = initialRecord c (of_nat i) operation identity (observation ?e)"
  have r: "numbered c i r" "faithful ?e r" "jo_backupState r \<noteq> BS_Durable"
    by (simp_all add: r_def initialRecord_facts initialRecord_faithful)
  have fine: "Q (Inr ()) s'" if "preparing c V w0 i (rv_entries V (ts_world s')) (rv_launches V (ts_world s'))"
    "holds r (rv_entries V (ts_world s') (record_loc c V i))" "ts_summary s' = ts_summary s" "ts_active s' = ts_active s" for s'
    by (rule assms(6) [OF preparing_Suc [OF that(1) record_kept_prepared [OF that(2) r(1, 2)]] that(3, 4)]) (use r(3) in simp)
  have backup: "wp (onw (backupOriginal c (of_nat i) operation r)) Q s'"
    if "preparing c V w0 i (rv_entries V (ts_world s')) (rv_launches V (ts_world s'))" "ts_summary s' = ts_summary s" "ts_active s' = ts_active s" for s'
    unfolding wp_onw by (rule prep_backupOriginal [OF assms(1, 2) that(1) assms(4) r(1, 2)]) (use that assms(5, 6) in simp_all)
  have persist: "wp (onw (persistOperation c r b)) P s'"
    if "preparing c V w0 i (rv_entries V (ts_world s')) (rv_launches V (ts_world s'))"
      "\<And>e w''. preparing c V w0 i (rv_entries V w'') (rv_launches V w'') \<Longrightarrow> P (Inl e) (s'\<lparr>ts_world := w''\<rparr>)"
      "\<And>w''. preparing c V w0 i (rv_entries V w'') (rv_launches V w'') \<Longrightarrow> holds r (rv_entries V w'' (record_loc c V i))
         \<Longrightarrow> P (Inr ()) (s'\<lparr>ts_world := w''\<rparr>)"
    for b P s'
    unfolding wp_onw by (rule prep_persistOperation [OF assms(1, 2) that(1) r(1)]) (use that in auto)
  have failed: "wp (onw (failOperation c r e)) Q s'"
    if "preparing c V w0 i (rv_entries V (ts_world s')) (rv_launches V (ts_world s'))" "ts_summary s' = ts_summary s" "ts_active s' = ts_active s" for e s'
    unfolding wp_onw by (rule prep_failOperation [OF assms(1, 2) that(1) r(1)]) (use that assms(5) in simp)
  have wp_state: "wp (\<lambda>s. if b s then m s else m' s) P s' = (if b s' then wp m P s' else wp m' P s')" for b m m' P and s' :: "'a txs"
    by (simp add: wp_def)
  show ?thesis
    unfolding prepareOne_def using assms(3)
    by (simp add: Inr Let_def)
      (auto intro!: step_observe [OF contract] persist failed assms(5) fine backup
        simp: e r_def [symmetric] fail_def wp_state simp del: wp_onw split: option.split)
qed

end
