(* ===== verification/Executor_Restart.thy ===== *)
theory Executor_Restart
  imports Executor_Prepare
begin

text \<open>
  The end of a transaction. The journal's pointers and summary change, no managed file does; a restart is
  launched at most once, and only after the journal says that it may have been.
\<close>

section \<open>Changes to the journal only\<close>

lemma wp_set_summary [simp]: "wp (set_summary f) Q s = Q () (s\<lparr>ts_summary := f (ts_summary s)\<rparr>)"
  by (simp add: set_summary_def)

definition holds_summary :: "ApplyJournalSummary \<Rightarrow> file_object option \<Rightarrow> bool" where
  "holds_summary s e \<longleftrightarrow> (\<exists>x. e = Some x \<and> parseApplyJournalSummary (fo_bytes x) = Inr (stored_summary s))"

lemma spent_holds: "holds_summary s (E (summary_loc c V)) \<Longrightarrow> js_restartState s \<noteq> RS_NotAttempted \<Longrightarrow> spent c V E"
  by (auto simp: spent_def holds_summary_def stored_summary_def)

definition journal_step :: "('w, 'd, 'f, 't) txc \<Rightarrow> ('w, 'd, 'f, 't, 'l) rooted_view \<Rightarrow> 'w \<Rightarrow> 'w \<Rightarrow> bool" where
  "journal_step c V w w' \<longleftrightarrow>
     rv_launches V w' = rv_launches V w \<and> (\<forall>l. l \<notin> set (journal_locs c V) \<longrightarrow> rv_entries V w' l = rv_entries V w l)"

lemma journal_step_refl [simp]: "journal_step c V w w"
  by (simp add: journal_step_def)

lemma journal_step_trans: "journal_step c V w w' \<Longrightarrow> journal_step c V w' w'' \<Longrightarrow> journal_step c V w w''"
  by (simp add: journal_step_def)

lemma journal_step_still: "rv_entries V w' = rv_entries V w \<Longrightarrow> rv_launches V w' = rv_launches V w \<Longrightarrow> journal_step c V w w'"
  by (simp add: journal_step_def)

lemma journal_step_at: "only_at V l P w w' \<Longrightarrow> l \<in> set (journal_locs c V) \<Longrightarrow> journal_step c V w w'"
  by (auto simp: journal_step_def only_at_def)

lemma journal_loc:
  "rv_loc V (tc_installRoot c) activePath \<in> set (journal_locs c V)" "rv_loc V (tc_installRoot c) terminalPath \<in> set (journal_locs c V)"
  "rv_loc V (tc_installRoot c) (planPath (tc_transactionId c)) \<in> set (journal_locs c V)" "summary_loc c V \<in> set (journal_locs c V)"
  by (simp_all add: journal_locs_def summary_loc_def)

lemma summary_apart:
  assumes "separated c V"
  shows "rv_loc V (tc_installRoot c) activePath \<noteq> summary_loc c V" "rv_loc V (tc_installRoot c) terminalPath \<noteq> summary_loc c V"
  using assms by (auto simp: separated_def managed_locs_def journal_locs_def summary_loc_def)

lemma journal_step_targets:
  assumes "separated c V" "journal_step c V w w'"
  shows "targets c V (rv_entries V w') = targets c V (rv_entries V w)"
  using assms(2) separated_locs(7) [OF assms(1)] by (simp add: targets_eq journal_step_def)

lemma journal_step_keeping:
  assumes "separated c V" "journal_step c V w w'" "keeping c V originals w0 (rv_entries V w) (rv_launches V w)"
    "spent c V (rv_entries V w0) \<longrightarrow> spent c V (rv_entries V w')"
  shows "keeping c V originals w0 (rv_entries V w') (rv_launches V w')"
proof -
  have same: "rv_entries V w' (record_loc c V j) = rv_entries V w (record_loc c V j)"
    "rv_entries V w' (backup_loc c V j) = rv_entries V w (backup_loc c V j)"
    "rv_entries V w' (target_loc c V j) = rv_entries V w (target_loc c V j)" if "j < operation_count c" for j
    using assms(2) separated_locs(7-9) [OF assms(1) that that] by (simp_all add: journal_step_def)
  have "rv_entries V w' l = rv_entries V w l" if "l \<notin> set (managed_locs c V)" for l
    using assms(2) that managed_locsI(4) [of l c V] by (auto simp: journal_step_def)
  with same assms(2-4) show ?thesis by (auto simp: keeping_def covered_def confined_def journal_step_def)
qed

section \<open>The journal's operations\<close>

lemma wp_writeSummary:
  assumes "rooted_contract io V"
  shows "wp (writeSummary io fp limits root s)
    (\<lambda>z w'. only_at V (rv_loc V root (summaryPath (js_transactionId s))) (holds_summary s) w w'
      \<and> (z = Inr () \<longrightarrow> holds_summary s (rv_entries V w' (rv_loc V root (summaryPath (js_transactionId s)))))) w"
proof (cases "operationCountExceeded limits s \<or> (\<exists>e. serializeApplyJournalSummary fp s = Inl e)")
  case True
  then show ?thesis by (auto simp: writeSummary_def only_at_def fail_def)
next
  case False
  then obtain t where t: "serializeApplyJournalSummary fp s = Inr t" by (cases "serializeApplyJournalSummary fp s") auto
  have "holds_summary s e" if "length t \<le> kMaxJournalRecordBytes" "written t e" for e
    using summary_print_parse [OF t that(1)] that(2) by (auto simp: holds_summary_def written_def)
  with False t show ?thesis
    unfolding writeSummary_def by simp (rule wp_mono [OF wp_writeAtomic [OF assms]], auto simp: only_at_def)
qed

lemma step_writeAtomic:
  assumes "rooted_contract io V" "\<And>z w'. only_at V (rv_loc V root path) (\<lambda>_. True) w w' \<Longrightarrow> Q z w'"
  shows "wp (writeAtomic io root path contents n) Q w"
  by (rule wp_mono [OF wp_writeAtomic [OF assms(1)]]) (rule assms(2), auto simp: only_at_def)

lemma only_at_refl: "rv_entries V w' = rv_entries V w \<Longrightarrow> rv_launches V w' = rv_launches V w \<Longrightarrow> only_at V l P w w'"
  by (simp add: only_at_def)

lemma step_writePointer:
  assumes "rooted_contract io V"
  shows "(\<And>z w'. only_at V (rv_loc V root activePath) (\<lambda>_. True) w w' \<Longrightarrow> Q z w') \<Longrightarrow> wp (writeActive io fp root a) Q w"
    "(\<And>z w'. only_at V (rv_loc V root terminalPath) (\<lambda>_. True) w w' \<Longrightarrow> Q z w') \<Longrightarrow> wp (writeTerminal io fp root a) Q w"
  unfolding writeActive_def writeTerminal_def
  by (auto intro!: step_writeAtomic [OF assms] only_at_refl split: sum.split)

lemma step_loadActive:
  assumes "rooted_contract io V" "\<And>z w'. rv_entries V w' = rv_entries V w \<Longrightarrow> rv_launches V w' = rv_launches V w \<Longrightarrow> Q z w'"
  shows "wp (loadActive io root) Q w"
  unfolding loadActive_def by (auto intro!: wp_readOptional [OF assms(1)] assms(2) split: sum.split option.split)

lemma step_journalClearActive:
  assumes "rooted_contract io V" "\<And>z w'. only_at V (rv_loc V root activePath) (\<lambda>_. True) w w' \<Longrightarrow> Q z w'"
  shows "wp (journalClearActive io root identity) Q w"
  unfolding journalClearActive_def verifyCleared_def
  by (auto intro!: step_loadActive [OF assms(1)] bound_open [OF assms(1)] bound_metadata [OF assms(1)] step_closing [OF assms(1)]
    step_close [OF assms(1)] step_remove [OF assms(1)] assms(2) simp: only_at_def split: sum.split option.split)

lemma step_writePlanSnapshot:
  assumes "rooted_contract io V" "\<And>z w'. only_at V (rv_loc V root (planPath identity)) (\<lambda>_. True) w w' \<Longrightarrow> Q z w'"
  shows "wp (writePlanSnapshot io limits root identity digest json) Q w"
  unfolding writePlanSnapshot_def
  by (auto intro!: wp_readOptional [OF assms(1)] step_writeAtomic [OF assms(1)] assms(2) simp: only_at_def split: sum.split option.split)

section \<open>Ending a transaction\<close>

text \<open>
  From state \<open>s0\<close> on, only the journal has changed and the summary is still the transaction's; if \<open>b\<close>, the
  stored and the current summary forbid another launch.
\<close>

definition ending :: "('w, 'd, 'f, 't) txc \<Rightarrow> ('w, 'd, 'f, 't, 'l) rooted_view \<Rightarrow> bool \<Rightarrow> 'w txs \<Rightarrow> 'w txs \<Rightarrow> bool" where
  "ending c V b s0 s \<longleftrightarrow>
     journal_step c V (ts_world s0) (ts_world s) \<and> js_transactionId (ts_summary s) = tc_transactionId c
     \<and> js_fileState (ts_summary s) \<in> {js_fileState (ts_summary s0), FS_Complete}
     \<and> (b \<longrightarrow> spent c V (rv_entries V (ts_world s)) \<and> js_restartState (ts_summary s) \<noteq> RS_NotAttempted)"

lemma ending_still:
  "ending c V b s0 s \<Longrightarrow> rv_entries V w' = rv_entries V (ts_world s) \<Longrightarrow> rv_launches V w' = rv_launches V (ts_world s)
    \<Longrightarrow> ending c V b s0 (s\<lparr>ts_world := w'\<rparr>)"
  by (simp add: ending_def journal_step_def)

lemma ending_pointer:
  assumes "setting c V" "ending c V b s0 s" "only_at V l P (ts_world s) w'"
    "l = rv_loc V (tc_installRoot c) activePath \<or> l = rv_loc V (tc_installRoot c) terminalPath"
  shows "ending c V b s0 (s\<lparr>ts_world := w'\<rparr>)"
proof -
  have sep: "separated c V" using assms(1) by (simp add: setting_def)
  have "l \<in> set (journal_locs c V)" using assms(4) journal_loc(1, 2) [of V c] by auto
  then have "journal_step c V (ts_world s0) w'"
    using journal_step_trans [OF _ journal_step_at [OF assms(3)]] assms(2) unfolding ending_def by blast
  moreover have "rv_entries V w' (summary_loc c V) = rv_entries V (ts_world s) (summary_loc c V)"
    using assms(3, 4) summary_apart [OF sep] by (auto simp: only_at_def)
  ultimately show ?thesis using assms(2) by (simp add: ending_def spent_def)
qed

lemma end_writeSummary:
  assumes "setting c V" "ending c V b s0 s"
    "\<And>z w'. ending c V b s0 (s\<lparr>ts_world := w'\<rparr>)
      \<Longrightarrow> z = Inr () \<longrightarrow> js_restartState (ts_summary s) \<noteq> RS_NotAttempted \<longrightarrow> spent c V (rv_entries V w') \<Longrightarrow> Q z w'"
  shows "wp (writeSummary (tc_io c) fp limits (tc_installRoot c) (ts_summary s)) Q (ts_world s)"
proof -
  have contract: "rooted_contract (tc_io c) V" using assms(1) by (simp add: setting_def)
  let ?s = "ts_summary s"
  have l: "rv_loc V (tc_installRoot c) (summaryPath (js_transactionId ?s)) = summary_loc c V"
    using assms(2) by (simp add: ending_def summary_loc_def)
  have e: "ending c V b s0 (s\<lparr>ts_world := w'\<rparr>)" if w': "only_at V (summary_loc c V) (holds_summary ?s) (ts_world s) w'" for w'
  proof -
    have "journal_step c V (ts_world s0) w'"
      using journal_step_trans [OF _ journal_step_at [OF w' journal_loc(4)]] assms(2) unfolding ending_def by blast
    moreover have "spent c V (rv_entries V w')" if b
      using w' assms(2) that spent_holds [of ?s "rv_entries V w'" c V]
      by (auto simp: ending_def only_at_def spent_def)
    ultimately show ?thesis using assms(2) by (simp add: ending_def)
  qed
  show ?thesis
    by (rule wp_mono [OF wp_writeSummary [OF contract, of fp limits "tc_installRoot c" ?s, unfolded l]])
      (use assms(3) e spent_holds in blast)
qed

lemma end_persistSummary:
  assumes "setting c V" "ending c V b s0 s" "\<And>z s'. ending c V b s0 s' \<Longrightarrow> ts_summary s' = ts_summary s
      \<Longrightarrow> z = Inr () \<longrightarrow> js_restartState (ts_summary s) \<noteq> RS_NotAttempted \<longrightarrow> spent c V (rv_entries V (ts_world s')) \<Longrightarrow> Q z s'"
  shows "wp (persistSummary c boundary) Q s"
  unfolding persistSummary_def wp_with_summary wp_onw wp_call
proof (rule end_writeSummary [OF assms(1, 2)], goal_cases)
  case (1 z w')
  have contract: "rooted_contract (tc_io c) V" using assms(1) by (simp add: setting_def)
  from 1 show ?case
    by (cases z) (auto intro!: step_checkpoint [OF contract] assms(3) simp: ending_def journal_step_def)
qed

lemma end_clearActive:
  assumes "setting c V" "ending c V b s0 s" "\<And>z s'. ending c V b s0 s' \<Longrightarrow> ts_summary s' = ts_summary s \<Longrightarrow> Q z s'"
  shows "wp (clearActive c) Q s"
proof -
  have contract: "rooted_contract (tc_io c) V" using assms(1) by (simp add: setting_def)
  have e: "ending c V b s0 (s\<lparr>ts_world := w'\<rparr>)" if "only_at V (rv_loc V (tc_installRoot c) activePath) P (ts_world s) w'" for P w'
    by (rule ending_pointer [OF assms(1, 2) that]) simp
  show ?thesis
    unfolding clearActive_def
    by (auto intro!: step_journalClearActive [OF contract] step_checkpoint [OF contract] assms(3) dest!: e simp: ending_def journal_step_def split: sum.split)
qed

lemma end_publishTerminalAndClear:
  assumes "setting c V" "ending c V b s0 s" "\<And>z s'. ending c V b s0 s' \<Longrightarrow> ts_summary s' = ts_summary s \<Longrightarrow> Q z s'"
  shows "wp (publishTerminalAndClear c) Q s"
proof -
  have contract: "rooted_contract (tc_io c) V" using assms(1) by (simp add: setting_def)
  have e: "ending c V b s0 (s\<lparr>ts_world := w'\<rparr>)"
    if "only_at V (rv_loc V (tc_installRoot c) terminalPath) P (ts_world s) w'" for P w'
    by (rule ending_pointer [OF assms(1, 2) that]) simp
  have clear: "wp (clearActive c) Q (s\<lparr>ts_world := w'\<rparr>)" if "ending c V b s0 (s\<lparr>ts_world := w'\<rparr>)" for w'
    by (rule end_clearActive [OF assms(1) that]) (simp add: assms(3))
  show ?thesis
    unfolding publishTerminalAndClear_def
    by (auto intro!: step_writePointer(2) [OF contract] step_checkpoint [OF contract] assms(2, 3) clear dest!: e
      simp: fail_def ending_def journal_step_def split: sum.split)
qed

lemma end_persistCompletion:
  assumes "setting c V" "ending c V b s0 s" "\<And>z s'. ending c V b s0 s' \<Longrightarrow> js_restartState (ts_summary s') = js_restartState (ts_summary s) \<Longrightarrow> Q z s'"
  shows "wp (persistCompletion c boundary) Q s"
proof -
  have contract: "rooted_contract (tc_io c) V" using assms(1) by (simp add: setting_def)
  have clock: "wp (prim (io_currentUtcInstant (tc_io c))) P w"
    if "\<And>z w'. rv_entries V w' = rv_entries V w \<Longrightarrow> rv_launches V w' = rv_launches V w \<Longrightarrow> P z w'" for P w
    using contract_quiet(10) [OF contract, of w] that by (simp add: wp_prim quiet_def still_def)
  have persist: "wp (persistSummary c boundary) Q s'"
    if "ending c V b s0 s'" "js_restartState (ts_summary s') = js_restartState (ts_summary s)" for s'
    by (rule end_persistSummary [OF assms(1) that(1)]) (use that(2) assms(3) in simp)
  show ?thesis
    unfolding persistCompletion_def using assms(2)
    by (auto intro!: clock persist assms(3) simp: ending_def journal_step_def split: sum.split)
qed

lemma end_complete:
  assumes "setting c V" "ending c V b s0 s" "\<And>z s'. ending c V b s0 s' \<Longrightarrow> Q z s'"
  shows "wp (complete c) Q s"
  unfolding complete_def
  by (auto intro!: end_persistCompletion [OF assms(1, 2)] end_publishTerminalAndClear [OF assms(1)] assms(3) split: sum.split)

definition spent_by :: "('w, 'd, 'f, 't) txc \<Rightarrow> ('w, 'd, 'f, 't, 'l) rooted_view \<Rightarrow> 'w txs \<Rightarrow> bool" where
  "spent_by c V s \<longleftrightarrow> spent c V (rv_entries V (ts_world s)) \<and> js_restartState (ts_summary s) \<noteq> RS_NotAttempted"

text \<open>The outcome of a restart: at most one launch, from a summary that had none, and recorded.\<close>

definition finished :: "('w, 'd, 'f, 't) txc \<Rightarrow> ('w, 'd, 'f, 't, 'l) rooted_view \<Rightarrow> 'w txs \<Rightarrow> 'w txs \<Rightarrow> bool" where
  "finished c V s s' \<longleftrightarrow>
     (\<forall>l. l \<notin> set (journal_locs c V) \<longrightarrow> rv_entries V (ts_world s') l = rv_entries V (ts_world s) l)
     \<and> js_transactionId (ts_summary s') = tc_transactionId c
     \<and> js_fileState (ts_summary s') \<in> {js_fileState (ts_summary s), FS_Complete}
     \<and> (rv_launches V (ts_world s') = rv_launches V (ts_world s)
        \<or> rv_launches V (ts_world s') = Suc (rv_launches V (ts_world s)) \<and> js_restartState (ts_summary s) = RS_NotAttempted
          \<and> spent c V (rv_entries V (ts_world s')))
     \<and> (spent_by c V s \<longrightarrow> spent c V (rv_entries V (ts_world s')))"

lemma ending_finished: "ending c V (spent_by c V s) s s' \<Longrightarrow> finished c V s s'"
  by (simp add: ending_def finished_def journal_step_def)

lemma step_launchRestart:
  assumes "rooted_contract io V"
    "\<And>z w'. rv_entries V w' = rv_entries V w \<Longrightarrow> rv_launches V w' = rv_launches V w \<or> rv_launches V w' = Suc (rv_launches V w) \<Longrightarrow> Q z w'"
  shows "wp (launchRestart io plan) Q w"
  using contract_launch [OF assms(1)] assms(2) by (simp add: launchRestart_def wp_prim split: list.split)

lemma end_restartFailed:
  assumes "setting c V" "ending c V True s0 s" "\<And>z s'. ending c V True s0 s' \<Longrightarrow> Q z s'"
  shows "wp (restartFailed c e) Q s"
proof -
  have s: "ending c V True s0 (s\<lparr>ts_summary := (ts_summary s)\<lparr>js_restartState := RS_Failed, js_restartError := x\<rparr>\<rparr>)" for x
    using assms(2) by (simp add: ending_def)
  show ?thesis
    unfolding restartFailed_def Let_def
    by (auto intro!: end_persistCompletion [OF assms(1) s] end_publishTerminalAndClear [OF assms(1)] assms(3) split: sum.split)
qed

lemma end_launchAndFinish:
  assumes "setting c V" "js_transactionId (ts_summary s) = tc_transactionId c" "js_restartState (ts_summary s) = RS_NotAttempted"
    "\<And>z s'. finished c V s s' \<Longrightarrow> Q z s'"
  shows "wp (launchAndFinish c) Q s"
proof -
  have contract: "rooted_contract (tc_io c) V" using assms(1) by (simp add: setting_def)
  define si where "si = s\<lparr>ts_summary := (ts_summary s)\<lparr>js_restartState := RS_Intent, js_restartError := no_journal_error\<rparr>\<rparr>"
  have early: "Q z s'" if "ending c V False si s'" for z s'
    using assms(3, 4) that by (simp add: ending_def finished_def journal_step_def si_def spent_by_def)
  have late: "Q z s'" if "ending c V True s1 s'" "ending c V True si s0" "rv_entries V (ts_world s1) = rv_entries V (ts_world s0)"
      "rv_launches V (ts_world s1) = rv_launches V (ts_world s0) \<or> rv_launches V (ts_world s1) = Suc (rv_launches V (ts_world s0))"
      "js_fileState (ts_summary s1) = js_fileState (ts_summary s0)" for z s' s0 s1
    using that assms(3) by (intro assms(4)) (auto simp: ending_def finished_def journal_step_def si_def spent_by_def)
  have persist: "wp (persistSummary c boundary) P si"
    if "\<And>e s'. ending c V False si s' \<Longrightarrow> P (Inl e) s'" "\<And>s'. ending c V True si s' \<Longrightarrow> P (Inr ()) s'" for P boundary
  proof (rule end_persistSummary [OF assms(1), where b = False])
    show "ending c V False si si" using assms(2) by (simp add: ending_def si_def)
    fix z :: "unit result" and s'
    assume "ending c V False si s'" "ts_summary s' = ts_summary si"
      "z = Inr () \<longrightarrow> js_restartState (ts_summary si) \<noteq> RS_NotAttempted \<longrightarrow> spent c V (rv_entries V (ts_world s'))"
    then show "P z s'" using that by (cases z) (auto simp: ending_def si_def)
  qed
  have launched: "wp (call (onw (launchRestart (tc_io c) (tc_plan c))) (restartFailed c) (\<lambda>_.
      call (onw (checkpoint c ''restart.after'' kNoOperation)) (\<lambda>e. ret (Inl (withErrorPhase e EP_Restart))) (\<lambda>_.
      bnd (set_summary (\<lambda>s. s\<lparr>js_restartState := RS_Launched\<rparr>)) (\<lambda>_. complete c)))) Q s0" if s0: "ending c V True si s0" for s0
    unfolding wp_call wp_onw
  proof (rule step_launchRestart [OF contract], goal_cases)
    case (1 z w1)
    define s1 where "s1 = s0\<lparr>ts_world := w1\<rparr>"
    have s1: "ending c V True s1 s1" using s0 1(1) by (simp add: ending_def s1_def)
    have ok: "Q y s'" if "ending c V True s1 s'" for y s'
      by (rule late [OF that s0]) (use 1 in \<open>simp_all add: s1_def\<close>)
    have fin: "wp (complete c) Q s'" if "ending c V True s1 s'" for s'
      by (rule end_complete [OF assms(1) that ok])
    have failed: "wp (restartFailed c e) Q (s0\<lparr>ts_world := w1\<rparr>)" for e
      by (rule end_restartFailed [OF assms(1) s1 [unfolded s1_def] ok [unfolded s1_def]])
    have e: "ending c V True s1 (s0\<lparr>ts_world := w'\<rparr>)" if "rv_entries V w' = rv_entries V w1" "rv_launches V w' = rv_launches V w1" for w'
      using s1 that by (simp add: ending_def journal_step_def s1_def)
    then have e': "ending c V True s1 (s0\<lparr>ts_world := w', ts_summary := (ts_summary s0)\<lparr>js_restartState := RS_Launched\<rparr>\<rparr>)"
      if "rv_entries V w' = rv_entries V w1" "rv_launches V w' = rv_launches V w1" for w'
      using that by (simp add: ending_def)
    show ?case
      by (cases z) (auto intro!: step_checkpoint [OF contract] failed fin ok e e' split: sum.split)
  qed
  show ?thesis
    unfolding launchAndFinish_def
    by (auto simp: si_def [symmetric] simp del: wp_call wp_onw intro!: persist early launched)
qed

lemma end_finishRestart:
  assumes "setting c V" "js_transactionId (ts_summary s) = tc_transactionId c" "\<And>z s'. finished c V s s' \<Longrightarrow> Q z s'"
  shows "wp (finishRestart c) Q s"
proof -
  have e: "ending c V (spent_by c V s) s (s\<lparr>ts_summary := (ts_summary s)\<lparr>js_restartState := RS_OutcomeUnknown, js_restartError := x\<rparr>\<rparr>)" for x
    using assms(2) by (simp add: ending_def spent_by_def)
  have e': "ending c V (spent_by c V s) s s" "ending c V (spent_by c V s) s (s\<lparr>ts_summary := (ts_summary s)\<lparr>js_restartState := RS_NotRequested\<rparr>\<rparr>)"
    using assms(2) by (simp_all add: ending_def spent_by_def)
  show ?thesis
    unfolding finishRestart_def Let_def
    by (auto intro!: end_complete [OF assms(1)] end_launchAndFinish [OF assms(1, 2)] e e' assms(3) ending_finished
      split: JournalRestartState.split sum.split)
qed

end
