(* ===== verification/Executor_Safety.thy ===== *)
theory Executor_Safety
  imports Executor_Restart
begin

text \<open>
  Whole transactions: starting one and recovering one. Nothing here assumes that an operation of the
  file system succeeds, so a crash is covered as the case in which every later operation fails.
\<close>

section \<open>Rolling back a transaction\<close>

definition all_restored :: "('w, 'd, 'f, 't) txc \<Rightarrow> ('w, 'd, 'f, 't, 'l) rooted_view \<Rightarrow> (nat \<Rightarrow> file_object option)
    \<Rightarrow> ('l \<Rightarrow> file_object option) \<Rightarrow> bool" where
  "all_restored c V originals E \<longleftrightarrow> (\<forall>i < operation_count c. restored (originals i) (E (target_loc c V i)))"

definition all_installed :: "('w, 'd, 'f, 't) txc \<Rightarrow> ('w, 'd, 'f, 't, 'l) rooted_view \<Rightarrow> ('l \<Rightarrow> file_object option) \<Rightarrow> bool" where
  "all_installed c V E \<longleftrightarrow> (\<forall>i < operation_count c. installed (ap_operations (tc_plan c) ! i) (E (target_loc c V i)))"

lemma all_by_targets:
  "all_restored c V originals E \<longleftrightarrow> (\<forall>i < operation_count c. restored (originals i) (targets c V E ! i))"
  "all_installed c V E \<longleftrightarrow> (\<forall>i < operation_count c. installed (ap_operations (tc_plan c) ! i) (targets c V E ! i))"
  by (simp_all add: all_restored_def all_installed_def targets_nth)

text \<open>The state keeps the originals; besides, it says "rolled back" only when they are all back.\<close>

definition holding :: "('w, 'd, 'f, 't) txc \<Rightarrow> ('w, 'd, 'f, 't, 'l) rooted_view \<Rightarrow> (nat \<Rightarrow> file_object option) \<Rightarrow> 'w \<Rightarrow> 'w txs \<Rightarrow> bool" where
  "holding c V originals w0 s \<longleftrightarrow>
     keeping c V originals w0 (rv_entries V (ts_world s)) (rv_launches V (ts_world s))
     \<and> js_transactionId (ts_summary s) = tc_transactionId c
     \<and> (spent c V (rv_entries V w0) \<longrightarrow> js_restartState (ts_summary s) \<noteq> RS_NotAttempted)"

definition rolling :: "('w, 'd, 'f, 't) txc \<Rightarrow> ('w, 'd, 'f, 't, 'l) rooted_view \<Rightarrow> (nat \<Rightarrow> file_object option) \<Rightarrow> 'w \<Rightarrow> 'w txs \<Rightarrow> bool" where
  "rolling c V originals w0 s \<longleftrightarrow>
     holding c V originals w0 s
     \<and> (js_fileState (ts_summary s) = FS_RolledBack \<longrightarrow> all_restored c V originals (rv_entries V (ts_world s)))"

lemma holding_step:
  assumes "setting c V" "holding c V originals w0 s" "ending c V (spent c V (rv_entries V w0)) s s'"
  shows "holding c V originals w0 s'" "targets c V (rv_entries V (ts_world s')) = targets c V (rv_entries V (ts_world s))"
proof -
  have sep: "separated c V" using assms(1) by (simp add: setting_def)
  have j: "journal_step c V (ts_world s) (ts_world s')" using assms(3) by (simp add: ending_def)
  show "targets c V (rv_entries V (ts_world s')) = targets c V (rv_entries V (ts_world s))" by (rule journal_step_targets [OF sep j])
  show "holding c V originals w0 s'"
    using assms(2, 3) journal_step_keeping [OF sep j] by (auto simp: holding_def ending_def)
qed

lemma rolling_ending:
  assumes "setting c V" "rolling c V originals w0 s" "ending c V (spent c V (rv_entries V w0)) s s'"
  shows "rolling c V originals w0 s'" "targets c V (rv_entries V (ts_world s')) = targets c V (rv_entries V (ts_world s))"
proof -
  have h: "holding c V originals w0 s" using assms(2) by (simp add: rolling_def)
  note step = holding_step [OF assms(1) h assms(3)]
  show "targets c V (rv_entries V (ts_world s')) = targets c V (rv_entries V (ts_world s))" by (rule step(2))
  show "rolling c V originals w0 s'" using assms(2, 3) step by (auto simp: rolling_def ending_def all_by_targets)
qed

lemma holding_ending: "holding c V originals w0 s \<Longrightarrow> ending c V (spent c V (rv_entries V w0)) s s"
  by (simp add: holding_def keeping_def ending_def)

lemma roll_persistSummary:
  assumes "setting c V" "rolling c V originals w0 s"
    "\<And>z s'. rolling c V originals w0 s' \<Longrightarrow> ts_summary s' = ts_summary s
      \<Longrightarrow> targets c V (rv_entries V (ts_world s')) = targets c V (rv_entries V (ts_world s)) \<Longrightarrow> Q z s'"
  shows "wp (persistSummary c boundary) Q s" "wp (clearActive c) Q s"
proof -
  have e: "ending c V (spent c V (rv_entries V w0)) s s" using assms(2) by (auto simp: rolling_def intro: holding_ending)
  show "wp (persistSummary c boundary) Q s"
    by (rule end_persistSummary [OF assms(1) e]) (use rolling_ending [OF assms(1, 2)] assms(3) in blast)
  show "wp (clearActive c) Q s"
    by (rule end_clearActive [OF assms(1) e]) (use rolling_ending [OF assms(1, 2)] assms(3) in blast)
qed

lemma roll_recordRollbackFailure:
  assumes "setting c V" "holding c V originals w0 s" "\<And>e s'. rolling c V originals w0 s' \<Longrightarrow> Q (Inl e) s'"
  shows "wp (recordRollbackFailure c e e') Q s"
proof -
  have contract: "rooted_contract (tc_io c) V" using assms(1) by (simp add: setting_def)
  define s1 where "s1 = s\<lparr>ts_summary := (ts_summary s)\<lparr>js_fileState := FS_RecoveryFailed,
    js_rollbackError := toJournalError (withErrorPhase e' EP_Rollback)\<rparr>\<rparr>"
  have r: "rolling c V originals w0 s1" using assms(2) by (simp add: rolling_def holding_def s1_def)
  have e: "ending c V (spent c V (rv_entries V w0)) s1 s1" using r by (auto simp: rolling_def intro: holding_ending)
  have fin: "rolling c V originals w0 (s1\<lparr>ts_world := w''\<rparr>)"
    if "ending c V (spent c V (rv_entries V w0)) s1 (s1\<lparr>ts_world := w'\<rparr>)" "rv_entries V w'' = rv_entries V w'" "rv_launches V w'' = rv_launches V w'" for w' w''
    using rolling_ending(1) [OF assms(1) r that(1)] that(2, 3) by (simp add: rolling_def holding_def)
  show ?thesis
    unfolding recordRollbackFailure_def Let_def wp_bnd wp_set_summary s1_def [symmetric] wp_with_summary wp_call wp_onw
  proof (rule end_writeSummary [OF assms(1) e], goal_cases)
    case (1 z w')
    note last = fin [OF 1(1)]
    show ?case
      by (cases z) (auto intro!: step_checkpoint [OF contract] assms(3) last split: sum.split)
  qed
qed

lemma roll_rollbackAll:
  assumes "setting c V" "holding c V originals w0 s"
    "\<And>e w'. holding c V originals w0 (s\<lparr>ts_world := w'\<rparr>) \<Longrightarrow> Q (Inl e) (s\<lparr>ts_world := w'\<rparr>)"
    "\<And>w'. holding c V originals w0 (s\<lparr>ts_world := w'\<rparr>) \<Longrightarrow> all_restored c V originals (rv_entries V w') \<Longrightarrow> Q (Inr ()) (s\<lparr>ts_world := w'\<rparr>)"
  shows "wp (with_summary (\<lambda>summary. onw (rollbackAll c summary))) Q s"
  using assms(2) unfolding wp_with_summary wp_onw
  by (intro keep_rollbackAll [OF assms(1)]) (auto simp: holding_def all_by_targets intro!: assms(3, 4))

lemma roll_rollbackTransaction:
  assumes "setting c V" "rolling c V originals w0 s" "\<And>e s'. rolling c V originals w0 s' \<Longrightarrow> Q (Inl e) s'"
  shows "wp (rollbackTransaction c e a b d) Q s"
proof -
  have undone: "wp (bnd (set_summary (\<lambda>s. s\<lparr>js_fileState := FS_RolledBack, js_rollbackError := no_journal_error\<rparr>)) (\<lambda>_.
     call (persistSummary c ''journal.rolled_back.after'') (\<lambda>e'. ret (Inl (combinedError e b e'))) (\<lambda>_.
     call (clearActive c) (\<lambda>e'. ret (Inl (combinedError e d e'))) (\<lambda>_. ret (Inl e))))) Q s'"
    if "holding c V originals w0 s'" "all_restored c V originals (rv_entries V (ts_world s'))" for s'
  proof -
    have "rolling c V originals w0 (s'\<lparr>ts_summary := (ts_summary s')\<lparr>js_fileState := FS_RolledBack, js_rollbackError := no_journal_error\<rparr>\<rparr>)"
      using that by (simp add: rolling_def holding_def)
    then show ?thesis
      by (auto intro!: roll_persistSummary [OF assms(1)] assms(3) split: sum.split)
  qed
  have holding: "holding c V originals w0 s'" if "rolling c V originals w0 s'" for s'
    using that by (simp add: rolling_def)
  show ?thesis
    unfolding rollbackTransaction_def wp_call
  proof (rule roll_persistSummary(1) [OF assms(1, 2)], goal_cases)
    case (1 z s1)
    then show ?case
    proof (cases z)
      case (Inr u)
      show ?thesis
        unfolding Inr sum.case wp_call
      proof (rule roll_rollbackAll [OF assms(1) holding [OF 1(1)]], goal_cases)
        case (1 e' w')
        show ?case unfolding sum.case by (rule roll_recordRollbackFailure [OF assms(1) 1]) (rule assms(3))
      next
        case (2 w')
        show ?case unfolding sum.case by (rule undone [OF 2(1)]) (use 2(2) in simp)
      qed
    qed (simp add: assms(3))
  qed
qed

lemma roll_failAndRollback:
  assumes "setting c V" "holding c V originals w0 s" "js_fileState (ts_summary s) \<noteq> FS_RolledBack" "\<And>e s'. rolling c V originals w0 s' \<Longrightarrow> Q (Inl e) s'"
  shows "wp (failAndRollback c e) Q s" "wp (recoverByRollback c e) Q s"
proof -
  have r: "rolling c V originals w0 (s\<lparr>ts_summary := (ts_summary s)\<lparr>js_applyError := x, js_fileState := FS_RollingBack, js_rollbackError := y\<rparr>\<rparr>)"
    "rolling c V originals w0 (s\<lparr>ts_summary := (ts_summary s)\<lparr>js_fileState := FS_RollingBack, js_rollbackError := y, js_applyError := x\<rparr>\<rparr>)"
    "rolling c V originals w0 (s\<lparr>ts_summary := (ts_summary s)\<lparr>js_fileState := FS_RollingBack, js_rollbackError := y\<rparr>\<rparr>)"
    "rolling c V originals w0 s" for x y
    using assms(2, 3) by (simp_all add: rolling_def holding_def)
  have wp_state: "wp (\<lambda>s. if b s then Some (x, s) else m s) P s' = (if b s' then P x s' else wp m P s')" for b x m P and s' :: "'a txs"
    by (simp add: wp_def)
  show "wp (failAndRollback c e) Q s"
    unfolding failAndRollback_def Let_def
    by (auto simp: wp_state intro!: roll_rollbackTransaction [OF assms(1)] assms(4) r)
  show "wp (recoverByRollback c e) Q s"
    unfolding recoverByRollback_def Let_def by (auto intro!: roll_rollbackTransaction [OF assms(1)] assms(4) r)
qed

section \<open>Applying and finishing\<close>

text \<open>
  What a started or recovered transaction leaves, from a state \<open>s\<close> with the given originals: each original is
  in place or backed up and the records are truthful; no file outside the transaction has changed;
  success means that every operation is installed; "rolled back" means that every original is back; a
  process was launched at most once, only if none may have been before, and then the journal forbids
  another; what it forbade stays forbidden.
\<close>

definition outcome :: "('w, 'd, 'f, 't) txc \<Rightarrow> ('w, 'd, 'f, 't, 'l) rooted_view \<Rightarrow> (nat \<Rightarrow> file_object option) \<Rightarrow> JournalRestartState
    \<Rightarrow> 'w \<Rightarrow> unit result \<Rightarrow> 'w txs \<Rightarrow> bool" where
  "outcome c V originals restart w0 z s \<longleftrightarrow>
     covered c V originals (rv_entries V (ts_world s)) \<and> confined c V (rv_entries V w0) (rv_entries V (ts_world s))
     \<and> (z = Inr () \<longrightarrow> all_installed c V (rv_entries V (ts_world s)))
     \<and> (js_fileState (ts_summary s) = FS_RolledBack \<longrightarrow> all_restored c V originals (rv_entries V (ts_world s)))
     \<and> (rv_launches V (ts_world s) = rv_launches V w0
        \<or> rv_launches V (ts_world s) = Suc (rv_launches V w0) \<and> restart = RS_NotAttempted \<and> spent c V (rv_entries V (ts_world s)))
     \<and> (spent c V (rv_entries V w0) \<longrightarrow> spent c V (rv_entries V (ts_world s)))"

lemma rolling_outcome: "rolling c V originals w0 s \<Longrightarrow> outcome c V originals restart w0 (Inl e) s"
  by (simp add: rolling_def holding_def outcome_def keeping_def)

lemma finished_outcome:
  assumes "setting c V" "holding c V originals w0 s" "js_fileState (ts_summary s) \<noteq> FS_RolledBack" "finished c V s s'"
    "js_restartState (ts_summary s) = restart" "z = Inr () \<longrightarrow> all_installed c V (rv_entries V (ts_world s))"
  shows "outcome c V originals restart w0 z s'"
proof -
  have sep: "separated c V" using assms(1) by (simp add: setting_def)
  let ?E = "rv_entries V (ts_world s)" and ?E' = "rv_entries V (ts_world s')"
  have same: "?E' (record_loc c V j) = ?E (record_loc c V j)" "?E' (backup_loc c V j) = ?E (backup_loc c V j)"
    "?E' (target_loc c V j) = ?E (target_loc c V j)" if "j < operation_count c" for j
    using assms(4) separated_locs(7-9) [OF sep that that] by (simp_all add: finished_def)
  have outside: "?E' l = ?E l" if "l \<notin> set (managed_locs c V)" for l
    using assms(4) that managed_locsI(4) [of l c V] by (auto simp: finished_def)
  have kept: "covered c V originals ?E" "confined c V (rv_entries V w0) ?E" "rv_launches V (ts_world s) = rv_launches V w0"
    "spent c V (rv_entries V w0) \<longrightarrow> spent_by c V s"
    using assms(2) by (simp_all add: holding_def keeping_def spent_by_def)
  have "covered c V originals ?E'" using kept(1) same by (simp add: covered_def)
  moreover have "confined c V (rv_entries V w0) ?E'" using kept(2) same outside by (simp add: confined_def)
  moreover have "z = Inr () \<longrightarrow> all_installed c V ?E'" using assms(6) same by (simp add: all_installed_def)
  moreover have "js_fileState (ts_summary s') \<noteq> FS_RolledBack" using assms(3, 4) by (auto simp: finished_def)
  moreover have "rv_launches V (ts_world s') = rv_launches V w0
      \<or> rv_launches V (ts_world s') = Suc (rv_launches V w0) \<and> restart = RS_NotAttempted \<and> spent c V ?E'"
    using assms(4, 5) kept(3) by (simp add: finished_def)
  moreover have "spent c V (rv_entries V w0) \<longrightarrow> spent c V ?E'" using kept(4) assms(4) by (simp add: finished_def)
  ultimately show ?thesis by (simp add: outcome_def)
qed

lemma hold_persistSummary:
  assumes "setting c V" "holding c V originals w0 s"
    "\<And>z s'. holding c V originals w0 s' \<Longrightarrow> ts_summary s' = ts_summary s
      \<Longrightarrow> targets c V (rv_entries V (ts_world s')) = targets c V (rv_entries V (ts_world s)) \<Longrightarrow> Q z s'"
  shows "wp (persistSummary c boundary) Q s"
proof -
  have e: "ending c V (spent c V (rv_entries V w0)) s s" using assms(2) by (rule holding_ending)
  show ?thesis by (rule end_persistSummary [OF assms(1) e]) (use holding_step [OF assms(1, 2)] assms(3) in blast)
qed

lemma hold_checkpoint:
  assumes "setting c V" "holding c V originals w0 s"
    "\<And>z w'. holding c V originals w0 (s\<lparr>ts_world := w'\<rparr>)
      \<Longrightarrow> targets c V (rv_entries V w') = targets c V (rv_entries V (ts_world s)) \<Longrightarrow> Q z (s\<lparr>ts_world := w'\<rparr>)"
  shows "wp (onw (checkpoint c name i)) Q s"
proof -
  have contract: "rooted_contract (tc_io c) V" using assms(1) by (simp add: setting_def)
  show ?thesis unfolding wp_onw by (rule step_checkpoint [OF contract]) (use assms(2, 3) in \<open>simp add: holding_def\<close>)
qed

text \<open>
  While the operations are applied: the files are kept, and what follows has to end in an outcome.
\<close>

definition applying :: "('w, 'd, 'f, 't) txc \<Rightarrow> ('w, 'd, 'f, 't, 'l) rooted_view \<Rightarrow> (nat \<Rightarrow> file_object option) \<Rightarrow> JournalRestartState \<Rightarrow> 'w
    \<Rightarrow> 'w txs \<Rightarrow> bool" where
  "applying c V originals restart w0 s \<longleftrightarrow>
     holding c V originals w0 s \<and> js_fileState (ts_summary s) \<noteq> FS_RolledBack \<and> js_restartState (ts_summary s) = restart"

lemma applying_failed:
  assumes "setting c V" "applying c V originals restart w0 s" "\<And>z s'. outcome c V originals restart w0 z s' \<Longrightarrow> Q z s'"
  shows "wp (failAndRollback c e) Q s"
  by (rule roll_failAndRollback(1) [OF assms(1), of originals w0]) (use assms(2) in \<open>auto simp: applying_def intro: assms(3) rolling_outcome\<close>)

lemma applying_finish:
  assumes "setting c V" "applying c V originals restart w0 s" "all_installed c V (rv_entries V (ts_world s))"
    "\<And>z s'. outcome c V originals restart w0 z s' \<Longrightarrow> Q z s'"
  shows "wp (finishRestart c) Q s"
proof (rule end_finishRestart [OF assms(1)])
  have h: "holding c V originals w0 s" using assms(2) by (simp add: applying_def)
  show "js_transactionId (ts_summary s) = tc_transactionId c" using h by (simp add: holding_def)
  show "Q z s'" if "finished c V s s'" for z s'
    by (rule assms(4), rule finished_outcome [OF assms(1) h _ that]) (use assms(2, 3) in \<open>simp_all add: applying_def\<close>)
qed

lemma applying_applyAll:
  assumes "setting c V" "applying c V originals restart w0 s"
    "\<And>e s'. applying c V originals restart w0 s' \<Longrightarrow> Q (Inl e) s'"
    "\<And>s'. applying c V originals restart w0 s' \<Longrightarrow> all_installed c V (rv_entries V (ts_world s')) \<Longrightarrow> Q (Inr ()) s'"
  shows "wp (onw (applyAll c 0 (ap_operations (tc_plan c)))) Q s"
proof -
  have k: "keeping c V originals w0 (rv_entries V (ts_world s)) (rv_launches V (ts_world s))"
    using assms(2) by (simp add: applying_def holding_def)
  show ?thesis
    unfolding wp_onw
  proof (rule wp_mono [OF keep_applyAll [OF assms(1) k, of 0, simplified]], goal_cases)
    case (1 z w')
    then show ?case using assms(2-4) by (cases z) (auto simp: applying_def holding_def all_by_targets)
  qed
qed

lemma applying_persistSummary:
  assumes "setting c V" "applying c V originals restart w0 s"
    "\<And>z s'. applying c V originals restart w0 s' \<Longrightarrow> targets c V (rv_entries V (ts_world s')) = targets c V (rv_entries V (ts_world s)) \<Longrightarrow> Q z s'"
  shows "wp (persistSummary c boundary) Q s"
proof -
  have h: "holding c V originals w0 s" using assms(2) by (simp add: applying_def)
  show ?thesis by (rule hold_persistSummary [OF assms(1) h]) (use assms(2, 3) in \<open>simp add: applying_def\<close>)
qed

lemma applying_checkpoint:
  assumes "setting c V" "applying c V originals restart w0 s" "\<And>z s'. applying c V originals restart w0 s' \<Longrightarrow> Q z s'"
  shows "wp (onw (checkpoint c name i)) Q s"
proof -
  have h: "holding c V originals w0 s" using assms(2) by (simp add: applying_def)
  show ?thesis by (rule hold_checkpoint [OF assms(1) h]) (use assms(2, 3) in \<open>simp add: applying_def\<close>)
qed

lemma applying_state:
  "applying c V originals restart w0 s \<Longrightarrow> b \<noteq> FS_RolledBack \<Longrightarrow> applying c V originals restart w0 (s\<lparr>ts_summary := (ts_summary s)\<lparr>js_fileState := b\<rparr>\<rparr>)"
  by (auto simp: applying_def holding_def)

lemma safe_applyPrepared:
  assumes "setting c V" "holding c V originals w0 s" "js_fileState (ts_summary s) = FS_Prepared"
    "\<And>z s'. outcome c V originals (js_restartState (ts_summary s)) w0 z s' \<Longrightarrow> Q z s'"
  shows "wp (applyPrepared c) Q s"
proof -
  have start: "applying c V originals (js_restartState (ts_summary s)) w0 s" using assms(2, 3) by (simp add: applying_def)
  show ?thesis
    unfolding applyPrepared_def
    by (auto simp del: wp_onw intro!: applying_checkpoint [OF assms(1) start] applying_persistSummary [OF assms(1)] applying_applyAll [OF assms(1)]
      applying_failed [OF assms(1) _ assms(4)] applying_finish [OF assms(1) _ _ assms(4)] applying_state
      simp: all_by_targets split: sum.split)
qed

end
