(* ===== verification/Executor_Start.thy ===== *)
theory Executor_Start
  imports Executor_Safety
begin

text \<open>
  Starting a transaction: preparation changes no target, and the pointer that makes a transaction
  recoverable is written only when every original is recorded and, where needed, backed up.
\<close>

section \<open>Preparing all operations\<close>

lemma prep_prepareAll:
  assumes "setting c V" "preparing c V w0 k (rv_entries V (ts_world s)) (rv_launches V (ts_world s))" "k \<le> operation_count c"
    "\<And>e s'. preparing c V w0 0 (rv_entries V (ts_world s')) (rv_launches V (ts_world s')) \<Longrightarrow> ts_summary s' = ts_summary s \<Longrightarrow> Q (Inl e) s'"
    "\<And>s'. preparing c V w0 (operation_count c) (rv_entries V (ts_world s')) (rv_launches V (ts_world s'))
       \<Longrightarrow> ts_summary s' = ts_summary s \<Longrightarrow> Q (Inr ()) s'"
  shows "wp (prepareAll c k (drop k (ap_operations (tc_plan c)))) Q s"
  using assms(2-)
proof (induction "operation_count c - k" arbitrary: k s)
  case 0
  then show ?case by simp
next
  case (Suc n)
  then have k: "k < operation_count c" by simp
  then have split: "drop k (ap_operations (tc_plan c)) = ap_operations (tc_plan c) ! k # drop (Suc k) (ap_operations (tc_plan c))"
    by (simp add: Cons_nth_drop_Suc)
  show ?case
    unfolding split prepareAll.simps wp_attempt
  proof (rule prep_prepareOne [OF assms(1) k Suc(3) refl], goal_cases)
    case (1 e s1)
    then show ?case using Suc(5) [of s1] preparing_mono [OF 1(1), of 0] by simp
  next
    case (2 s1)
    show ?case unfolding sum.case by (rule Suc(1) [of "Suc k" s1]) (use Suc(2, 5, 6) 2 k in simp_all)
  qed
qed

section \<open>Starting\<close>

definition first_seen :: "('w, 'd, 'f, 't) txc \<Rightarrow> ('w, 'd, 'f, 't, 'l) rooted_view \<Rightarrow> 'w \<Rightarrow> nat \<Rightarrow> file_object option" where
  "first_seen c V w i = rv_entries V w (target_loc c V i)"

text \<open>
  What starting leaves of the files in world \<open>w0\<close>: files outside the transaction and earlier backups are
  untouched; each target holds its original or a backup does; once the active pointer has changed, the
  transaction can be recovered; success means installed, "rolled back" means restored.
\<close>

definition started :: "('w, 'd, 'f, 't) txc \<Rightarrow> ('w, 'd, 'f, 't, 'l) rooted_view \<Rightarrow> 'w \<Rightarrow> unit result \<Rightarrow> 'w txs \<Rightarrow> bool" where
  "started c V w0 z s \<longleftrightarrow>
     (let E0 = rv_entries V w0; E = rv_entries V (ts_world s)
      in (\<forall>l. l \<notin> set (managed_locs c V) \<longrightarrow> E l = E0 l)
         \<and> (\<forall>i < operation_count c. E0 (backup_loc c V i) \<noteq> None \<longrightarrow> E (backup_loc c V i) = E0 (backup_loc c V i))
         \<and> (\<forall>i < operation_count c. E (target_loc c V i) = E0 (target_loc c V i) \<or> backed (E0 (target_loc c V i)) (E (backup_loc c V i)))
         \<and> (E (active_loc c V) = E0 (active_loc c V) \<or> covered c V (first_seen c V w0) E)
         \<and> (z = Inr () \<longrightarrow> all_installed c V E)
         \<and> (js_fileState (ts_summary s) = FS_RolledBack \<longrightarrow> all_restored c V (first_seen c V w0) E)
         \<and> (rv_launches V (ts_world s) = rv_launches V w0
            \<or> rv_launches V (ts_world s) = Suc (rv_launches V w0) \<and> spent c V E \<and> covered c V (first_seen c V w0) E))"

lemma restored_same: "restored e e"
  by (auto simp: restored_def stands_for_def evidence_def split: option.split)

lemma active_journal: "active_loc c V \<in> set (journal_locs c V)"
  by (simp add: active_loc_def journal_locs_def)

lemma preparing_started: "preparing c V w0 k (rv_entries V (ts_world s)) (rv_launches V (ts_world s)) \<Longrightarrow> started c V w0 (Inl e) s"
  using active_journal [of c V] by (auto simp: preparing_def started_def Let_def all_restored_def first_seen_def restored_same)

lemma preparing_covered:
  assumes "preparing c V w0 (operation_count c) E L" "\<And>i. i < operation_count c \<Longrightarrow> E' (target_loc c V i) = E (target_loc c V i)
      \<and> E' (backup_loc c V i) = E (backup_loc c V i) \<and> E' (record_loc c V i) = E (record_loc c V i)"
  shows "covered c V (first_seen c V w0) E'"
  using assms by (auto simp: preparing_def covered_def first_seen_def)

lemma outcome_started:
  assumes "preparing c V w0 (operation_count c) (rv_entries V w) L" "rv_launches V w1 = rv_launches V w0"
    "only_at V (active_loc c V) P w w1" "\<And>i. i < operation_count c \<Longrightarrow> backup_loc c V i \<noteq> active_loc c V"
    "outcome c V (first_seen c V w0) restart w1 z s"
  shows "started c V w0 z s"
proof -
  have a: "active_loc c V \<in> set (managed_locs c V)" by (simp add: managed_locs_def journal_locs_def active_loc_def)
  have "rv_entries V (ts_world s) l = rv_entries V w0 l" if "l \<notin> set (managed_locs c V)" for l
    using assms(1, 5) that only_at_outside [OF assms(3) a that] by (simp add: outcome_def confined_def preparing_def)
  moreover have "rv_entries V (ts_world s) (backup_loc c V i) = rv_entries V w0 (backup_loc c V i)"
    if "i < operation_count c" "rv_entries V w0 (backup_loc c V i) \<noteq> None" for i
    using assms(1, 3, 5) assms(4) [OF that(1)] that by (simp add: outcome_def confined_def preparing_def only_at_def)
  ultimately show ?thesis
    using assms(2, 5) by (auto simp: started_def Let_def outcome_def covered_def first_seen_def)
qed

text \<open>From the prepared state on: the pointer is written and the operations are applied.\<close>

lemma start_activate:
  assumes "setting c V" "preparing c V w0 (operation_count c) (rv_entries V (ts_world s)) (rv_launches V (ts_world s))"
    "js_fileState (ts_summary s) = FS_Prepared" "js_transactionId (ts_summary s) = tc_transactionId c"
    "spent c V (rv_entries V (ts_world s)) \<longrightarrow> js_restartState (ts_summary s) \<noteq> RS_NotAttempted" "\<And>z s'. started c V w0 z s' \<Longrightarrow> Q z s'"
  shows "wp (call (onw (writeActive (tc_io c) fp (tc_installRoot c) pointer)) (\<lambda>e. ret (Inl (f e)))
    (\<lambda>_. bnd (upd (\<lambda>s. s\<lparr>ts_active := True\<rparr>)) (\<lambda>_. applyPrepared c))) Q s"
  unfolding wp_call wp_onw
proof (rule step_writePointer(1) [where V = V], goal_cases)
  case 1
  show ?case using assms(1) by (simp add: setting_def)
next
  case (2 z w')
  have sep: "separated c V" using assms(1) by (simp add: setting_def)
  have moved: "only_at V (active_loc c V) (\<lambda>_. True) (ts_world s) w'" using 2 by (simp add: active_loc_def)
  have apart: "backup_loc c V i \<noteq> active_loc c V" "target_loc c V i \<noteq> active_loc c V" "record_loc c V i \<noteq> active_loc c V"
    if "i < operation_count c" for i
    using active_apart [OF sep that] by auto
  have cov: "covered c V (first_seen c V w0) (rv_entries V w')"
    by (rule preparing_covered [OF assms(2)]) (use moved apart in \<open>simp add: only_at_def\<close>)
  have launches: "rv_launches V w' = rv_launches V w0" using assms(2) moved by (simp add: preparing_def only_at_def)
  have unspent: "spent c V (rv_entries V w') \<longrightarrow> js_restartState (ts_summary s) \<noteq> RS_NotAttempted"
    using assms(5) moved summary_apart(1) [OF sep] by (auto simp: spent_def only_at_def active_loc_def)
  have over: "Q z' s'" if "outcome c V (first_seen c V w0) restart w' z' s'" for restart z' s'
    by (rule assms(6), rule outcome_started [OF assms(2) launches moved apart(1) that])
  have holding: "holding c V (first_seen c V w0) w' (s\<lparr>ts_world := w', ts_active := True\<rparr>)"
    using cov unspent assms(4) by (simp add: holding_def keeping_def)
  have "wp (applyPrepared c) Q (s\<lparr>ts_world := w', ts_active := True\<rparr>)"
    by (rule safe_applyPrepared [OF assms(1) holding]) (use assms(3) over in simp_all)
  moreover have "outcome c V (first_seen c V w0) RS_NotAttempted w' (Inl e) (s\<lparr>ts_world := w'\<rparr>)" for e
    using cov assms(3) by (simp add: outcome_def)
  ultimately show ?case by (cases z) (auto intro: over)
qed

lemma holds_summary_spent: "holds_summary summary (E (summary_loc c V)) \<Longrightarrow> spent c V E \<longleftrightarrow> js_restartState summary \<noteq> RS_NotAttempted"
  by (auto simp: holds_summary_def spent_def stored_summary_def)

lemma started_after:
  assumes "separated c V" "journal_step c V w0 w1" "rv_entries V w1 (active_loc c V) = rv_entries V w0 (active_loc c V)" "started c V w1 z s"
  shows "started c V w0 z s"
proof -
  have same: "rv_entries V w1 (target_loc c V i) = rv_entries V w0 (target_loc c V i)"
    "rv_entries V w1 (backup_loc c V i) = rv_entries V w0 (backup_loc c V i)" if "i < operation_count c" for i
    using assms(2) separated_locs(7, 8) [OF assms(1) that that] by (simp_all add: journal_step_def)
  have cov: "covered c V (first_seen c V w1) E = covered c V (first_seen c V w0) E"
    "all_restored c V (first_seen c V w1) E = all_restored c V (first_seen c V w0) E" for E
    using same by (auto simp: covered_def all_restored_def first_seen_def)
  have "rv_entries V w1 l = rv_entries V w0 l" if "l \<notin> set (managed_locs c V)" for l
    using assms(2) that managed_locsI(4) [of l c V] by (auto simp: journal_step_def)
  moreover have "rv_launches V w1 = rv_launches V w0" using assms(2) by (simp add: journal_step_def)
  ultimately show ?thesis using assms(3, 4) same by (simp add: started_def Let_def cov)
qed

lemma start_prepared:
  assumes "setting c V" "holds_summary (ts_summary s) (rv_entries V (ts_world s) (summary_loc c V))"
    "js_fileState (ts_summary s) = FS_Prepared" "js_transactionId (ts_summary s) = tc_transactionId c"
    "\<And>z s'. started c V (ts_world s) z s' \<Longrightarrow> Q z s'"
  shows "wp (attempt (prepareAll c 0 (ap_operations (tc_plan c))) (\<lambda>_.
    attempt (onw (checkpoint c name k)) (\<lambda>_.
    call (onw (writeActive (tc_io c) fp (tc_installRoot c) pointer)) (\<lambda>e. ret (Inl (f e)))
      (\<lambda>_. bnd (upd (\<lambda>s. s\<lparr>ts_active := True\<rparr>)) (\<lambda>_. applyPrepared c))))) Q s"
  unfolding wp_attempt
proof (rule prep_prepareAll [where k = 0, simplified, OF assms(1) preparing_start], goal_cases)
  case (1 e s1)
  then show ?case by (auto intro: assms(5) preparing_started)
next
  case (2 s1)
  have contract: "rooted_contract (tc_io c) V" using assms(1) by (simp add: setting_def)
  show ?case
    unfolding sum.case wp_attempt wp_onw
  proof (rule step_checkpoint [OF contract], goal_cases)
    case (1 z w')
    have prep: "preparing c V (ts_world s) (operation_count c) (rv_entries V w') (rv_launches V w')" using 1 2(1) by simp
    have "rv_entries V w' (summary_loc c V) = rv_entries V (ts_world s) (summary_loc c V)"
      using prep summary_journal [of c V] by (auto simp: preparing_def)
    then have fresh: "spent c V (rv_entries V w') \<longrightarrow> js_restartState (ts_summary s1) \<noteq> RS_NotAttempted"
      using assms(2) 2(2) holds_summary_spent [of "ts_summary s" "rv_entries V w'" c V] by simp
    show ?case
    proof (cases z)
      case (Inl e)
      then show ?thesis using prep by (auto intro!: assms(5) preparing_started)
    next
      case (Inr u)
      show ?thesis
        unfolding Inr sum.case by (rule start_activate [OF assms(1)]) (use prep fresh assms(3, 4) 2(2) assms(5) in simp_all)
    qed
  qed
qed

lemma start_persist:
  assumes "setting c V" "js_transactionId (ts_summary s) = tc_transactionId c"
    "\<And>z w'. journal_step c V (ts_world s) w' \<Longrightarrow> rv_entries V w' (active_loc c V) = rv_entries V (ts_world s) (active_loc c V)
      \<Longrightarrow> z = Inr () \<longrightarrow> holds_summary (ts_summary s) (rv_entries V w' (summary_loc c V)) \<Longrightarrow> Q z (s\<lparr>ts_world := w'\<rparr>)"
  shows "wp (persistSummary c boundary) Q s"
  unfolding persistSummary_def wp_with_summary wp_onw wp_call
proof (rule wp_mono [OF wp_writeSummary [where V = V]], goal_cases)
  case 1
  show ?case using assms(1) by (simp add: setting_def)
next
  case (2 z w')
  have contract: "rooted_contract (tc_io c) V" and sep: "separated c V" using assms(1) by (auto simp: setting_def)
  have l: "rv_loc V (tc_installRoot c) (summaryPath (js_transactionId (ts_summary s))) = summary_loc c V"
    using assms(2) by (simp add: summary_loc_def)
  from 2 have moved: "only_at V (summary_loc c V) (holds_summary (ts_summary s)) (ts_world s) w'"
    and ok: "z = Inr () \<longrightarrow> holds_summary (ts_summary s) (rv_entries V w' (summary_loc c V))" by (simp_all add: l)
  have step: "journal_step c V (ts_world s) w'" by (rule journal_step_at [OF moved summary_journal])
  have still: "rv_entries V w' (active_loc c V) = rv_entries V (ts_world s) (active_loc c V)"
    using moved summary_apart(1) [OF sep] by (simp add: only_at_def active_loc_def)
  show ?case
    using ok step still
    by (cases z) (auto intro!: step_checkpoint [OF contract] assms(3) simp: journal_step_def)
qed

lemma safe_start:
  assumes "setting c V" "\<And>z s'. started c V (ts_world s) z s' \<Longrightarrow> Q z s'"
  shows "wp (tx_start c) Q s"
proof (cases "plan_toJson (tc_fpText c) (tc_plan c)")
  case None
  have "started c V (ts_world s) (Inl e) s" for e by (rule preparing_started [OF preparing_start])
  with None show ?thesis by (simp add: tx_start_def unexpectedFailure_def assms(2))
next
  case (Some json)
  have contract: "rooted_contract (tc_io c) V" and sep: "separated c V" using assms(1) by (auto simp: setting_def)
  let ?begun = "\<lambda>w. journal_step c V (ts_world s) w \<and> rv_entries V w (active_loc c V) = rv_entries V (ts_world s) (active_loc c V)"
  have lift: "Q z s'" if "?begun w" "started c V w z s'" for w z s'
    by (rule assms(2), rule started_after [OF sep _ _ that(2)]) (use that(1) in auto)
  have early: "Q (Inl e) s'" if "?begun (ts_world s')" for e s'
    by (rule lift [OF that], rule preparing_started [OF preparing_start])
  have plan: "?begun w'" if "only_at V (rv_loc V (tc_installRoot c) (planPath (tc_transactionId c))) (\<lambda>_. True) (ts_world s) w'" for w'
  proof -
    have "active_loc c V \<noteq> rv_loc V (tc_installRoot c) (planPath (tc_transactionId c))"
      using sep by (auto simp: separated_def managed_locs_def journal_locs_def active_loc_def)
    with that show ?thesis using journal_step_at [OF that journal_loc(3)] by (simp add: only_at_def)
  qed
  have rest: "wp (attempt (persistSummary c ''journal.prepared.after'') (\<lambda>_.
      attempt (prepareAll c 0 (ap_operations (tc_plan c))) (\<lambda>_.
      attempt (onw (checkpoint c name k)) (\<lambda>_.
      call (onw (writeActive (tc_io c) fp (tc_installRoot c) pointer)) (\<lambda>e. ret (Inl (f e)))
        (\<lambda>_. bnd (upd (\<lambda>s. s\<lparr>ts_active := True\<rparr>)) (\<lambda>_. applyPrepared c)))))) Q (s\<lparr>ts_world := w, ts_summary := preparedSummary c (ts_summary s)\<rparr>)"
    if w: "?begun w" for name k fp pointer f w
    unfolding wp_attempt [of "persistSummary c b" for b]
  proof (rule start_persist [OF assms(1)], goal_cases)
    case 1
    show ?case by (simp add: preparedSummary_def)
  next
    case (2 z w')
    have begun: "?begun w'" using 2(1, 2) w by (auto intro: journal_step_trans)
    show ?case
    proof (cases z)
      case (Inl e)
      then show ?thesis using begun by (simp add: early)
    next
      case (Inr u)
      show ?thesis
        unfolding Inr sum.case
        by (rule start_prepared [OF assms(1)]) (use 2(3) Inr lift [OF begun] in \<open>simp_all add: preparedSummary_def\<close>)
    qed
  qed
  show ?thesis
    unfolding tx_start_def Some option.case wp_call wp_onw
  proof (rule step_writePlanSnapshot [OF contract], goal_cases)
    case (1 z w')
    note begun = plan [OF 1]
    have again: "?begun w''" if "rv_entries V w'' = rv_entries V w'" "rv_launches V w'' = rv_launches V w'" for w''
      using begun that by (simp add: journal_step_def)
    show ?case
    proof (cases z)
      case (Inl e)
      then show ?thesis using begun by (simp add: early)
    next
      case (Inr u)
      show ?thesis
        unfolding Inr sum.case wp_attempt [of "onw m" for m] wp_onw
      proof (rule step_checkpoint [OF contract], goal_cases)
        case (1 y w'')
        have b: "?begun w''" by (rule again) (use 1 in simp_all)
        show ?case using early [of "s\<lparr>ts_world := w''\<rparr>"] rest [OF b] b by (cases y) (simp_all add: del: wp_attempt)
      qed
    qed
  qed
qed

end
