(* ===== verification/Executor_Recover.thy ===== *)
theory Executor_Recover
  imports Executor_Start
begin

text \<open>
  Recovering a transaction from its journal, whatever state it was left in.
\<close>

section \<open>Verifying an installation\<close>

lemma step_verifyBackup:
  assumes "rooted_contract (tc_io c) V" "\<And>z w'. rv_entries V w' = rv_entries V w \<Longrightarrow> rv_launches V w' = rv_launches V w \<Longrightarrow> Q z w'"
  shows "wp (verifyBackup c r target) Q w"
  unfolding verifyBackup_def
  by (auto intro!: bound_open [OF assms(1)] bound_verifyOriginal [OF assms(1)] step_closing [OF assms(1)] step_close [OF assms(1)] assms(2)
    simp: fail_def split: sum.split option.split)

lemma keep_verifyAppliedOne:
  assumes "setting c V" "i < operation_count c" "operationOf c r = ap_operations (tc_plan c) ! i"
    "\<And>e w'. rv_entries V w' = rv_entries V w \<Longrightarrow> rv_launches V w' = rv_launches V w \<Longrightarrow> Q (Inl e) w'"
    "\<And>w'. rv_entries V w' = rv_entries V w \<Longrightarrow> rv_launches V w' = rv_launches V w
       \<Longrightarrow> installed (ap_operations (tc_plan c) ! i) (rv_entries V w (target_loc c V i)) \<Longrightarrow> Q (Inr ()) w'"
  shows "wp (verifyAppliedOne c r) Q w"
proof -
  have contract: "rooted_contract (tc_io c) V" using assms(1) by (simp add: setting_def)
  have l: "rv_loc V (tc_installRoot c) (op_target (ap_operations (tc_plan c) ! i)) = target_loc c V i" by (simp add: target_loc_def)
  have fine: "Q z w'" if "rv_entries V w' = rv_entries V w" "rv_launches V w' = rv_launches V w"
    "installed (ap_operations (tc_plan c) ! i) (rv_entries V w (target_loc c V i))" for z w'
    using assms(4, 5) that by (cases z) auto
  show ?thesis
    unfolding verifyAppliedOne_def assms(3)
    by (auto intro!: step_observe [OF contract] step_verifyBackup [OF contract] fine assms(4) simp: fail_def l installed_def split: sum.split)
qed

lemma keep_verifyAppliedAll:
  assumes "setting c V" "operation_count c < 2 ^ 64" "list_all2 (ours c V originals w0) ks rs" "set ks \<subseteq> {..<operation_count c}"
  shows "wp (verifyAppliedAll c rs) (\<lambda>z w'. rv_entries V w' = rv_entries V w \<and> rv_launches V w' = rv_launches V w
    \<and> (z = Inr () \<longrightarrow> (\<forall>i \<in> set ks. installed (ap_operations (tc_plan c) ! i) (rv_entries V w (target_loc c V i))))) w"
  using assms(3, 4)
proof (induction arbitrary: w rule: list_all2_induct)
  case Nil
  then show ?case by simp
next
  case (Cons i ks r rs)
  then have i: "i < operation_count c" by simp
  have index: "operationOf c r = ap_operations (tc_plan c) ! i"
    using ours_ids(1) [OF Cons(1)] i assms(2) by (simp add: operationOf_def unsigned_of_nat take_bit_nat_eq_self)
  show ?case
    unfolding verifyAppliedAll.simps wp_attempt
  proof (rule keep_verifyAppliedOne [OF assms(1) i index], goal_cases)
    case (1 e w1)
    then show ?case by simp
  next
    case (2 w1)
    show ?case unfolding sum.case by (rule wp_mono [OF Cons(3)]) (use Cons(4) 2 in auto)
  qed
qed

lemma hold_verifyAppliedState:
  assumes "setting c V" "holding c V originals w0 s"
    "\<And>e w'. holding c V originals w0 (s\<lparr>ts_world := w'\<rparr>) \<Longrightarrow> rv_entries V w' = rv_entries V (ts_world s) \<Longrightarrow> Q (Inl e) (s\<lparr>ts_world := w'\<rparr>)"
    "\<And>w'. holding c V originals w0 (s\<lparr>ts_world := w'\<rparr>) \<Longrightarrow> rv_entries V w' = rv_entries V (ts_world s)
       \<Longrightarrow> all_installed c V (rv_entries V w') \<Longrightarrow> Q (Inr ()) (s\<lparr>ts_world := w'\<rparr>)"
  shows "wp (with_summary (\<lambda>summary. onw (verifyAppliedState c summary))) Q s"
proof -
  have k: "keeping c V originals w0 (rv_entries V (ts_world s)) (rv_launches V (ts_world s))" using assms(2) by (simp add: holding_def)
  have same: "holding c V originals w0 (s\<lparr>ts_world := w'\<rparr>)"
    if "rv_entries V w' = rv_entries V (ts_world s)" "rv_launches V w' = rv_launches V (ts_world s)" for w'
    using assms(2) that by (simp add: holding_def)
  show ?thesis
    unfolding verifyAppliedState_def wp_with_summary wp_onw wp_attempt
  proof (rule keep_loadOperationRecords [OF assms(1) k], goal_cases)
    case (1 e w1)
    then show ?case by (simp add: assms(3) same)
  next
    case (2 rs w1)
    have all: "list_all2 (ours c V originals w0) [0..<operation_count c] rs" by (rule 2(4))
    have n: "length rs = operation_count c" using list_all2_lengthD [OF all] by simp
    have "wp (verifyAppliedAll c rs) (\<lambda>x w'. Q x (s\<lparr>ts_world := w'\<rparr>)) w1"
    proof (rule wp_mono [OF keep_verifyAppliedAll [OF assms(1) 2(3) all]], goal_cases)
      case 1
      show ?case by auto
    next
      case (2 z w')
      then show ?case
        using \<open>rv_entries V w1 = rv_entries V (ts_world s)\<close> \<open>rv_launches V w1 = rv_launches V (ts_world s)\<close> assms(3, 4) same
        by (cases z) (auto simp: all_installed_def)
    qed
    then show ?case by (simp add: n)
  qed
qed

section \<open>Recovering\<close>

lemma roll_recordTerminalReconciliationFailure:
  assumes "setting c V" "rolling c V originals w0 s" "\<And>e s'. rolling c V originals w0 s' \<Longrightarrow> Q (Inl e) s'"
  shows "wp (recordTerminalReconciliationFailure c e) Q s"
proof -
  have r: "rolling c V originals w0 (s\<lparr>ts_summary := (ts_summary s)\<lparr>js_applyError := x\<rparr>\<rparr>)"
    "rolling c V originals w0 (s\<lparr>ts_summary := (ts_summary s)\<lparr>js_applyError := x, js_restartState := RS_OutcomeUnknown, js_restartError := y\<rparr>\<rparr>)" for x y
    using assms(2) by (simp_all add: rolling_def holding_def)
  show ?thesis
    unfolding recordTerminalReconciliationFailure_def Let_def
    by (auto intro!: roll_persistSummary [OF assms(1)] assms(3) r split: sum.split)
qed

lemma roll_clearActive:
  assumes "setting c V" "rolling c V originals w0 s" "\<And>z s'. rolling c V originals w0 s' \<Longrightarrow> Q z s'"
  shows "wp (clearActive c) Q s"
  by (rule roll_persistSummary(2) [OF assms(1, 2)]) (rule assms(3))

lemma safe_recoverRolledBack:
  assumes "setting c V" "holding c V originals w0 s" "js_fileState (ts_summary s) = FS_RolledBack" "\<And>e s'. rolling c V originals w0 s' \<Longrightarrow> Q (Inl e) s'"
  shows "wp (recoverRolledBack c) Q s"
  unfolding recoverRolledBack_def wp_call
proof (rule roll_rollbackAll [OF assms(1, 2)], goal_cases)
  case (1 e w')
  show ?case unfolding sum.case by (rule roll_recordRollbackFailure [OF assms(1) 1]) (rule assms(4))
next
  case (2 w')
  have "rolling c V originals w0 (s\<lparr>ts_world := w'\<rparr>)" using 2 by (simp add: rolling_def)
  then show ?case by (auto intro!: roll_clearActive [OF assms(1)] assms(4) simp: fail_def split: sum.split)
qed

lemma safe_recoverComplete:
  assumes "setting c V" "holding c V originals w0 s" "js_fileState (ts_summary s) = FS_Complete"
    "\<And>z s'. outcome c V originals (js_restartState (ts_summary s)) w0 z s' \<Longrightarrow> Q z s'"
  shows "wp (recoverComplete c) Q s"
  unfolding recoverComplete_def wp_call
proof (rule hold_verifyAppliedState [OF assms(1, 2)], goal_cases)
  case (1 e w')
  have "rolling c V originals w0 (s\<lparr>ts_world := w'\<rparr>)" using 1 assms(3) by (simp add: rolling_def)
  then show ?case
    unfolding sum.case by (rule roll_recordTerminalReconciliationFailure [OF assms(1)]) (rule assms(4), rule rolling_outcome)
next
  case (2 w')
  let ?s = "s\<lparr>ts_world := w'\<rparr>" and ?b = "spent c V (rv_entries V w0)"
  have e: "ending c V ?b ?s ?s" by (rule holding_ending [OF 2(1)])
  have over: "Q z s'" if "ending c V ?b ?s s'" for z s'
  proof -
    have "holding c V originals w0 s'" "targets c V (rv_entries V (ts_world s')) = targets c V (rv_entries V w')"
      using holding_step [OF assms(1) 2(1) that] by simp_all
    moreover have "js_fileState (ts_summary s') = FS_Complete" using that assms(3) by (simp add: ending_def)
    ultimately show ?thesis
      using 2(3) by (intro assms(4)) (simp add: outcome_def holding_def keeping_def all_by_targets)
  qed
  show ?case
    by (auto intro!: end_persistCompletion [OF assms(1) e] end_publishTerminalAndClear [OF assms(1)] over e split: sum.split)
qed

lemma safe_recoverFilesApplied:
  assumes "setting c V" "holding c V originals w0 s" "js_fileState (ts_summary s) = FS_FilesApplied"
    "\<And>z s'. outcome c V originals (js_restartState (ts_summary s)) w0 z s' \<Longrightarrow> Q z s'"
  shows "wp (recoverFilesApplied c) Q s"
  unfolding recoverFilesApplied_def wp_call
proof (rule hold_verifyAppliedState [OF assms(1, 2)], goal_cases)
  case (1 e w')
  have r: "rolling c V originals w0 (s\<lparr>ts_world := w'\<rparr>)" using 1 assms(3) by (simp add: rolling_def)
  show ?case
    unfolding sum.case Let_def wp_with_summary
    by (auto intro!: roll_recordTerminalReconciliationFailure [OF assms(1) r] roll_failAndRollback(2) [OF assms(1) 1(1)] assms(4) rolling_outcome
      simp: assms(3))
next
  case (2 w')
  show ?case
    unfolding sum.case
  proof (rule end_finishRestart [OF assms(1)], goal_cases)
    case 1
    show ?case using assms(2) by (simp add: holding_def)
  next
    case (2 z s')
    show ?case
      by (rule assms(4), rule finished_outcome [OF assms(1) \<open>holding c V originals w0 (s\<lparr>ts_world := w'\<rparr>)\<close> _ 2])
        (use assms(3) \<open>all_installed c V (rv_entries V w')\<close> in simp_all)
  qed
qed

lemma safe_recover:
  assumes "setting c V" "holding c V originals w0 s"
    "\<And>z s'. outcome c V originals (js_restartState (ts_summary s)) w0 z s' \<Longrightarrow> Q z s'"
  shows "wp (tx_recover c) Q s"
proof -
  let ?s = "s\<lparr>ts_active := True\<rparr>"
  have h: "holding c V originals w0 ?s" using assms(2) by (simp add: holding_def)
  have rolled: "Q z s'" if "rolling c V originals w0 s'" "z = Inl e" for z e s'
    using that by (auto intro: assms(3) rolling_outcome)
  have other: "wp (recordTerminalReconciliationFailure c e) Q ?s" "wp (recoverByRollback c e) Q ?s"
    if "js_fileState (ts_summary s) \<noteq> FS_RolledBack" for e
    using that h
    by (auto intro!: roll_recordTerminalReconciliationFailure [OF assms(1)] roll_failAndRollback(2) [OF assms(1) h] rolled simp: rolling_def)
  have "wp (recoverRolledBack c) Q ?s" if "js_fileState (ts_summary s) = FS_RolledBack"
    by (rule safe_recoverRolledBack [OF assms(1) h]) (use that rolled in auto)
  moreover have "wp (recoverComplete c) Q ?s" if "js_fileState (ts_summary s) = FS_Complete"
    by (rule safe_recoverComplete [OF assms(1) h]) (use that assms(3) in auto)
  moreover have "wp (recoverFilesApplied c) Q ?s" if "js_fileState (ts_summary s) = FS_FilesApplied"
    by (rule safe_recoverFilesApplied [OF assms(1) h]) (use that assms(3) in auto)
  ultimately show ?thesis
    unfolding tx_recover_def using other by (simp split: JournalFileState.split)
qed

end
