(* ===== verification/Executor_Life.thy ===== *)
theory Executor_Life
  imports Executor_Recover
begin

text \<open>
  The life of one transaction across processes: it is started once, may be interrupted at any point, and
  is recovered by later runs as often as its pointer is found. An interruption is a run in which every
  operation fails from some point on, followed by a process with fresh handles.
\<close>

section \<open>Runs\<close>

text \<open>The same transaction in another process: other handles for the same directories.\<close>

definition resumes :: "('w, 'd, 'f, 't) txc \<Rightarrow> ('w, 'd, 'f, 't, 'l) rooted_view \<Rightarrow> ('w, 'd, 'f, 't) txc \<Rightarrow> bool" where
  "resumes c V c' \<longleftrightarrow>
     rooted_contract (tc_io c') V \<and> tc_plan c' = tc_plan c \<and> tc_transactionId c' = tc_transactionId c
     \<and> rv_loc V (tc_installRoot c') = rv_loc V (tc_installRoot c) \<and> rv_loc V (tc_backupRoot c') = rv_loc V (tc_backupRoot c)"

inductive life :: "('w, 'd, 'f, 't) txc \<Rightarrow> ('w, 'd, 'f, 't, 'l) rooted_view \<Rightarrow> 'w \<Rightarrow> 'w \<Rightarrow> bool" for c V w0 where
  begun: "tx_start c (new_transaction c summary w0) = Some (z, s) \<Longrightarrow> life c V w0 (ts_world s)"
| elsewhere: "life c V w0 w \<Longrightarrow> rv_entries V w' = rv_entries V w \<Longrightarrow> rv_launches V w' = rv_launches V w \<Longrightarrow> life c V w0 w'"
| recovered: "life c V w0 w \<Longrightarrow> resumes c V c' \<Longrightarrow> loadActive (tc_io c') (tc_installRoot c') w = Some (Inr (Some a), w1)
    \<Longrightarrow> rc_transactionId a = tc_transactionId c' \<Longrightarrow> rv_entries V w2 = rv_entries V w1 \<Longrightarrow> rv_launches V w2 = rv_launches V w1
    \<Longrightarrow> readSummary (tc_io c') (tc_limits c') (tc_installRoot c') (tc_transactionId c') w2 = Some (Inr summary, w3)
    \<Longrightarrow> rv_entries V w4 = rv_entries V w3 \<Longrightarrow> rv_launches V w4 = rv_launches V w3
    \<Longrightarrow> tx_recover c' (new_transaction c' summary w4) = Some (z, s) \<Longrightarrow> life c V w0 (ts_world s)"

text \<open>The active pointer names the transaction.\<close>

definition points :: "('w, 'd, 'f, 't) txc \<Rightarrow> ('w, 'd, 'f, 't, 'l) rooted_view \<Rightarrow> ('l \<Rightarrow> file_object option) \<Rightarrow> bool" where
  "points c V E \<longleftrightarrow> (\<exists>x a. E (active_loc c V) = Some x \<and> parseActiveTransaction (fo_bytes x) = Inr a \<and> rc_transactionId a = tc_transactionId c)"

section \<open>Its invariant\<close>

text \<open>
  Originals are in place or backed up, nothing outside the transaction has changed, earlier backups are
  untouched, a transaction with a pointer is recoverable, and at most one process has been launched.
\<close>

definition alive :: "('w, 'd, 'f, 't) txc \<Rightarrow> ('w, 'd, 'f, 't, 'l) rooted_view \<Rightarrow> 'w \<Rightarrow> 'w \<Rightarrow> bool" where
  "alive c V w0 w \<longleftrightarrow>
     (let E0 = rv_entries V w0; E = rv_entries V w
      in (\<forall>l. l \<notin> set (managed_locs c V) \<longrightarrow> E l = E0 l)
         \<and> (\<forall>i < operation_count c. E0 (backup_loc c V i) \<noteq> None \<longrightarrow> E (backup_loc c V i) = E0 (backup_loc c V i))
         \<and> (\<forall>i < operation_count c. E (target_loc c V i) = E0 (target_loc c V i) \<or> backed (E0 (target_loc c V i)) (E (backup_loc c V i)))
         \<and> (E (active_loc c V) = E0 (active_loc c V) \<or> covered c V (first_seen c V w0) E)
         \<and> (rv_launches V w = rv_launches V w0 \<or> rv_launches V w = Suc (rv_launches V w0) \<and> spent c V E))"

lemma started_alive: "started c V w0 z s \<Longrightarrow> alive c V w0 (ts_world s)"
  by (auto simp: started_def alive_def Let_def)

lemma outcome_alive:
  assumes "alive c V w0 w" "outcome c V (first_seen c V w0) restart w z s" "spent c V (rv_entries V w) \<longrightarrow> restart \<noteq> RS_NotAttempted"
  shows "alive c V w0 (ts_world s)"
proof -
  let ?F = "rv_entries V w0" and ?E = "rv_entries V (ts_world s)"
  have cov: "covered c V (first_seen c V w0) ?E" and conf: "confined c V (rv_entries V w) ?E" using assms(2) by (simp_all add: outcome_def)
  have "?E l = ?F l" if "l \<notin> set (managed_locs c V)" for l
    using conf assms(1) that by (simp add: confined_def alive_def Let_def)
  moreover have "?E (backup_loc c V i) = ?F (backup_loc c V i)" if "i < operation_count c" "?F (backup_loc c V i) \<noteq> None" for i
    using conf assms(1) that by (simp add: confined_def alive_def Let_def)
  moreover have "?E (target_loc c V i) = ?F (target_loc c V i) \<or> backed (?F (target_loc c V i)) (?E (backup_loc c V i))"
    if "i < operation_count c" for i
    using cov that by (simp add: covered_def first_seen_def)
  moreover have "rv_launches V (ts_world s) = rv_launches V w0 \<or> rv_launches V (ts_world s) = Suc (rv_launches V w0) \<and> spent c V ?E"
  proof -
    have before: "rv_launches V w = rv_launches V w0 \<or> rv_launches V w = Suc (rv_launches V w0) \<and> spent c V (rv_entries V w)"
      using assms(1) by (simp add: alive_def Let_def)
    have "rv_launches V (ts_world s) = rv_launches V w
        \<or> rv_launches V (ts_world s) = Suc (rv_launches V w) \<and> restart = RS_NotAttempted \<and> spent c V ?E"
      "spent c V (rv_entries V w) \<longrightarrow> spent c V ?E"
      using assms(2) by (simp_all add: outcome_def)
    with before assms(3) show ?thesis by auto
  qed
  ultimately show ?thesis using cov unfolding alive_def Let_def by blast
qed

lemma alive_same: "alive c V w0 w \<Longrightarrow> rv_entries V w' = rv_entries V w \<Longrightarrow> rv_launches V w' = rv_launches V w \<Longrightarrow> alive c V w0 w'"
  by (simp add: alive_def)

lemma resumes_locs:
  assumes "resumes c V c'"
  shows "target_loc c' V = target_loc c V" "backup_loc c' V = backup_loc c V" "record_loc c' V = record_loc c V" "active_loc c' V = active_loc c V"
    "summary_loc c' V = summary_loc c V" "managed_locs c' V = managed_locs c V" "operation_count c' = operation_count c"
  using assms
  by (auto simp: resumes_def target_loc_def [abs_def] backup_loc_def [abs_def] record_loc_def [abs_def] active_loc_def summary_loc_def
    managed_locs_def journal_locs_def)

lemma resumes_same:
  assumes "resumes c V c'"
  shows "alive c' V = alive c V" "separated c' V = separated c V" "spent c' V = spent c V" "covered c' V = covered c V"
    "first_seen c' V = first_seen c V"
proof -
  note locs = resumes_locs [OF assms]
  have kept: "record_kept c' = record_kept c" using assms by (simp add: fun_eq_iff record_kept_def resumes_def split: option.split sum.split)
  show eq: "separated c' V = separated c V" "spent c' V = spent c V" "covered c' V = covered c V" "first_seen c' V = first_seen c V"
    by (simp_all add: fun_eq_iff separated_def spent_def covered_def first_seen_def locs kept)
  show "alive c' V = alive c V" by (simp add: fun_eq_iff alive_def locs eq)
qed

lemma run_wp: "wp m Q w \<Longrightarrow> m w = Some (x, w') \<Longrightarrow> Q x w'"
  by (simp add: wp_def)

lemma points_loadActive:
  assumes "rooted_contract io V" "loadActive io root w = Some (Inr (Some a), w')"
  shows "rv_entries V w' = rv_entries V w" "rv_launches V w' = rv_launches V w"
    "\<exists>x. rv_entries V w (rv_loc V root activePath) = Some x \<and> parseActiveTransaction (fo_bytes x) = Inr a"
proof -
  have "wp (loadActive io root) (\<lambda>z w'. rv_entries V w' = rv_entries V w \<and> rv_launches V w' = rv_launches V w
    \<and> (\<forall>a. z = Inr (Some a) \<longrightarrow> (\<exists>x. rv_entries V w (rv_loc V root activePath) = Some x \<and> parseActiveTransaction (fo_bytes x) = Inr a))) w"
    unfolding loadActive_def
    by (auto intro!: wp_readOptional [OF assms(1)] simp: journalError_def fail_def split: sum.split option.split)
  from run_wp [OF this assms(2)] show "rv_entries V w' = rv_entries V w" "rv_launches V w' = rv_launches V w"
    "\<exists>x. rv_entries V w (rv_loc V root activePath) = Some x \<and> parseActiveTransaction (fo_bytes x) = Inr a" by auto
qed

lemma stored_readSummary:
  assumes "rooted_contract io V" "readSummary io limits root identity w = Some (Inr summary, w')"
  shows "rv_entries V w' = rv_entries V w" "rv_launches V w' = rv_launches V w" "js_transactionId summary = identity"
    "\<exists>x. rv_entries V w (rv_loc V root (summaryPath identity)) = Some x \<and> parseApplyJournalSummary (fo_bytes x) = Inr summary"
proof -
  have "wp (readSummary io limits root identity) (\<lambda>z w'. rv_entries V w' = rv_entries V w \<and> rv_launches V w' = rv_launches V w
    \<and> (\<forall>s. z = Inr s \<longrightarrow> js_transactionId s = identity
        \<and> (\<exists>x. rv_entries V w (rv_loc V root (summaryPath identity)) = Some x \<and> parseApplyJournalSummary (fo_bytes x) = Inr s))) w"
    unfolding readSummary_def
    by (auto intro!: wp_readOptional [OF assms(1)] simp: journalError_def fail_def split: sum.split option.split)
  from run_wp [OF this assms(2)] show "rv_entries V w' = rv_entries V w" "rv_launches V w' = rv_launches V w" "js_transactionId summary = identity"
    "\<exists>x. rv_entries V w (rv_loc V root (summaryPath identity)) = Some x \<and> parseApplyJournalSummary (fo_bytes x) = Inr summary" by auto
qed

lemma new_transaction_simps [simp]:
  "ts_world (new_transaction c summary w) = w"
  "js_transactionId (ts_summary (new_transaction c summary w)) = js_transactionId summary"
  "js_restartState (ts_summary (new_transaction c summary w)) = js_restartState summary"
  "js_fileState (ts_summary (new_transaction c summary w)) = js_fileState summary"
  by (simp_all add: new_transaction_def normalizeSummaryErrors_def)

text \<open>One recovery: the pointer shows that the transaction is covered, and the summary whether a launch may follow.\<close>

lemma alive_recovered:
  assumes "setting c V" "alive c V w0 w" "\<not> points c V (rv_entries V w0)"
    "rv_entries V w (active_loc c V) = Some x" "parseActiveTransaction (fo_bytes x) = Inr a" "rc_transactionId a = tc_transactionId c"
    "rv_entries V w (summary_loc c V) = Some y" "parseApplyJournalSummary (fo_bytes y) = Inr summary" "js_transactionId summary = tc_transactionId c"
    "tx_recover c (new_transaction c summary w) = Some (z, s)"
  shows "alive c V w0 (ts_world s)"
proof -
  have "points c V (rv_entries V w)" using assms(4-6) by (auto simp: points_def)
  then have "rv_entries V w (active_loc c V) \<noteq> rv_entries V w0 (active_loc c V)" using assms(3) by (auto simp: points_def)
  then have cov: "covered c V (first_seen c V w0) (rv_entries V w)" using assms(2) by (simp add: alive_def Let_def)
  have fresh: "spent c V (rv_entries V w) \<longrightarrow> js_restartState summary \<noteq> RS_NotAttempted" using assms(7, 8) by (auto simp: spent_def)
  have h: "holding c V (first_seen c V w0) w (new_transaction c summary w)"
    using cov fresh assms(9) by (simp add: holding_def keeping_def)
  have "wp (tx_recover c) (\<lambda>z s. alive c V w0 (ts_world s)) (new_transaction c summary w)"
    by (rule safe_recover [OF assms(1) h], rule outcome_alive [OF assms(2)]) (use fresh in simp_all)
  then show ?thesis by (rule run_wp) (rule assms(10))
qed

lemma life_alive:
  assumes "setting c V" "\<not> points c V (rv_entries V w0)" "life c V w0 w"
  shows "alive c V w0 w"
  using assms(3)
proof (induction rule: life.induct)
  case (begun summary z s)
  have "wp (tx_start c) (\<lambda>z s. alive c V w0 (ts_world s)) (new_transaction c summary w0)"
    by (rule safe_start [OF assms(1)]) (simp add: started_alive)
  then show ?case by (rule run_wp) (rule begun)
next
  case (elsewhere w w')
  from elsewhere(4, 2, 3) show ?case by (rule alive_same)
next
  case (recovered w c' a w1 w2 summary w3 w4 z s)
  note same = resumes_same [OF recovered(2)] and locs = resumes_locs [OF recovered(2)]
  have contract: "rooted_contract (tc_io c') V" and ids: "tc_transactionId c' = tc_transactionId c" using recovered(2) by (auto simp: resumes_def)
  have set: "setting c' V" using assms(1) contract same(2) by (simp add: setting_def)
  note active = points_loadActive [OF contract recovered(3)] and stored = stored_readSummary [OF contract recovered(7)]
  have E: "rv_entries V w4 = rv_entries V w" "rv_launches V w4 = rv_launches V w"
    using recovered(5, 6, 8, 9) active(1, 2) stored(1, 2) by simp_all
  have w4: "alive c' V w0 w4" using alive_same [OF recovered(11) E] by (simp add: same)
  have none: "\<not> points c' V (rv_entries V w0)" using assms(2) ids locs by (simp add: points_def)
  obtain x where x: "rv_entries V w4 (active_loc c' V) = Some x" "parseActiveTransaction (fo_bytes x) = Inr a"
    using active(3) E by (auto simp: active_loc_def)
  obtain y where y: "rv_entries V w4 (summary_loc c' V) = Some y" "parseApplyJournalSummary (fo_bytes y) = Inr summary"
    using stored(4) E active(1) recovered(5) by (auto simp: summary_loc_def)
  have "alive c' V w0 (ts_world s)"
    by (rule alive_recovered [OF set w4 none x recovered(4) y stored(3) recovered(10)])
  then show ?case by (simp add: same)
qed

end
