(* ===== verification/Memory_Files.thy ===== *)
theory Memory_Files
  imports Rooted_Contract
begin

text \<open>
  A rooted file system in memory, to show that the laws of \<open>Rooted_Contract\<close> can hold together. It can lose
  power: it counts down with every operation, and at zero every operation fails and changes nothing.
\<close>

type_synonym mem_loc = "string \<times> string"
type_synonym mem_temp = "mem_loc \<times> nat"

datatype mem_file = Bound nat | TempFile mem_temp

record mem =
  m_entries :: "mem_loc \<Rightarrow> file_object option"
  m_handles :: "nat \<Rightarrow> (file_object \<times> nat) option"
  m_temps :: "mem_temp \<Rightarrow> (file_object \<times> nat) option"
  m_next :: nat
  m_launches :: nat
  m_power :: nat

definition mem_error :: "'a result" where
  "mem_error = fail EC_FileSystemError ''unavailable''"

definition powered :: "(mem, 'a) prim \<Rightarrow> (mem, 'a) prim" where
  "powered f w = (case m_power w of 0 \<Rightarrow> (mem_error, w) | Suc n \<Rightarrow> f (w\<lparr>m_power := n\<rparr>))"

fun mem_state :: "mem \<Rightarrow> mem_file \<Rightarrow> (file_object \<times> nat) option" where
  "mem_state w (Bound n) = m_handles w n"
| "mem_state w (TempFile t) = m_temps w t"

fun mem_store :: "mem \<Rightarrow> mem_file \<Rightarrow> file_object \<times> nat \<Rightarrow> mem" where
  "mem_store w (Bound n) s = w\<lparr>m_handles := (m_handles w)(n := Some s)\<rparr>"
| "mem_store w (TempFile t) s = w\<lparr>m_temps := (m_temps w)(t := Some s)\<rparr>"

definition mem_with :: "mem_file \<Rightarrow> (file_object \<times> nat \<Rightarrow> 'a \<times> file_object \<times> nat) \<Rightarrow> (mem, 'a) prim" where
  "mem_with f g = powered (\<lambda>w. case mem_state w f of None \<Rightarrow> (mem_error, w) | Some s \<Rightarrow> (Inr (fst (g s)), mem_store w f (snd (g s))))"

text \<open>Changes go to temporary files only: an opened file is a snapshot of its entry.\<close>

definition mem_change :: "mem_file \<Rightarrow> (file_object \<times> nat \<Rightarrow> file_object \<times> nat) \<Rightarrow> (mem, unit) prim" where
  "mem_change f g = (case f of Bound n \<Rightarrow> powered (\<lambda>w. (mem_error, w)) | TempFile t \<Rightarrow> mem_with f (\<lambda>s. ((), g s)))"

definition mem_open :: "string \<Rightarrow> string \<Rightarrow> (mem, mem_file option) prim" where
  "mem_open d path = powered (\<lambda>w.
     case m_entries w (d, path) of
       None \<Rightarrow> (Inr None, w)
     | Some x \<Rightarrow>
         if m_handles w (m_next w) \<noteq> None then (mem_error, w)
         else (Inr (Some (Bound (m_next w))), w\<lparr>m_handles := (m_handles w)(m_next w := Some (x, 0)), m_next := Suc (m_next w)\<rparr>))"

definition mem_create :: "string \<Rightarrow> string \<Rightarrow> (mem, mem_temp) prim" where
  "mem_create d path = powered (\<lambda>w.
     let t = ((d, path), m_next w)
     in if m_temps w t \<noteq> None then (mem_error, w)
        else (Inr t, w\<lparr>m_temps := (m_temps w)(t := Some (\<lparr>fo_identity = path, fo_permissions = 0, fo_bytes = []\<rparr>, 0)),
                m_next := Suc (m_next w)\<rparr>))"

definition mem_close :: "mem_file \<Rightarrow> (mem, unit) prim" where
  "mem_close f = powered (\<lambda>w. (Inr (), case f of Bound n \<Rightarrow> w\<lparr>m_handles := (m_handles w)(n := None)\<rparr> | TempFile t \<Rightarrow> w))"

definition mem_commit :: "mem_temp \<Rightarrow> RootedEntryExpectation \<Rightarrow> (mem, unit) prim" where
  "mem_commit t expectation = powered (\<lambda>w.
     case m_temps w t of
       None \<Rightarrow> (mem_error, w)
     | Some (x, _) \<Rightarrow>
         if expects expectation (m_entries w (fst t))
         then (Inr (), w\<lparr>m_entries := (m_entries w)(fst t := Some x), m_temps := (m_temps w)(t := None)\<rparr>)
         else (mem_error, w))"

definition mem_remove :: "string \<Rightarrow> string \<Rightarrow> RootedEntryExpectation \<Rightarrow> (mem, unit) prim" where
  "mem_remove d path expectation = powered (\<lambda>w.
     if expects expectation (m_entries w (d, path)) then (Inr (), w\<lparr>m_entries := (m_entries w)((d, path) := None)\<rparr>)
     else (mem_error, w))"

definition mem_write :: "string \<Rightarrow> file_object \<times> nat \<Rightarrow> file_object \<times> nat" where
  "mem_write b = (\<lambda>(x, k). (x\<lparr>fo_bytes := take k (fo_bytes x) @ b @ drop (k + length b) (fo_bytes x)\<rparr>, k + length b))"

definition mem_read :: "nat \<Rightarrow> file_object \<times> nat \<Rightarrow> string \<times> file_object \<times> nat" where
  "mem_read n = (\<lambda>(x, k). let b = take n (drop k (fo_bytes x)) in (b, x, k + length b))"

definition mem_io :: "(mem, string, mem_file, mem_temp) rooted_io" where
  "mem_io =
     \<lparr>io_openRoot = \<lambda>path access create mode. powered (\<lambda>w. (Inr path, w)),
      io_openRegularFile = \<lambda>d path access mode. mem_open d path,
      io_createAtomicReplacement = \<lambda>d path mode. mem_create d path,
      io_removeRegularFile = mem_remove,
      io_acquireExclusiveLock = \<lambda>d path. powered (\<lambda>w. (Inr (), w)),
      io_read = \<lambda>f n. mem_with f (mem_read n),
      io_write = \<lambda>f b. mem_change f (mem_write b),
      io_seek = \<lambda>f n. mem_with f (\<lambda>(x, k). ((), x, n)),
      io_truncate = \<lambda>f n. mem_change f (\<lambda>(x, k). (x\<lparr>fo_bytes := take n (fo_bytes x)\<rparr>, k)),
      io_metadata = \<lambda>f. mem_with f (\<lambda>(x, k). (metadata_of x, x, k)),
      io_setPermissions = \<lambda>f p. mem_change f (\<lambda>(x, k). (x\<lparr>fo_permissions := p\<rparr>, k)),
      io_copyPermissionsFrom = \<lambda>f g w. mem_change f (\<lambda>(x, k). (case mem_state w g of None \<Rightarrow> x | Some (y, _) \<Rightarrow> x\<lparr>fo_permissions := fo_permissions y\<rparr>, k)) w,
      io_close = mem_close,
      io_file = TempFile,
      io_commit = mem_commit,
      io_discard = \<lambda>t. powered (\<lambda>w. (Inr (), w\<lparr>m_temps := (m_temps w)(t := None)\<rparr>)),
      io_publishStatus = \<lambda>t w. \<lparr>ps_publication = (if m_temps w t = None then Published else NotPublished), ps_namespaceDurable = True,
        ps_failureCanBeReconciled = False\<rparr>,
      io_sha256Stream = \<lambda>f. mem_with f (\<lambda>(x, k). (sha256Bytes (fo_bytes x), x, length (fo_bytes x))),
      io_launch = \<lambda>request. powered (\<lambda>w. (Inr (), w\<lparr>m_launches := Suc (m_launches w)\<rparr>)),
      io_checkpoint = None,
      io_currentUtcInstant = powered (\<lambda>w. (Inr (UtcInstant 0 0), w)),
      io_entropy = \<lambda>w. (\<lparr>te_system = 0, te_steady = 0, te_sequence = 0, te_random = []\<rparr>, w)\<rparr>"

definition mem_view :: "(mem, string, mem_file, mem_temp, mem_loc) rooted_view" where
  "mem_view =
     \<lparr>rv_entries = m_entries, rv_loc = Pair,
      rv_bound = \<lambda>w f. case f of Bound n \<Rightarrow> map_option fst (m_handles w n) | TempFile t \<Rightarrow> None,
      rv_offset = \<lambda>w f. case mem_state w f of None \<Rightarrow> 0 | Some (x, k) \<Rightarrow> k,
      rv_temp = \<lambda>w t. map_option fst (m_temps w t), rv_target = fst, rv_launches = m_launches\<rparr>"

section \<open>The laws hold\<close>

lemmas mem_ops = mem_io_def mem_view_def mem_with_def mem_change_def mem_open_def mem_create_def mem_close_def mem_commit_def mem_remove_def
  mem_read_def mem_write_def

lemmas mem_laws = quiet_def still_def keeps_handles_def quiet_but_def same_offsets_def

lemma powered_simps [simp]:
  "m_power w = 0 \<Longrightarrow> powered f w = (mem_error, w)" "m_power w = Suc n \<Longrightarrow> powered f w = f (w\<lparr>m_power := n\<rparr>)"
  by (simp_all add: powered_def)

lemma powered_snd: "R w w \<Longrightarrow> (\<And>n. R w (snd (f (w\<lparr>m_power := n\<rparr>)))) \<Longrightarrow> R w (snd (powered f w))"
  by (cases "m_power w") simp_all

lemma powered_Inr: "powered f w = (Inr x, w') \<Longrightarrow> (\<And>n. f (w\<lparr>m_power := n\<rparr>) = (Inr x, w') \<Longrightarrow> P) \<Longrightarrow> P"
  by (cases "m_power w") (simp_all add: mem_error_def fail_def)

lemma mem_quiet: "quiet_laws mem_io mem_view"
  unfolding quiet_laws_def
  by (intro conjI allI; simp add: mem_ops; (rule powered_snd)?;
    auto simp: mem_laws Let_def split: option.split mem_file.split prod.split elim!: mem_state.elims)

lemma mem_handles: "handle_laws mem_io mem_view"
  unfolding handle_laws_def
  by (intro conjI allI impI; simp add: mem_ops split: mem_file.splits; elim powered_Inr exE;
    auto simp: Let_def mem_error_def fail_def take_is_prefix split: option.splits if_splits)

lemma mem_change_quiet:
  assumes "rv_temp mem_view w t \<noteq> None"
  shows "quiet_but mem_view t w (snd (mem_change (TempFile t) g w))"
  unfolding mem_change_def mem_with_def mem_file.case
  by (rule powered_snd) (use assms in \<open>auto simp: mem_laws mem_view_def split: option.split mem_file.split\<close>)

lemma mem_state_other: "f \<noteq> TempFile t \<Longrightarrow> mem_state (mem_store (w\<lparr>m_power := n\<rparr>) (TempFile t) s) f = mem_state w f"
  "mem_state (w\<lparr>m_power := n\<rparr>) f = mem_state w f"
  by (cases f; simp)+

lemma mem_with_offsets: "same_offsets mem_view (TempFile t) w (snd (mem_with (TempFile t) g w))"
  unfolding mem_with_def
  by (rule powered_snd)
    (simp_all add: same_offsets_def mem_view_def mem_state_other del: mem_state.simps mem_store.simps split: option.split)

lemma mem_temps: "temp_laws mem_io mem_view"
  unfolding temp_laws_def
proof (intro conjI allI impI, goal_cases)
  case (11 w t f)
  then show ?case by (simp add: mem_ops) (rule powered_snd; auto split: mem_file.split)
next
  case (12 w w' t x b)
  then show ?case by (auto simp: mem_ops mem_error_def fail_def elim!: powered_Inr)
next
  case (3 w w' d path mode t)
  then show ?case by (auto simp: mem_ops Let_def mem_error_def fail_def elim!: powered_Inr split: if_splits)
next
  case (1 w w' d path mode t)
  then show ?case by (auto simp: mem_ops Let_def mem_error_def fail_def elim!: powered_Inr split: if_splits)
next
  case (8 w t b)
  show ?case by (simp add: mem_io_def mem_change_def mem_with_offsets)
next
  case (9 w t n)
  show ?case by (simp add: mem_io_def mem_change_def mem_with_offsets)
next
  case (10 w t n)
  show ?case by (simp add: mem_io_def mem_with_offsets)
next
  case (2 w w' d path mode t)
  show ?case by (simp add: mem_io_def mem_view_def)
qed (simp_all add: mem_io_def mem_change_quiet)

lemma mem_namespace: "namespace_laws mem_io mem_view"
  unfolding namespace_laws_def Let_def
  by (intro conjI allI; simp add: mem_ops; rule powered_snd; auto split: option.split)

lemma mem_contract: "rooted_contract mem_io mem_view"
  by (simp add: rooted_contract_def mem_quiet mem_handles mem_temps mem_namespace)

end
