(* ===== verification/Executor_Properties.thy ===== *)
theory Executor_Properties
  imports Executor_Life Memory_Files
begin

text \<open>
  The properties of the apply executor, with a transaction on the file system in memory as the instance
  at which each is applied. They hold for transactions whose files are apart (\<open>separated\<close>): the targets, the
  backups and the journal's files are pairwise different files. \<open>ApplyPlanWriter.cpp\<close> puts backups below
  \<open>.autoupdater/backup\<close>, where no managed target lies; the executor itself does not compare the roots.
\<close>

section \<open>Explicit rollback\<close>

lemma inverse_installed: "faithful original r \<Longrightarrow> installed (inverseOperation r operation) e \<Longrightarrow> restored original e"
  by (cases original; cases e)
    (auto simp: faithful_def restored_def installed_def inverseOperation_def matchesInstalled_def stands_for_def evidence_def default_operation_def
      observation_def absent_file_def matchesEvidence_def permissionsMatch_def metadata_of_def)

lemma inverseOperations_eq:
  "inverseOperations operations rs = Inr inverses \<Longrightarrow>
     inverses = map (\<lambda>r. inverseOperation r (operations ! unat (jo_index r))) (filter (\<lambda>r. jo_rollbackState r \<noteq> RB_NotRequired) rs)"
  by (induction rs arbitrary: inverses) (auto simp: fail_def split: if_splits)

lemma inverseOperation_target [simp]: "op_target (inverseOperation r operation) = op_target operation"
  by (simp add: inverseOperation_def default_operation_def)

text \<open>The operations that are undone, in the order in which the plan has them.\<close>

abbreviation undone :: "ApplyJournalOperation list \<Rightarrow> nat list" where
  "undone records \<equiv> filter (\<lambda>k. jo_rollbackState (records ! k) \<noteq> RB_NotRequired) [0..<length records]"

lemma deriveRollbackPlan_operations:
  assumes "deriveRollbackPlan request plan records = Inr p" "\<forall>k < length records. unat (jo_index (records ! k)) = k"
  shows "length records = length (ap_operations plan)"
    "ap_operations p = map (\<lambda>k. inverseOperation (records ! k) (ap_operations plan ! k)) (rev (undone records))"
proof -
  from assms(1) show "length records = length (ap_operations plan)" by (auto simp: deriveRollbackPlan_def fail_def split: if_splits)
  have "inverseOperations (ap_operations plan) (rev records) = Inr (ap_operations p)"
    using assms(1) by (auto simp: deriveRollbackPlan_def fail_def split: if_splits)
  note eq = inverseOperations_eq [OF this]
  have "filter (\<lambda>r. jo_rollbackState r \<noteq> RB_NotRequired) (rev records) = map ((!) records) (rev (undone records))"
    by (subst map_nth [of records, symmetric]) (simp add: rev_map filter_map comp_def rev_filter [symmetric] del: map_nth)
  then show "ap_operations p = map (\<lambda>k. inverseOperation (records ! k) (ap_operations plan ! k)) (rev (undone records))"
    unfolding eq using assms(2) by simp
qed

lemma deriveRollbackPlan_roots:
  "deriveRollbackPlan request plan records = Inr p \<Longrightarrow>
     ap_intent p = Rollback \<and> ap_rollbackOf p = ap_rollbackOf request \<and> ap_installDir p = ap_installDir plan
     \<and> ap_stagingDir p = ap_backupDir plan \<and> ap_backupDir p = ap_backupDir request
     \<and> ap_fromVersion p = ap_toVersion plan \<and> ap_toVersion p = ap_fromVersion plan"
  by (auto simp: deriveRollbackPlan_def fail_def split: if_splits)

text \<open>The precondition of an inverse operation is what the operation installed; a backup of the original is what it copies.\<close>

lemma inverse_precondition:
  "installed operation e \<Longrightarrow> \<exists>p. op_precondition (inverseOperation r operation) = Some p \<and> matchesPrecondition (observation e) p"
  by (cases "op_type operation")
    (auto simp: inverseOperation_def installedPrecondition_def default_operation_def missing_precondition_def installed_def matchesInstalled_def matchesPrecondition_def matchesEvidence_def)

lemma inverse_source:
  assumes "faithful (Some x) r" "stands_for y x"
  shows "op_type (inverseOperation r operation) = Replace" "op_source (inverseOperation r operation) = op_target operation"
    "evidence y (op_size (inverseOperation r operation)) (op_sha256 (inverseOperation r operation))"
  using assms by (simp_all add: inverseOperation_def faithful_def stands_for_def)

section \<open>Incomplete transactions\<close>

lemma recover_incomplete:
  assumes "setting c V" "holding c V originals w0 s" "js_fileState (ts_summary s) \<notin> {FS_Complete, FS_FilesApplied}"
    "\<And>e s'. rolling c V originals w0 s' \<Longrightarrow> Q (Inl e) s'"
  shows "wp (tx_recover c) Q s"
proof -
  let ?s = "s\<lparr>ts_active := True\<rparr>"
  have h: "holding c V originals w0 ?s" using assms(2) by (simp add: holding_def)
  have "wp (recoverRolledBack c) Q ?s" if "js_fileState (ts_summary s) = FS_RolledBack"
    by (rule safe_recoverRolledBack [OF assms(1) h]) (use that assms(4) in auto)
  moreover have "wp (recordTerminalReconciliationFailure c e) Q ?s" "wp (recoverByRollback c e) Q ?s"
    if "js_fileState (ts_summary s) \<noteq> FS_RolledBack" for e
    using that h by (auto intro!: roll_recordTerminalReconciliationFailure [OF assms(1)] roll_failAndRollback(2) [OF assms(1) h] assms(4) simp: rolling_def)
  ultimately show ?thesis
    unfolding tx_recover_def using assms(3) by (simp split: JournalFileState.split)
qed

lemma stored_holding:
  assumes "covered c V originals (rv_entries V w)" "rv_entries V w (summary_loc c V) = Some x"
    "parseApplyJournalSummary (fo_bytes x) = Inr summary" "js_transactionId summary = tc_transactionId c"
  shows "holding c V originals w (new_transaction c summary w)"
  using assms by (auto simp: holding_def keeping_def spent_def)

section \<open>A transaction in memory\<close>

text \<open>
  A rollback whose source replaced \<open>bin/a\<close>, which did not exist, and removed \<open>old\<close>, which did. The journal has a
  summary from an interrupted run.
\<close>

definition mem_original :: file_object where
  "mem_original = \<lparr>fo_identity = ''7'', fo_permissions = 0x1A4, fo_bytes = ''v1''\<rparr>"

definition mem_records :: "ApplyJournalOperation list" where
  "mem_records =
     [default_journal_operation,
      default_journal_operation\<lparr>jo_index := 1, jo_originalExists := True, jo_originalIdentity := ''7'', jo_originalSize := 2,
        jo_originalSha256 := sha256Bytes ''v1'', jo_originalPermissionsKnown := True, jo_originalPermissions := permissionBits 0x1A4,
        jo_backupState := BS_Durable\<rparr>]"

definition mem_installed :: file_object where
  "mem_installed = \<lparr>fo_identity = ''8'', fo_permissions = 0x1ED, fo_bytes = ''new''\<rparr>"

definition mem_source :: ApplyPlan where
  "mem_source = rollback_plan\<lparr>ap_intent := Install, ap_rollbackOf := None, ap_fromVersion := ''1.2.2'', ap_toVersion := ''1.2.3'', ap_restartCommand := [],
     ap_operations := [
       \<lparr>op_type = Replace, op_source = ''bin/a'', op_target = ''bin/a'', op_sha256 = sha256Bytes ''new'', op_size = 3, op_permissions = Some 0x1ED,
        op_precondition = None\<rparr>,
       \<lparr>op_type = Remove, op_source = [], op_target = ''old'', op_sha256 = [], op_size = 0, op_permissions = None, op_precondition = None\<rparr>]\<rparr>"

definition mem_request :: ApplyPlan where
  "mem_request = rollback_plan\<lparr>ap_backupDir := ''/u'', ap_operations := [], ap_restartCommand := []\<rparr>"

definition mem_plan :: ApplyPlan where
  "mem_plan = (case deriveRollbackPlan mem_request mem_source mem_records of Inl e \<Rightarrow> mem_request | Inr p \<Rightarrow> p)"

definition mem_txc :: "(mem, string, mem_file, mem_temp) txc" where
  "mem_txc = \<lparr>tc_io = mem_io, tc_fpText = id, tc_plan = mem_plan, tc_installRoot = ''/a'', tc_backupRoot = ''/u'', tc_stagingRoot = Some ''/b'',
     tc_limits = default_limits, tc_transactionId = zero_digest, tc_planDigest = sha256Bytes (the (plan_toJson id mem_plan))\<rparr>"

definition mem_world :: "string \<Rightarrow> mem" where
  "mem_world t = \<lparr>m_entries = [(''/a'', ''bin/a'') \<mapsto> mem_installed, (''/b'', ''old'') \<mapsto> mem_original,
       summary_loc mem_txc mem_view \<mapsto> mem_original\<lparr>fo_bytes := t\<rparr>],
     m_handles = Map.empty, m_temps = Map.empty, m_next = 0, m_launches = 0, m_power = 1000\<rparr>"

lemma mem_derived:
  "deriveRollbackPlan mem_request mem_source mem_records = Inr mem_plan"
  "map op_target (ap_operations mem_plan) = [''old'', ''bin/a'']"
  by (simp_all add: mem_plan_def deriveRollbackPlan_def mem_records_def mem_source_def rollback_plan_def mem_request_def default_journal_operation_def
    eval_simps neighbour_ancestor_def)

lemma mem_setting: "rooted_contract (tc_io mem_txc) mem_view" "separated mem_txc mem_view"
proof -
  show "rooted_contract (tc_io mem_txc) mem_view" by (simp add: mem_txc_def mem_contract)
  have t: "op_target (ap_operations mem_plan ! 0) = ''old''" "op_target (ap_operations mem_plan ! Suc 0) = ''bin/a''" "length (ap_operations mem_plan) = 2"
    using mem_derived(2) by (auto simp: map_eq_Cons_conv)
  have d: "decimal_text 0 = ''0''" "decimal_text (Suc 0) = ''1''"
    by code_simp+
  show "separated mem_txc mem_view"
    unfolding separated_def managed_locs_def target_loc_def backup_loc_def record_loc_def journal_locs_def
    by (simp add: mem_txc_def t mem_view_def upt_rec operationPath_def activePath_def terminalPath_def summaryPath_def planPath_def
      zero_digest_def zero_padded_def d)
qed

lemma mem_stored:
  assumes "parseApplyJournalSummary t = Inr (stored_summary sample_summary)"
  shows "covered mem_txc mem_view (first_seen mem_txc mem_view (mem_world t)) (rv_entries mem_view (mem_world t))"
    "rv_entries mem_view (mem_world t) (summary_loc mem_txc mem_view) = Some (mem_original\<lparr>fo_bytes := t\<rparr>)"
    "js_transactionId (stored_summary sample_summary) = tc_transactionId mem_txc"
    "js_fileState (stored_summary sample_summary) = FS_Applying" "\<not> points mem_txc mem_view (rv_entries mem_view (mem_world t))"
proof -
  have n: "record_loc mem_txc mem_view i \<notin> dom (m_entries (mem_world t))" if "i < operation_count mem_txc" for i
    using separated_locs(9) [OF mem_setting(2) that that] summary_journal [of mem_txc mem_view]
    by (auto simp: mem_world_def record_loc_def mem_view_def mem_txc_def operationPath_def)
  then show "covered mem_txc mem_view (first_seen mem_txc mem_view (mem_world t)) (rv_entries mem_view (mem_world t))"
    by (auto simp: covered_def first_seen_def record_kept_def mem_view_def domIff)
  show "rv_entries mem_view (mem_world t) (summary_loc mem_txc mem_view) = Some (mem_original\<lparr>fo_bytes := t\<rparr>)"
    by (simp add: mem_world_def mem_view_def)
  show "js_transactionId (stored_summary sample_summary) = tc_transactionId mem_txc" "js_fileState (stored_summary sample_summary) = FS_Applying"
    by (simp_all add: stored_summary_def sample_summary_def mem_txc_def)
  have "active_loc mem_txc mem_view \<notin> dom (m_entries (mem_world t))"
    using summary_apart(1) [OF mem_setting(2)] by (auto simp: mem_world_def active_loc_def mem_view_def mem_txc_def activePath_def)
  then show "\<not> points mem_txc mem_view (rv_entries mem_view (mem_world t))"
    by (auto simp: points_def mem_view_def)
qed

lemma mem_faithful: "faithful ([None, Some mem_original] ! k) (mem_records ! k)" "unat (jo_index (mem_records ! k)) = k" if "k < 2" for k
  using that by (auto simp: less_2_cases_iff mem_records_def mem_original_def faithful_def default_journal_operation_def permissionsKnown_def perms_unknown_def)

section \<open>Properties\<close>

text \<open>
  C1: Starting a transaction on any file system that keeps its documented contract, whichever operations fail and
  wherever a crash cuts it off, returns, changes no file outside the transaction and no earlier backup, and leaves every
  original in place or backed up. Once the active pointer has changed, every original is recorded truthfully and can be
  recovered. Success is reported only when every operation of the plan is installed; the state is "rolled back" only
  when every original is back; a process is launched at most once, and only when the journal forbids another launch.
\<close>

theorem start_keeps_originals:
  assumes "rooted_contract (tc_io c) V" "separated c V"
  shows "wp (tx_start c) (started c V w) (new_transaction c summary w)"
  by (rule safe_start) (use assms in \<open>simp_all add: setting_def\<close>)

theorem start_keeps_originals_witness:
  "wp (tx_start mem_txc) (started mem_txc mem_view (mem_world [])) (new_transaction mem_txc default_summary (mem_world []))"
  by (rule start_keeps_originals) (rule mem_setting)+

text \<open>
  C3: Recovering a transaction whose originals are covered, with the summary stored in its journal, returns and keeps
  them covered, whichever operations fail: success is reported only when every operation is installed, "rolled back" is
  recorded only when every original is back, and a process is launched only if the stored summary said that
  none had been, at most once, with the journal forbidding another.
\<close>

theorem recovery_keeps_originals:
  assumes "rooted_contract (tc_io c) V" "separated c V" "covered c V originals (rv_entries V w)"
    "rv_entries V w (summary_loc c V) = Some x" "parseApplyJournalSummary (fo_bytes x) = Inr summary" "js_transactionId summary = tc_transactionId c"
  shows "wp (tx_recover c) (outcome c V originals (js_restartState summary) w) (new_transaction c summary w)"
proof -
  have s: "setting c V" using assms(1, 2) by (simp add: setting_def)
  show ?thesis by (rule safe_recover [OF s stored_holding [OF assms(3-6)]]) simp
qed

theorem recovery_keeps_originals_witness:
  "\<exists>t. parseApplyJournalSummary t = Inr (stored_summary sample_summary)
     \<and> wp (tx_recover mem_txc) (outcome mem_txc mem_view (first_seen mem_txc mem_view (mem_world t)) RS_NotAttempted (mem_world t))
         (new_transaction mem_txc (stored_summary sample_summary) (mem_world t))"
proof -
  obtain t where t: "parseApplyJournalSummary t = Inr (stored_summary sample_summary)" using sample_summary_text summary_print_parse by blast
  note m = mem_stored [OF t]
  have "wp (tx_recover mem_txc) (outcome mem_txc mem_view (first_seen mem_txc mem_view (mem_world t)) (js_restartState (stored_summary sample_summary)) (mem_world t))
         (new_transaction mem_txc (stored_summary sample_summary) (mem_world t))"
    by (rule recovery_keeps_originals [OF mem_setting m(1, 2) _ m(3)]) (simp add: t)
  with t show ?thesis by (auto simp: stored_summary_def sample_summary_def default_summary_def)
qed

text \<open>
  C2: Over the whole life of a transaction, started once and then interrupted and recovered any number of times by
  processes with handles of their own, every original is in place or has a backup, files outside the transaction and
  earlier backups are untouched, a pointer to the transaction means that it can be recovered, and at most
  one process has been launched.
\<close>

theorem life_keeps_originals:
  assumes "rooted_contract (tc_io c) V" "separated c V" "\<not> points c V (rv_entries V w0)" "life c V w0 w"
  shows "alive c V w0 w \<and> rv_launches V w \<le> Suc (rv_launches V w0)"
proof -
  have "alive c V w0 w" by (rule life_alive [OF _ assms(3, 4)]) (use assms(1, 2) in \<open>simp add: setting_def\<close>)
  then show ?thesis by (auto simp: alive_def Let_def)
qed

theorem life_keeps_originals_witness:
  "\<exists>t w. life mem_txc mem_view (mem_world t) w \<and> alive mem_txc mem_view (mem_world t) w \<and> rv_launches mem_view w \<le> 1"
proof -
  obtain t where t: "parseApplyJournalSummary t = Inr (stored_summary sample_summary)" using sample_summary_text summary_print_parse by blast
  have "wp (tx_start mem_txc) (\<lambda>z s. True) (new_transaction mem_txc default_summary (mem_world t))"
    by (rule safe_start [where V = mem_view]) (simp_all add: setting_def mem_setting)
  then obtain z s where "tx_start mem_txc (new_transaction mem_txc default_summary (mem_world t)) = Some (z, s)" by (auto simp: wp_def)
  then have l: "life mem_txc mem_view (mem_world t) (ts_world s)" by (rule life.begun)
  have "rv_launches mem_view (mem_world t) = 0" by (simp add: mem_view_def mem_world_def)
  then show ?thesis using life_keeps_originals [OF mem_setting mem_stored(5) [OF t] l] l by auto
qed

text \<open>
  C4: The plan derived for an explicit rollback inverts the transaction whose truthful records it is derived
  from. It undoes, in reverse order, exactly the operations that are not recorded as changing nothing. Where that
  transaction's files are installed, every precondition of the plan holds; a backup of an original is accepted as the
  source of the operation that puts it back; and in any state of the files in which the plan is installed,
  every target it undoes has its original, or is absent if there was none.
\<close>

theorem rollback_plan_restores:
  assumes "deriveRollbackPlan request plan records = Inr p"
    "\<forall>k < length records. unat (jo_index (records ! k)) = k" "\<forall>k < length records. faithful (originals k) (records ! k)"
    "\<forall>operation \<in> set (ap_operations plan). installed operation (E (op_target operation))"
  shows "ap_installDir p = ap_installDir plan \<and> ap_stagingDir p = ap_backupDir plan
    \<and> map op_target (ap_operations p) = rev (map (\<lambda>k. op_target (ap_operations plan ! k))
         (filter (\<lambda>k. jo_rollbackState (records ! k) \<noteq> RB_NotRequired) [0..<length (ap_operations plan)]))
    \<and> (\<forall>operation \<in> set (ap_operations p). \<exists>c. op_precondition operation = Some c \<and> matchesPrecondition (observation (E (op_target operation))) c)
    \<and> (\<forall>k < length (ap_operations plan). jo_rollbackState (records ! k) \<noteq> RB_NotRequired \<longrightarrow>
         (\<exists>operation \<in> set (ap_operations p). op_target operation = op_target (ap_operations plan ! k)
            \<and> (\<forall>x y. originals k = Some x \<longrightarrow> stands_for y x \<longrightarrow> op_type operation = Replace
                 \<and> op_source operation = op_target operation \<and> evidence y (op_size operation) (op_sha256 operation))
            \<and> (\<forall>e. installed operation e \<longrightarrow> restored (originals k) e)))"
proof -
  note d = deriveRollbackPlan_operations [OF assms(1, 2)]
  have pre: "\<exists>c. op_precondition operation = Some c \<and> matchesPrecondition (observation (E (op_target operation))) c"
    if "operation \<in> set (ap_operations p)" for operation
    using that assms(4) d(1) inverse_precondition unfolding d(2) by fastforce
  have each: "\<exists>operation \<in> set (ap_operations p). op_target operation = op_target (ap_operations plan ! k)
      \<and> (\<forall>x y. originals k = Some x \<longrightarrow> stands_for y x \<longrightarrow> op_type operation = Replace
           \<and> op_source operation = op_target operation \<and> evidence y (op_size operation) (op_sha256 operation))
      \<and> (\<forall>e. installed operation e \<longrightarrow> restored (originals k) e)"
    if k: "k < length (ap_operations plan)" "jo_rollbackState (records ! k) \<noteq> RB_NotRequired" for k
  proof (rule bexI)
    have f: "faithful (originals k) (records ! k)" using assms(3) d(1) k(1) by simp
    show "op_target (inverseOperation (records ! k) (ap_operations plan ! k)) = op_target (ap_operations plan ! k)
      \<and> (\<forall>x y. originals k = Some x \<longrightarrow> stands_for y x \<longrightarrow> op_type (inverseOperation (records ! k) (ap_operations plan ! k)) = Replace
           \<and> op_source (inverseOperation (records ! k) (ap_operations plan ! k)) = op_target (inverseOperation (records ! k) (ap_operations plan ! k))
           \<and> evidence y (op_size (inverseOperation (records ! k) (ap_operations plan ! k))) (op_sha256 (inverseOperation (records ! k) (ap_operations plan ! k))))
      \<and> (\<forall>e. installed (inverseOperation (records ! k) (ap_operations plan ! k)) e \<longrightarrow> restored (originals k) e)"
      using inverse_source [of _ "records ! k"] inverse_installed [OF f] f by auto
    show "inverseOperation (records ! k) (ap_operations plan ! k) \<in> set (ap_operations p)" using k d by auto
  qed
  show ?thesis using deriveRollbackPlan_roots [OF assms(1)] pre each d by (simp add: rev_map comp_def)
qed

text \<open>At the rollback in memory: its preconditions hold, its source is the backup, and what it installs is the earlier state.\<close>

theorem rollback_plan_restores_witness:
  "map op_target (ap_operations mem_plan) = [''old'', ''bin/a'']
   \<and> list_all (\<lambda>operation. \<exists>c. op_precondition operation = Some c
        \<and> matchesPrecondition (observation (m_entries (mem_world []) (''/a'', op_target operation))) c) (ap_operations mem_plan)
   \<and> list_ex (\<lambda>operation. op_target operation = ''old'' \<and> op_type operation = Replace
        \<and> evidence mem_original (op_size operation) (op_sha256 operation)) (ap_operations mem_plan)
   \<and> installed (ap_operations mem_plan ! 0) (Some mem_original) \<and> installed (ap_operations mem_plan ! 1) None
   \<and> restored (Some mem_original) (Some mem_original)"
proof -
  let ?E = "\<lambda>path. m_entries (mem_world []) (''/a'', path)" and ?originals = "(!) [None, Some mem_original]"
  have n: "length mem_records = 2" "length (ap_operations mem_source) = 2" by (simp_all add: mem_records_def mem_source_def)
  have E: "?E ''bin/a'' = Some mem_installed" "?E ''old'' = None"
    by (simp_all add: mem_world_def summary_loc_def mem_view_def mem_txc_def summaryPath_def)
  have before: "\<forall>operation \<in> set (ap_operations mem_source). installed operation (?E (op_target operation))"
    using E by (simp add: mem_source_def installed_def matchesInstalled_def matchesEvidence_def permissionsMatch_def observation_def absent_file_def
      metadata_of_def mem_installed_def permissionsKnown_def perms_unknown_def permissionBits_def sanitizedFilePermissions_def)
  have index: "\<forall>k < length mem_records. unat (jo_index (mem_records ! k)) = k"
    and truth: "\<forall>k < length mem_records. faithful (?originals k) (mem_records ! k)" using mem_faithful n by simp_all
  note main = rollback_plan_restores [OF mem_derived(1) index truth before]
  have plan: "ap_operations mem_plan = [inverseOperation (mem_records ! 1) (ap_operations mem_source ! 1), inverseOperation (mem_records ! 0) (ap_operations mem_source ! 0)]"
    using deriveRollbackPlan_operations(2) [OF mem_derived(1) index] n(1)
    by (simp add: numeral_2_eq_2) (simp add: mem_records_def default_journal_operation_def)
  have target: "op_target (ap_operations mem_source ! 1) = ''old''" by (simp add: mem_source_def)
  have "\<exists>operation \<in> set (ap_operations mem_plan). op_target operation = ''old''
      \<and> (\<forall>x y. ?originals 1 = Some x \<longrightarrow> stands_for y x \<longrightarrow> op_type operation = Replace
           \<and> op_source operation = op_target operation \<and> evidence y (op_size operation) (op_sha256 operation))"
    using main n(2) target by (auto simp: mem_records_def default_journal_operation_def dest!: spec [of _ 1])
  moreover have same: "stands_for mem_original mem_original" by (simp add: stands_for_def evidence_def)
  ultimately have "list_ex (\<lambda>operation. op_target operation = ''old'' \<and> op_type operation = Replace
      \<and> evidence mem_original (op_size operation) (op_sha256 operation)) (ap_operations mem_plan)"
    by (fastforce simp: list_ex_iff)
  moreover have "list_all (\<lambda>operation. \<exists>c. op_precondition operation = Some c
      \<and> matchesPrecondition (observation (?E (op_target operation))) c) (ap_operations mem_plan)"
    using main by (simp add: list_all_iff)
  moreover have "installed (ap_operations mem_plan ! 0) (Some mem_original)" "installed (ap_operations mem_plan ! 1) None"
    by (simp_all add: plan inverseOperation_def mem_records_def default_journal_operation_def default_operation_def installed_def matchesInstalled_def
      matchesEvidence_def permissionsMatch_def observation_def absent_file_def metadata_of_def mem_original_def permissionsKnown_def perms_unknown_def)
  ultimately show ?thesis using same mem_derived(2) by (simp add: restored_def)
qed

text \<open>
  C5: Recovering a transaction that was interrupted before its files were all applied is never
  reported as a success and launches nothing: the result is an error, the originals are still covered, no
  file outside the transaction has changed, and the state is "rolled back" only when every original is back.
\<close>

theorem incomplete_recovery_is_error:
  assumes "rooted_contract (tc_io c) V" "separated c V" "covered c V originals (rv_entries V w)"
    "rv_entries V w (summary_loc c V) = Some x" "parseApplyJournalSummary (fo_bytes x) = Inr summary" "js_transactionId summary = tc_transactionId c"
    "js_fileState summary \<notin> {FS_Complete, FS_FilesApplied}"
  shows "wp (tx_recover c) (\<lambda>z s. isl z \<and> covered c V originals (rv_entries V (ts_world s))
     \<and> confined c V (rv_entries V w) (rv_entries V (ts_world s)) \<and> rv_launches V (ts_world s) = rv_launches V w
     \<and> (js_fileState (ts_summary s) = FS_RolledBack \<longrightarrow> all_restored c V originals (rv_entries V (ts_world s)))) (new_transaction c summary w)"
proof -
  have s: "setting c V" using assms(1, 2) by (simp add: setting_def)
  show ?thesis
    by (rule recover_incomplete [OF s stored_holding [OF assms(3-6)]]) (use assms(7) in \<open>auto simp: rolling_def holding_def keeping_def\<close>)
qed

theorem incomplete_recovery_is_error_witness:
  "\<exists>t. wp (tx_recover mem_txc) (\<lambda>z s. isl z \<and> rv_launches mem_view (ts_world s) = 0)
     (new_transaction mem_txc (stored_summary sample_summary) (mem_world t))"
proof -
  obtain t where t: "parseApplyJournalSummary t = Inr (stored_summary sample_summary)" using sample_summary_text summary_print_parse by blast
  note m = mem_stored [OF t]
  have zero: "rv_launches mem_view (mem_world t) = 0" by (simp add: mem_view_def mem_world_def)
  have stored: "parseApplyJournalSummary (fo_bytes (mem_original\<lparr>fo_bytes := t\<rparr>)) = Inr (stored_summary sample_summary)" by (simp add: t)
  have "js_fileState (stored_summary sample_summary) \<notin> {FS_Complete, FS_FilesApplied}" by (simp add: m(4))
  from incomplete_recovery_is_error [OF mem_setting m(1, 2) stored m(3) this]
  have "wp (tx_recover mem_txc) (\<lambda>z s. isl z \<and> rv_launches mem_view (ts_world s) = 0)
     (new_transaction mem_txc (stored_summary sample_summary) (mem_world t))"
    by (rule wp_mono) (simp add: zero)
  then show ?thesis ..
qed

end
