(* ===== verification/Spec2Isabelle.thy ===== *)
theory Spec2Isabelle
  imports Update_Planner Network_Requests Executor_Properties
begin

text \<open>
  A verification development for libAutoUpdater, a C++ library that keeps an installed application
  up to date: it fetches a manifest, decides what to change, downloads the artifacts, writes an
  apply plan, and a separate updater process carries the plan out under a journal.

  \<^bold>\<open>How the parts interact.\<close> A \<open>Config\<close> gives the manifest URL, the installed version and the
  security options. \<open>UrlPolicy\<close> is built from it and authorises every URL the library touches.
  \<open>NetworkRequest\<close> fetches a text through a client, hop by hop, with the policy deciding each
  redirect and \<open>NetworkLimits\<close> each budget. \<open>Manifest\<close> reads the text with \<open>Json\<close>, \<open>Version\<close>,
  \<open>Rfc3339\<close>, \<open>PathUtil\<close> and the digest syntax of \<open>Sha256\<close>. \<open>UpdatePlanner\<close> compares the manifest
  with the configuration, the last accepted version and a snapshot of the installed files, and
  lists the downloads and the operations. \<open>ApplyPlan\<close> stores the operations as JSON for the updater.

  \<^bold>\<open>Conventions.\<close> A C++ \<open>Result<T>\<close> is \<open>Error + 'a\<close> (\<open>Inl\<close> the error) and early returns are
  \<open>bindr\<close>. Strings are lists of bytes (\<open>char\<close>), \<open>std::uint64_t\<close> and \<open>std::uint32_t\<close> are 64- and
  32-bit words where arithmetic is done on them, structs are records, enums are datatypes. A
  \<open>std::map\<close> that is iterated is a sorted association list. Code that differs between Windows and
  other systems takes a \<open>platform\<close>. The filesystem paths of the library are their UTF-8 text, as
  \<open>pathFromUtf8\<close> and \<open>pathToUtf8\<close> convert them.

  \<^bold>\<open>The theories.\<close>
    \<^item> \<open>Prelude\<close>: \<open>Error.h\<close>, \<open>Error.cpp\<close>, \<open>Result.h\<close>; generic lemmas on results, words, sorted lists.
    \<^item> \<open>Versions\<close>: \<open>Version.cpp\<close>. Precedence is a strict linear order up to build metadata, the
      textual comparison of numeric identifiers is numeric, parsing and printing are inverse.
    \<^item> \<open>Managed_Paths\<close>: \<open>util/PathUtil.cpp\<close>. Which paths an update may write, and that a set of targets is
      accepted exactly when no two of them alias or nest.
    \<^item> \<open>Rfc3339\<close>: \<open>util/Rfc3339.cpp\<close>. The calendar arithmetic, its bounds and the inverse of the text.
    \<^item> \<open>Urls\<close>, \<open>Url_Facts\<close>, \<open>Url_Hosts\<close>, \<open>Url_Canonical\<close>, \<open>Url_Resolution\<close>: \<open>util/UrlUtil.cpp\<close>. The strict
      parser; path normalisation; host classes; canonical text; resolution and artifact paths.
    \<^item> \<open>Update_Types\<close>: the structs of \<open>Config.h\<close>, \<open>ResourceLimits.h\<close>, \<open>Types.h\<close>, \<open>Manifest.h\<close>,
      \<open>ApplyPlan.h\<close> and \<open>UpdateTypes.h\<close>.
    \<^item> \<open>Url_Policies\<close>: \<open>UrlPolicy.cpp\<close>. What a policy authorises lies within the configured scopes.
    \<^item> \<open>Update_Planner\<close>: \<open>UpdatePlanner.cpp\<close>. No downgrade without authorisation; every download and
      operation within the policy; the operations turn the installed tree into the manifest's tree.
    \<^item> \<open>Network_Limits\<close>, \<open>Network_Requests\<close>: \<open>NetworkLimits.cpp\<close> and the text requests of
      \<open>NetworkRequest.cpp\<close>, with the network client as a parameter.
    \<^item> \<open>Json\<close>, \<open>Json_Facts\<close>, \<open>Json_Limits\<close>, \<open>Json_Roundtrip\<close>: \<open>util/Json.cpp\<close>. The parser has fuel
      \<open>2 * length text + 1\<close>, which is proved to suffice on every text: each call of the mutually
      recursive readers either consumes a byte or is followed by one that does. Accepted values are
      within the limits, numbers included, and a printed value is read back.
    \<^item> \<open>Sha256\<close>: \<open>util/Sha256.cpp\<close>. The streaming hasher computes FIPS 180-4, whose constants are
      derived from the primes; a rooted file, given by its \<open>seek\<close> and \<open>read\<close>, hashes to the digest
      of its contents.
    \<^item> \<open>Json_Fields\<close>: the field readers that \<open>Manifest.cpp\<close> and \<open>ApplyPlan.cpp\<close> share.
    \<^item> \<open>Manifests\<close>, \<open>Manifest_Facts\<close>: \<open>Manifest.cpp\<close>. Accepted manifests are well formed and
      well-formed ones survive printing and parsing.
    \<^item> \<open>Apply_Plans\<close>, \<open>Apply_Plan_Facts\<close>: \<open>ApplyPlan.cpp\<close>, likewise.
    \<^item> \<open>Json_Reparse\<close>: a printed text that is read at all, under any limits, is read as what was printed.
    \<^item> \<open>Receipts\<close>: the text of \<open>ApplyTransactionReceipt.cpp\<close>. The civil date of a day inverts the day
      number, so a completion instant survives its RFC 3339 text and a receipt its file.
    \<^item> \<open>Journal_Records\<close>, \<open>Journal_Facts\<close>: the records of \<open>updater/ApplyJournal.cpp\<close>, their validation, identities
      and text, and that they survive their files.
    \<^item> \<open>Rooted_Io\<close>: the interface of \<open>RootedFileSystem.h\<close> as a record of operations on an abstract world, and
      the state-and-result combinators in which the updater's code is written.
    \<^item> \<open>Journal_Store\<close>: the file operations of \<open>updater/ApplyJournal.cpp\<close>.
    \<^item> \<open>Apply_Files\<close>, \<open>Apply_Executor\<close>, \<open>Apply_Transactions\<close>: \<open>updater/ApplyExecutor.cpp\<close>. Staging,
      backup, replacement and rollback of one target; the loops over all of them; start, recovery, explicit
      rollback and replay of a transaction.
    \<^item> \<open>Rooted_Contract\<close>, \<open>Rooted_Files\<close>: what \<open>IRootedFileSystem.h\<close> documents, as hypotheses, and what the journal's and
      the executor's file routines do under them. No law says that an operation succeeds.
    \<^item> \<open>Executor_Facts\<close>, \<open>Executor_Steps\<close>, \<open>Executor_Rollback\<close>, \<open>Executor_Prepare\<close>, \<open>Executor_Restart\<close>,
      \<open>Executor_Safety\<close>, \<open>Executor_Start\<close>, \<open>Executor_Recover\<close>: each original is in place or backed up and the readable
      records are truthful, through every step of applying, rolling back, preparing and ending.
    \<^item> \<open>Executor_Life\<close>: a transaction across interruptions and processes, as a step relation with its invariant.
    \<^item> \<open>Memory_Files\<close>, \<open>Executor_Properties\<close>: a file system in memory that meets the contract, and the properties,
      among them that the plan of an explicit rollback inverts the transaction it is derived from.

  \<^bold>\<open>Parameters.\<close> The network client (what a request returns), the files behind \<open>IRootedFile\<close>, the
  rooted file system (\<open>rooted_io\<close>), the text of
  floating-point numbers (\<open>std::to_chars\<close>), the current instant. The properties of the executor assume the
  documented contract of the rooted file system and that the files of a transaction are apart, as
  \<open>ApplyPlanWriter.cpp\<close> lays them out; the executor does not check the latter.

  \<^bold>\<open>Not modelled.\<close> The platform adapters (\<open>default/RootedFileSystem*.cpp\<close>, \<open>StdFileSystem.cpp\<close>, the
  cURL, CFNetwork and WinHTTP clients, \<open>ProcessLauncher.cpp\<close>) are system calls; the OpenSSL verifier
  calls a library; the branches that catch an exhausted allocator; reading the clock; the Qt and
  command-line examples and the Python tools. Left out for their size:
  downloads, the state store and the \<open>Updater\<close> facade.
\<close>

end
